(* ===== verification/Prelude.thy ===== *)
theory Prelude
  imports Main "HOL-Library.Word"
begin

text \<open>
  Shared vocabulary of the development: the widths of the machine integers, the \<open>outcome\<close> of a
  call that may run into undefined behaviour or throw, durations and their truncating casts, byte
  buffers with bounds-checked copies, and little-endian byte strings.  Every component theory
  builds on this one.
\<close>

section \<open>Machine integers\<close>

type_synonym u8 = "8 word"
type_synonym u16 = "16 word"
type_synonym u32 = "32 word"
type_synonym u64 = "64 word"
type_synonym bytes = "8 word list"

text \<open>\<open>NetworkID\<close> and connection ids are both \<open>uint64_t\<close> in the sources.\<close>

type_synonym NetworkID = "64 word"

section \<open>Outcomes\<close>

text \<open>
  A call of the program either returns or hits one of the faults below.  The undefined behaviours
  of C++ that the sources can reach are faults, and so are an escaping exception, a failed
  \<open>RTC_CHECK\<close> and a thread that blocks on a mutex it already holds.
\<close>

datatype fault =
    NullDeref            \<comment> \<open>a null pointer is dereferenced\<close>
  | DanglingPointer      \<comment> \<open>the pointee's lifetime has ended\<close>
  | MissingReturn        \<comment> \<open>control flows off the end of a value-returning function\<close>
  | OutOfBounds          \<comment> \<open>a copy or an access outside its buffer\<close>
  | IteratorInvalidated  \<comment> \<open>an erased element's iterator is advanced\<close>
  | BadAccess            \<comment> \<open>the wrong alternative of a variant is read\<close>
  | SignedOverflow       \<comment> \<open>a signed addition or subtraction leaves its range\<close>
  | CheckFailed          \<comment> \<open>an \<open>RTC_CHECK\<close> aborts\<close>
  | SystemError          \<comment> \<open>a \<open>std::system_error\<close> escapes\<close>
  | BadFunctionCall      \<comment> \<open>an empty \<open>std::function\<close> is called\<close>
  | ShiftOutOfRange      \<comment> \<open>a shift by a negative count or by the width or more\<close>
  | SelfDeadlock         \<comment> \<open>a non-recursive mutex is locked twice by one thread\<close>

datatype 'a outcome = Returns 'a | Faults fault

primrec andThen :: "'a outcome \<Rightarrow> ('a \<Rightarrow> 'b outcome) \<Rightarrow> 'b outcome" where
  "andThen (Returns x) f = f x"
| "andThen (Faults e) f = Faults e"

primrec returns :: "'a outcome \<Rightarrow> bool" where
  "returns (Returns x) = True"
| "returns (Faults e) = False"

named_theorems outcome_intros
named_theorems model_defs

lemma andThen_Returns_right [simp]: "andThen m Returns = m"
  by (cases m) simp_all

lemma andThen_assoc: "andThen (andThen m f) g = andThen m (\<lambda>x. andThen (f x) g)"
  by (cases m) simp_all

lemma andThen_eq_Returns:
  "andThen m f = Returns y \<longleftrightarrow> (\<exists>x. m = Returns x \<and> f x = Returns y)"
  by (cases m) simp_all

lemma andThen_eq_Faults:
  "andThen m f = Faults e \<longleftrightarrow> m = Faults e \<or> (\<exists>x. m = Returns x \<and> f x = Faults e)"
  by (cases m) simp_all

lemma returns_iff: "returns m \<longleftrightarrow> (\<exists>x. m = Returns x)"
  by (cases m) simp_all

lemma returns_andThen [outcome_intros]:
  "m = Returns x \<Longrightarrow> returns (f x) \<Longrightarrow> returns (andThen m f)"
  by simp

lemmas outcome_splits = outcome.split outcome.split_asm

section \<open>Durations\<close>

text \<open>
  Time points and durations are counted in nanoseconds, the tick of \<open>steady_clock\<close> and
  \<open>high_resolution_clock\<close>.  \<open>std::chrono::duration_cast\<close> to a coarser unit divides and truncates
  towards zero.
\<close>

type_synonym time = int

definition nanos_per_milli :: int where "nanos_per_milli = 1000000"
definition nanos_per_second :: int where "nanos_per_second = 1000000000"
definition nanos_per_minute :: int where "nanos_per_minute = 60000000000"

lemmas unit_defs = nanos_per_milli_def nanos_per_second_def nanos_per_minute_def

definition duration_cast :: "int \<Rightarrow> int \<Rightarrow> int" where
  "duration_cast unit d = (if d < 0 then - ((- d) div unit) else d div unit)"

lemma int_div_less_iff:
  assumes "0 < (k :: int)"
  shows "d div k < n \<longleftrightarrow> d < n * k"
proof
  assume "d div k < n"
  then have "(d div k + 1) * k \<le> n * k"
    using assms by (intro mult_right_mono) auto
  moreover have "d < (d div k + 1) * k"
  proof -
    have "d = d div k * k + d mod k" by (rule div_mult_mod_eq [symmetric])
    also have "\<dots> < d div k * k + k" using assms by (intro add_strict_left_mono pos_mod_bound)
    finally show ?thesis by (simp add: distrib_right)
  qed
  ultimately show "d < n * k" by simp
next
  assume "d < n * k"
  moreover have "d div k * k \<le> d"
  proof -
    have "d div k * k \<le> d div k * k + d mod k"
      using pos_mod_sign [OF assms, of d] by (rule le_add_same_cancel1 [THEN iffD2])
    also have "\<dots> = d" by (rule div_mult_mod_eq)
    finally show ?thesis .
  qed
  ultimately show "d div k < n"
    using assms by (metis le_less_trans mult_less_cancel_right not_less less_imp_le)
qed

lemma duration_cast_le_iff:
  assumes "0 < unit" "0 \<le> n"
  shows "duration_cast unit d \<le> n \<longleftrightarrow> d < (n + 1) * unit"
proof (cases "d < 0")
  case True
  then have "0 \<le> (- d) div unit"
    using assms by (simp add: pos_imp_zdiv_nonneg_iff)
  moreover have "d < (n + 1) * unit"
    using True assms by (meson less_le_trans mult_nonneg_nonneg add_nonneg_nonneg
        less_imp_le zero_le_one)
  ultimately show ?thesis
    using True assms by (simp add: duration_cast_def)
next
  case False
  have "d div unit \<le> n \<longleftrightarrow> d div unit < n + 1" by auto
  also have "\<dots> \<longleftrightarrow> d < (n + 1) * unit"
    using assms(1) by (rule int_div_less_iff)
  finally show ?thesis
    using False by (simp add: duration_cast_def)
qed

lemma duration_cast_gt_iff:
  assumes "0 < unit" "0 \<le> n"
  shows "n < duration_cast unit d \<longleftrightarrow> (n + 1) * unit \<le> d"
  using duration_cast_le_iff [OF assms, of d] by (auto simp: not_less [symmetric])

section \<open>Byte buffers\<close>

text \<open>
  \<open>resize\<close> is \<open>std::vector::resize\<close> (value-initialised growth); \<open>memcpy_at dst off src\<close> copies
  \<open>src\<close> over \<open>dst\<close> from offset \<open>off\<close> and faults when it would leave the buffer.
\<close>

definition resize :: "nat \<Rightarrow> 'a \<Rightarrow> 'a list \<Rightarrow> 'a list" where
  "resize n z xs = take n xs @ replicate (n - length xs) z"

definition memcpy_at :: "'a list \<Rightarrow> nat \<Rightarrow> 'a list \<Rightarrow> 'a list outcome" where
  "memcpy_at dst off src =
     (if off + length src \<le> length dst
      then Returns (take off dst @ src @ drop (off + length src) dst)
      else Faults OutOfBounds)"

lemma length_resize [simp]: "length (resize n z xs) = n"
  by (simp add: resize_def)

lemma take_resize [simp]: "n \<le> length xs \<Longrightarrow> resize n z xs = take n xs"
  by (simp add: resize_def)

lemma take_min_length [simp]: "take (min (length xs) n) xs = take n xs"
  by (simp add: min_def)

lemma memcpy_at_length: "memcpy_at dst off src = Returns r \<Longrightarrow> length r = length dst"
  by (auto simp: memcpy_at_def split: if_splits)

lemma memcpy_at_read:
  "memcpy_at dst off src = Returns r \<Longrightarrow> take (length src) (drop off r) = src"
  by (auto simp: memcpy_at_def split: if_splits)

lemma memcpy_at_outside:
  "memcpy_at dst off src = Returns r \<Longrightarrow> i < off \<or> off + length src \<le> i \<Longrightarrow> i < length dst
   \<Longrightarrow> r ! i = dst ! i"
  by (auto simp: memcpy_at_def nth_append split: if_splits)

lemma memcpy_at_append:
  assumes "off = length xs" "length zs \<le> length ys"
  shows "memcpy_at (xs @ ys) off zs = Returns (xs @ zs @ drop (length zs) ys)"
  using assms by (simp add: memcpy_at_def)

lemma memcpy_at_0:
  assumes "length zs \<le> length ys"
  shows "memcpy_at ys 0 zs = Returns (zs @ drop (length zs) ys)"
  using assms by (simp add: memcpy_at_def)

lemma memcpy_at_returns_iff: "returns (memcpy_at dst off src) \<longleftrightarrow> off + length src \<le> length dst"
  by (simp add: memcpy_at_def)

section \<open>Little-endian integers\<close>

fun le_bytes :: "nat \<Rightarrow> nat \<Rightarrow> bytes" where
  "le_bytes 0 v = []"
| "le_bytes (Suc n) v = word_of_nat v # le_bytes n (v div 256)"

fun le_value :: "bytes \<Rightarrow> nat" where
  "le_value [] = 0"
| "le_value (b # bs) = unat b + 256 * le_value bs"

lemma length_le_bytes [simp]: "length (le_bytes n v) = n"
  by (induction n arbitrary: v) simp_all

lemma unat_of_nat_u8: "unat (word_of_nat v :: u8) = v mod 256"
  by (simp add: unat_of_nat)

lemma unat_ucast_mod: "unat (ucast (w :: 'a::len word) :: 'b::len word) = unat w mod 2 ^ LENGTH('b)"
  by (simp add: unsigned_ucast_eq take_bit_eq_mod)

lemma le_value_le_bytes: "le_value (le_bytes n v) = v mod 256 ^ n"
proof (induction n arbitrary: v)
  case (Suc n)
  then show ?case
    by (simp add: unat_of_nat_u8 mod_mult2_eq)
qed simp

lemma le_value_le_bytes_u64 [simp]: "le_value (le_bytes 8 (unat (w :: u64))) = unat w"
  using unsigned_less [of w, where 'a = nat] by (simp add: le_value_le_bytes)

lemma le_value_le_bytes_u32 [simp]: "le_value (le_bytes 4 (unat (w :: u32))) = unat w"
  using unsigned_less [of w, where 'a = nat] by (simp add: le_value_le_bytes)

lemma le_value_le_bytes_u16 [simp]: "le_value (le_bytes 2 (unat (w :: u16))) = unat w"
  using unsigned_less [of w, where 'a = nat] by (simp add: le_value_le_bytes)

lemma le_value_less: "le_value bs < 256 ^ length bs"
proof (induction bs)
  case (Cons b bs)
  have "unat b < 256" using unsigned_less [of b, where 'a = nat] by simp
  with Cons show ?case by simp
qed simp

lemma le_bytes_le_value [simp]: "length bs = n \<Longrightarrow> le_bytes n (le_value bs) = bs"
proof (induction bs arbitrary: n)
  case (Cons b bs)
  have b: "unat b < 256" using unsigned_less [of b, where 'a = nat] by simp
  have "(word_of_nat (unat b + 256 * le_value bs) :: u8) = b"
    using b by (simp only: word_unat_eq_iff unat_of_nat_u8) simp
  moreover have "(unat b + 256 * le_value bs) div 256 = le_value bs"
    using b by simp
  ultimately show ?case
    using Cons by auto
qed simp

section \<open>Histories\<close>

text \<open>
  A component's history is a sequence of steps \<open>step\<^sup>*\<^sup>*\<close>.  The contract of a step relation with an
  invariant, and of one that leaves an observation alone; the second gives the first.
\<close>

locale step_invariant =
  fixes step :: "'s \<Rightarrow> 's \<Rightarrow> bool" and inv :: "'s \<Rightarrow> bool"
  assumes step_inv: "step s t \<Longrightarrow> inv s \<Longrightarrow> inv t"
begin

lemma reach_inv: "step\<^sup>*\<^sup>* s t \<Longrightarrow> inv s \<Longrightarrow> inv t"
  by (induction rule: rtranclp_induct) (auto intro: step_inv)

end

locale step_constant =
  fixes step :: "'s \<Rightarrow> 's \<Rightarrow> bool" and obs :: "'s \<Rightarrow> 'a"
  assumes step_obs: "step s t \<Longrightarrow> obs t = obs s"

sublocale step_constant \<subseteq> unchanged: step_invariant step "\<lambda>s. obs s = v" for v
  by unfold_locales (simp add: step_obs)

context step_constant
begin

lemma reach_obs: "step\<^sup>*\<^sup>* s t \<Longrightarrow> obs t = obs s"
  using unchanged.reach_inv [of s t "obs s"] by simp

end

end
