(* ===== verification/Run_Loop.thy ===== *)
theory Run_Loop
  imports Prelude
begin

text \<open>
  The run loop of \<open>Controller.hpp\<close> and \<open>Controller.cpp\<close>: a worker asks \<open>Condition::KeepGoing\<close> whether
  to go on, a \<open>Controller\<close> asks it to run, suspend or stop.  The mutex is modelled by whether the
  calling thread's \<open>unique_lock\<close> owns it; waiting on the condition variable by the list of the
  states read at each wake-up (spurious ones included).  The step relation interleaves one worker
  with any number of controller calls.
\<close>

datatype ThreadState = Running | Suspended | Stopped

section \<open>Condition\<close>

definition StateRunning :: bool where "StateRunning = True"
definition StateStopped :: bool where "StateStopped = False"

text \<open>
  \<open>StateDispatch s wakes\<close> is the answer when \<open>mState\<close> reads \<open>s\<close> and \<open>wakes\<close> are the states read at the
  following wake-ups; \<open>None\<close> when the thread is still blocked after them.
\<close>

function StateDispatch :: "ThreadState \<Rightarrow> ThreadState list \<Rightarrow> bool option"
  and StateSuspended :: "ThreadState list \<Rightarrow> bool option" where
  "StateDispatch s wakes =
     (if s = Stopped then Some StateStopped
      else if s = Suspended then StateSuspended wakes
      else if s = Running then Some StateRunning
      else Some False)"
| "StateSuspended [] = None"
| "StateSuspended (s # wakes) = StateDispatch s wakes"
  by pat_completeness auto
termination
  by (relation "measure (\<lambda>x. case x of Inl (s, w) \<Rightarrow> 2 * length w + 1 | Inr w \<Rightarrow> 2 * length w)") auto

declare StateDispatch.simps [simp del]

record Condition =
  mState :: ThreadState
  locked :: bool  \<comment> \<open>\<open>mLock\<close> is owned by the calling thread\<close>

text \<open>A \<open>unique_lock\<close> is modelled by whether it owns the mutex.\<close>

definition AcquireLock :: "Condition \<Rightarrow> (bool \<times> Condition) outcome" where
  "AcquireLock c = (if locked c then Faults SelfDeadlock else Returns (True, c\<lparr>locked := True\<rparr>))"

text \<open>\<open>std::unique_lock::lock\<close> throws \<open>resource_deadlock_would_occur\<close> when it already owns.\<close>

definition unique_lock_lock :: "bool \<Rightarrow> Condition \<Rightarrow> (bool \<times> Condition) outcome" where
  "unique_lock_lock owns c =
     (if owns then Faults SystemError
      else if locked c then Faults SelfDeadlock
      else Returns (True, c\<lparr>locked := True\<rparr>))"

definition unique_lock_unlock :: "bool \<Rightarrow> Condition \<Rightarrow> (bool \<times> Condition) outcome" where
  "unique_lock_unlock owns c =
     (if owns then Returns (False, c\<lparr>locked := False\<rparr>) else Faults SystemError)"

definition KeepGoing :: "Condition \<Rightarrow> ThreadState list \<Rightarrow> bool option outcome" where
  "KeepGoing c wakes = andThen (AcquireLock c) (\<lambda>(lock, c'). Returns (StateDispatch (mState c') wakes))"

section \<open>Controller\<close>

text \<open>The result is the condition and whether waiting threads were notified.\<close>

definition UpdateSharedState :: "ThreadState \<Rightarrow> Condition \<Rightarrow> (Condition \<times> bool) outcome" where
  "UpdateSharedState state c =
     andThen (AcquireLock c) (\<lambda>(lock, c1).
     andThen (unique_lock_lock lock c1) (\<lambda>(lock, c2).
     let state_before = mState c2;
         c3 = c2\<lparr>mState := state\<rparr>
     in andThen (unique_lock_unlock lock c3) (\<lambda>(lock, c4).
        Returns (c4, state \<noteq> state_before))))"

definition RequestRun :: "Condition \<Rightarrow> (Condition \<times> bool) outcome" where
  "RequestRun c = UpdateSharedState Running c"

definition RequestStop :: "Condition \<Rightarrow> (Condition \<times> bool) outcome" where
  "RequestStop c = UpdateSharedState Stopped c"

definition RequestSuspend :: "Condition \<Rightarrow> (Condition \<times> bool) outcome" where
  "RequestSuspend c = UpdateSharedState Suspended c"

section \<open>Answers of the condition\<close>

lemma StateDispatch_eqs [simp]:
  "StateDispatch Running ws = Some True"
  "StateDispatch Stopped ws = Some False"
  "StateDispatch Suspended [] = None"
  "StateDispatch Suspended (w # ws) = StateDispatch w ws"
  by (simp_all add: StateDispatch.simps StateRunning_def StateStopped_def)

text \<open>The answer is decided by the first state read that is not \<open>Suspended\<close>.\<close>

lemma StateDispatch_first:
  "StateDispatch s ws =
     (case dropWhile (\<lambda>x. x = Suspended) (s # ws) of
        [] \<Rightarrow> None
      | x # _ \<Rightarrow> Some (x = Running))"
proof (induction ws arbitrary: s)
  case Nil
  then show ?case by (cases s) simp_all
next
  case (Cons w ws)
  then show ?case by (cases s) simp_all
qed

lemma StateDispatch_terminates_iff:
  "StateDispatch s ws \<noteq> None \<longleftrightarrow> (\<exists>x\<in>set (s # ws). x \<noteq> Suspended)"
proof (induction ws arbitrary: s)
  case Nil
  then show ?case by (cases s) simp_all
next
  case (Cons w ws)
  then show ?case by (cases s) simp_all
qed

section \<open>A worker and its controller\<close>

datatype worker = Ready | Blocked | Finished

record loop_state =
  cond :: Condition
  worker :: worker

text \<open>
  Where an answer of the condition leaves the worker: none yet means that it waits on the condition
  variable, \<open>false\<close> ends its loop.
\<close>

fun worker_after :: "bool option \<Rightarrow> worker" where
  "worker_after None = Blocked"
| "worker_after (Some keep_going) = (if keep_going then Ready else Finished)"

text \<open>
  A controller call that throws leaves the condition as it was: unwinding releases the lock it
  had taken.
\<close>

definition after_request :: "(Condition \<times> bool) outcome \<Rightarrow> Condition \<Rightarrow> Condition" where
  "after_request r c = (case r of Returns (c', notified) \<Rightarrow> c' | Faults e \<Rightarrow> c)"

inductive loop_step :: "loop_state \<Rightarrow> loop_state \<Rightarrow> bool" where
  poll: "worker s = Ready \<Longrightarrow> KeepGoing (cond s) [] = Returns answer \<Longrightarrow>
    loop_step s (s\<lparr>worker := worker_after answer\<rparr>)"
| wake: "worker s = Blocked \<Longrightarrow> loop_step s (s\<lparr>worker := worker_after (StateSuspended [mState (cond s)])\<rparr>)"
| run: "loop_step s (s\<lparr>cond := after_request (RequestRun (cond s)) (cond s)\<rparr>)"
| suspend: "loop_step s (s\<lparr>cond := after_request (RequestSuspend (cond s)) (cond s)\<rparr>)"
| stop: "loop_step s (s\<lparr>cond := after_request (RequestStop (cond s)) (cond s)\<rparr>)"

text \<open>
  A ready worker calls \<open>KeepGoing\<close>; a blocked one wakes up inside \<open>StateSuspended\<close>, which reads the state
  again.  The requests may come at any point between.
\<close>

abbreviation loop_reach :: "loop_state \<Rightarrow> loop_state \<Rightarrow> bool" where
  "loop_reach \<equiv> loop_step\<^sup>*\<^sup>*"

inductive_cases loop_stepE: "loop_step s t"

text \<open>
  \<open>AcquireLock\<close> already locks the mutex, so the \<open>lock.lock()\<close> that follows it always throws: no
  request ever reaches the assignment.
\<close>

lemma UpdateSharedState_throws: "\<not> locked c \<Longrightarrow> UpdateSharedState state c = Faults SystemError"
  by (simp add: UpdateSharedState_def AcquireLock_def unique_lock_lock_def)

lemma UpdateSharedState_faults: "\<exists>e. UpdateSharedState state c = Faults e"
  by (cases "locked c") (simp_all add: UpdateSharedState_throws, simp add: UpdateSharedState_def AcquireLock_def)

lemma requests_fault:
  "\<exists>e. RequestRun c = Faults e" "\<exists>e. RequestStop c = Faults e" "\<exists>e. RequestSuspend c = Faults e"
  unfolding RequestRun_def RequestStop_def RequestSuspend_def by (rule UpdateSharedState_faults)+

lemma after_request_id [simp]:
  "after_request (RequestRun c) c = c" "after_request (RequestStop c) c = c"
  "after_request (RequestSuspend c) c = c"
  using requests_fault [of c] by (auto simp: after_request_def)

interpretation shared_state: step_constant loop_step cond
  by unfold_locales (elim loop_stepE, simp_all)

lemma KeepGoing_unlocked: "KeepGoing c [] = Returns answer \<Longrightarrow> answer = StateDispatch (mState c) []"
  by (cases "locked c") (simp_all add: KeepGoing_def AcquireLock_def)

text \<open>What a poll and a wake-up do to the worker is decided by the shared state.\<close>

lemma worker_step:
  assumes "loop_step s t"
  shows "worker t = worker s \<or> worker s \<noteq> Finished \<and> worker t = worker_after (StateDispatch (mState (cond s)) [])"
  using assms by (elim loop_stepE) (auto dest: KeepGoing_unlocked)

lemma poll_stopped:
  assumes "mState (cond s) = Stopped" "\<not> locked (cond s)" "worker s = Ready"
  shows "loop_step s (s\<lparr>worker := Finished\<rparr>)"
  using loop_step.poll [OF assms(3), of "Some False"] assms(1,2) by (simp add: KeepGoing_def AcquireLock_def)

text \<open>
  A worker that is told to run stays ready, one that is not told to stop goes on, a suspended one stays
  blocked.
\<close>

interpretation running: step_invariant loop_step "\<lambda>s. mState (cond s) = Running \<and> worker s = Ready"
  by unfold_locales (auto dest: worker_step shared_state.step_obs)

interpretation unstopped: step_invariant loop_step "\<lambda>s. mState (cond s) \<noteq> Stopped \<and> worker s \<noteq> Finished"
proof unfold_locales
  fix s t
  assume "loop_step s t" "mState (cond s) \<noteq> Stopped \<and> worker s \<noteq> Finished"
  then show "mState (cond t) \<noteq> Stopped \<and> worker t \<noteq> Finished"
    using worker_step [of s t] shared_state.step_obs [of s t] by (cases "mState (cond s)") auto
qed

interpretation suspended: step_invariant loop_step "\<lambda>s. mState (cond s) = Suspended \<and> worker s = Blocked"
  by unfold_locales (auto dest: worker_step shared_state.step_obs)

end
