(* ===== verification/Containers.thy ===== *)
theory Containers
  imports Prelude
begin

text \<open>
  The standard containers the program keeps its tables in.  A \<open>std::map\<close> is the list of its
  entries in key order (\<open>omap\<close>), so that a range-\<open>for\<close> over it is a recursion over that list; a
  \<open>std::set\<close> is the list of its elements in order.  The laws a client relies on are the locale
  \<open>dict\<close>, interpreted here on \<open>omap\<close> and in theory \<open>Flat_Map\<close> on \<open>webrtc::flat_map\<close>.
\<close>

section \<open>The dictionary contract\<close>

locale dict =
  fixes dempty :: "'m"
    and dget :: "'m \<Rightarrow> 'k \<Rightarrow> 'v option"
    and dput :: "'k \<Rightarrow> 'v \<Rightarrow> 'm \<Rightarrow> 'm"
    and ddel :: "'k \<Rightarrow> 'm \<Rightarrow> 'm"
    and dinv :: "'m \<Rightarrow> bool"
  assumes get_empty: "dget dempty k = None"
    and get_put: "dinv m \<Longrightarrow> dget (dput k v m) k' = (if k' = k then Some v else dget m k')"
    and get_del: "dinv m \<Longrightarrow> dget (ddel k m) k' = (if k' = k then None else dget m k')"
    and inv_empty: "dinv dempty"
    and inv_put: "dinv m \<Longrightarrow> dinv (dput k v m)"
    and inv_del: "dinv m \<Longrightarrow> dinv (ddel k m)"
begin

fun puts :: "('k \<times> 'v) list \<Rightarrow> 'm \<Rightarrow> 'm" where
  "puts [] m = m"
| "puts ((k, v) # kvs) m = puts kvs (dput k v m)"

lemma inv_puts: "dinv m \<Longrightarrow> dinv (puts kvs m)"
  by (induction kvs m rule: puts.induct) (simp_all add: inv_put)

lemma get_puts:
  "dinv m \<Longrightarrow> dget (puts kvs m) k = (case map_of (rev kvs) k of None \<Rightarrow> dget m k | Some v \<Rightarrow> Some v)"
  by (induction kvs m rule: puts.induct)
    (auto simp: inv_put get_put map_add_def split: option.splits)

lemma get_put_put: "dinv m \<Longrightarrow> dget (dput k v (dput k w m)) k' = dget (dput k v m) k'"
  by (simp add: get_put inv_put)

lemma get_del_put: "dinv m \<Longrightarrow> dget m k = None \<Longrightarrow> dget (ddel k (dput k v m)) k' = dget m k'"
  by (simp add: get_put get_del inv_put)

lemma put_commute:
  "dinv m \<Longrightarrow> k \<noteq> l \<Longrightarrow> dget (dput k v (dput l w m)) k' = dget (dput l w (dput k v m)) k'"
  by (simp add: get_put inv_put)

end

section \<open>std::map\<close>

type_synonym ('k, 'v) omap = "('k \<times> 'v) list"

fun omap_put :: "'k::linorder \<Rightarrow> 'v \<Rightarrow> ('k, 'v) omap \<Rightarrow> ('k, 'v) omap" where
  "omap_put k v [] = [(k, v)]"
| "omap_put k v ((a, b) # m) =
     (if k < a then (k, v) # (a, b) # m
      else if k = a then (k, v) # m
      else (a, b) # omap_put k v m)"

definition omap_get :: "('k, 'v) omap \<Rightarrow> 'k \<Rightarrow> 'v option" where
  "omap_get m k = map_of m k"

definition omap_del :: "'k \<Rightarrow> ('k, 'v) omap \<Rightarrow> ('k, 'v) omap" where
  "omap_del k m = filter (\<lambda>e. fst e \<noteq> k) m"

definition omap_ok :: "('k::linorder, 'v) omap \<Rightarrow> bool" where
  "omap_ok m = sorted_wrt (<) (map fst m)"

text \<open>\<open>operator[]\<close> inserts a value-initialised entry when the key is absent.\<close>

definition omap_at :: "'v \<Rightarrow> 'k::linorder \<Rightarrow> ('k, 'v) omap \<Rightarrow> ('k, 'v) omap" where
  "omap_at z k m = (case omap_get m k of Some v \<Rightarrow> m | None \<Rightarrow> omap_put k z m)"

lemma omap_get_Nil [simp]: "omap_get [] k = None"
  by (simp add: omap_get_def)

lemma omap_get_put [simp]:
  "omap_get (omap_put k v m) k' = (if k' = k then Some v else omap_get m k')"
  by (induction k v m rule: omap_put.induct) (auto simp: omap_get_def)

lemma omap_get_del [simp]: "omap_get (omap_del k m) k' = (if k' = k then None else omap_get m k')"
  by (induction m) (auto simp: omap_get_def omap_del_def)

lemma omap_get_at [simp]:
  "omap_get (omap_at z k m) k' =
     (if k' = k then (case omap_get m k of None \<Rightarrow> Some z | Some v \<Rightarrow> Some v) else omap_get m k')"
  by (simp add: omap_at_def split: option.split)

lemma omap_put_keys: "fst ` set (omap_put k v m) = insert k (fst ` set m)"
  by (induction k v m rule: omap_put.induct) auto

lemma omap_ok_Cons: "omap_ok ((k, v) # m) \<longleftrightarrow> (\<forall>e\<in>set m. k < fst e) \<and> omap_ok m"
  by (auto simp: omap_ok_def)

lemma omap_ok_put: "omap_ok m \<Longrightarrow> omap_ok (omap_put k v m)"
proof (induction k v m rule: omap_put.induct)
  case (2 k v a b m)
  then have "\<forall>x\<in>fst ` set (omap_put k v m). a < x" if "a < k"
    using that by (auto simp: omap_put_keys omap_ok_Cons)
  with 2 show ?case
    by (auto simp: omap_ok_Cons)
qed (simp add: omap_ok_def)

lemma omap_ok_del: "omap_ok m \<Longrightarrow> omap_ok (omap_del k m)"
  by (simp add: omap_ok_def omap_del_def sorted_wrt_map sorted_wrt_filter)

lemma omap_ok_at: "omap_ok m \<Longrightarrow> omap_ok (omap_at z k m)"
  by (simp add: omap_at_def omap_ok_put split: option.split)

interpretation std_map: dict "[]" omap_get omap_put omap_del omap_ok
  by unfold_locales (auto simp: omap_ok_put omap_ok_del, simp add: omap_ok_def)

section \<open>std::set\<close>

fun oset_insert :: "'a::linorder \<Rightarrow> 'a list \<Rightarrow> 'a list" where
  "oset_insert x [] = [x]"
| "oset_insert x (y # ys) =
     (if x < y then x # y # ys else if x = y then y # ys else y # oset_insert x ys)"

lemma set_oset_insert [simp]: "set (oset_insert x ys) = insert x (set ys)"
  by (induction x ys rule: oset_insert.induct) auto

lemma sorted_oset_insert: "sorted_wrt (<) ys \<Longrightarrow> sorted_wrt (<) (oset_insert x ys)"
  by (induction x ys rule: oset_insert.induct) auto

end
