(* ===== verification/Flat_Map.thy ===== *)
theory Flat_Map
  imports Containers
begin

text \<open>
  \<open>webrtc::flat_map\<close> (\<open>rtc_base/containers/flat_map.h\<close> over \<open>flat_tree.h\<close>), the container in which
  \<open>DnsCache\<close> keeps its records and \<open>DcSctpTransport\<close> its streams: a vector of key/value pairs sorted by key.
  An iterator is the index it points to, \<open>end()\<close> the length.  \<open>std::lower_bound\<close>, \<open>std::stable_sort\<close>,
  \<open>std::unique\<close> and \<open>std::inplace_merge\<close> are given by their specification on the vector.  The theorems show
  that every operation keeps the vector sorted and duplicate free and implements the finite map it stands
  for: the flat map refines the \<open>omap\<close> of theory \<open>Containers\<close>, and \<open>dict\<close> is interpreted on it.
\<close>

type_synonym ('k, 'v) flat_map = "('k \<times> 'v) list"

abbreviation flat_ok :: "('k::linorder, 'v) flat_map \<Rightarrow> bool" where
  "flat_ok body \<equiv> omap_ok body"

section \<open>Search operations\<close>

definition flat_lower_bound :: "'k::linorder \<Rightarrow> ('k, 'v) flat_map \<Rightarrow> nat" where
  "flat_lower_bound key body = length (takeWhile (\<lambda>e. fst e < key) body)"

definition flat_upper_bound :: "'k::linorder \<Rightarrow> ('k, 'v) flat_map \<Rightarrow> nat" where
  "flat_upper_bound key body = length (takeWhile (\<lambda>e. \<not> key < fst e) body)"

definition flat_equal_range :: "'k::linorder \<Rightarrow> ('k, 'v) flat_map \<Rightarrow> nat \<times> nat" where
  "flat_equal_range key body =
     (let lower = flat_lower_bound key body
      in if lower = length body \<or> key < fst (body ! lower) then (lower, lower)
         else (lower, Suc lower))"

definition flat_find :: "'k::linorder \<Rightarrow> ('k, 'v) flat_map \<Rightarrow> nat" where
  "flat_find key body =
     (let (first, last) = flat_equal_range key body
      in if first = last then length body else first)"

definition flat_contains :: "'k::linorder \<Rightarrow> ('k, 'v) flat_map \<Rightarrow> bool" where
  "flat_contains key body =
     (let lower = flat_lower_bound key body
      in lower \<noteq> length body \<and> \<not> key < fst (body ! lower))"

definition flat_count :: "'k::linorder \<Rightarrow> ('k, 'v) flat_map \<Rightarrow> nat" where
  "flat_count key body = (let (first, last) = flat_equal_range key body in last - first)"

section \<open>Insert operations\<close>

definition unsafe_emplace :: "nat \<Rightarrow> 'e \<Rightarrow> 'e list \<Rightarrow> 'e list" where
  "unsafe_emplace pos e body = take pos body @ [e] @ drop pos body"

text \<open>The result is the new body, the iterator and whether an element was inserted.\<close>

definition emplace_key_args ::
    "'k::linorder \<Rightarrow> 'v \<Rightarrow> ('k, 'v) flat_map \<Rightarrow> ('k, 'v) flat_map \<times> nat \<times> bool" where
  "emplace_key_args key v body =
     (let lower = flat_lower_bound key body
      in if lower = length body \<or> key < fst (body ! lower)
         then (unsafe_emplace lower (key, v) body, lower, True)
         else (body, lower, False))"

definition emplace_hint_key_args ::
    "nat \<Rightarrow> 'k::linorder \<Rightarrow> 'v \<Rightarrow> ('k, 'v) flat_map \<Rightarrow> ('k, 'v) flat_map \<times> nat \<times> bool" where
  "emplace_hint_key_args hint key v body =
     (if (hint = 0 \<or> fst (body ! (hint - 1)) < key) \<and> (hint = length body \<or> key < fst (body ! hint))
      then (unsafe_emplace hint (key, v) body, hint, True)
      else if (hint = 0 \<or> fst (body ! (hint - 1)) < key) \<and> \<not> fst (body ! hint) < key
      then (body, hint, False)
      else emplace_key_args key v body)"

definition insert_or_assign ::
    "'k::linorder \<Rightarrow> 'v \<Rightarrow> ('k, 'v) flat_map \<Rightarrow> ('k, 'v) flat_map \<times> nat \<times> bool" where
  "insert_or_assign key obj body =
     (let (body', pos, inserted) = emplace_key_args key obj body
      in if inserted then (body', pos, inserted)
         else (body'[pos := (fst (body' ! pos), obj)], pos, inserted))"

definition insert_or_assign_hint ::
    "nat \<Rightarrow> 'k::linorder \<Rightarrow> 'v \<Rightarrow> ('k, 'v) flat_map \<Rightarrow> ('k, 'v) flat_map \<times> nat" where
  "insert_or_assign_hint hint key obj body =
     (let (body', pos, inserted) = emplace_hint_key_args hint key obj body
      in if inserted then (body', pos) else (body'[pos := (fst (body' ! pos), obj)], pos))"

definition try_emplace ::
    "'k::linorder \<Rightarrow> 'v \<Rightarrow> ('k, 'v) flat_map \<Rightarrow> ('k, 'v) flat_map \<times> nat \<times> bool" where
  "try_emplace key v body = emplace_key_args key v body"

text \<open>\<open>operator[]\<close>: the body afterwards and the position of the element it refers to.\<close>

definition flat_index :: "'v \<Rightarrow> 'k::linorder \<Rightarrow> ('k, 'v) flat_map \<Rightarrow> ('k, 'v) flat_map \<times> nat" where
  "flat_index z key body =
     (let found = flat_lower_bound key body
      in if found = length body \<or> key < fst (body ! found)
         then (unsafe_emplace found (key, z) body, found)
         else (body, found))"

definition flat_at :: "'k::linorder \<Rightarrow> ('k, 'v) flat_map \<Rightarrow> 'v outcome" where
  "flat_at key body =
     (let found = flat_find key body
      in if found \<noteq> length body then Returns (snd (body ! found)) else Faults CheckFailed)"

section \<open>Erase operations\<close>

definition flat_erase_range :: "nat \<Rightarrow> nat \<Rightarrow> 'e list \<Rightarrow> 'e list" where
  "flat_erase_range lo hi body = take lo body @ drop hi body"

definition flat_erase :: "nat \<Rightarrow> 'e list \<Rightarrow> 'e list outcome" where
  "flat_erase position body =
     (if position \<noteq> length body then Returns (take position body @ drop (Suc position) body)
      else Faults CheckFailed)"

definition flat_erase_key :: "'k::linorder \<Rightarrow> ('k, 'v) flat_map \<Rightarrow> ('k, 'v) flat_map \<times> nat" where
  "flat_erase_key key body =
     (let (first, last) = flat_equal_range key body
      in (flat_erase_range first last body, last - first))"

definition EraseIf :: "('e \<Rightarrow> bool) \<Rightarrow> 'e list \<Rightarrow> 'e list \<times> nat" where
  "EraseIf pred body =
     (let kept = filter (\<lambda>e. \<not> pred e) body in (kept, length body - length kept))"

section \<open>Building from an unsorted range\<close>

text \<open>
  \<open>std::unique\<close> with \<open>!(lhs < rhs)\<close> keeps the first element of every run of equal keys of the
  stably sorted vector.
\<close>

fun std_unique :: "('k::linorder \<times> 'v) list \<Rightarrow> ('k \<times> 'v) list" where
  "std_unique [] = []"
| "std_unique [e] = [e]"
| "std_unique (e # f # body) =
     (if \<not> fst e < fst f then std_unique (e # body) else e # std_unique (f # body))"

definition sort_and_unique :: "('k::linorder \<times> 'v) list \<Rightarrow> ('k, 'v) flat_map" where
  "sort_and_unique items = std_unique (sort_key fst items)"

section \<open>Correctness\<close>

text \<open>The lower bound recursively, so that inductions over the vector go through by simplification.\<close>

lemma flat_lower_bound_simps [simp]:
  "flat_lower_bound k [] = 0"
  "flat_lower_bound k (e # body) = (if fst e < k then Suc (flat_lower_bound k body) else 0)"
  by (simp_all add: flat_lower_bound_def)

lemma flat_lower_bound_le: "flat_lower_bound k body \<le> length body"
  by (simp add: flat_lower_bound_def length_takeWhile_le)

lemma omap_get_less: "omap_ok ((a, b) # m) \<Longrightarrow> k < a \<Longrightarrow> omap_get m k = None"
  by (force simp: omap_get_def omap_ok_Cons map_of_eq_None_iff)

lemma flat_lookup:
  "flat_ok body \<Longrightarrow>
   omap_get body k =
     (if flat_lower_bound k body = length body \<or> k < fst (body ! flat_lower_bound k body) then None
      else Some (snd (body ! flat_lower_bound k body)))"
proof (induction body)
  case (Cons e body)
  obtain a b where e: "e = (a, b)" by (cases e)
  consider "a < k" | "a = k" | "k < a" by fastforce
  then show ?case
  proof cases
    case 1
    then show ?thesis using Cons by (auto simp: e omap_get_def omap_ok_Cons)
  next
    case 2
    then show ?thesis by (simp add: e omap_get_def)
  next
    case 3
    then show ?thesis
      using omap_get_less [of a b body k] Cons.prems by (auto simp: e omap_get_def)
  qed
qed (simp add: omap_get_def)

lemma flat_lower_bound_hit:
  "flat_ok body \<Longrightarrow> flat_lower_bound k body < length body \<Longrightarrow>
   \<not> k < fst (body ! flat_lower_bound k body) \<Longrightarrow> fst (body ! flat_lower_bound k body) = k"
  by (induction body) (auto simp: omap_ok_def)

lemma emplace_key_args_fresh:
  assumes "flat_ok body" "omap_get body k = None"
  shows "emplace_key_args k v body = (omap_put k v body, flat_lower_bound k body, True)"
  using assms
proof (induction body)
  case (Cons e body)
  obtain a b where e: "e = (a, b)" by (cases e)
  have neq: "a \<noteq> k" and IH: "omap_get body k = None" "flat_ok body"
    using Cons.prems by (auto simp: e omap_get_def omap_ok_Cons split: if_splits)
  show ?case
    using neq Cons.IH [OF IH(2,1)]
    by (auto simp: e emplace_key_args_def unsafe_emplace_def Let_def split: if_splits)
qed (simp add: emplace_key_args_def unsafe_emplace_def)

lemma emplace_key_args_present:
  assumes "flat_ok body" "omap_get body k = Some w"
  shows "emplace_key_args k v body = (body, flat_lower_bound k body, False)"
  using flat_lookup [OF assms(1), of k] assms(2)
  by (auto simp: emplace_key_args_def Let_def split: if_splits)

lemma list_update_omap_put:
  assumes "flat_ok body" "omap_get body k = Some w"
  shows "body[flat_lower_bound k body := (k, v)] = omap_put k v body"
  using assms
proof (induction body)
  case (Cons e body)
  obtain a b where e: "e = (a, b)" by (cases e)
  consider "a < k" | "a = k" | "k < a" by fastforce
  then show ?case
  proof cases
    case 1
    with Cons show ?thesis by (auto simp: e omap_get_def omap_ok_Cons)
  next
    case 2
    then show ?thesis by (simp add: e)
  next
    case 3
    then show ?thesis
      using omap_get_less [of a b body k] Cons.prems by (auto simp: e omap_get_def split: if_splits)
  qed
qed simp

text \<open>The refinement: on a well-formed vector the optimised insertion is the map update.\<close>

lemma insert_or_assign_refines:
  assumes "flat_ok body"
  shows "fst (insert_or_assign k v body) = omap_put k v body"
proof (cases "omap_get body k")
  case None
  then show ?thesis
    using emplace_key_args_fresh [OF assms None] by (simp add: insert_or_assign_def)
next
  case (Some w)
  let ?l = "flat_lower_bound k body"
  have "fst (body ! ?l) = k"
    using flat_lookup [OF assms, of k] Some flat_lower_bound_hit [OF assms, of k]
      flat_lower_bound_le [of k body] by (auto split: if_splits simp: le_less)
  then show ?thesis
    using list_update_omap_put [OF assms Some, of v] emplace_key_args_present [OF assms Some]
    by (simp add: insert_or_assign_def)
qed

lemma flat_find_lookup:
  assumes "flat_ok body"
  shows "(if flat_find k body = length body then None else Some (snd (body ! flat_find k body))) =
     omap_get body k"
  using flat_lookup [OF assms, of k] flat_lower_bound_le [of k body]
  by (auto simp: flat_find_def flat_equal_range_def Let_def)

lemma flat_find_end_iff: "flat_ok body \<Longrightarrow> flat_find k body = length body \<longleftrightarrow> omap_get body k = None"
  by (metis flat_find_lookup option.distinct(1))

lemma flat_contains_iff: "flat_ok body \<Longrightarrow> flat_contains k body \<longleftrightarrow> omap_get body k \<noteq> None"
  using flat_lookup [of body k] by (auto simp: flat_contains_def Let_def)

lemma flat_erase_key_refines:
  assumes "flat_ok body"
  shows "fst (flat_erase_key k body) = omap_del k body"
  using assms
proof (induction body)
  case (Cons e body)
  obtain a b where e: "e = (a, b)" by (cases e)
  have ok: "flat_ok body" and gt: "\<forall>f\<in>set body. a < fst f"
    using Cons.prems by (auto simp: e omap_ok_Cons)
  have del: "omap_del a body = body" and del': "k < a \<Longrightarrow> omap_del k body = body"
    using gt by (auto simp: omap_del_def filter_id_conv)
  consider "a < k" | "a = k" | "k < a" by fastforce
  then show ?case
  proof cases
    case 1
    with Cons.IH [OF ok] show ?thesis
      by (auto simp: e flat_erase_key_def flat_equal_range_def flat_erase_range_def omap_del_def Let_def
          split: if_splits)
  next
    case 2
    with del show ?thesis
      by (simp add: e flat_erase_key_def flat_equal_range_def flat_erase_range_def omap_del_def)
  next
    case 3
    with del' show ?thesis
      by (simp add: e flat_erase_key_def flat_equal_range_def flat_erase_range_def omap_del_def)
  qed
qed (simp add: flat_erase_key_def flat_equal_range_def flat_erase_range_def omap_del_def)

text \<open>Erasing through the iterator that \<open>find\<close> returned.\<close>

lemma flat_erase_found:
  assumes "flat_ok body" "omap_get body k = Some w"
  shows "flat_erase (flat_find k body) body = Returns (omap_del k body)"
proof -
  have "flat_find k body = fst (flat_equal_range k body)"
    "snd (flat_equal_range k body) = Suc (fst (flat_equal_range k body))"
    using flat_lookup [OF assms(1), of k] assms(2)
    by (auto simp: flat_find_def flat_equal_range_def Let_def split: if_splits)
  moreover have "flat_find k body \<noteq> length body"
    using assms by (simp add: flat_find_end_iff)
  ultimately show ?thesis
    using flat_erase_key_refines [OF assms(1), of k]
    by (auto simp: flat_erase_def flat_erase_key_def flat_erase_range_def split: prod.splits)
qed

lemma flat_erase_end: "flat_erase (length body) body = Faults CheckFailed"
  by (simp add: flat_erase_def)

interpretation flat_dict: dict "[]" omap_get "\<lambda>k v m. fst (insert_or_assign k v m)"
    "\<lambda>k m. fst (flat_erase_key k m)" omap_ok
  by unfold_locales
    (auto simp: insert_or_assign_refines flat_erase_key_refines omap_ok_put omap_ok_del,
     simp add: omap_ok_def)

section \<open>Sorting and deduplication\<close>

lemma std_unique_fst_hd: "std_unique (e # body) = f # fs \<Longrightarrow> f = e"
  by (induction "e # body" arbitrary: e body rule: std_unique.induct) (auto split: if_splits)

lemma set_std_unique: "set (std_unique body) \<subseteq> set body"
  by (induction body rule: std_unique.induct) auto

lemma std_unique_keys: "sorted (map fst body) \<Longrightarrow> fst ` set (std_unique body) = fst ` set body"
  by (induction body rule: std_unique.induct) (auto simp: image_iff)

lemma std_unique_ok: "sorted (map fst body) \<Longrightarrow> flat_ok (std_unique body)"
proof (induction body rule: std_unique.induct)
  case (3 e f body)
  show ?case
  proof (cases "fst e < fst f")
    case True
    have "\<forall>g\<in>set (std_unique (f # body)). fst e < fst g"
      using 3(3) True set_std_unique [of "f # body"] by fastforce
    then show ?thesis
      using 3 True by (cases e) (auto simp: omap_ok_Cons)
  qed (use 3 in auto)
qed (simp_all add: omap_ok_def)

lemma std_unique_get: "sorted (map fst body) \<Longrightarrow> omap_get (std_unique body) k = omap_get body k"
  by (induction body rule: std_unique.induct) (auto simp: omap_get_def)

lemma map_of_insort_key: "map_of (insort_key fst e xs) k = (if k = fst e then Some (snd e) else map_of xs k)"
  by (induction xs) auto

lemma map_of_sort_key: "map_of (sort_key fst xs) k = map_of xs k"
  by (induction xs) (auto simp: map_of_insort_key)

lemma sort_and_unique_ok: "flat_ok (sort_and_unique items)"
  by (simp add: sort_and_unique_def std_unique_ok)

lemma sort_and_unique_get: "omap_get (sort_and_unique items) k = map_of items k"
  by (simp add: sort_and_unique_def std_unique_get) (simp add: omap_get_def map_of_sort_key)


section \<open>Inserting a range\<close>

definition flat_insert :: "('k::linorder \<times> 'v) \<Rightarrow> ('k, 'v) flat_map \<Rightarrow> ('k, 'v) flat_map \<times> nat \<times> bool" where
  "flat_insert val body = emplace_key_args (fst val) (snd val) body"

definition flat_insert_hint :: "nat \<Rightarrow> ('k::linorder \<times> 'v) \<Rightarrow> ('k, 'v) flat_map \<Rightarrow> ('k, 'v) flat_map \<times> nat" where
  "flat_insert_hint position_hint val body =
     (case emplace_hint_key_args position_hint (fst val) (snd val) body of (body', pos, _) \<Rightarrow> (body', pos))"

text \<open>\<open>append_unique(begin(), middle, val)\<close>, where \<open>middle\<close> is an index.\<close>

definition append_unique ::
    "nat \<Rightarrow> ('k::linorder \<times> 'v) \<Rightarrow> ('k \<times> 'v) list \<Rightarrow> ('k \<times> 'v) list \<times> nat \<times> bool" where
  "append_unique middle val body =
     (let position = flat_lower_bound (fst val) (take middle body)
      in if position = middle \<or> fst val < fst (body ! position) then (body @ [val], position, True)
         else (body, position, False))"

fun insert_loop ::
    "nat \<Rightarrow> ('k::linorder \<times> 'v) list \<Rightarrow> ('k \<times> 'v) list \<Rightarrow> nat \<Rightarrow> ('k \<times> 'v) list \<times> nat" where
  "insert_loop middle [] body pos_first_new = (body, pos_first_new)"
| "insert_loop middle (val # vals) body pos_first_new =
     (case append_unique middle val body of (body', pos, inserted) \<Rightarrow>
        insert_loop middle vals body' (if inserted then min pos_first_new pos else pos_first_new))"

text \<open>\<open>std::inplace_merge\<close> of two sorted ranges, which prefers the first one.\<close>

fun std_merge :: "('k::linorder \<times> 'v) list \<Rightarrow> ('k \<times> 'v) list \<Rightarrow> ('k \<times> 'v) list" where
  "std_merge [] ys = ys"
| "std_merge xs [] = xs"
| "std_merge (x # xs) (y # ys) =
     (if fst y < fst x then y # std_merge (x # xs) ys else x # std_merge xs (y # ys))"

definition flat_insert_range ::
    "bool \<Rightarrow> ('k::linorder \<times> 'v) list \<Rightarrow> ('k, 'v) flat_map \<Rightarrow> ('k, 'v) flat_map" where
  "flat_insert_range multipass vals body =
     (if vals = [] then body
      else if multipass \<and> tl vals = [] then fst (flat_insert_hint (length body) (hd vals) body)
      else
        let middle = length body
        in case insert_loop middle vals body middle of (body', pos_first_new) \<Rightarrow>
             take pos_first_new body' @
             std_merge (drop pos_first_new (take middle body')) (sort_and_unique (drop middle body')))"

lemma insert_loop_run:
  assumes "flat_ok b"
  shows "insert_loop (length b) vals (b @ ext) pos =
    (b @ ext @ filter (\<lambda>e. omap_get b (fst e) = None) vals,
     fold (\<lambda>e p. min p (flat_lower_bound (fst e) b)) (filter (\<lambda>e. omap_get b (fst e) = None) vals) pos)"
proof (induction vals arbitrary: ext pos)
  case (Cons val vals)
  let ?l = "flat_lower_bound (fst val) b"
  have "append_unique (length b) val (b @ ext) =
      (if omap_get b (fst val) = None then (b @ ext @ [val], ?l, True) else (b @ ext, ?l, False))"
    using flat_lookup [OF assms, of "fst val"] flat_lower_bound_le [of "fst val" b]
    by (auto simp: append_unique_def Let_def nth_append)
  then show ?case using Cons.IH [of "ext @ [val]"] Cons.IH [of ext] by simp
qed simp

lemma fold_min_le: "fold (\<lambda>e p. min p (f e)) xs (p :: nat) \<le> p"
  "e \<in> set xs \<Longrightarrow> fold (\<lambda>e p. min p (f e)) xs p \<le> f e"
proof (induction xs arbitrary: p)
  case (Cons x xs)
  {
    case 1
    then show ?case using Cons.IH(1) [of "min p (f x)"] by simp
  next
    case 2
    then show ?case using Cons.IH [of "min p (f x)"] by (auto intro: order_trans)
  }
qed simp_all

lemma set_std_merge: "set (std_merge xs ys) = set xs \<union> set ys"
  by (induction xs ys rule: std_merge.induct) auto

lemma std_merge_ok:
  "flat_ok xs \<Longrightarrow> flat_ok ys \<Longrightarrow> fst ` set xs \<inter> fst ` set ys = {} \<Longrightarrow> flat_ok (std_merge xs ys)"
proof (induction xs ys rule: std_merge.induct)
  case (3 x xs y ys)
  have "fst x \<noteq> fst y" using 3(5) by auto
  with 3 show ?case
    by (cases x; cases y) (auto simp: omap_ok_Cons set_std_merge split: if_splits)
qed simp_all

lemma below_lower_bound:
  assumes "p \<le> flat_lower_bound k b" "e \<in> set (take p b)"
  shows "fst e < k"
proof -
  have "e \<in> set (take (flat_lower_bound k b) b)" using assms set_take_subset_set_take [of p _ b] by auto
  also have "take (flat_lower_bound k b) b = takeWhile (\<lambda>e. fst e < k) b"
    unfolding flat_lower_bound_def by (rule takeWhile_eq_take [symmetric])
  finally show "fst e < k" by (rule set_takeWhileD [THEN conjunct2])
qed

lemma map_of_flat: "flat_ok m \<Longrightarrow> omap_get m k = Some v \<longleftrightarrow> (k, v) \<in> set m"
  unfolding omap_get_def omap_ok_def by (rule map_of_eq_Some_iff) (simp add: strict_sorted_iff)

lemma flat_last: "flat_ok b \<Longrightarrow> e \<in> set b \<Longrightarrow> fst e \<le> fst (last b)"
proof (induction b)
  case (Cons a b)
  have "b \<noteq> [] \<Longrightarrow> fst a < fst (last b)" using Cons.prems by (simp add: omap_ok_def)
  with Cons show ?case by (auto simp: omap_ok_def intro: less_imp_le)
qed simp

lemma flat_insert_end:
  assumes "flat_ok b"
  shows "fst (flat_insert_hint (length b) (k, v) b) = (if omap_get b k = None then omap_put k v b else b)"
proof (cases "b \<noteq> [] \<and> \<not> fst (last b) < k")
  case True
  then have hint: "fst (flat_insert_hint (length b) (k, v) b) = fst (emplace_key_args k v b)"
    by (auto simp: flat_insert_hint_def emplace_hint_key_args_def last_conv_nth split: prod.split)
  show ?thesis
    using emplace_key_args_fresh [OF assms, of k v] emplace_key_args_present [OF assms, of k _ v] hint
    by (cases "omap_get b k") simp_all
next
  case False
  have less: "\<forall>e \<in> set b. fst e < k" using False flat_last [OF assms] by force
  then have "omap_get b k = None" by (force simp: omap_get_def map_of_eq_None_iff)
  moreover from less have "omap_put k v b = b @ [(k, v)]"
    by (induction b) auto
  moreover have "fst (flat_insert_hint (length b) (k, v) b) = b @ [(k, v)]"
    using less by (auto simp: flat_insert_hint_def emplace_hint_key_args_def unsafe_emplace_def)
  ultimately show ?thesis by simp
qed

text \<open>
  Inserting a range: keys that are present keep their values, of several values for a new key the first
  one counts, and the vector stays sorted.
\<close>

lemma insert_split:
  assumes ok: "flat_ok b" and new: "\<forall>e \<in> set vals. omap_get b (fst e) = None"
    and p: "\<forall>e \<in> set vals. p \<le> flat_lower_bound (fst e) b"
  defines "r \<equiv> take p b @ std_merge (drop p b) (sort_and_unique vals)"
  shows "flat_ok r" "omap_get r k = (case omap_get b k of None \<Rightarrow> map_of vals k | Some v \<Rightarrow> Some v)"
proof -
  let ?u = "sort_and_unique vals"
  have keys: "fst ` set ?u \<subseteq> fst ` set vals"
    using set_std_unique [of "sort_key fst vals"] by (auto simp: sort_and_unique_def)
  have low: "fst d < fst e" if "d \<in> set (take p b)" "e \<in> set ?u" for d e
  proof -
    obtain e' where "e' \<in> set vals" "fst e' = fst e" using keys \<open>e \<in> set ?u\<close> by force
    then show ?thesis using below_lower_bound [OF _ that(1), of "fst e'"] p by auto
  qed
  have "fst ` set b \<inter> fst ` set vals = {}"
    using new by (force simp: omap_get_def map_of_eq_None_iff)
  then have disj: "fst ` set b \<inter> fst ` set ?u = {}" using keys by blast
  have b: "sorted_wrt (<) (map fst (take p b @ drop p b))" using ok by (simp add: omap_ok_def)
  then have parts: "flat_ok (take p b)" "flat_ok (drop p b)"
    "\<forall>d \<in> set (take p b). \<forall>e \<in> set (drop p b). fst d < fst e"
    unfolding omap_ok_def map_append sorted_wrt_append by auto
  have "fst ` set (drop p b) \<inter> fst ` set ?u = {}" using disj set_drop_subset [of p b] by blast
  then have m: "flat_ok (std_merge (drop p b) ?u)" by (rule std_merge_ok [OF parts(2) sort_and_unique_ok])
  with parts low show r: "flat_ok r"
    unfolding r_def omap_ok_def map_append sorted_wrt_append by (auto simp: set_std_merge)
  have "set b = set (take p b) \<union> set (drop p b)" by (metis append_take_drop_id set_append)
  then have "set r = set b \<union> set ?u" by (simp add: r_def set_std_merge Un_assoc)
  then have mem: "omap_get r k = Some v \<longleftrightarrow> omap_get b k = Some v \<or> map_of vals k = Some v" for k v
    using map_of_flat [OF r, of k v] map_of_flat [OF ok, of k v] map_of_flat [OF sort_and_unique_ok, of vals k v]
    by (simp add: sort_and_unique_get)
  have "map_of vals k = None" if "omap_get b k \<noteq> None"
    using that new by (auto simp: map_of_eq_None_iff)
  then show "omap_get r k = (case omap_get b k of None \<Rightarrow> map_of vals k | Some v \<Rightarrow> Some v)"
    using mem [of k] by (cases "omap_get b k"; cases "map_of vals k"; cases "omap_get r k") auto
qed

lemma flat_insert_range_refines:
  assumes "flat_ok b"
  shows "flat_ok (flat_insert_range multipass vals b)"
    "omap_get (flat_insert_range multipass vals b) k = (case omap_get b k of None \<Rightarrow> map_of vals k | Some v \<Rightarrow> Some v)"
proof -
  consider "vals = []" | v where "multipass" "vals = [v]" | "vals \<noteq> []" "\<not> (multipass \<and> tl vals = [])"
    by (cases vals) auto
  then have "flat_ok (flat_insert_range multipass vals b) \<and>
    omap_get (flat_insert_range multipass vals b) k = (case omap_get b k of None \<Rightarrow> map_of vals k | Some v \<Rightarrow> Some v)"
  proof cases
    case 1
    then show ?thesis using assms by (simp add: flat_insert_range_def split: option.split)
  next
    case 2
    then show ?thesis using assms flat_insert_end [OF assms, of "fst v" "snd v"]
      by (auto simp: flat_insert_range_def omap_ok_put split: option.split)
  next
    case 3
    let ?new = "filter (\<lambda>e. omap_get b (fst e) = None) vals"
    let ?p = "fold (\<lambda>e p. min p (flat_lower_bound (fst e) b)) ?new (length b)"
    have p: "?p \<le> length b" by (rule fold_min_le(1))
    have r: "flat_insert_range multipass vals b = take ?p b @ std_merge (drop ?p b) (sort_and_unique ?new)"
      using 3 p insert_loop_run [OF assms, of vals "[]" "length b"] by (auto simp: flat_insert_range_def Let_def)
    have new: "\<forall>e \<in> set ?new. omap_get b (fst e) = None" by simp
    have "\<forall>e \<in> set ?new. ?p \<le> flat_lower_bound (fst e) b" by (rule ballI, rule fold_min_le(2))
    note split = insert_split [OF assms new this, folded r]
    have "map_of ?new k = map_of vals k" if "omap_get b k = None"
      using that by (induction vals) auto
    then show ?thesis using split(1) split(2) [of k] by (simp split: option.split)
  qed
  then show "flat_ok (flat_insert_range multipass vals b)"
    "omap_get (flat_insert_range multipass vals b) k = (case omap_get b k of None \<Rightarrow> map_of vals k | Some v \<Rightarrow> Some v)"
    by blast+
qed

section \<open>The vector itself\<close>

definition flat_extract :: "('k, 'v) flat_map \<Rightarrow> ('k, 'v) flat_map \<times> ('k \<times> 'v) list" where
  "flat_extract body = ([], body)"

definition flat_replace :: "('k \<times> 'v) list \<Rightarrow> ('k, 'v) flat_map \<Rightarrow> ('k, 'v) flat_map" where
  "flat_replace new body = new"

definition flat_eq :: "('k, 'v) flat_map \<Rightarrow> ('k, 'v) flat_map \<Rightarrow> bool" where
  "flat_eq lhs rhs \<longleftrightarrow> lhs = rhs"

text \<open>Two well-formed vectors are equal exactly when they stand for the same map.\<close>

lemma flat_eq_iff:
  assumes "flat_ok a" "flat_ok b"
  shows "flat_eq a b \<longleftrightarrow> omap_get a = omap_get b"
proof
  assume same: "omap_get a = omap_get b"
  have "set a = set b" using map_of_flat [OF assms(1)] map_of_flat [OF assms(2)] same by (auto simp: set_eq_iff)
  moreover have sd: "sorted (map fst a)" "distinct (map fst a)" "sorted (map fst b)" "distinct (map fst b)"
    using assms by (simp_all add: omap_ok_def strict_sorted_iff)
  moreover have "inj_on fst (set a \<union> set b)" using sd(2) \<open>set a = set b\<close> by (simp add: distinct_map)
  ultimately show "flat_eq a b" unfolding flat_eq_def by (intro map_sorted_distinct_set_unique)
qed (simp add: flat_eq_def)

end
