(* ===== verification/Byte_Order.thy ===== *)
theory Byte_Order
  imports Prelude
begin

text \<open>
  The byte order conversions of \<open>rtc_base/byte_order.h\<close> on a little-endian host, and big-endian byte
  strings.
\<close>

section \<open>Conversions\<close>

text \<open>The value whose little-endian bytes are those of \<open>n\<close> in reverse.\<close>

definition byte_swap :: "nat \<Rightarrow> nat \<Rightarrow> nat" where
  "byte_swap k n = le_value (rev (le_bytes k n))"

definition HostToNetwork16 :: "u16 \<Rightarrow> u16" where
  "HostToNetwork16 n = word_of_nat (byte_swap 2 (unat n))"

definition HostToNetwork32 :: "u32 \<Rightarrow> u32" where
  "HostToNetwork32 n = word_of_nat (byte_swap 4 (unat n))"

definition HostToNetwork64 :: "u64 \<Rightarrow> u64" where
  "HostToNetwork64 n = word_of_nat (byte_swap 8 (unat n))"

definition NetworkToHost16 :: "u16 \<Rightarrow> u16" where
  "NetworkToHost16 n = word_of_nat (byte_swap 2 (unat n))"

definition NetworkToHost32 :: "u32 \<Rightarrow> u32" where
  "NetworkToHost32 n = word_of_nat (byte_swap 4 (unat n))"

definition NetworkToHost64 :: "u64 \<Rightarrow> u64" where
  "NetworkToHost64 n = word_of_nat (byte_swap 8 (unat n))"

section \<open>Big-endian bytes\<close>

definition be_bytes :: "nat \<Rightarrow> nat \<Rightarrow> bytes" where
  "be_bytes k n = rev (le_bytes k n)"

lemma length_be_bytes [simp]: "length (be_bytes k n) = k"
  by (simp add: be_bytes_def)

lemma le_bytes_byte_swap: "le_bytes k (byte_swap k n) = be_bytes k n"
  by (simp add: byte_swap_def be_bytes_def)

lemma byte_swap_less: "byte_swap k n < 256 ^ k"
  using le_value_less [of "rev (le_bytes k n)"] by (simp add: byte_swap_def)

lemma byte_swap_be_bytes: "byte_swap k (le_value (be_bytes k n)) = n mod 256 ^ k"
  by (simp add: byte_swap_def be_bytes_def le_value_le_bytes)

lemma unat_byte_swap:
  "unat (HostToNetwork16 n16) = byte_swap 2 (unat n16)"
  "unat (HostToNetwork32 n32) = byte_swap 4 (unat n32)"
  "unat (HostToNetwork64 n64) = byte_swap 8 (unat n64)"
  using byte_swap_less [of 2 "unat n16"] byte_swap_less [of 4 "unat n32"] byte_swap_less [of 8 "unat n64"]
  by (simp_all add: HostToNetwork16_def HostToNetwork32_def HostToNetwork64_def unat_of_nat)

lemma le_value_be_less: "le_value (be_bytes k n) < 256 ^ k"
  using le_value_less [of "be_bytes k n"] by simp

lemma be_bytes_Suc: "be_bytes (Suc k) n = be_bytes k (n div 256) @ [word_of_nat n]"
  by (simp add: be_bytes_def)

lemma be_bytes_top: "n < 256 ^ k \<Longrightarrow> be_bytes (Suc k) n = 0 # be_bytes k n"
proof (induction k arbitrary: n)
  case 0
  then show ?case by (simp add: be_bytes_def)
next
  case (Suc k)
  then have "n div 256 < 256 ^ k" by (simp add: less_mult_imp_div_less)
  with Suc.IH [of "n div 256"] show ?case
    using be_bytes_Suc [of "Suc k" n] be_bytes_Suc [of k n] by simp
qed

text \<open>Swapping twice gives the value back.\<close>

lemma byte_swap_twice: "byte_swap k (byte_swap k n) = n mod 256 ^ k"
  by (simp add: byte_swap_def le_value_le_bytes)

lemma HostToNetwork_involution [simp]:
  "HostToNetwork16 (HostToNetwork16 n16) = n16" "HostToNetwork32 (HostToNetwork32 n32) = n32"
  "HostToNetwork64 (HostToNetwork64 n64) = n64"
  using unsigned_less [of n16, where 'a = nat] unsigned_less [of n32, where 'a = nat]
    unsigned_less [of n64, where 'a = nat]
  by (simp_all add: HostToNetwork16_def [of "HostToNetwork16 _"] HostToNetwork32_def [of "HostToNetwork32 _"]
      HostToNetwork64_def [of "HostToNetwork64 _"] unat_byte_swap byte_swap_twice)

end
