(* ===== verification/Net_Address.thy ===== *)
theory Net_Address
  imports Containers Byte_Order "HOL-Library.List_Lexorder" "HOL-Library.Char_ord"
begin

unbundle bit_operations_syntax

text \<open>
  \<open>rtc::IPAddress\<close>, \<open>rtc::InterfaceAddress\<close> and \<open>rtc::SocketAddress\<close>
  (\<open>webrtc/rtc_base/ip_address.{h,cc}\<close>, \<open>socket_address.{h,cc}\<close>), which the LAN thread and the peer
  table compare, classify and convert.  An IPv4 address is its value in host order, an IPv6 address
  the 128-bit big-endian value of its sixteen bytes, so that \<open>memcmp\<close> of two addresses is the
  comparison of their values.  The conversions to and from text are in \<open>Addr_Text\<close>.
\<close>

section \<open>IPv6 byte strings\<close>

type_synonym in6_addr = "128 word"

definition s6_addr :: "in6_addr \<Rightarrow> nat \<Rightarrow> u8" where
  "s6_addr a i = ucast (drop_bit (8 * (15 - i)) a)"

definition in6addr_any :: in6_addr where "in6addr_any = 0"
definition in6addr_loopback :: in6_addr where "in6addr_loopback = 1"

definition kV4MappedPrefix :: in6_addr where "kV4MappedPrefix = 0xFFFF00000000"
definition k6To4Prefix :: in6_addr where "k6To4Prefix = push_bit 112 0x2002"
definition kTeredoPrefix :: in6_addr where "kTeredoPrefix = push_bit 96 0x20010000"
definition kV4CompatibilityPrefix :: in6_addr where "kV4CompatibilityPrefix = 0"
definition k6BonePrefix :: in6_addr where "k6BonePrefix = push_bit 112 0x3FFE"
definition kPrivateNetworkPrefix :: in6_addr where "kPrivateNetworkPrefix = push_bit 120 0xFD"

section \<open>IPAddress\<close>

datatype IPAddress = AF_UNSPEC | AF_INET u32 | AF_INET6 in6_addr

definition v4AddressAsHostOrderInteger :: "IPAddress \<Rightarrow> u32" where
  "v4AddressAsHostOrderInteger ip = (case ip of AF_INET a \<Rightarrow> a | _ \<Rightarrow> 0)"

definition overhead :: "IPAddress \<Rightarrow> int" where
  "overhead ip = (case ip of AF_INET a \<Rightarrow> 20 | AF_INET6 a \<Rightarrow> 40 | AF_UNSPEC \<Rightarrow> 0)"

definition IPAddress_Size :: "IPAddress \<Rightarrow> nat" where
  "IPAddress_Size ip = (case ip of AF_INET a \<Rightarrow> 4 | AF_INET6 a \<Rightarrow> 16 | AF_UNSPEC \<Rightarrow> 0)"

text \<open>
  \<open>ipv6_address()\<close> reads the union whatever the family: an IPv4 address stands in the first four
  bytes, over zeros.
\<close>

definition ipv6_address :: "IPAddress \<Rightarrow> in6_addr" where
  "ipv6_address ip = (case ip of AF_UNSPEC \<Rightarrow> 0 | AF_INET a \<Rightarrow> push_bit 96 (ucast a) | AF_INET6 a \<Rightarrow> a)"

definition IPAddress_eq :: "IPAddress \<Rightarrow> IPAddress \<Rightarrow> bool" where
  "IPAddress_eq a b =
     (case (a, b) of
        (AF_INET x, AF_INET y) \<Rightarrow> x = y
      | (AF_INET6 x, AF_INET6 y) \<Rightarrow> x = y
      | (AF_UNSPEC, AF_UNSPEC) \<Rightarrow> True
      | _ \<Rightarrow> False)"

definition IPAddress_less :: "IPAddress \<Rightarrow> IPAddress \<Rightarrow> bool" where
  "IPAddress_less a b =
     (case (a, b) of
        (AF_INET x, AF_INET y) \<Rightarrow> x < y
      | (AF_INET6 x, AF_INET6 y) \<Rightarrow> x < y
      | (AF_UNSPEC, AF_UNSPEC) \<Rightarrow> False
      | (AF_UNSPEC, _) \<Rightarrow> True
      | (AF_INET x, AF_INET6 y) \<Rightarrow> True
      | _ \<Rightarrow> False)"

definition IPAddress_greater :: "IPAddress \<Rightarrow> IPAddress \<Rightarrow> bool" where
  "IPAddress_greater a b = (\<not> IPAddress_eq a b \<and> \<not> IPAddress_less a b)"

lemma IPAddress_eq_iff [simp]: "IPAddress_eq a b \<longleftrightarrow> a = b"
  by (cases a; cases b) (simp_all add: IPAddress_eq_def)

text \<open>\<open>operator<\<close> is the order \<open>std::set<rtc::IPAddress>\<close> sorts by: it is a linear order.\<close>

instantiation IPAddress :: linorder
begin

definition less_IPAddress :: "IPAddress \<Rightarrow> IPAddress \<Rightarrow> bool" where
  "less_IPAddress a b = IPAddress_less a b"

definition less_eq_IPAddress :: "IPAddress \<Rightarrow> IPAddress \<Rightarrow> bool" where
  "less_eq_IPAddress a b = (IPAddress_less a b \<or> a = b)"

instance
proof
  fix x y z :: IPAddress
  show "(x < y) = (x \<le> y \<and> \<not> y \<le> x)"
    by (cases x; cases y) (auto simp: less_IPAddress_def less_eq_IPAddress_def IPAddress_less_def)
  show "x \<le> x"
    by (simp add: less_eq_IPAddress_def)
  show "x \<le> y \<Longrightarrow> y \<le> z \<Longrightarrow> x \<le> z"
    by (cases x; cases y; cases z) (auto simp: less_eq_IPAddress_def IPAddress_less_def)
  show "x \<le> y \<Longrightarrow> y \<le> x \<Longrightarrow> x = y"
    by (cases x; cases y) (auto simp: less_eq_IPAddress_def IPAddress_less_def)
  show "x \<le> y \<or> y \<le> x"
    by (cases x; cases y) (auto simp: less_eq_IPAddress_def IPAddress_less_def)
qed

end

lemma IPAddress_greater_iff: "IPAddress_greater a b \<longleftrightarrow> b < a"
  unfolding IPAddress_greater_def IPAddress_eq_iff less_IPAddress_def [symmetric]
  by (metis less_asym neq_iff)

section \<open>Classification\<close>

definition IPIsUnspec :: "IPAddress \<Rightarrow> bool" where
  "IPIsUnspec ip = (case ip of AF_UNSPEC \<Rightarrow> True | _ \<Rightarrow> False)"

definition IPIsHelper :: "IPAddress \<Rightarrow> in6_addr \<Rightarrow> nat \<Rightarrow> bool" where
  "IPIsHelper ip tomatch len =
     (let k = 8 * (len div 8)
      in drop_bit (128 - k) (ipv6_address ip) = drop_bit (128 - k) tomatch)"

definition IPIs6Bone :: "IPAddress \<Rightarrow> bool" where "IPIs6Bone ip = IPIsHelper ip k6BonePrefix 16"
definition IPIs6To4 :: "IPAddress \<Rightarrow> bool" where "IPIs6To4 ip = IPIsHelper ip k6To4Prefix 16"
definition IPIsTeredo :: "IPAddress \<Rightarrow> bool" where "IPIsTeredo ip = IPIsHelper ip kTeredoPrefix 32"

definition IPIsV4Compatibility :: "IPAddress \<Rightarrow> bool" where
  "IPIsV4Compatibility ip = IPIsHelper ip kV4CompatibilityPrefix 96"

definition IPIsV4Mapped :: "IPAddress \<Rightarrow> bool" where
  "IPIsV4Mapped ip = IPIsHelper ip kV4MappedPrefix 96"

definition IPIsPrivateNetworkV4 :: "IPAddress \<Rightarrow> bool" where
  "IPIsPrivateNetworkV4 ip =
     (let w = v4AddressAsHostOrderInteger ip
      in drop_bit 24 w = 10 \<or> drop_bit 20 w = (push_bit 4 172 OR 1) \<or>
         drop_bit 16 w = (push_bit 8 192 OR 168))"

definition IPIsPrivateNetworkV6 :: "IPAddress \<Rightarrow> bool" where
  "IPIsPrivateNetworkV6 ip = IPIsHelper ip kPrivateNetworkPrefix 8"

definition IPIsPrivateNetwork :: "IPAddress \<Rightarrow> bool" where
  "IPIsPrivateNetwork ip =
     (case ip of AF_INET a \<Rightarrow> IPIsPrivateNetworkV4 ip | AF_INET6 a \<Rightarrow> IPIsPrivateNetworkV6 ip
      | AF_UNSPEC \<Rightarrow> False)"

definition IPIsSharedNetworkV4 :: "IPAddress \<Rightarrow> bool" where
  "IPIsSharedNetworkV4 ip = (drop_bit 22 (v4AddressAsHostOrderInteger ip) = (push_bit 2 100 OR 1))"

definition IPIsSharedNetwork :: "IPAddress \<Rightarrow> bool" where
  "IPIsSharedNetwork ip = (case ip of AF_INET a \<Rightarrow> IPIsSharedNetworkV4 ip | _ \<Rightarrow> False)"

definition IPIsAny :: "IPAddress \<Rightarrow> bool" where
  "IPIsAny ip =
     (case ip of
        AF_INET a \<Rightarrow> IPAddress_eq ip (AF_INET 0)
      | AF_INET6 a \<Rightarrow> IPAddress_eq ip (AF_INET6 in6addr_any) \<or> IPAddress_eq ip (AF_INET6 kV4MappedPrefix)
      | AF_UNSPEC \<Rightarrow> False)"

definition IPIsLoopbackV4 :: "IPAddress \<Rightarrow> bool" where
  "IPIsLoopbackV4 ip = (drop_bit 24 (v4AddressAsHostOrderInteger ip) = 127)"

definition IPIsLoopbackV6 :: "IPAddress \<Rightarrow> bool" where
  "IPIsLoopbackV6 ip = IPAddress_eq ip (AF_INET6 in6addr_loopback)"

definition IPIsLoopback :: "IPAddress \<Rightarrow> bool" where
  "IPIsLoopback ip =
     (case ip of AF_INET a \<Rightarrow> IPIsLoopbackV4 ip | AF_INET6 a \<Rightarrow> IPIsLoopbackV6 ip | AF_UNSPEC \<Rightarrow> False)"

definition IPIsLinkLocalV4 :: "IPAddress \<Rightarrow> bool" where
  "IPIsLinkLocalV4 ip = (drop_bit 16 (v4AddressAsHostOrderInteger ip) = (push_bit 8 169 OR 254))"

definition IPIsLinkLocalV6 :: "IPAddress \<Rightarrow> bool" where
  "IPIsLinkLocalV6 ip =
     (let addr = ipv6_address ip in s6_addr addr 0 = 0xFE \<and> s6_addr addr 1 AND 0xC0 = 0x80)"

definition IPIsLinkLocal :: "IPAddress \<Rightarrow> bool" where
  "IPIsLinkLocal ip =
     (case ip of AF_INET a \<Rightarrow> IPIsLinkLocalV4 ip | AF_INET6 a \<Rightarrow> IPIsLinkLocalV6 ip | AF_UNSPEC \<Rightarrow> False)"

definition IPIsPrivate :: "IPAddress \<Rightarrow> bool" where
  "IPIsPrivate ip =
     (IPIsLinkLocal ip \<or> IPIsLoopback ip \<or> IPIsPrivateNetwork ip \<or> IPIsSharedNetwork ip)"

definition IPIsMacBased :: "IPAddress \<Rightarrow> bool" where
  "IPIsMacBased ip =
     (let addr = ipv6_address ip
      in s6_addr addr 8 AND 0x02 \<noteq> 0 \<and> s6_addr addr 11 = 0xFF \<and> s6_addr addr 12 = 0xFE)"

definition IPIsSiteLocal :: "IPAddress \<Rightarrow> bool" where
  "IPIsSiteLocal ip =
     (let addr = ipv6_address ip in s6_addr addr 0 = 0xFE \<and> s6_addr addr 1 AND 0xC0 = 0xC0)"

definition IPIsULA :: "IPAddress \<Rightarrow> bool" where
  "IPIsULA ip = (s6_addr (ipv6_address ip) 0 AND 0xFE = 0xFC)"

definition IPAddressPrecedence :: "IPAddress \<Rightarrow> int" where
  "IPAddressPrecedence ip =
     (case ip of
        AF_INET a \<Rightarrow> 30
      | AF_INET6 a \<Rightarrow>
          if IPIsLoopback ip then 60
          else if IPIsULA ip then 50
          else if IPIsV4Mapped ip then 30
          else if IPIs6To4 ip then 20
          else if IPIsTeredo ip then 10
          else if IPIsV4Compatibility ip \<or> IPIsSiteLocal ip \<or> IPIs6Bone ip then 1
          else 40
      | AF_UNSPEC \<Rightarrow> 0)"

section \<open>Conversion, truncation, mask length\<close>

definition ExtractMappedAddress :: "in6_addr \<Rightarrow> u32" where
  "ExtractMappedAddress in6 = ucast in6"

definition Normalized :: "IPAddress \<Rightarrow> IPAddress" where
  "Normalized ip =
     (case ip of
        AF_INET6 a \<Rightarrow> if \<not> IPIsV4Mapped ip then ip else AF_INET (ExtractMappedAddress a)
      | _ \<Rightarrow> ip)"

definition AsIPv6Address :: "IPAddress \<Rightarrow> IPAddress" where
  "AsIPv6Address ip =
     (case ip of AF_INET a \<Rightarrow> AF_INET6 (kV4MappedPrefix OR ucast a) | _ \<Rightarrow> ip)"

text \<open>The address as four 32-bit words in host order, the first one the most significant.\<close>

definition v6_word :: "in6_addr \<Rightarrow> nat \<Rightarrow> u32" where
  "v6_word a i = ucast (drop_bit (32 * (3 - i)) a)"

definition v6_of_words :: "(nat \<Rightarrow> u32) \<Rightarrow> in6_addr" where
  "v6_of_words w =
     push_bit 96 (ucast (w 0)) OR push_bit 64 (ucast (w 1)) OR push_bit 32 (ucast (w 2)) OR ucast (w 3)"

definition TruncateIP :: "IPAddress \<Rightarrow> int \<Rightarrow> IPAddress" where
  "TruncateIP ip len =
     (if len < 0 then AF_UNSPEC
      else case ip of
        AF_INET a \<Rightarrow>
          if 31 < len then ip
          else if len = 0 then AF_INET 0
          else AF_INET (a AND push_bit (32 - nat len) 0xFFFFFFFF)
      | AF_INET6 a \<Rightarrow>
          if 127 < len then ip
          else if len = 0 then AF_INET6 in6addr_any
          else
            let position = nat len div 32;
                inner_length = 32 - (nat len - position * 32);
                inner_mask = ucast (push_bit inner_length (0xFFFFFFFF :: u64)) :: u32
            in AF_INET6 (v6_of_words (\<lambda>i.
                 if i = position then v6_word a i AND inner_mask
                 else if i > position then 0 else v6_word a i))
      | AF_UNSPEC \<Rightarrow> AF_UNSPEC)"

text \<open>
  The bit trick of \<open>CountIPMaskBits\<close>: isolate the lowest set bit, then binary search for its
  position with five masks.
\<close>

definition count_zeroes :: "u32 \<Rightarrow> u32" where
  "count_zeroes word =
     (let w = word AND (NOT word + 1);
          z = 32 - (if w \<noteq> 0 then 1 else 0)
              - (if w AND 0x0000FFFF \<noteq> 0 then 16 else 0)
              - (if w AND 0x00FF00FF \<noteq> 0 then 8 else 0)
              - (if w AND 0x0F0F0F0F \<noteq> 0 then 4 else 0)
              - (if w AND 0x33333333 \<noteq> 0 then 2 else 0)
              - (if w AND 0x55555555 \<noteq> 0 then 1 else 0)
      in z)"

function leading_full_words :: "in6_addr \<Rightarrow> nat \<Rightarrow> nat" where
  "leading_full_words a i =
     (if i < 4 then (if v6_word a i \<noteq> 0xFFFFFFFF then i else leading_full_words a (Suc i)) else i)"
  by pat_completeness auto
termination
  by (relation "measure (\<lambda>(a, i). 4 - i)") auto

declare leading_full_words.simps [simp del]

definition CountIPMaskBits :: "IPAddress \<Rightarrow> int" where
  "CountIPMaskBits m =
     (case m of
        AF_UNSPEC \<Rightarrow> 0
      | AF_INET a \<Rightarrow> if a = 0 then 0 else uint (32 - count_zeroes a)
      | AF_INET6 a \<Rightarrow>
          let i = leading_full_words a 0;
              w = (if i < 4 then v6_word a i else 0);
              bits = int i * 32
          in if w = 0 then bits else bits + uint (32 - count_zeroes w))"

definition HashIP :: "IPAddress \<Rightarrow> u64" where
  "HashIP ip =
     (case ip of
        AF_INET a \<Rightarrow> ucast (HostToNetwork32 a)
      | AF_INET6 a \<Rightarrow>
          ucast (HostToNetwork32 (v6_word a 0) XOR HostToNetwork32 (v6_word a 1)
                 XOR HostToNetwork32 (v6_word a 2) XOR HostToNetwork32 (v6_word a 3))
      | AF_UNSPEC \<Rightarrow> 0)"

section \<open>Properties of addresses\<close>

lemmas ip_class_defs = IPIsLoopback_def IPIsLoopbackV4_def IPIsLinkLocal_def IPIsLinkLocalV4_def
  IPIsPrivateNetwork_def IPIsPrivateNetworkV4_def IPIsSharedNetwork_def IPIsSharedNetworkV4_def
  v4AddressAsHostOrderInteger_def

lemma IPIsV4Mapped_iff:
  "IPIsV4Mapped (AF_INET6 a) \<longleftrightarrow> drop_bit 32 a = 0xFFFF"
  by (simp add: IPIsV4Mapped_def IPIsHelper_def ipv6_address_def kV4MappedPrefix_def)

lemma mapped_prefix_drop: "drop_bit 32 (kV4MappedPrefix OR (ucast (a :: u32) :: in6_addr)) = 0xFFFF"
proof -
  have "drop_bit 32 (ucast a :: in6_addr) = 0"
    by (rule bit_word_eqI) (auto simp: bit_simps dest: bit_imp_le_length)
  then show ?thesis
    by (simp add: kV4MappedPrefix_def)
qed

lemma mapped_prefix_low: "ucast (kV4MappedPrefix OR (ucast (a :: u32) :: in6_addr)) = a"
proof -
  have "(ucast kV4MappedPrefix :: u32) = 0"
    by (simp add: kV4MappedPrefix_def)
  moreover have "(ucast (ucast a :: in6_addr) :: u32) = a"
    by (rule bit_word_eqI) (simp add: bit_simps)
  ultimately show ?thesis
    by (simp add: unsigned_or_eq)
qed

lemma Normalized_AsIPv6Address: "Normalized (AsIPv6Address (AF_INET a)) = AF_INET a"
  by (simp add: Normalized_def AsIPv6Address_def IPIsV4Mapped_iff mapped_prefix_drop
      mapped_prefix_low ExtractMappedAddress_def del: drop_bit_or)

lemma AsIPv6Address_Normalized:
  assumes "IPIsV4Mapped (AF_INET6 a)"
  shows "AsIPv6Address (Normalized (AF_INET6 a)) = AF_INET6 a"
proof -
  have "kV4MappedPrefix OR ucast (ucast a :: u32) = a"
  proof (rule bit_word_eqI)
    fix n assume n: "n < LENGTH(128)"
    have "bit (drop_bit 32 a) (n - 32) = bit (0xFFFF :: in6_addr) (n - 32)"
      using assms by (simp add: IPIsV4Mapped_iff)
    moreover have "bit kV4MappedPrefix n = (32 \<le> n \<and> bit (0xFFFF :: in6_addr) (n - 32))"
    proof -
      have eq: "kV4MappedPrefix = push_bit 32 0xFFFF" by (simp add: kV4MappedPrefix_def)
      show ?thesis unfolding eq bit_push_bit_iff using n by auto
    qed
    ultimately show "bit (kV4MappedPrefix OR ucast (ucast a :: u32)) n = bit a n"
      using n by (auto simp: bit_simps)
  qed
  then show ?thesis
    using assms by (simp add: Normalized_def AsIPv6Address_def ExtractMappedAddress_def)
qed

text \<open>Truncation is masking with the leading \<open>len\<close> bits.\<close>

lemma u32_ones: "(0xFFFFFFFF :: u32) = mask 32"
  by (simp add: mask_eq_exp_minus_1)

lemma u64_low_ones: "(0xFFFFFFFF :: u64) = mask 32"
  by (simp add: mask_eq_exp_minus_1)

lemma TruncateIP_v4:
  assumes "0 \<le> len" "len \<le> 32"
  shows "TruncateIP (AF_INET a) len = AF_INET (a AND NOT (mask (32 - nat len)))"
proof -
  consider "len = 32" | "len = 0" | "0 < len" "len \<le> 31" using assms by linarith
  then show ?thesis
  proof cases
    case 3
    have "push_bit (32 - nat len) (0xFFFFFFFF :: u32) = NOT (mask (32 - nat len))"
      unfolding u32_ones by (rule bit_word_eqI) (auto simp: bit_simps)
    with 3 show ?thesis by (simp add: TruncateIP_def)
  next
    case 2
    have "a AND NOT (mask 32) = 0"
      by (rule bit_word_eqI) (simp add: bit_simps)
    with 2 show ?thesis by (simp add: TruncateIP_def)
  qed (simp_all add: TruncateIP_def)
qed

lemma v6_of_words_bit:
  "n < 128 \<Longrightarrow> bit (v6_of_words w) n = bit (w (3 - n div 32)) (n mod 32)"
proof -
  assume n: "n < 128"
  then consider "n < 32" | "32 \<le> n" "n < 64" | "64 \<le> n" "n < 96" | "96 \<le> n" by linarith
  then show ?thesis
  proof cases
    case 1
    then show ?thesis by (auto simp: v6_of_words_def bit_simps)
  next
    case 2
    then have "n div 32 = 1" "n mod 32 = n - 32" by (simp_all add: le_mod_geq le_div_geq)
    with 2 show ?thesis by (auto simp: v6_of_words_def bit_simps dest: bit_imp_le_length)
  next
    case 3
    then have "n div 32 = 2" "n mod 32 = n - 64" by (simp_all add: le_mod_geq le_div_geq)
    with 3 show ?thesis by (auto simp: v6_of_words_def bit_simps dest: bit_imp_le_length)
  next
    case 4
    then have "n div 32 = 3" "n mod 32 = n - 96" using n by (simp_all add: le_mod_geq le_div_geq)
    with 4 n show ?thesis by (auto simp: v6_of_words_def bit_simps dest: bit_imp_le_length)
  qed
qed

lemma v6_word_bit: "i < 4 \<Longrightarrow> n < 32 \<Longrightarrow> bit (v6_word a i) n = bit a (32 * (3 - i) + n)"
  by (auto simp: v6_word_def bit_simps)

lemma v6_of_words_v6_word: "v6_of_words (v6_word a) = a"
proof (rule bit_word_eqI)
  fix n assume "n < LENGTH(128)"
  then have n: "n < 128" by simp
  then have "n div 32 < 4" by auto
  then have "32 * (3 - (3 - n div 32)) + n mod 32 = n" by auto
  with n show "bit (v6_of_words (v6_word a)) n = bit a n"
    by (simp add: v6_of_words_bit v6_word_bit)
qed

lemma TruncateIP_v6:
  assumes "0 \<le> len" "len \<le> 128"
  shows "TruncateIP (AF_INET6 a) len = AF_INET6 (a AND NOT (mask (128 - nat len)))"
proof -
  consider "len = 128" | "len = 0" | "0 < len" "len \<le> 127" using assms by linarith
  then show ?thesis
  proof cases
    case 1
    then show ?thesis by (simp add: TruncateIP_def)
  next
    case 2
    have "a AND NOT (mask 128) = 0"
      by (rule bit_word_eqI) (simp add: bit_simps)
    with 2 show ?thesis by (simp add: TruncateIP_def in6addr_any_def)
  next
    case 3
    define l where "l = nat len"
    define p where "p = l div 32"
    define im where "im = (ucast (push_bit (32 - (l - p * 32)) (0xFFFFFFFF :: u64)) :: u32)"
    have l: "0 < l" "l \<le> 127" using 3 by (auto simp: l_def)
    have im: "bit im k = (32 - (l - p * 32) \<le> k)" if "k < 32" for k
      using that unfolding im_def u64_low_ones by (auto simp: bit_simps)
    have "v6_of_words (\<lambda>i. if i = p then v6_word a i AND im else if i > p then 0 else v6_word a i)
       = a AND NOT (mask (128 - l))" (is "?w = ?m")
    proof (rule bit_word_eqI)
      fix n assume "n < LENGTH(128)"
      then have n: "n < 128" by simp
      then have d: "n div 32 < 4" "n mod 32 < 32" by auto
      define q r t where "q = n div 32" and "r = n mod 32" and "t = l - p * 32"
      have nq: "n = 32 * q + r" "r < 32" "q < 4" and lt: "l = 32 * p + t" "t < 32" "p < 4"
        using d l by (auto simp: q_def r_def t_def p_def)
      have ix: "32 * (3 - (3 - n div 32)) + n mod 32 = n" using d by auto
      have "bit ?w n = (bit a n \<and> 128 - l \<le> n)"
      proof (cases "3 - n div 32 = p")
        case True
        then have "(32 - (l - p * 32) \<le> n mod 32) = (128 - l \<le> n)"
          using nq lt unfolding q_def [symmetric] r_def [symmetric] t_def [symmetric] by arith
        then show ?thesis
          using True n d im [of "n mod 32"] ix
          by (auto simp: v6_of_words_bit v6_word_bit bit_and_iff)
      next
        case False
        then have "(p < 3 - n div 32) = (\<not> 128 - l \<le> n)"
          using nq lt unfolding q_def [symmetric] by arith
        then show ?thesis
          using False n d ix by (auto simp: v6_of_words_bit v6_word_bit)
      qed
      then show "bit ?w n = bit ?m n"
        using n by (auto simp: bit_simps)
    qed
    with 3 show ?thesis
      unfolding TruncateIP_def Let_def l_def [symmetric] p_def [symmetric] im_def [symmetric]
      by simp
  qed
qed

text \<open>The bit trick finds the length of every contiguous IPv4 mask.\<close>

lemma CountIPMaskBits_netmask:
  assumes "n \<le> 32"
  shows "CountIPMaskBits (AF_INET (NOT (mask (32 - n)))) = int n"
proof -
  have "\<forall>k\<in>set [0..<33]. CountIPMaskBits (AF_INET (NOT (mask (32 - k)))) = int k"
    by (simp add: upt_rec CountIPMaskBits_def count_zeroes_def Let_def mask_eq_exp_minus_1)
  with assms show ?thesis by simp
qed

text \<open>
  On a mask with a hole it is the position of the lowest set bit that counts, although the
  comment in the header says that bits after the first 0 are not counted.
\<close>

lemma CountIPMaskBits_hole: "CountIPMaskBits (AF_INET 0xFF00FF00) = 24"
  by (simp add: CountIPMaskBits_def count_zeroes_def Let_def)

section \<open>SocketAddress\<close>

record SocketAddress =
  sa_hostname :: string
  sa_ip :: IPAddress
  sa_port :: u16
  sa_scope_id :: int
  sa_literal :: bool

definition SocketAddress_Clear :: SocketAddress where
  "SocketAddress_Clear =
     \<lparr>sa_hostname = [], sa_ip = AF_UNSPEC, sa_port = 0, sa_scope_id = 0, sa_literal = False\<rparr>"

definition SetIP :: "IPAddress \<Rightarrow> SocketAddress \<Rightarrow> SocketAddress" where
  "SetIP ip a = a\<lparr>sa_hostname := [], sa_literal := False, sa_ip := ip, sa_scope_id := 0\<rparr>"

definition SetResolvedIP :: "IPAddress \<Rightarrow> SocketAddress \<Rightarrow> SocketAddress" where
  "SetResolvedIP ip a = a\<lparr>sa_ip := ip, sa_scope_id := 0\<rparr>"

text \<open>\<open>dchecked_cast<uint16_t>\<close> is a plain narrowing conversion in a release build.\<close>

definition SetPort :: "int \<Rightarrow> SocketAddress \<Rightarrow> SocketAddress" where
  "SetPort port a = a\<lparr>sa_port := word_of_int port\<rparr>"

definition SocketAddress_new :: "IPAddress \<Rightarrow> int \<Rightarrow> SocketAddress" where
  "SocketAddress_new ip port = SetPort port (SetIP ip SocketAddress_Clear)"

definition SocketAddress_assign :: "SocketAddress \<Rightarrow> SocketAddress \<Rightarrow> SocketAddress" where
  "SocketAddress_assign this addr =
     this\<lparr>sa_hostname := sa_hostname addr, sa_ip := sa_ip addr, sa_port := sa_port addr,
          sa_literal := sa_literal addr, sa_scope_id := sa_scope_id addr\<rparr>"

definition SocketAddress_IsNil :: "SocketAddress \<Rightarrow> bool" where
  "SocketAddress_IsNil a = (sa_hostname a = [] \<and> IPIsUnspec (sa_ip a) \<and> sa_port a = 0)"

definition IsComplete :: "SocketAddress \<Rightarrow> bool" where
  "IsComplete a = (\<not> IPIsAny (sa_ip a) \<and> sa_port a \<noteq> 0)"

definition IsUnresolvedIP :: "SocketAddress \<Rightarrow> bool" where
  "IsUnresolvedIP a = (IPIsUnspec (sa_ip a) \<and> \<not> sa_literal a \<and> sa_hostname a \<noteq> [])"

definition IsLoopbackIP :: "SocketAddress \<Rightarrow> bool" where
  "IsLoopbackIP a = (IPIsLoopback (sa_ip a) \<or> (IPIsAny (sa_ip a) \<and> sa_hostname a = ''localhost''))"

definition EqualIPs :: "SocketAddress \<Rightarrow> SocketAddress \<Rightarrow> bool" where
  "EqualIPs this addr =
     (IPAddress_eq (sa_ip this) (sa_ip addr) \<and>
      ((\<not> IPIsAny (sa_ip this) \<and> \<not> IPIsUnspec (sa_ip this)) \<or> sa_hostname this = sa_hostname addr))"

definition EqualPorts :: "SocketAddress \<Rightarrow> SocketAddress \<Rightarrow> bool" where
  "EqualPorts this addr = (sa_port this = sa_port addr)"

definition SocketAddress_eq :: "SocketAddress \<Rightarrow> SocketAddress \<Rightarrow> bool" where
  "SocketAddress_eq this addr = (EqualIPs this addr \<and> EqualPorts this addr)"

definition SocketAddress_less :: "SocketAddress \<Rightarrow> SocketAddress \<Rightarrow> bool" where
  "SocketAddress_less this addr =
     (if \<not> IPAddress_eq (sa_ip this) (sa_ip addr) then sa_ip this < sa_ip addr
      else if (IPIsAny (sa_ip this) \<or> IPIsUnspec (sa_ip this)) \<and> sa_hostname this \<noteq> sa_hostname addr
      then sa_hostname this < sa_hostname addr
      else sa_port this < sa_port addr)"

definition SocketAddress_Hash :: "SocketAddress \<Rightarrow> u64" where
  "SocketAddress_Hash a =
     (0 XOR HashIP (sa_ip a)) XOR (ucast (sa_port a) OR push_bit 16 (ucast (sa_port a)))"

section \<open>Socket address storage\<close>

text \<open>
  \<open>sockaddr_storage\<close> holds a family, a port and an address in network order, and for IPv6 a scope.
\<close>

datatype sockaddr_storage =
    ss_unspec
  | ss_in u16 u32
  | ss_in6 u16 in6_addr int

definition ToSockAddrStorageHelper :: "IPAddress \<Rightarrow> u16 \<Rightarrow> int \<Rightarrow> sockaddr_storage \<times> nat" where
  "ToSockAddrStorageHelper ip port scope_id =
     (case ip of
        AF_INET6 a \<Rightarrow> (ss_in6 (HostToNetwork16 port) a scope_id, 28)
      | AF_INET a \<Rightarrow> (ss_in (HostToNetwork16 port) (HostToNetwork32 a), 16)
      | AF_UNSPEC \<Rightarrow> (ss_unspec, 0))"

definition ToSockAddrStorage :: "SocketAddress \<Rightarrow> sockaddr_storage \<times> nat" where
  "ToSockAddrStorage a = ToSockAddrStorageHelper (sa_ip a) (sa_port a) (sa_scope_id a)"

definition ToDualStackSockAddrStorage :: "SocketAddress \<Rightarrow> sockaddr_storage \<times> nat" where
  "ToDualStackSockAddrStorage a =
     ToSockAddrStorageHelper (AsIPv6Address (sa_ip a)) (sa_port a) (sa_scope_id a)"

definition SocketAddressFromSockAddrStorage :: "sockaddr_storage \<Rightarrow> SocketAddress option" where
  "SocketAddressFromSockAddrStorage s =
     (case s of
        ss_in p a \<Rightarrow> Some (SocketAddress_new (AF_INET (HostToNetwork32 a)) (uint (HostToNetwork16 p)))
      | ss_in6 p a sc \<Rightarrow>
          Some ((SocketAddress_new (AF_INET6 a) (uint (HostToNetwork16 p)))\<lparr>sa_scope_id := sc\<rparr>)
      | ss_unspec \<Rightarrow> None)"

section \<open>Properties of socket addresses\<close>

lemma SocketAddress_eq_refl [simp]: "SocketAddress_eq a a"
  by (simp add: SocketAddress_eq_def EqualIPs_def EqualPorts_def)

lemma SocketAddress_eq_sym: "SocketAddress_eq a b \<Longrightarrow> SocketAddress_eq b a"
  by (auto simp: SocketAddress_eq_def EqualIPs_def EqualPorts_def)

lemma SocketAddress_eq_trans: "SocketAddress_eq a b \<Longrightarrow> SocketAddress_eq b c \<Longrightarrow> SocketAddress_eq a c"
  by (auto simp: SocketAddress_eq_def EqualIPs_def EqualPorts_def)

lemma SocketAddress_assign_eq [simp]: "SocketAddress_assign a b = b"
  by (simp add: SocketAddress_assign_def)

lemma SocketAddress_less_irrefl: "\<not> SocketAddress_less a a"
  by (simp add: SocketAddress_less_def)

lemma SocketAddress_less_trans:
  "SocketAddress_less a b \<Longrightarrow> SocketAddress_less b c \<Longrightarrow> SocketAddress_less a c"
  by (auto simp: SocketAddress_less_def split: if_splits dest: less_trans)

text \<open>\<open>operator<\<close> and \<open>operator==\<close> agree: two addresses are equal when neither is less.\<close>

lemma SocketAddress_trichotomy:
  "SocketAddress_eq a b \<longleftrightarrow> \<not> SocketAddress_less a b \<and> \<not> SocketAddress_less b a"
  by (auto simp: SocketAddress_eq_def SocketAddress_less_def EqualIPs_def EqualPorts_def)

lemma storage_roundtrip:
  assumes "sa_ip a \<noteq> AF_UNSPEC"
  shows "SocketAddressFromSockAddrStorage (fst (ToSockAddrStorage a)) =
     Some (a\<lparr>sa_hostname := [], sa_literal := False,
             sa_scope_id := (case sa_ip a of AF_INET6 _ \<Rightarrow> sa_scope_id a | _ \<Rightarrow> 0)\<rparr>)"
  using assms
  by (cases "sa_ip a") (simp_all add: ToSockAddrStorage_def ToSockAddrStorageHelper_def
      SocketAddressFromSockAddrStorage_def SocketAddress_new_def SetPort_def SetIP_def
      SocketAddress_Clear_def)

lemma dual_stack_roundtrip:
  assumes "sa_ip a = AF_INET v"
  shows "map_option (\<lambda>b. (Normalized (sa_ip b), sa_port b))
       (SocketAddressFromSockAddrStorage (fst (ToDualStackSockAddrStorage a))) =
     Some (AF_INET v, sa_port a)"
proof -
  have six: "AsIPv6Address (AF_INET v) = AF_INET6 (kV4MappedPrefix OR ucast v)"
    by (simp add: AsIPv6Address_def)
  have "Normalized (AF_INET6 (kV4MappedPrefix OR ucast v)) = AF_INET v"
    using Normalized_AsIPv6Address [of v] by (simp only: six)
  then show ?thesis
    using assms by (simp add: ToDualStackSockAddrStorage_def ToSockAddrStorageHelper_def six
        SocketAddressFromSockAddrStorage_def SocketAddress_new_def SetPort_def SetIP_def)
qed

end
