(* ===== verification/Dns_Cache.thy ===== *)
theory Dns_Cache
  imports Flat_Map Net_Address "HOL-Library.Char_ord" "HOL-Library.List_Lexorder"
    "HOL-Library.Product_Lexorder"
begin

text \<open>
  \<open>DnsCache\<close> of \<open>network/AsyncResolverFactory.cpp\<close>: resolved addresses keyed by host name and address
  family in a \<open>webrtc::flat_map\<close>, each with the time at which it expires.  A call takes the
  reading of \<open>steady_clock::now()\<close> as an argument.  The promise to a resolver is the locale
  \<open>expiring_cache\<close>, interpreted on \<open>TryGet\<close> and \<open>Add\<close>.
\<close>

type_synonym host_family = "string \<times> int"

record DnsCache =
  mCacheObject :: "(host_family, IPAddress list \<times> time) flat_map"

definition DnsCache_new :: DnsCache where
  "DnsCache_new = \<lparr>mCacheObject = []\<rparr>"

text \<open>The cache afterwards, the contents of \<open>*outResult\<close>, and the returned flag.\<close>

definition TryGet ::
    "time \<Rightarrow> string \<Rightarrow> int \<Rightarrow> IPAddress list \<Rightarrow> DnsCache \<Rightarrow> (DnsCache \<times> IPAddress list \<times> bool) outcome" where
  "TryGet current_time hostname family outResult c =
     (let key_elem = (hostname, family);
          fetch_result = flat_find key_elem (mCacheObject c)
      in if fetch_result = length (mCacheObject c) then Returns (c, outResult, False)
         else if snd (snd (mCacheObject c ! fetch_result)) < current_time
         then andThen (flat_erase fetch_result (mCacheObject c))
                (\<lambda>body. Returns (c\<lparr>mCacheObject := body\<rparr>, outResult, False))
         else Returns (c, outResult @ fst (snd (mCacheObject c ! fetch_result)), True))"

definition Add_until ::
    "string \<Rightarrow> int \<Rightarrow> IPAddress list \<Rightarrow> time \<Rightarrow> DnsCache \<Rightarrow> DnsCache" where
  "Add_until hostname family result expiration c =
     c\<lparr>mCacheObject := fst (insert_or_assign (hostname, family) (result, expiration) (mCacheObject c))\<rparr>"

definition Add :: "time \<Rightarrow> string \<Rightarrow> int \<Rightarrow> IPAddress list \<Rightarrow> DnsCache \<Rightarrow> DnsCache" where
  "Add current_time hostname family result c =
     Add_until hostname family result (current_time + 5 * nanos_per_minute) c"

section \<open>The resolver that would fill it\<close>

text \<open>\<open>Start\<close> stores the address and posts a task whose body is empty.\<close>

record AsyncResolver =
  mAddr :: SocketAddress
  posted_tasks :: nat  \<comment> \<open>tasks posted to \<open>mWorkerThread\<close>\<close>

definition AsyncResolver_Start :: "SocketAddress \<Rightarrow> int \<Rightarrow> AsyncResolver \<Rightarrow> AsyncResolver" where
  "AsyncResolver_Start addr family r = r\<lparr>mAddr := addr, posted_tasks := posted_tasks r + 1\<rparr>"

section \<open>Behaviour on a well-formed cache\<close>

definition dns_ok :: "DnsCache \<Rightarrow> bool" where
  "dns_ok c = flat_ok (mCacheObject c)"

text \<open>What a lookup is about: the entry stored for a host and family.\<close>

definition dns_entry :: "DnsCache \<Rightarrow> host_family \<Rightarrow> (IPAddress list \<times> time) option" where
  "dns_entry c k = omap_get (mCacheObject c) k"

text \<open>\<open>TryGet\<close> by cases on the stored entry; in particular its \<open>erase\<close> never aborts.\<close>

lemma TryGet_value:
  assumes "dns_ok c"
  shows "TryGet now h f out c =
     Returns (case dns_entry c (h, f) of
         None \<Rightarrow> (c, out, False)
       | Some (ips, expiration) \<Rightarrow>
           if expiration < now then (\<lparr>mCacheObject = omap_del (h, f) (mCacheObject c)\<rparr>, out, False)
           else (c, out @ ips, True))"
proof -
  let ?i = "flat_find (h, f) (mCacheObject c)"
  have ok: "flat_ok (mCacheObject c)" using assms by (simp add: dns_ok_def)
  show ?thesis
  proof (cases "dns_entry c (h, f)")
    case None
    then show ?thesis
      using flat_find_end_iff [OF ok, of "(h, f)"] by (simp add: TryGet_def dns_entry_def)
  next
    case (Some e)
    then have "?i \<noteq> length (mCacheObject c)" "snd (mCacheObject c ! ?i) = e"
      using flat_find_lookup [OF ok, of "(h, f)"] by (auto simp: dns_entry_def split: if_splits)
    then show ?thesis
      using Some flat_erase_found [OF ok, of "(h, f)" e]
      by (cases e) (simp add: TryGet_def dns_entry_def)
  qed
qed

lemma dns_ok_new: "dns_ok DnsCache_new"
  by (simp add: dns_ok_def DnsCache_new_def omap_ok_def)

lemma dns_ok_Add_until: "dns_ok c \<Longrightarrow> dns_ok (Add_until h f r e c)"
  by (simp add: dns_ok_def Add_until_def flat_dict.inv_put)

lemma dns_ok_TryGet: "dns_ok c \<Longrightarrow> TryGet now h f out c = Returns (c', out', b) \<Longrightarrow> dns_ok c'"
  by (auto simp: TryGet_value dns_ok_def omap_ok_del split: option.splits prod.splits if_splits)

lemma dns_entry_Add_until:
  "dns_ok c \<Longrightarrow> dns_entry (Add_until h f r e c) k = (if k = (h, f) then Some (r, e) else dns_entry c k)"
  by (simp add: dns_ok_def dns_entry_def Add_until_def flat_dict.get_put)

lemma dns_entry_TryGet:
  "dns_ok c \<Longrightarrow> TryGet now h f out c = Returns (c', out', b) \<Longrightarrow>
   dns_entry c' k =
     (if k = (h, f) \<and> (\<exists>ips e. dns_entry c k = Some (ips, e) \<and> e < now) then None else dns_entry c k)"
  by (auto simp: TryGet_value dns_entry_def split: option.splits prod.splits if_splits)

section \<open>The contract\<close>

text \<open>
  A cache of values with an expiry time: \<open>lookup now k\<close> finds what the last \<open>store\<close> for \<open>k\<close> stored
  unless that has expired, a lookup disturbs no other key, and time only makes entries disappear.
\<close>

locale expiring_cache =
  fixes cinv :: "'c \<Rightarrow> bool"
    and lookup :: "time \<Rightarrow> 'k \<Rightarrow> 'c \<Rightarrow> 'v option"
    and touch :: "time \<Rightarrow> 'k \<Rightarrow> 'c \<Rightarrow> 'c"
    and store :: "'k \<Rightarrow> 'v \<Rightarrow> time \<Rightarrow> 'c \<Rightarrow> 'c"
  assumes inv_touch: "cinv c \<Longrightarrow> cinv (touch now k c)"
    and inv_store: "cinv c \<Longrightarrow> cinv (store k v e c)"
    and lookup_store:
      "cinv c \<Longrightarrow> lookup now k (store k' v e c) =
         (if k = k' then if e < now then None else Some v else lookup now k c)"
    and lookup_touch:
      "cinv c \<Longrightarrow> t \<le> now \<Longrightarrow> lookup now k (touch t k' c) = lookup now k c"
    and lookup_later: "cinv c \<Longrightarrow> t \<le> now \<Longrightarrow> lookup t k c = None \<Longrightarrow> lookup now k c = None"
begin

fun touches :: "(time \<times> 'k) list \<Rightarrow> 'c \<Rightarrow> 'c" where
  "touches [] c = c"
| "touches ((t, k) # tks) c = touches tks (touch t k c)"

lemma inv_touches: "cinv c \<Longrightarrow> cinv (touches tks c)"
  by (induction tks c rule: touches.induct) (simp_all add: inv_touch)

text \<open>Any number of earlier lookups, of any keys, is invisible to a later one.\<close>

lemma lookup_touches:
  "cinv c \<Longrightarrow> \<forall>(t, k') \<in> set tks. t \<le> now \<Longrightarrow> lookup now k (touches tks c) = lookup now k c"
  by (induction tks c rule: touches.induct) (auto simp: inv_touch lookup_touch)

lemma store_visible_until:
  "cinv c \<Longrightarrow> \<forall>(t, k') \<in> set tks. t \<le> now \<Longrightarrow>
   lookup now k (touches tks (store k v e c)) = (if e < now then None else Some v)"
  by (simp add: lookup_touches inv_store lookup_store)

end

definition dns_lookup :: "time \<Rightarrow> host_family \<Rightarrow> DnsCache \<Rightarrow> IPAddress list option" where
  "dns_lookup now k c =
     (case TryGet now (fst k) (snd k) [] c of
        Returns (c', ips, found) \<Rightarrow> if found then Some ips else None
      | Faults e \<Rightarrow> None)"

definition dns_after :: "time \<Rightarrow> host_family \<Rightarrow> DnsCache \<Rightarrow> DnsCache" where
  "dns_after now k c =
     (case TryGet now (fst k) (snd k) [] c of Returns (c', ips, found) \<Rightarrow> c' | Faults e \<Rightarrow> c)"

lemma dns_lookup_entry:
  "dns_ok c \<Longrightarrow> dns_lookup now k c =
     (case dns_entry c k of None \<Rightarrow> None | Some (ips, e) \<Rightarrow> if e < now then None else Some ips)"
  by (cases k) (simp add: dns_lookup_def TryGet_value split: option.split)

lemma dns_after_ok: "dns_ok c \<Longrightarrow> dns_ok (dns_after now k c)"
  by (auto simp: dns_after_def split: outcome.split dest: dns_ok_TryGet)

lemma dns_after_entry:
  assumes "dns_ok c"
  shows "dns_entry (dns_after now k c) l =
     (if l = k \<and> (\<exists>ips e. dns_entry c l = Some (ips, e) \<and> e < now) then None else dns_entry c l)"
proof -
  obtain c' out b where r: "TryGet now (fst k) (snd k) [] c = Returns (c', out, b)"
    using TryGet_value [OF assms] by (metis prod_cases3)
  show ?thesis
    using dns_entry_TryGet [OF assms r, of l] by (simp add: dns_after_def r)
qed

interpretation dns_cache: expiring_cache dns_ok dns_lookup dns_after
    "\<lambda>k ips e c. Add_until (fst k) (snd k) ips e c"
proof
  fix c now k t k' v e
  assume ok: "dns_ok c"
  show "dns_ok (dns_after now k c)" using ok by (rule dns_after_ok)
  show "dns_ok (Add_until (fst k) (snd k) v e c)" using ok by (rule dns_ok_Add_until)
  show "dns_lookup now k (Add_until (fst k') (snd k') v e c) =
      (if k = k' then if e < now then None else Some v else dns_lookup now k c)"
    using ok by (simp add: dns_lookup_entry dns_ok_Add_until dns_entry_Add_until)
  assume le: "t \<le> now"
  show "dns_lookup now k (dns_after t k' c) = dns_lookup now k c"
    using ok le
    by (auto simp: dns_lookup_entry dns_after_ok dns_after_entry split: option.split)
  show "dns_lookup now k c = None" if "dns_lookup t k c = None"
    using that ok le by (auto simp: dns_lookup_entry split: option.splits if_splits)
qed

end
