(* ===== verification/Enums.thy ===== *)
theory Enums
  imports Prelude
begin

text \<open>
  The enumerations of the protocol: session errors (\<open>network/packets/ESessionError.hpp\<close>), send
  types, signalling channels, log severities and packet types, each a datatype with the source's
  enumerators, its integer values, and the cast back from an integer.  The casts matter because
  \<open>NetworkSession::IsDeadSession\<close> computes its error code arithmetically.
\<close>

section \<open>Session errors\<close>

datatype ESessionError =
    ESessionErrorNone
  | ESessionErrorDestinationNotLoggedIn
  | ESessionErrorNegotiationTimeout
  | ESessionErrorWrongTransportVersion
  | ESessionErrorFailedToCreatePeerConnection
  | ESessionErrorICE
  | ESessionErrorConnectRequest
  | ESessionErrorConnectResponse
  | ESessionErrorCandidateAdd
  | ESessionErrorInactivityTimeout
  | ESessionErrorFailedToCreateOffer
  | ESessionErrorFailedToCreateAnswer
  | ESessionErrorFailedToSetLocalDescription
  | ESessionErrorFailedToSetRemoteDescription
  | ESessionErrorNegotiationTimeoutWaitingForResponse
  | ESessionErrorNegotiationTimeoutWaitingForAccept
  | ESessionErrorIncomingConnectionIgnored
  | ESessionErrorSignalingParsingFailure
  | ESessionErrorSignalingUnknownError
  | ESessionErrorSignalingUnicastMessageDeliveryFailed
  | ESessionErrorSignalingBroadcastDeliveryFailed
  | ESessionErrorSignalingMessageDeliveryFailed
  | ESessionErrorSignalingTurnAuthFailed
  | ESessionErrorSignalingFallbackToBestEffortDelivery
  | ESessionErrorNoSignalingChannel
  | ESessionErrorNotLoggedIn
  | ESessionErrorSignalingFailedToSend

primrec ESessionError_value :: "ESessionError \<Rightarrow> int" where
  "ESessionError_value ESessionErrorNone = 0"
| "ESessionError_value ESessionErrorDestinationNotLoggedIn = 1"
| "ESessionError_value ESessionErrorNegotiationTimeout = 2"
| "ESessionError_value ESessionErrorWrongTransportVersion = 3"
| "ESessionError_value ESessionErrorFailedToCreatePeerConnection = 4"
| "ESessionError_value ESessionErrorICE = 5"
| "ESessionError_value ESessionErrorConnectRequest = 6"
| "ESessionError_value ESessionErrorConnectResponse = 7"
| "ESessionError_value ESessionErrorCandidateAdd = 8"
| "ESessionError_value ESessionErrorInactivityTimeout = 9"
| "ESessionError_value ESessionErrorFailedToCreateOffer = 10"
| "ESessionError_value ESessionErrorFailedToCreateAnswer = 11"
| "ESessionError_value ESessionErrorFailedToSetLocalDescription = 12"
| "ESessionError_value ESessionErrorFailedToSetRemoteDescription = 13"
| "ESessionError_value ESessionErrorNegotiationTimeoutWaitingForResponse = 14"
| "ESessionError_value ESessionErrorNegotiationTimeoutWaitingForAccept = 15"
| "ESessionError_value ESessionErrorIncomingConnectionIgnored = 16"
| "ESessionError_value ESessionErrorSignalingParsingFailure = 17"
| "ESessionError_value ESessionErrorSignalingUnknownError = 18"
| "ESessionError_value ESessionErrorSignalingUnicastMessageDeliveryFailed = 19"
| "ESessionError_value ESessionErrorSignalingBroadcastDeliveryFailed = 20"
| "ESessionError_value ESessionErrorSignalingMessageDeliveryFailed = 21"
| "ESessionError_value ESessionErrorSignalingTurnAuthFailed = 22"
| "ESessionError_value ESessionErrorSignalingFallbackToBestEffortDelivery = 23"
| "ESessionError_value ESessionErrorNoSignalingChannel = 24"
| "ESessionError_value ESessionErrorNotLoggedIn = 25"
| "ESessionError_value ESessionErrorSignalingFailedToSend = 26"

definition ESessionError_all :: "ESessionError list" where
  "ESessionError_all =
     [ESessionErrorNone,
      ESessionErrorDestinationNotLoggedIn,
      ESessionErrorNegotiationTimeout,
      ESessionErrorWrongTransportVersion,
      ESessionErrorFailedToCreatePeerConnection,
      ESessionErrorICE,
      ESessionErrorConnectRequest,
      ESessionErrorConnectResponse,
      ESessionErrorCandidateAdd,
      ESessionErrorInactivityTimeout,
      ESessionErrorFailedToCreateOffer,
      ESessionErrorFailedToCreateAnswer,
      ESessionErrorFailedToSetLocalDescription,
      ESessionErrorFailedToSetRemoteDescription,
      ESessionErrorNegotiationTimeoutWaitingForResponse,
      ESessionErrorNegotiationTimeoutWaitingForAccept,
      ESessionErrorIncomingConnectionIgnored,
      ESessionErrorSignalingParsingFailure,
      ESessionErrorSignalingUnknownError,
      ESessionErrorSignalingUnicastMessageDeliveryFailed,
      ESessionErrorSignalingBroadcastDeliveryFailed,
      ESessionErrorSignalingMessageDeliveryFailed,
      ESessionErrorSignalingTurnAuthFailed,
      ESessionErrorSignalingFallbackToBestEffortDelivery,
      ESessionErrorNoSignalingChannel,
      ESessionErrorNotLoggedIn,
      ESessionErrorSignalingFailedToSend]"

definition ESessionError_cast :: "int \<Rightarrow> ESessionError option" where
  "ESessionError_cast i = find (\<lambda>e. ESessionError_value e = i) ESessionError_all"

lemma ESessionError_cast_value [simp]: "ESessionError_cast (ESessionError_value e) = Some e"
  by (cases e) (simp_all add: ESessionError_cast_def ESessionError_all_def)

lemma ESessionError_value_inj: "ESessionError_value e = ESessionError_value e' \<longleftrightarrow> e = e'"
  by (metis ESessionError_cast_value option.inject)

lemma ESessionError_value_range: "0 \<le> ESessionError_value e \<and> ESessionError_value e \<le> 26"
  by (cases e) simp_all

lemma ESessionError_cast_total:
  assumes "0 \<le> i" "i \<le> 26"
  shows "\<exists>e. ESessionError_cast i = Some e"
proof -
  have "i \<in> set [0..26]" using assms by simp
  moreover have "\<forall>j\<in>set [0..26]. ESessionError_cast j \<noteq> None"
    by (simp add: upto.simps ESessionError_cast_def ESessionError_all_def)
  ultimately show ?thesis by blast
qed

section \<open>Send types, channels and severities\<close>

datatype ESendType = eSendTypeUnreliable | eSendTypeReliable

datatype SignalingChannelId = WebSocketChannel | Lan

datatype LogSeverity = Disabled | CriticalOnly | Error | Warning | Information | Verbose

primrec LogSeverity_value :: "LogSeverity \<Rightarrow> int" where
  "LogSeverity_value Disabled = 0"
| "LogSeverity_value CriticalOnly = 1"
| "LogSeverity_value Error = 2"
| "LogSeverity_value Warning = 3"
| "LogSeverity_value Information = 4"
| "LogSeverity_value Verbose = 5"

text \<open>\<open>WorldDefault\<close> and \<open>Survival\<close> share the value 0 in \<open>GameType\<close>: they are one enumerator.\<close>

datatype GameType = UndefinedGame | Survival | Creative | Adventure | DefaultGame | Spectator

primrec GameType_value :: "GameType \<Rightarrow> int" where
  "GameType_value UndefinedGame = -1"
| "GameType_value Survival = 0"
| "GameType_value Creative = 1"
| "GameType_value Adventure = 2"
| "GameType_value DefaultGame = 5"
| "GameType_value Spectator = 6"

definition WorldDefault :: GameType where "WorldDefault = Survival"

lemma GameType_value_inj: "GameType_value g = GameType_value h \<longleftrightarrow> g = h"
  by (cases g; cases h) simp_all

section \<open>Packet types\<close>

datatype DiscoveryPacketType = Request | Response | Message

primrec DiscoveryPacketType_value :: "DiscoveryPacketType \<Rightarrow> u16" where
  "DiscoveryPacketType_value Request = 0"
| "DiscoveryPacketType_value Response = 1"
| "DiscoveryPacketType_value Message = 2"

definition DiscoveryPacketType_cast :: "u16 \<Rightarrow> DiscoveryPacketType option" where
  "DiscoveryPacketType_cast w =
     (if w = 0 then Some Request else if w = 1 then Some Response
      else if w = 2 then Some Message else None)"

lemma DiscoveryPacketType_cast_value [simp]:
  "DiscoveryPacketType_cast (DiscoveryPacketType_value t) = Some t"
  by (cases t) (simp_all add: DiscoveryPacketType_cast_def)

section \<open>Reasons shown to the player\<close>

text \<open>
  \<open>Connection::DisconnectFailReason\<close> is only named in the \<open>Connector\<close> callback interface, so its
  118 enumerators are kept as the table of their names and values.
\<close>

definition DisconnectFailReason :: "(string \<times> int) list" where
  "DisconnectFailReason =
     [(''Unknown'', 0),
      (''CantConnectNoInternet'', 1),
      (''NoPermissions'', 2),
      (''UnrecoverableError'', 3),
      (''ThirdPartyBlocked'', 4),
      (''ThirdPartyNoInternet'', 5),
      (''ThirdPartyBadIP'', 6),
      (''ThirdPartyNoServerOrServerLocked'', 7),
      (''VersionMismatch'', 8),
      (''SkinIssue'', 9),
      (''InviteSessionNotFound'', 10),
      (''EduLevelSettingsMissing'', 11),
      (''LocalServerNotFound'', 12),
      (''LegacyDisconnect'', 13),
      (''UserLeaveGameAttempted'', 14),
      (''PlatformLockedSkinsError'', 15),
      (''RealmsWorldUnassigned'', 16),
      (''RealmsServerCantConnect'', 17),
      (''RealmsServerHidden'', 18),
      (''RealmsServerDisabledBeta'', 19),
      (''RealmsServerDisabled'', 20),
      (''CrossPlatformDisabled'', 21),
      (''CantConnect'', 22),
      (''SessionNotFound'', 23),
      (''ClientSettingsIncompatibleWithServer'', 24),
      (''ServerFull'', 25),
      (''InvalidPlatformSkin'', 26),
      (''EditionVersionMismatch'', 27),
      (''EditionMismatch'', 28),
      (''LevelNewerThanExeVersion'', 29),
      (''NoFailOccurred'', 30),
      (''BannedSkin'', 31),
      (''Timeout'', 32),
      (''ServerNotFound'', 33),
      (''OutdatedServer'', 34),
      (''OutdatedClient'', 35),
      (''NoPremiumPlatform'', 36),
      (''MultiplayerDisabled'', 37),
      (''NoWiFi'', 38),
      (''WorldCorruption'', 39),
      (''NoReason'', 40),
      (''Disconnected'', 41),
      (''InvalidPlayer'', 42),
      (''LoggedInOtherLocation'', 43),
      (''ServerIdConflict'', 44),
      (''NotAllowed'', 45),
      (''NotAuthenticated'', 46),
      (''InvalidTenant'', 47),
      (''UnknownPacket'', 48),
      (''UnexpectedPacket'', 49),
      (''InvalidCommandRequestPacket'', 50),
      (''HostSuspended'', 51),
      (''LoginPacketNoRequest'', 52),
      (''LoginPacketNoCert'', 53),
      (''MissingClient'', 54),
      (''Kicked'', 55),
      (''KickedForExploit'', 56),
      (''KickedForIdle'', 57),
      (''ResourcePackProblem'', 58),
      (''IncompatiblePack'', 59),
      (''OutOfStorage'', 60),
      (''InvalidLevel'', 61),
      (''DisconnectPacketDeprecated'', 62),
      (''BlockMismatch'', 63),
      (''InvalidHeights'', 64),
      (''InvalidWidths'', 65),
      (''ConnectionLostDeprecated'', 66),
      (''ZombieConnection'', 67),
      (''Shutdown'', 68),
      (''ReasonNotSetDeprecated'', 69),
      (''LoadingStateTimeout'', 70),
      (''ResourcePackLoadingFailed'', 71),
      (''SearchingForSessionLoadingScreenFailed'', 72),
      (''NetherNetProtocolVersion'', 73),
      (''SubsystemStatusError'', 74),
      (''EmptyAuthFromDiscovery'', 75),
      (''EmptyUrlFromDiscovery'', 76),
      (''ExpiredAuthFromDiscovery'', 77),
      (''UnknownSignalServiceSignInFailure'', 78),
      (''XBLJoinLobbyFailure'', 79),
      (''UnspecifiedClientInstanceDisconnection'', 80),
      (''NetherNetSessionNotFound'', 81),
      (''NetherNetCreatePeerConnection'', 82),
      (''NetherNetICE'', 83),
      (''NetherNetConnectRequest'', 84),
      (''NetherNetConnectResponse'', 85),
      (''NetherNetNegotiationTimeout'', 86),
      (''NetherNetInactivityTimeout'', 87),
      (''StaleConnectionBeingReplaced'', 88),
      (''RealmsSessionNotFoundDeprecated'', 89),
      (''BadPacket'', 90),
      (''NetherNetFailedToCreateOffer'', 91),
      (''NetherNetFailedToCreateAnswer'', 92),
      (''NetherNetFailedToSetLocalDescription'', 93),
      (''NetherNetFailedToSetRemoteDescription'', 94),
      (''NetherNetNegotiationTimeoutWaitingForResponse'', 95),
      (''NetherNetNegotiationTimeoutWaitingForAccept'', 96),
      (''NetherNetIncomingConnectionIgnored'', 97),
      (''NetherNetSignalingParsingFailure'', 98),
      (''NetherNetSignalingUnknownError'', 99),
      (''NetherNetSignalingUnicastDeliveryFailed'', 100),
      (''NetherNetSignalingBroadcastDeliveryFailed'', 101),
      (''NetherNetSignalingGenericDeliveryFailed'', 102),
      (''EditorMismatchEditorWorld'', 103),
      (''EditorMismatchVanillaWorld'', 104),
      (''WorldTransferNotPrimaryClient'', 105),
      (''RequestServerShutdown'', 106),
      (''ClientGameSetupCancelled'', 107),
      (''ClientGameSetupFailed'', 108),
      (''NoVenue'', 109),
      (''NetherNetSignalingSigninFailed'', 110),
      (''SessionAccessDenied'', 111),
      (''ServiceSigninIssue'', 112),
      (''NetherNetNoSignalingChannel'', 113),
      (''NetherNetNotLoggedIn'', 114),
      (''NetherNetClientSignalingError'', 115),
      (''SubClientLoginDisabled'', 116),
      (''DeepLinkTryingToOpenDemoWorldWhileSignedIn'', 117)]"

lemma DisconnectFailReason_values: "map snd DisconnectFailReason = [0..117]"
  by (simp add: DisconnectFailReason_def upto.simps)

lemma DisconnectFailReason_distinct: "distinct (map snd DisconnectFailReason)"
  by (simp only: DisconnectFailReason_values distinct_upto)

end
