(* ===== verification/Utils.thy ===== *)
theory Utils
  imports Prelude
begin

text \<open>
  The utility classes: \<open>ErrorOr\<close> (\<open>utils/Errors.hpp\<close>), non-owning pointers whose control block
  records whether the owner is alive (\<open>utils/NonOwnerPointer.hpp\<close>,
  \<open>utils/EnableNonOwnerReferences.hpp\<close>), and the mutex-guarded \<open>ThreadSafe\<close> value with its
  scoped \<open>View\<close> (\<open>utils/Utils.hpp\<close>).
\<close>

section \<open>ErrorOr\<close>

text \<open>
  The variant holds a value at index 0 or an error at index 1.  \<open>value\<close> and \<open>error\<close> are
  \<open>noexcept\<close>, so asking for the alternative that is not held ends the program.
\<close>

datatype ('t, 'e) ErrorOr = ErrorOr_value 't | ErrorOr_error 'e

primrec impl_index :: "('t, 'e) ErrorOr \<Rightarrow> nat" where
  "impl_index (ErrorOr_value t) = 0"
| "impl_index (ErrorOr_error e) = 1"

definition has_value :: "('t, 'e) ErrorOr \<Rightarrow> bool" where
  "has_value r = (impl_index r = 0)"

definition err :: "('t, 'e) ErrorOr \<Rightarrow> bool" where
  "err r = (impl_index r \<noteq> 0)"

primrec value_of :: "('t, 'e) ErrorOr \<Rightarrow> 't outcome" where
  "value_of (ErrorOr_value t) = Returns t"
| "value_of (ErrorOr_error e) = Faults BadAccess"

primrec error_of :: "('t, 'e) ErrorOr \<Rightarrow> 'e outcome" where
  "error_of (ErrorOr_value t) = Faults BadAccess"
| "error_of (ErrorOr_error e) = Returns e"

lemma has_value_iff [simp]: "has_value r \<longleftrightarrow> (\<exists>t. r = ErrorOr_value t)"
  by (cases r) (simp_all add: has_value_def)

lemma err_iff [simp]: "err r \<longleftrightarrow> (\<exists>e. r = ErrorOr_error e)"
  by (cases r) (simp_all add: err_def)

lemma value_of_returns [outcome_intros]: "has_value r \<Longrightarrow> returns (value_of r)"
  by (cases r) (simp_all add: has_value_def)

lemma error_of_returns [outcome_intros]: "err r \<Longrightarrow> returns (error_of r)"
  by (cases r) (simp_all add: err_def)

section \<open>Non-owning pointers\<close>

text \<open>
  Control blocks live on the heap, shared by their owner and by every pointer to it; \<open>blocks\<close>
  maps an address to \<open>mIsValid\<close>.  A pointer whose block is absent (\<open>None\<close>) was built from
  \<open>nullptr\<close>.
\<close>

record block_heap =
  blocks :: "nat \<Rightarrow> bool option"
  next_block :: nat

record 'a NonOwnerPointer =
  mControlBlock :: "nat option"
  mPointer :: "'a option"

definition empty_heap :: block_heap where
  "empty_heap = \<lparr>blocks = (\<lambda>_. None), next_block = 0\<rparr>"

text \<open>\<open>EnableNonOwnerReferences()\<close> makes a fresh block, valid; the destructor marks it invalid.\<close>

definition EnableNonOwnerReferences_new :: "block_heap \<Rightarrow> nat \<times> block_heap" where
  "EnableNonOwnerReferences_new h =
     (next_block h, h\<lparr>blocks := (blocks h)(next_block h := Some True), next_block := Suc (next_block h)\<rparr>)"

definition EnableNonOwnerReferences_delete :: "nat option \<Rightarrow> block_heap \<Rightarrow> block_heap" where
  "EnableNonOwnerReferences_delete cb h =
     (case cb of None \<Rightarrow> h | Some b \<Rightarrow> h\<lparr>blocks := (blocks h)(b := Some False)\<rparr>)"

definition NonOwnerPointer_get :: "block_heap \<Rightarrow> 'a NonOwnerPointer \<Rightarrow> 'a option" where
  "NonOwnerPointer_get h p =
     (case mControlBlock p of
        None \<Rightarrow> None
      | Some b \<Rightarrow> if blocks h b = Some True then mPointer p else None)"

definition NonOwnerPointer_bool :: "block_heap \<Rightarrow> 'a NonOwnerPointer \<Rightarrow> bool" where
  "NonOwnerPointer_bool h p = (NonOwnerPointer_get h p \<noteq> None)"

definition NonOwnerPointer_eq :: "block_heap \<Rightarrow> 'a NonOwnerPointer \<Rightarrow> 'a NonOwnerPointer \<Rightarrow> bool" where
  "NonOwnerPointer_eq h l r = (NonOwnerPointer_get h l = NonOwnerPointer_get h r)"

definition block_heap_ok :: "block_heap \<Rightarrow> bool" where
  "block_heap_ok h = (\<forall>b. next_block h \<le> b \<longrightarrow> blocks h b = None)"

lemma block_heap_ok_empty: "block_heap_ok empty_heap"
  by (simp add: block_heap_ok_def empty_heap_def)

lemma block_heap_ok_new: "block_heap_ok h \<Longrightarrow> block_heap_ok (snd (EnableNonOwnerReferences_new h))"
  by (simp add: block_heap_ok_def EnableNonOwnerReferences_new_def)

lemma block_heap_ok_delete:
  "block_heap_ok h \<Longrightarrow> \<forall>b. cb = Some b \<longrightarrow> b < next_block h \<Longrightarrow>
   block_heap_ok (EnableNonOwnerReferences_delete cb h)"
  by (auto simp: block_heap_ok_def EnableNonOwnerReferences_delete_def split: option.split)

lemma get_new_live:
  assumes "EnableNonOwnerReferences_new h = (b, h')"
  shows "NonOwnerPointer_get h' \<lparr>mControlBlock = Some b, mPointer = p\<rparr> = p"
  using assms by (auto simp: EnableNonOwnerReferences_new_def NonOwnerPointer_get_def)

lemma get_new_other:
  assumes "block_heap_ok h" "EnableNonOwnerReferences_new h = (b, h')"
    and "mControlBlock q = Some c" "blocks h c \<noteq> None"
  shows "NonOwnerPointer_get h' q = NonOwnerPointer_get h q"
  using assms
  by (auto simp: EnableNonOwnerReferences_new_def NonOwnerPointer_get_def block_heap_ok_def
      split: if_splits)

lemma get_after_delete:
  "NonOwnerPointer_get (EnableNonOwnerReferences_delete (Some b) h) q =
     (if mControlBlock q = Some b then None else NonOwnerPointer_get h q)"
  by (auto simp: EnableNonOwnerReferences_delete_def NonOwnerPointer_get_def split: option.split)

section \<open>ThreadSafe\<close>

text \<open>
  \<open>get()\<close> on a mutable object returns a \<open>View\<close> that holds the mutex for as long as it lives.
  \<open>held\<close> says that the current thread has such a view: a second one would block for ever.
\<close>

record 'a ThreadSafe =
  ts_data :: 'a
  held :: bool

definition ThreadSafe_get :: "'a ThreadSafe \<Rightarrow> 'a ThreadSafe outcome" where
  "ThreadSafe_get ts = (if held ts then Faults SelfDeadlock else Returns (ts\<lparr>held := True\<rparr>))"

definition View_end :: "'a ThreadSafe \<Rightarrow> 'a ThreadSafe" where
  "View_end ts = ts\<lparr>held := False\<rparr>"

text \<open>A full expression that works on a temporary view of the data.\<close>

definition with_view :: "('a \<Rightarrow> 'a outcome) \<Rightarrow> 'a ThreadSafe \<Rightarrow> 'a ThreadSafe outcome" where
  "with_view f ts =
     andThen (ThreadSafe_get ts) (\<lambda>v.
     andThen (f (ts_data v)) (\<lambda>d.
     Returns (View_end (v\<lparr>ts_data := d\<rparr>))))"

lemma with_view_returns:
  "\<not> held ts \<Longrightarrow> f (ts_data ts) = Returns d \<Longrightarrow> with_view f ts = Returns (ts\<lparr>ts_data := d, held := False\<rparr>)"
  by (simp add: with_view_def ThreadSafe_get_def View_end_def)

lemma with_view_released: "with_view f ts = Returns ts' \<Longrightarrow> \<not> held ts'"
  by (auto simp: with_view_def View_end_def andThen_eq_Returns)

lemma nested_view_deadlocks:
  "ThreadSafe_get ts = Returns v \<Longrightarrow> ThreadSafe_get v = Faults SelfDeadlock"
  by (auto simp: ThreadSafe_get_def split: if_splits)

end
