(* ===== verification/Envelope.thy ===== *)
theory Envelope
  imports Utils
begin

text \<open>
  The encrypted LAN envelope: \<open>CreateKey\<close> and \<open>CreateEnvelope\<close> (\<open>HNetherNet.cpp\<close>), \<open>AesContext\<close> and
  the socket adapter \<open>OpenSSLAesAdapter\<close> (\<open>encryption/\<close>).  OpenSSL itself is a parameter: the record
  \<open>openssl\<close> says what each call returns and writes.  \<open>ossl_ok\<close> collects what its documentation
  promises about sizes and \<open>ossl_inverse\<close> that decryption undoes encryption; theorems that need
  them assume them by name.  A \<open>View\<close> (\<open>utils/Strings.hpp\<close>) is the byte string it shows.
\<close>

section \<open>OpenSSL\<close>

record openssl =
  EVP_MD_size :: nat                     \<comment> \<open>digest size of \<open>EVP_sha256()\<close>\<close>
  EVP_MD_CTX_new :: bool                 \<comment> \<open>a context was allocated\<close>
  EVP_DigestInit_ex :: bool
  EVP_DigestUpdate :: "bytes \<Rightarrow> bool"
  EVP_DigestFinal :: "bytes \<Rightarrow> bytes option"
  EVP_CIPHER_CTX_block_size :: nat
  EVP_CIPHER_CTX_reset :: bool
  EVP_EncryptInit_ex :: "bytes \<Rightarrow> bool"
  EVP_EncryptUpdate :: "bytes \<Rightarrow> int \<Rightarrow> bytes \<Rightarrow> bytes option"   \<comment> \<open>key, \<open>inl\<close>, the bytes read\<close>
  EVP_EncryptFinal_ex :: "bytes \<Rightarrow> int \<Rightarrow> bytes \<Rightarrow> bytes option"
  EVP_DecryptInit_ex :: "bytes \<Rightarrow> bool"
  EVP_DecryptUpdate :: "bytes \<Rightarrow> int \<Rightarrow> bytes \<Rightarrow> bytes option"
  EVP_DecryptFinal_ex :: "bytes \<Rightarrow> int \<Rightarrow> bytes \<Rightarrow> bytes option"
  HMAC :: "bytes \<Rightarrow> bytes \<Rightarrow> bytes option"
  ERR_get_error :: u32

text \<open>
  The cipher calls count in \<open>int\<close>: they take their input as a pointer and an \<open>int inl\<close>, of which they read
  \<open>inl\<close> bytes, and report what they wrote in an \<open>int\<close>.  The program passes a \<open>size_t\<close>, which is narrowed:
  \<open>int_len\<close> is that conversion, \<open>input_read\<close> what is read behind it.  A final call is given what the update
  before it was given, since it completes that update.  \<open>int_sum\<close> adds two such counts.
\<close>

definition int_len :: "nat \<Rightarrow> int" where
  "int_len n = sint (word_of_nat n :: u32)"

definition input_read :: "bytes \<Rightarrow> bytes" where
  "input_read p = take (nat (int_len (length p))) p"

definition int_sum :: "nat \<Rightarrow> nat \<Rightarrow> nat outcome" where
  "int_sum a b = (if a + b < 2 ^ 31 then Returns (a + b) else Faults SignedOverflow)"

text \<open>
  Documented sizes: a digest and an HMAC have \<open>EVP_MD_size\<close> bytes; an update writes at most its
  input length plus one block, a final at most one block, and a block is no longer than a digest.  An
  update whose output an \<open>int\<close> could not count is refused (\<open>EVP_R_OUTPUT_WOULD_OVERFLOW\<close>).
\<close>

definition ossl_ok :: "openssl \<Rightarrow> bool" where
  "ossl_ok ssl \<longleftrightarrow>
     (\<forall>m d. EVP_DigestFinal ssl m = Some d \<longrightarrow> length d = EVP_MD_size ssl) \<and>
     (\<forall>k m d. HMAC ssl k m = Some d \<longrightarrow> length d = EVP_MD_size ssl) \<and>
     (\<forall>k n m c. EVP_EncryptUpdate ssl k n m = Some c \<longrightarrow>
        length c \<le> length m + EVP_CIPHER_CTX_block_size ssl) \<and>
     (\<forall>k n m c. EVP_EncryptFinal_ex ssl k n m = Some c \<longrightarrow> length c \<le> EVP_CIPHER_CTX_block_size ssl) \<and>
     (\<forall>k n m p q. EVP_DecryptUpdate ssl k n m = Some p \<longrightarrow> EVP_DecryptFinal_ex ssl k n m = Some q \<longrightarrow>
        length p + length q \<le> length m + EVP_CIPHER_CTX_block_size ssl) \<and>
     (\<forall>k n m p. EVP_DecryptUpdate ssl k n m = Some p \<longrightarrow>
        length p \<le> length m + EVP_CIPHER_CTX_block_size ssl) \<and>
     EVP_CIPHER_CTX_block_size ssl \<le> EVP_MD_size ssl \<and>
     (\<forall>k n m c d. EVP_EncryptUpdate ssl k n m = Some c \<longrightarrow> EVP_EncryptFinal_ex ssl k n m = Some d \<longrightarrow>
        length c + length d < 2 ^ 31) \<and>
     (\<forall>k n m p q. EVP_DecryptUpdate ssl k n m = Some p \<longrightarrow> EVP_DecryptFinal_ex ssl k n m = Some q \<longrightarrow>
        length p + length q < 2 ^ 31)"

definition ossl_inverse :: "openssl \<Rightarrow> bool" where
  "ossl_inverse ssl \<longleftrightarrow>
     (\<forall>k m c d. EVP_EncryptUpdate ssl k (int (length m)) m = Some c \<longrightarrow>
        EVP_EncryptFinal_ex ssl k (int (length m)) m = Some d \<longrightarrow>
        (\<exists>p q. EVP_DecryptUpdate ssl k (int (length (c @ d))) (c @ d) = Some p \<and>
               EVP_DecryptFinal_ex ssl k (int (length (c @ d))) (c @ d) = Some q \<and> p @ q = m))"

section \<open>Keys\<close>

text \<open>\<open>make_error_code\<close> narrows OpenSSL's unsigned code to the \<open>int\<close> of a \<open>std::error_code\<close>.\<close>

definition make_error_code :: "u32 \<Rightarrow> int" where
  "make_error_code openssl_error = sint openssl_error"

definition CreateKey :: "openssl \<Rightarrow> u64 \<Rightarrow> (bytes, int) ErrorOr outcome" where
  "CreateKey ssl nid =
     (let Key = replicate (EVP_MD_size ssl) 0;
          fail = Returns (ErrorOr_error (make_error_code (ERR_get_error ssl)));
          Id = le_bytes 8 (unat nid)
      in if \<not> EVP_MD_CTX_new ssl then fail
         else if \<not> EVP_DigestInit_ex ssl then fail
         else if \<not> EVP_DigestUpdate ssl Id then fail
         else case EVP_DigestFinal ssl Id of
           None \<Rightarrow> fail
         | Some d \<Rightarrow> andThen (memcpy_at Key 0 d) (\<lambda>key. Returns (ErrorOr_value key)))"

record AesContext =
  mKeyData :: bytes
  mOutputBuffer :: bytes

definition AesContext_new :: "bytes \<Rightarrow> AesContext" where
  "AesContext_new key = \<lparr>mKeyData = key, mOutputBuffer = []\<rparr>"

definition CreateEnvelope :: "openssl \<Rightarrow> u64 \<Rightarrow> (AesContext, int) ErrorOr outcome" where
  "CreateEnvelope ssl nid =
     andThen (CreateKey ssl nid) (\<lambda>Key.
     if \<not> has_value Key then andThen (error_of Key) (\<lambda>e. Returns (ErrorOr_error e))
     else andThen (value_of Key) (\<lambda>k. Returns (ErrorOr_value (AesContext_new k))))"

section \<open>Sealing and opening\<close>

definition GetBufferSizeForPlaintextSize :: "openssl \<Rightarrow> nat \<Rightarrow> nat" where
  "GetBufferSizeForPlaintextSize ssl n =
     n + EVP_MD_size ssl + 2 * EVP_CIPHER_CTX_block_size ssl"

text \<open>Both operations return the view or an error, and the context with its output buffer.\<close>

definition Seal :: "openssl \<Rightarrow> bytes \<Rightarrow> AesContext \<Rightarrow> ((bytes, int) ErrorOr \<times> AesContext) outcome" where
  "Seal ssl plaintext ctx =
     (let key = mKeyData ctx;
          fail = (\<lambda>c. Returns (ErrorOr_error (make_error_code (ERR_get_error ssl)), c));
          Md_size = EVP_MD_size ssl;
          inl = int_len (length plaintext);
          buf = resize (GetBufferSizeForPlaintextSize ssl (length plaintext)) 0 (mOutputBuffer ctx)
      in if \<not> EVP_CIPHER_CTX_reset ssl then fail ctx
         else if \<not> EVP_EncryptInit_ex ssl key then fail ctx
         else case HMAC ssl key plaintext of
           None \<Rightarrow> fail (ctx\<lparr>mOutputBuffer := buf\<rparr>)
         | Some mac \<Rightarrow>
             andThen (memcpy_at buf 0 mac) (\<lambda>b1.
             case EVP_EncryptUpdate ssl key inl (input_read plaintext) of
               None \<Rightarrow> fail (ctx\<lparr>mOutputBuffer := b1\<rparr>)
             | Some c \<Rightarrow>
                 andThen (memcpy_at b1 Md_size c) (\<lambda>b2.
                 case EVP_EncryptFinal_ex ssl key inl (input_read plaintext) of
                   None \<Rightarrow> fail (ctx\<lparr>mOutputBuffer := b2\<rparr>)
                 | Some d \<Rightarrow>
                     andThen (memcpy_at b2 (Md_size + length c) d) (\<lambda>b3.
                     andThen (int_sum (length c) (length d)) (\<lambda>totalLength.
                     Returns (ErrorOr_value (take (Md_size + totalLength) b3),
                              ctx\<lparr>mOutputBuffer := b3\<rparr>))))))"

definition Open :: "openssl \<Rightarrow> bytes \<Rightarrow> AesContext \<Rightarrow> ((bytes, int) ErrorOr \<times> AesContext) outcome" where
  "Open ssl envelope ctx =
     (let key = mKeyData ctx;
          fail = (\<lambda>c. Returns (ErrorOr_error (make_error_code (ERR_get_error ssl)), c));
          md_size = EVP_MD_size ssl;
          mInputBuffer = drop md_size envelope;
          inl = int_len (length envelope - md_size);
          buf = resize (length envelope) 0 (mOutputBuffer ctx)
      in if \<not> (md_size \<le> length envelope \<and> EVP_CIPHER_CTX_reset ssl) then fail ctx
         else if \<not> EVP_DecryptInit_ex ssl key then fail ctx
         else case EVP_DecryptUpdate ssl key inl (input_read mInputBuffer) of
           None \<Rightarrow> fail (ctx\<lparr>mOutputBuffer := buf\<rparr>)
         | Some p \<Rightarrow>
             andThen (memcpy_at buf 0 p) (\<lambda>b1.
             case EVP_DecryptFinal_ex ssl key inl (input_read mInputBuffer) of
               None \<Rightarrow> fail (ctx\<lparr>mOutputBuffer := b1\<rparr>)
             | Some q \<Rightarrow>
                 andThen (memcpy_at b1 (length p) q) (\<lambda>b2.
                 andThen (int_sum (length p) (length q)) (\<lambda>outputDataLen.
                 let b3 = resize outputDataLen 0 b2;
                     ctx' = ctx\<lparr>mOutputBuffer := b3\<rparr>
                 in case HMAC ssl key b3 of
                      Some unknown_md_1 \<Rightarrow> Returns (ErrorOr_value b3, ctx')
                    | None \<Rightarrow> fail ctx'))))"

section \<open>What the documentation promises\<close>

lemma length_input_read [simp]: "length (input_read p) \<le> length p"
  by (simp add: input_read_def)

lemma int_len_small [simp]: "n < 2 ^ 31 \<Longrightarrow> int_len n = int n"
  by (simp add: int_len_def signed_of_nat signed_take_bit_int_eq_self)

lemma int_len_wraps:
  assumes "n < 2 ^ 31"
  shows "int_len (2 ^ 32 + n) = int n"
proof -
  have "(2 ^ 32 :: u32) = 0" by simp
  then have "(word_of_nat (2 ^ 32 + n) :: u32) = word_of_nat n"
    unfolding of_nat_add of_nat_power of_nat_numeral by simp
  then show ?thesis using int_len_small [OF assms] by (simp only: int_len_def)
qed

lemma nat_int_len_le: "nat (int_len n) \<le> n"
proof -
  have "- (2 ^ 31) \<le> uint (word_of_nat n :: u32)"
    by (rule order_trans [OF _ uint_ge_0]) simp
  then have "signed_take_bit 31 (uint (word_of_nat n :: u32)) \<le> uint (word_of_nat n :: u32)"
    by (simp only: signed_take_bit_int_less_eq_self_iff)
  then have "int_len n \<le> uint (word_of_nat n :: u32)"
    by (simp add: int_len_def sint_uint)
  also have "\<dots> = int (n mod 2 ^ 32)" by (simp add: unsigned_of_nat take_bit_eq_mod zmod_int)
  also have "\<dots> \<le> int n" by simp
  finally show ?thesis by simp
qed

lemma length_input_read_eq: "0 \<le> int_len (length p) \<Longrightarrow> int (length (input_read p)) = int_len (length p)"
  using nat_int_len_le [of "length p"] by (simp add: input_read_def)

lemma input_read_small [simp]: "length p < 2 ^ 31 \<Longrightarrow> input_read p = p"
  by (simp add: input_read_def)

lemma ossl_okD:
  assumes "ossl_ok ssl"
  shows "EVP_DigestFinal ssl m = Some d \<Longrightarrow> length d = EVP_MD_size ssl"
    and "HMAC ssl k m = Some d \<Longrightarrow> length d = EVP_MD_size ssl"
    and "EVP_EncryptUpdate ssl k n m = Some d \<Longrightarrow> length d \<le> length m + EVP_CIPHER_CTX_block_size ssl"
    and "EVP_EncryptFinal_ex ssl k n m = Some d \<Longrightarrow> length d \<le> EVP_CIPHER_CTX_block_size ssl"
    and "EVP_DecryptUpdate ssl k n m = Some d \<Longrightarrow> EVP_DecryptFinal_ex ssl k n m = Some e \<Longrightarrow>
         length d + length e \<le> length m + EVP_CIPHER_CTX_block_size ssl"
    and "EVP_DecryptUpdate ssl k n m = Some d \<Longrightarrow> length d \<le> length m + EVP_CIPHER_CTX_block_size ssl"
    and "EVP_CIPHER_CTX_block_size ssl \<le> EVP_MD_size ssl"
    and "EVP_EncryptUpdate ssl k n m = Some c \<Longrightarrow> EVP_EncryptFinal_ex ssl k n m = Some d \<Longrightarrow>
         int_sum (length c) (length d) = Returns (length c + length d)"
    and "EVP_EncryptUpdate ssl k n m = Some c \<Longrightarrow> EVP_EncryptFinal_ex ssl k n m = Some d \<Longrightarrow>
         length c + length d < 2 ^ 31"
    and "EVP_DecryptUpdate ssl k n m = Some d \<Longrightarrow> EVP_DecryptFinal_ex ssl k n m = Some e \<Longrightarrow>
         int_sum (length d) (length e) = Returns (length d + length e)"
  using assms unfolding ossl_ok_def int_sum_def by (blast | simp)+

text \<open>The four cipher calls as \<open>Seal\<close> and \<open>Open\<close> make them on a whole view.\<close>

abbreviation enc_update :: "openssl \<Rightarrow> bytes \<Rightarrow> bytes \<Rightarrow> bytes option" where
  "enc_update ssl key p \<equiv> EVP_EncryptUpdate ssl key (int_len (length p)) (input_read p)"

abbreviation enc_final :: "openssl \<Rightarrow> bytes \<Rightarrow> bytes \<Rightarrow> bytes option" where
  "enc_final ssl key p \<equiv> EVP_EncryptFinal_ex ssl key (int_len (length p)) (input_read p)"

abbreviation dec_update :: "openssl \<Rightarrow> bytes \<Rightarrow> bytes \<Rightarrow> bytes option" where
  "dec_update ssl key p \<equiv> EVP_DecryptUpdate ssl key (int_len (length p)) (input_read p)"

abbreviation dec_final :: "openssl \<Rightarrow> bytes \<Rightarrow> bytes \<Rightarrow> bytes option" where
  "dec_final ssl key p \<equiv> EVP_DecryptFinal_ex ssl key (int_len (length p)) (input_read p)"

text \<open>The calls a successful \<open>Seal\<close> makes, and the envelope they produce.\<close>

definition seals :: "openssl \<Rightarrow> bytes \<Rightarrow> bytes \<Rightarrow> bytes \<Rightarrow> bytes \<Rightarrow> bytes \<Rightarrow> bool" where
  "seals ssl key pt mac c d \<longleftrightarrow>
     EVP_CIPHER_CTX_reset ssl \<and> EVP_EncryptInit_ex ssl key \<and> HMAC ssl key pt = Some mac \<and>
     enc_update ssl key pt = Some c \<and> enc_final ssl key pt = Some d"

lemma Seal_buffer_steps:
  assumes "ossl_ok ssl" "HMAC ssl key pt = Some mac" "enc_update ssl key pt = Some c"
    and "length buf = GetBufferSizeForPlaintextSize ssl (length pt)"
  shows "memcpy_at buf 0 mac = Returns (mac @ drop (length mac) buf)"
    and "memcpy_at (mac @ drop (length mac) buf) (EVP_MD_size ssl) c =
         Returns (mac @ c @ drop (length c) (drop (length mac) buf))"
    and "enc_final ssl key pt = Some d \<Longrightarrow>
         memcpy_at (mac @ c @ drop (length c) (drop (length mac) buf)) (EVP_MD_size ssl + length c) d =
         Returns (mac @ c @ d @ drop (length d) (drop (length c) (drop (length mac) buf)))"
proof -
  have sz: "length mac = EVP_MD_size ssl" "length c \<le> length pt + EVP_CIPHER_CTX_block_size ssl"
    using ossl_okD(2) [OF assms(1,2)] ossl_okD(3) [OF assms(1,3)] length_input_read [of pt] by linarith+
  have L: "length buf = length pt + EVP_MD_size ssl + 2 * EVP_CIPHER_CTX_block_size ssl"
    using assms(4) by (simp add: GetBufferSizeForPlaintextSize_def)
  show "memcpy_at buf 0 mac = Returns (mac @ drop (length mac) buf)"
    using sz L by (simp add: memcpy_at_0)
  show "memcpy_at (mac @ drop (length mac) buf) (EVP_MD_size ssl) c =
     Returns (mac @ c @ drop (length c) (drop (length mac) buf))"
    using sz L by (intro memcpy_at_append) simp_all
  assume "enc_final ssl key pt = Some d"
  then have "length d \<le> EVP_CIPHER_CTX_block_size ssl"
    by (rule ossl_okD(4) [OF assms(1)])
  then show "memcpy_at (mac @ c @ drop (length c) (drop (length mac) buf)) (EVP_MD_size ssl + length c) d =
     Returns (mac @ c @ d @ drop (length d) (drop (length c) (drop (length mac) buf)))"
    using sz L memcpy_at_append [of "EVP_MD_size ssl + length c" "mac @ c" d
        "drop (length c) (drop (length mac) buf)"] by simp
qed

lemma Seal_value:
  assumes "ossl_ok ssl" "seals ssl (mKeyData ctx) pt mac c d"
  obtains out where "Seal ssl pt ctx = Returns (ErrorOr_value (mac @ c @ d), ctx\<lparr>mOutputBuffer := out\<rparr>)"
proof -
  let ?buf = "resize (GetBufferSizeForPlaintextSize ssl (length pt)) 0 (mOutputBuffer ctx)"
  have calls: "HMAC ssl (mKeyData ctx) pt = Some mac" "enc_update ssl (mKeyData ctx) pt = Some c"
    "enc_final ssl (mKeyData ctx) pt = Some d" "EVP_CIPHER_CTX_reset ssl"
    "EVP_EncryptInit_ex ssl (mKeyData ctx)"
    using assms(2) by (simp_all add: seals_def)
  note steps = Seal_buffer_steps [OF assms(1) calls(1,2), of ?buf]
  have "length mac = EVP_MD_size ssl" by (rule ossl_okD(2) [OF assms(1) calls(1)])
  then show thesis
    using that steps(1,2) steps(3) [OF _ calls(3)] calls ossl_okD(8) [OF assms(1) calls(2,3)]
    by (simp add: Seal_def Let_def)
qed

lemma Seal_returns:
  assumes "ossl_ok ssl"
  shows "returns (Seal ssl pt ctx)"
proof (cases "HMAC ssl (mKeyData ctx) pt")
  case None
  then show ?thesis by (simp add: Seal_def Let_def)
next
  case (Some mac)
  let ?buf = "resize (GetBufferSizeForPlaintextSize ssl (length pt)) 0 (mOutputBuffer ctx)"
  have "length mac \<le> length ?buf"
    using ossl_okD(2) [OF assms Some] by (simp add: GetBufferSizeForPlaintextSize_def)
  then have mac: "memcpy_at ?buf 0 mac = Returns (mac @ drop (length mac) ?buf)"
    by (rule memcpy_at_0)
  show ?thesis
  proof (cases "enc_update ssl (mKeyData ctx) pt")
    case None
    then show ?thesis using Some mac by (simp add: Seal_def Let_def)
  next
    case c: (Some c)
    note steps = Seal_buffer_steps [OF assms Some c, of ?buf]
    show ?thesis
      using Some c steps(1,2) steps(3) ossl_okD(8) [OF assms c]
      by (cases "enc_final ssl (mKeyData ctx) pt") (simp_all add: Seal_def Let_def)
  qed
qed

text \<open>\<open>Open\<close> stays inside the buffer it resized to the length of the envelope.\<close>

lemma Open_buffer_steps:
  assumes "ossl_ok ssl" "EVP_MD_size ssl \<le> length env"
    and "dec_update ssl key (drop (EVP_MD_size ssl) env) = Some p"
    and "length buf = length env"
  shows "memcpy_at buf 0 p = Returns (p @ drop (length p) buf)"
    and "dec_final ssl key (drop (EVP_MD_size ssl) env) = Some q \<Longrightarrow>
         memcpy_at (p @ drop (length p) buf) (length p) q =
         Returns (p @ q @ drop (length q) (drop (length p) buf))"
proof -
  have room: "length (drop (EVP_MD_size ssl) env) + EVP_CIPHER_CTX_block_size ssl \<le> length env"
    using assms(2) ossl_okD(7) [OF assms(1)] by simp
  have "length p \<le> length buf"
    using ossl_okD(6) [OF assms(1,3)] room assms(4) length_input_read [of "drop (EVP_MD_size ssl) env"]
    by linarith
  then show "memcpy_at buf 0 p = Returns (p @ drop (length p) buf)"
    by (rule memcpy_at_0)
  assume q: "dec_final ssl key (drop (EVP_MD_size ssl) env) = Some q"
  have "length p + length q \<le> length buf"
    using ossl_okD(5) [OF assms(1,3) q] room assms(4) length_input_read [of "drop (EVP_MD_size ssl) env"]
    by linarith
  then show "memcpy_at (p @ drop (length p) buf) (length p) q =
     Returns (p @ q @ drop (length q) (drop (length p) buf))"
    by (intro memcpy_at_append) simp_all
qed

lemma Open_returns:
  assumes "ossl_ok ssl"
  shows "returns (Open ssl env ctx)"
proof (cases "EVP_MD_size ssl \<le> length env")
  case False
  then show ?thesis by (simp add: Open_def Let_def)
next
  case True
  let ?in = "drop (EVP_MD_size ssl) env" and ?buf = "resize (length env) 0 (mOutputBuffer ctx)"
  show ?thesis
  proof (cases "dec_update ssl (mKeyData ctx) ?in")
    case None
    then show ?thesis by (simp add: Open_def Let_def)
  next
    case (Some p)
    note steps = Open_buffer_steps [OF assms True Some, of ?buf]
    show ?thesis
      using Some steps(1) steps(2) ossl_okD(10) [OF assms Some]
      by (cases "dec_final ssl (mKeyData ctx) ?in")
        (simp_all add: Open_def Let_def split: option.split)
  qed
qed

lemma Open_value:
  assumes "ossl_ok ssl" "EVP_MD_size ssl \<le> length env" "EVP_CIPHER_CTX_reset ssl"
    and "EVP_DecryptInit_ex ssl (mKeyData ctx)"
    and "dec_update ssl (mKeyData ctx) (drop (EVP_MD_size ssl) env) = Some p"
    and "dec_final ssl (mKeyData ctx) (drop (EVP_MD_size ssl) env) = Some q"
    and "HMAC ssl (mKeyData ctx) (p @ q) = Some mac"
  shows "Open ssl env ctx = Returns (ErrorOr_value (p @ q), ctx\<lparr>mOutputBuffer := p @ q\<rparr>)"
proof -
  let ?buf = "resize (length env) 0 (mOutputBuffer ctx)"
  note steps = Open_buffer_steps [OF assms(1,2,5), of ?buf]
  have "resize (length p + length q) 0 (p @ q @ drop (length q) (drop (length p) ?buf)) = p @ q"
    by simp
  then show ?thesis
    using assms(2-7) steps(1) steps(2) [OF _ assms(6)] ossl_okD(10) [OF assms(1,5,6)]
    by (simp add: Open_def Let_def)
qed

text \<open>
  The MAC is never looked at: \<open>Open\<close> depends on the envelope only through its length and what
  follows the first \<open>EVP_MD_size\<close> bytes.
\<close>

lemma Open_ignores_mac:
  assumes "length mac = EVP_MD_size ssl" "length mac' = EVP_MD_size ssl"
  shows "Open ssl (mac' @ body) ctx = Open ssl (mac @ body) ctx"
  using assms by (simp add: Open_def)

text \<open>
  What comes back is what the cipher read: the first \<open>int_len\<close> bytes of the plaintext, that is all of it
  when its length is an \<open>int\<close>.
\<close>

lemma Open_Seal_read:
  assumes "ossl_ok ssl" "ossl_inverse ssl" "seals ssl key pt mac c d" "0 \<le> int_len (length pt)"
    and "EVP_DecryptInit_ex ssl key" "HMAC ssl key (input_read pt) = Some mac'"
    and "mKeyData sender = key" "mKeyData receiver = key"
  shows "\<exists>s' r'. Seal ssl pt sender = Returns (ErrorOr_value (mac @ c @ d), s') \<and>
     Open ssl (mac @ c @ d) receiver = Returns (ErrorOr_value (input_read pt), r')"
proof -
  have calls: "HMAC ssl key pt = Some mac" "enc_update ssl key pt = Some c"
    "enc_final ssl key pt = Some d" "EVP_CIPHER_CTX_reset ssl"
    using assms(3) by (simp_all add: seals_def)
  have mac: "length mac = EVP_MD_size ssl" by (rule ossl_okD(2) [OF assms(1) calls(1)])
  have short: "length (c @ d) < 2 ^ 31" using ossl_okD(9) [OF assms(1) calls(2,3)] by simp
  have "int (length (input_read pt)) = int_len (length pt)" by (rule length_input_read_eq [OF assms(4)])
  then have "EVP_EncryptUpdate ssl key (int (length (input_read pt))) (input_read pt) = Some c"
      "EVP_EncryptFinal_ex ssl key (int (length (input_read pt))) (input_read pt) = Some d"
    using calls by simp_all
  then obtain p q where pq: "dec_update ssl key (c @ d) = Some p"
      "dec_final ssl key (c @ d) = Some q" "p @ q = input_read pt"
    using assms(2) short int_len_small [OF short] input_read_small [OF short]
    unfolding ossl_inverse_def by metis
  obtain out where "Seal ssl pt sender = Returns (ErrorOr_value (mac @ c @ d), sender\<lparr>mOutputBuffer := out\<rparr>)"
    using Seal_value [OF assms(1)] assms(3,7) by blast
  moreover have "Open ssl (mac @ c @ d) receiver = Returns (ErrorOr_value (p @ q), receiver\<lparr>mOutputBuffer := p @ q\<rparr>)"
    by (rule Open_value [OF assms(1)]) (use assms(5,6,8) calls(4) pq mac in simp_all)
  ultimately show ?thesis using pq(3) by auto
qed

lemma Open_Seal:
  assumes "ossl_ok ssl" "ossl_inverse ssl" "seals ssl key pt mac c d" "length pt < 2 ^ 31"
    and "EVP_DecryptInit_ex ssl key" "mKeyData sender = key" "mKeyData receiver = key"
  shows "\<exists>s' r'. Seal ssl pt sender = Returns (ErrorOr_value (mac @ c @ d), s') \<and>
     Open ssl (mac @ c @ d) receiver = Returns (ErrorOr_value pt, r')"
proof -
  have "HMAC ssl key (input_read pt) = Some mac"
    using assms(3,4) by (simp add: seals_def)
  then show ?thesis
    using Open_Seal_read [OF assms(1-3) _ assms(5) _ assms(6,7)] assms(4) by simp
qed

section \<open>Key lemmas\<close>

lemma CreateKey_ok:
  assumes "ossl_ok ssl" "EVP_MD_CTX_new ssl" "EVP_DigestInit_ex ssl"
    and "EVP_DigestUpdate ssl (le_bytes 8 (unat nid))"
    and "EVP_DigestFinal ssl (le_bytes 8 (unat nid)) = Some d"
  shows "CreateKey ssl nid = Returns (ErrorOr_value d)"
  using assms ossl_okD(1) [OF assms(1,5)] by (simp add: CreateKey_def Let_def memcpy_at_def)

lemma CreateKey_cases:
  assumes "ossl_ok ssl"
  obtains (key) d where "CreateKey ssl nid = Returns (ErrorOr_value d)"
      "EVP_DigestFinal ssl (le_bytes 8 (unat nid)) = Some d" "length d = EVP_MD_size ssl"
  | (error) "CreateKey ssl nid = Returns (ErrorOr_error (make_error_code (ERR_get_error ssl)))"
proof (cases "CreateKey ssl nid = Returns (ErrorOr_error (make_error_code (ERR_get_error ssl)))")
  case False
  then obtain d where d: "EVP_DigestFinal ssl (le_bytes 8 (unat nid)) = Some d"
    and calls: "EVP_MD_CTX_new ssl" "EVP_DigestInit_ex ssl" "EVP_DigestUpdate ssl (le_bytes 8 (unat nid))"
    by (auto simp: CreateKey_def Let_def split: if_splits option.splits)
  show thesis
    using key [OF CreateKey_ok [OF assms calls d] d] ossl_okD(1) [OF assms d] by simp
qed (rule error)

lemma CreateEnvelope_ok:
  "CreateKey ssl nid = Returns (ErrorOr_value d) \<Longrightarrow>
   CreateEnvelope ssl nid = Returns (ErrorOr_value (AesContext_new d))"
  by (simp add: CreateEnvelope_def)

section \<open>The socket adapter\<close>

text \<open>
  \<open>mEncryptionKey\<close> is null until \<open>SetKey\<close> succeeds.  The wrapped socket is a parameter: \<open>sock\<close> is
  what its \<open>Send\<close>/\<open>SendTo\<close> returns for the bytes given, \<open>rcv\<close> the result of its
  \<open>Recv\<close>/\<open>RecvFrom\<close>, a size and the bytes it put at the start of the caller's buffer.
\<close>

record OpenSSLAesAdapter =
  mEncryptionKey :: "AesContext option"
  socket_alive :: bool  \<comment> \<open>the wrapped socket still exists\<close>

text \<open>
  The constructor of \<open>AesAdapter\<close> hands \<open>socket.get()\<close> to its base class, which takes ownership, and
  then destroys its own \<open>unique_ptr\<close> parameter and the socket with it.
\<close>

definition AesAdapter_new :: OpenSSLAesAdapter where
  "AesAdapter_new =
     (let base = \<lparr>mEncryptionKey = None, socket_alive = True\<rparr>
      in base\<lparr>socket_alive := False\<rparr>)"

definition AesAdapter_Create :: "(OpenSSLAesAdapter, int) ErrorOr" where
  "AesAdapter_Create = ErrorOr_value AesAdapter_new"

definition use_socket :: "OpenSSLAesAdapter \<Rightarrow> unit outcome" where
  "use_socket ad = (if socket_alive ad then Returns () else Faults DanglingPointer)"

definition SetKey ::
    "openssl \<Rightarrow> u64 \<Rightarrow> OpenSSLAesAdapter \<Rightarrow> ((unit, int) ErrorOr \<times> OpenSSLAesAdapter) outcome" where
  "SetKey ssl nid ad =
     andThen (CreateEnvelope ssl nid) (\<lambda>envelope.
     if \<not> has_value envelope
     then andThen (error_of envelope) (\<lambda>e. Returns (ErrorOr_error e, ad))
     else andThen (value_of envelope) (\<lambda>c. Returns (ErrorOr_value (), ad\<lparr>mEncryptionKey := Some c\<rparr>)))"

text \<open>The result: the return value, the bytes handed to the socket if any, the adapter.\<close>

definition SendTo ::
    "openssl \<Rightarrow> (bytes \<Rightarrow> int) \<Rightarrow> bytes \<Rightarrow> OpenSSLAesAdapter \<Rightarrow>
     (int \<times> bytes option \<times> OpenSSLAesAdapter) outcome" where
  "SendTo ssl sock pv ad =
     (case mEncryptionKey ad of
        None \<Rightarrow> Returns (0, None, ad)
      | Some ctx \<Rightarrow>
          andThen (Seal ssl pv ctx) (\<lambda>(enc_result, ctx').
          let ad' = ad\<lparr>mEncryptionKey := Some ctx'\<rparr>
          in if \<not> has_value enc_result then Returns (0, None, ad')
             else andThen (value_of enc_result) (\<lambda>enc_data.
                  andThen (use_socket ad') (\<lambda>_.
                  Returns (sock enc_data, Some enc_data, ad')))))"

definition Send ::
    "openssl \<Rightarrow> (bytes \<Rightarrow> int) \<Rightarrow> bytes \<Rightarrow> OpenSSLAesAdapter \<Rightarrow>
     (int \<times> bytes option \<times> OpenSSLAesAdapter) outcome" where
  "Send ssl sock pv ad =
     (case mEncryptionKey ad of
        None \<Rightarrow> Returns (0, None, ad)
      | Some ctx \<Rightarrow>
          andThen (Seal ssl pv ctx) (\<lambda>(enc_result, ctx').
          let ad' = ad\<lparr>mEncryptionKey := Some ctx'\<rparr>
          in if \<not> has_value enc_result then Returns (0, None, ad')
             else andThen (value_of enc_result) (\<lambda>enc_data.
                  andThen (use_socket ad') (\<lambda>_.
                  Returns (sock enc_data, Some enc_data, ad')))))"

text \<open>The common tail of both receive functions, after \<open>recv_size\<close> bytes arrived in \<open>pv\<close>.\<close>

definition open_received ::
    "openssl \<Rightarrow> nat \<Rightarrow> bytes \<Rightarrow> OpenSSLAesAdapter \<Rightarrow> (int \<times> bytes \<times> OpenSSLAesAdapter) outcome" where
  "open_received ssl recv_size pv ad =
     (case mEncryptionKey ad of
        None \<Rightarrow> Returns (0, pv, ad)
      | Some ctx \<Rightarrow>
          andThen (Open ssl (take recv_size pv) ctx) (\<lambda>(decrypt_result, ctx').
          let ad' = ad\<lparr>mEncryptionKey := Some ctx'\<rparr>
          in if \<not> has_value decrypt_result then Returns (0, pv, ad')
             else andThen (value_of decrypt_result) (\<lambda>decrypted_data.
                  andThen (memcpy_at pv 0 decrypted_data) (\<lambda>pv'.
                  Returns (int (length decrypted_data), pv', ad')))))"

definition Recv ::
    "openssl \<Rightarrow> int \<times> bytes \<Rightarrow> bytes \<Rightarrow> OpenSSLAesAdapter \<Rightarrow>
     (int \<times> bytes \<times> OpenSSLAesAdapter) outcome" where
  "Recv ssl rcv pv ad =
     andThen (use_socket ad) (\<lambda>_.
     andThen (memcpy_at pv 0 (snd rcv)) (\<lambda>pv1.
     if fst rcv < 0 then Returns (-1, pv1, ad)
     else open_received ssl (nat (fst rcv)) pv1 ad))"

text \<open>
  \<open>RecvFrom\<close> first stamps one byte, the low byte of \<open>0xBAADF00D\<close>, over every fourth byte of the
  buffer (the pointer it stores through has type \<open>uint8_t*\<close>).
\<close>

fun fill_pattern :: "nat \<Rightarrow> nat \<Rightarrow> bytes \<Rightarrow> bytes outcome" where
  "fill_pattern 0 pfill buffer = Returns buffer"
| "fill_pattern (Suc i) pfill buffer =
     (if pfill < length buffer then fill_pattern i (pfill + 4) (buffer[pfill := 0x0D])
      else Faults OutOfBounds)"

definition RecvFrom ::
    "openssl \<Rightarrow> int \<times> bytes \<Rightarrow> nat \<Rightarrow> bytes \<Rightarrow> OpenSSLAesAdapter \<Rightarrow>
     (int \<times> bytes \<times> OpenSSLAesAdapter) outcome" where
  "RecvFrom ssl rcv cb pv ad =
     (let max_size = (if cb div 4 < 512 then cb div 4 else 512);
          pad_offset = 4 * max_size;
          fill_size = pad_offset div 4
      in andThen (fill_pattern fill_size 0 pv) (\<lambda>pv0.
         andThen (use_socket ad) (\<lambda>_.
         andThen (memcpy_at pv0 0 (snd rcv)) (\<lambda>pv1.
         if fst rcv < 0 then Returns (-1, pv1, ad)
         else open_received ssl (nat (fst rcv)) pv1 ad))))"

lemma fill_pattern_returns:
  assumes "pfill + 4 * i \<le> length buffer + 3"
  shows "\<exists>b. fill_pattern i pfill buffer = Returns b \<and> length b = length buffer"
  using assms by (induction i pfill buffer rule: fill_pattern.induct) auto

lemma fill_size_bound: "4 * (if cb div 4 < 512 then cb div 4 else (512 :: nat)) \<le> cb"
  by (simp add: not_less less_eq_div_iff_mult_less_eq)

lemma SetKey_ok:
  assumes "CreateKey ssl nid = Returns (ErrorOr_value d)"
  shows "SetKey ssl nid ad = Returns (ErrorOr_value (), ad\<lparr>mEncryptionKey := Some (AesContext_new d)\<rparr>)"
  using CreateEnvelope_ok [OF assms] by (simp add: SetKey_def)

lemma SetKey_fail:
  assumes "CreateKey ssl nid = Returns (ErrorOr_error e)"
  shows "SetKey ssl nid ad = Returns (ErrorOr_error e, ad)"
  using assms by (simp add: SetKey_def CreateEnvelope_def)

lemma SendTo_without_key: "mEncryptionKey ad = None \<Longrightarrow> SendTo ssl sock pv ad = Returns (0, None, ad)"
  by (simp add: SendTo_def)

lemma Send_eq_SendTo: "Send = SendTo"
  by (intro ext) (simp add: Send_def SendTo_def)

text \<open>
  An adapter that \<open>Create\<close> made has nothing left to send through or to receive from, whatever key
  \<open>SetKey\<close> gave it.
\<close>

lemma SetKey_keeps_socket: "SetKey ssl nid ad = Returns (r, ad') \<Longrightarrow> socket_alive ad' = socket_alive ad"
proof (cases "CreateEnvelope ssl nid")
  case (Returns e)
  then show "SetKey ssl nid ad = Returns (r, ad') \<Longrightarrow> ?thesis"
    by (cases e) (auto simp: SetKey_def)
qed (simp add: SetKey_def)

lemma created_adapter_socket:
  assumes "AesAdapter_Create = ErrorOr_value ad" "SetKey ssl nid ad = Returns (r, ad')"
  shows "\<not> socket_alive ad'"
  using SetKey_keeps_socket [OF assms(2)] assms(1) by (auto simp: AesAdapter_Create_def AesAdapter_new_def)

lemma SendTo_dead_socket:
  assumes "\<not> socket_alive ad" "mEncryptionKey ad = Some ctx" "ossl_ok ssl" "seals ssl (mKeyData ctx) pt mac c d"
  shows "SendTo ssl sock pt ad = Faults DanglingPointer"
proof -
  obtain out where "Seal ssl pt ctx = Returns (ErrorOr_value (mac @ c @ d), ctx\<lparr>mOutputBuffer := out\<rparr>)"
    using Seal_value [OF assms(3,4)] by blast
  then show ?thesis using assms(1,2) by (simp add: SendTo_def use_socket_def)
qed

lemma Recv_dead_socket: "\<not> socket_alive ad \<Longrightarrow> Recv ssl rcv pv ad = Faults DanglingPointer"
  by (simp add: Recv_def use_socket_def)

lemma RecvFrom_dead_socket:
  assumes "\<not> socket_alive ad" "cb \<le> length pv"
  shows "RecvFrom ssl rcv cb pv ad = Faults DanglingPointer"
proof -
  let ?f = "if cb div 4 < 512 then cb div 4 else 512"
  obtain pv0 where "fill_pattern ?f 0 pv = Returns pv0"
    using fill_pattern_returns [of 0 ?f pv] fill_size_bound [of cb] assms(2) by auto
  then show ?thesis using assms(1) unfolding RecvFrom_def Let_def by (simp add: use_socket_def)
qed

end
