(* ===== verification/Packets.thy ===== *)
theory Packets
  imports Enums
begin

text \<open>
  The LAN discovery packets of \<open>network/packets/\<close>.  Class inheritance is record extension.  A
  constructor takes the contents of the object's uninitialised array as an argument (\<open>junk\<close>),
  since the C++ arrays are not cleared.  The last section lays a packet out in memory the way the
  x64 ABI does (natural alignment, little endian): that is what \<open>SendToHelper(&packet, \<dots>)\<close> puts on
  the wire, and what \<open>LanThreadManager::OnPacket\<close> reads back at fixed offsets.
\<close>

section \<open>Headers\<close>

record DiscoveryPacketHeader =
  mPacketLen :: u16
  mPacketType :: DiscoveryPacketType

record DiscoveryPacket = DiscoveryPacketHeader +
  mSenderId :: NetworkID

definition DiscoveryPacketHeader_new :: "DiscoveryPacketType \<Rightarrow> u16 \<Rightarrow> DiscoveryPacketHeader" where
  "DiscoveryPacketHeader_new type len = \<lparr>mPacketLen = len, mPacketType = type\<rparr>"

definition DiscoveryPacket_new ::
    "NetworkID \<Rightarrow> DiscoveryPacketType \<Rightarrow> u16 \<Rightarrow> DiscoveryPacket" where
  "DiscoveryPacket_new senderId type len =
     (let h = DiscoveryPacketHeader_new type len
      in \<lparr>mPacketLen = mPacketLen h, mPacketType = mPacketType h, mSenderId = senderId\<rparr>)"

definition PacketLength :: "'a DiscoveryPacketHeader_scheme \<Rightarrow> u16" where
  "PacketLength p = mPacketLen p"

definition PacketType :: "'a DiscoveryPacketHeader_scheme \<Rightarrow> DiscoveryPacketType" where
  "PacketType p = mPacketType p"

definition SenderId :: "'a DiscoveryPacket_scheme \<Rightarrow> NetworkID" where
  "SenderId p = mSenderId p"

section \<open>Requests\<close>

record DiscoveryRequestPacket = DiscoveryPacket +
  mId :: NetworkID

definition DiscoveryRequestPacket_new :: "NetworkID \<Rightarrow> DiscoveryRequestPacket" where
  "DiscoveryRequestPacket_new nid =
     (let b = DiscoveryPacket_new nid Request 20
      in \<lparr>mPacketLen = mPacketLen b, mPacketType = mPacketType b, mSenderId = mSenderId b, mId = nid\<rparr>)"

section \<open>Responses\<close>

text \<open>
  The payload is clamped to the 1148 bytes of \<open>mMessageData\<close>; the same clamp gives the packet
  length.  Sizes are \<open>size_t\<close>, the results \<open>uint32_t\<close>.
\<close>

record DiscoveryResponsePacket = DiscoveryPacket +
  rMessageSize :: u32
  rMessageData :: bytes

definition GetResponsePacketLength :: "nat \<Rightarrow> u32" where
  "GetResponsePacketLength data_len = word_of_nat (min data_len 1148)"

definition GetResponsePayloadSize :: "nat \<Rightarrow> u32" where
  "GetResponsePayloadSize n = word_of_nat (min n 1148)"

definition DiscoveryResponsePacket_new ::
    "bytes \<Rightarrow> NetworkID \<Rightarrow> bytes \<Rightarrow> DiscoveryResponsePacket outcome" where
  "DiscoveryResponsePacket_new junk nid data =
     (let b = DiscoveryPacket_new nid Response (ucast (GetResponsePacketLength (length data)));
          n = GetResponsePayloadSize (length data)
      in andThen (memcpy_at junk 0 (take (unat n) data)) (\<lambda>buf.
         Returns \<lparr>mPacketLen = mPacketLen b, mPacketType = mPacketType b, mSenderId = mSenderId b,
                   rMessageSize = n, rMessageData = buf\<rparr>))"

definition ApplicationData :: "DiscoveryResponsePacket \<Rightarrow> bytes" where
  "ApplicationData p = take (unat (rMessageSize p)) (rMessageData p)"

lemma unat_GetResponsePayloadSize [simp]: "unat (GetResponsePayloadSize n) = min n 1148"
  by (simp add: GetResponsePayloadSize_def unat_of_nat)

lemma unat_GetResponsePacketLength [simp]: "unat (GetResponsePacketLength n) = min n 1148"
  by (simp add: GetResponsePacketLength_def unat_of_nat)

lemma ucast_GetResponsePacketLength:
  "unat (ucast (GetResponsePacketLength n) :: u16) = min n 1148"
  by (simp add: unat_ucast_mod)

lemma DiscoveryResponsePacket_new_Returns:
  assumes "length junk = 1148"
  obtains p where "DiscoveryResponsePacket_new junk nid data = Returns p"
    "mSenderId p = nid" "mPacketType p = Response" "unat (mPacketLen p) = min (length data) 1148"
    "unat (rMessageSize p) = min (length data) 1148" "length (rMessageData p) = 1148"
    "ApplicationData p = take 1148 data"
proof -
  let ?src = "take (min (length data) 1148) data"
  have "memcpy_at junk 0 ?src = Returns (?src @ drop (length ?src) junk)"
    using assms by (simp add: memcpy_at_def)
  then show thesis
    using assms
    by (intro that) (auto simp: DiscoveryResponsePacket_new_def DiscoveryPacket_new_def
        DiscoveryPacketHeader_new_def ucast_GetResponsePacketLength ApplicationData_def)
qed

section \<open>Messages\<close>

text \<open>
  The message constructor has no bound check: the size is narrowed to \<open>uint32_t\<close> and that many
  bytes are copied into an array of 1140.
\<close>

record DiscoveryMessagePacket = DiscoveryPacket +
  mRecipientId :: NetworkID
  mMessageSize :: u32
  mMessageData :: bytes

definition DiscoveryMessagePacket_new ::
    "bytes \<Rightarrow> NetworkID \<Rightarrow> NetworkID \<Rightarrow> bytes \<Rightarrow> DiscoveryMessagePacket outcome" where
  "DiscoveryMessagePacket_new junk senderId recipientId message =
     (let b = DiscoveryPacket_new senderId Message (word_of_nat (length message));
          n = word_of_nat (length message) :: u32
      in andThen (memcpy_at junk 0 (take (unat n) message)) (\<lambda>buf.
         Returns \<lparr>mPacketLen = mPacketLen b, mPacketType = mPacketType b, mSenderId = mSenderId b,
                   mRecipientId = recipientId, mMessageSize = n, mMessageData = buf\<rparr>))"

definition MessageData :: "DiscoveryMessagePacket \<Rightarrow> bytes" where
  "MessageData p = take (unat (mMessageSize p)) (mMessageData p)"

definition RecipientId :: "DiscoveryMessagePacket \<Rightarrow> NetworkID" where
  "RecipientId p = mRecipientId p"

lemmas packet_defs = DiscoveryPacketHeader_new_def DiscoveryPacket_new_def Let_def
  PacketLength_def PacketType_def SenderId_def

lemma DiscoveryMessagePacket_new_fits:
  assumes "length junk = 1140" "length message \<le> 1140"
  obtains p where "DiscoveryMessagePacket_new junk s r message = Returns p"
    "mSenderId p = s" "mRecipientId p = r" "mPacketType p = Message"
    "unat (mPacketLen p) = length message" "MessageData p = message"
proof -
  have n: "unat (word_of_nat (length message) :: u32) = length message"
    using assms(2) by (simp add: unat_of_nat)
  have l: "unat (word_of_nat (length message) :: u16) = length message"
    using assms(2) by (simp add: unat_of_nat)
  have "memcpy_at junk 0 message = Returns (message @ drop (length message) junk)"
    using assms by (simp add: memcpy_at_def)
  then show thesis
    using n l by (intro that)
      (auto simp: DiscoveryMessagePacket_new_def packet_defs MessageData_def)
qed

lemma DiscoveryMessagePacket_new_overflow:
  assumes "length junk = 1140" "1140 < length message" "length message < 2 ^ 32"
  shows "DiscoveryMessagePacket_new junk s r message = Faults OutOfBounds"
proof -
  have "unat (word_of_nat (length message) :: u32) = length message"
    using assms(3) by (simp add: unat_of_nat)
  then show ?thesis
    using assms by (simp add: DiscoveryMessagePacket_new_def memcpy_at_def Let_def)
qed

section \<open>Memory images\<close>

text \<open>
  \<open>mPacketLen\<close> is at offset 0, \<open>mPacketType\<close> at 2; \<open>mSenderId\<close> needs 8-byte alignment and so stands
  at offset 8, after four bytes of padding (\<open>pad\<close>) whose contents are indeterminate.
\<close>

definition packet_image :: "bytes \<Rightarrow> 'a DiscoveryPacket_scheme \<Rightarrow> bytes" where
  "packet_image pad p =
     le_bytes 2 (unat (mPacketLen p)) @ le_bytes 2 (unat (DiscoveryPacketType_value (mPacketType p)))
     @ pad @ le_bytes 8 (unat (mSenderId p))"

definition request_image :: "bytes \<Rightarrow> DiscoveryRequestPacket \<Rightarrow> bytes" where
  "request_image pad p = packet_image pad p @ le_bytes 8 (unat (mId p))"

lemma length_request_image: "length pad = 4 \<Longrightarrow> length (request_image pad p) = 24"
  by (simp add: request_image_def packet_image_def)

end
