(* ===== verification/Peer_Table.thy ===== *)
theory Peer_Table
  imports Containers Utils Net_Address
begin

text \<open>
  \<open>PeerRecordTable\<close> of \<open>network/PeerRecordTable.cpp\<close>, the addresses of the peers seen on the LAN.
  The class has two tables: \<open>mExclusiveTable\<close> behind a mutex, which \<open>RemoveExpiredRecords\<close> sweeps,
  and \<open>mPeerRecordTable\<close>, which everything else reads and writes.  The readings of the clock are a
  sequence \<open>clock\<close>; a call starts reading it at position \<open>n\<close>.
\<close>

record PeerRecord =
  mRemoteId :: NetworkID
  mLastActiveTime :: time
  mRemoteAddress :: SocketAddress

record PeerRecordTable =
  mExclusiveTable :: "(NetworkID, PeerRecord) omap ThreadSafe"
  mPeerRecordTable :: "(NetworkID, PeerRecord) omap"

type_synonym clock = "nat \<Rightarrow> time"

definition PeerRecordTable_new :: PeerRecordTable where
  "PeerRecordTable_new = \<lparr>mExclusiveTable = \<lparr>ts_data = [], held = False\<rparr>, mPeerRecordTable = []\<rparr>"

definition GetTimeNow :: "clock \<Rightarrow> nat \<Rightarrow> time" where
  "GetTimeNow clock n = clock n"

section \<open>Operations\<close>

text \<open>
  The sweep.  \<open>erase(i.first)\<close> erases the very element the range-\<open>for\<close> stands on, so advancing the
  loop's iterator afterwards is undefined.
\<close>

fun RemoveExpired_loop ::
    "clock \<Rightarrow> nat \<Rightarrow> (NetworkID \<times> PeerRecord) list \<Rightarrow> (NetworkID, PeerRecord) omap
     \<Rightarrow> (NetworkID, PeerRecord) omap outcome" where
  "RemoveExpired_loop clock n [] table = Returns table"
| "RemoveExpired_loop clock n (i # is) table =
     (if duration_cast nanos_per_second (clock n - mLastActiveTime (snd i)) \<le> 60
      then RemoveExpired_loop clock (n + 1) is table
      else Faults IteratorInvalidated)"

definition RemoveExpiredRecords ::
    "clock \<Rightarrow> nat \<Rightarrow> (NetworkID, PeerRecord) omap ThreadSafe
     \<Rightarrow> (NetworkID, PeerRecord) omap ThreadSafe outcome" where
  "RemoveExpiredRecords clock n = with_view (\<lambda>table. RemoveExpired_loop clock n table table)"

text \<open>\<open>Find\<close> leaves \<open>*pOutAddr\<close> alone when the peer is unknown.\<close>

definition Find ::
    "clock \<Rightarrow> NetworkID \<Rightarrow> SocketAddress \<Rightarrow> PeerRecordTable
     \<Rightarrow> (PeerRecordTable \<times> SocketAddress \<times> bool) outcome" where
  "Find clock nid outAddr t =
     andThen (RemoveExpiredRecords clock 0 (mExclusiveTable t)) (\<lambda>ex.
     let t = t\<lparr>mExclusiveTable := ex\<rparr>
     in case omap_get (mPeerRecordTable t) nid of
          Some record \<Rightarrow> Returns (t, mRemoteAddress record, True)
        | None \<Rightarrow> Returns (t, outAddr, False))"

definition Contains ::
    "clock \<Rightarrow> NetworkID \<Rightarrow> PeerRecordTable \<Rightarrow> (PeerRecordTable \<times> bool) outcome" where
  "Contains clock nid t =
     andThen (RemoveExpiredRecords clock 0 (mExclusiveTable t)) (\<lambda>ex.
     Returns (t\<lparr>mExclusiveTable := ex\<rparr>, omap_get (mPeerRecordTable t) nid \<noteq> None))"

text \<open>The clock reading of the update itself comes after those of the sweep.\<close>

definition AddOrUpdate ::
    "clock \<Rightarrow> NetworkID \<Rightarrow> SocketAddress \<Rightarrow> PeerRecordTable \<Rightarrow> (PeerRecordTable \<times> bool) outcome" where
  "AddOrUpdate clock networkID address t =
     andThen (RemoveExpiredRecords clock 0 (mExclusiveTable t)) (\<lambda>ex.
     let n = length (ts_data (mExclusiveTable t));
         t = t\<lparr>mExclusiveTable := ex\<rparr>
     in case omap_get (mPeerRecordTable t) networkID of
          None \<Rightarrow>
            let new_peer_rec = \<lparr>mRemoteId = networkID, mLastActiveTime = GetTimeNow clock n,
                                mRemoteAddress = address\<rparr>
            in Returns (t\<lparr>mPeerRecordTable := omap_put networkID new_peer_rec (mPeerRecordTable t)\<rparr>, True)
        | Some record \<Rightarrow>
            Returns (t\<lparr>mPeerRecordTable :=
                         omap_put networkID (record\<lparr>mRemoteAddress := address, mLastActiveTime := clock n\<rparr>)
                           (mPeerRecordTable t)\<rparr>, False))"

section \<open>The sweep\<close>

text \<open>It returns, with the table unchanged, exactly when no record is 61 seconds old or older.\<close>

definition fresh_at :: "clock \<Rightarrow> nat \<Rightarrow> (NetworkID, PeerRecord) omap \<Rightarrow> bool" where
  "fresh_at clock n table =
     (\<forall>i < length table. clock (n + i) - mLastActiveTime (snd (table ! i)) < 61 * nanos_per_second)"

lemma RemoveExpired_loop_value:
  "RemoveExpired_loop clock n is table =
     (if fresh_at clock n is then Returns table else Faults IteratorInvalidated)"
proof (induction "is" arbitrary: n)
  case Nil
  then show ?case by (simp add: fresh_at_def)
next
  case (Cons i "is")
  have "fresh_at clock n (i # is) \<longleftrightarrow>
      clock n - mLastActiveTime (snd i) < 61 * nanos_per_second \<and> fresh_at clock (n + 1) is"
    by (auto simp: fresh_at_def All_less_Suc2 nth_Cons' add.assoc)
  moreover have "duration_cast nanos_per_second (clock n - mLastActiveTime (snd i)) \<le> 60 \<longleftrightarrow>
      clock n - mLastActiveTime (snd i) < 61 * nanos_per_second"
    by (simp add: duration_cast_le_iff unit_defs)
  ultimately show ?case
    using Cons.IH by auto
qed

lemma RemoveExpiredRecords_value:
  "\<not> held ts \<Longrightarrow> RemoveExpiredRecords clock n ts =
     (if fresh_at clock n (ts_data ts) then Returns ts else Faults IteratorInvalidated)"
  by (simp add: RemoveExpiredRecords_def with_view_def ThreadSafe_get_def View_end_def
      RemoveExpired_loop_value)

lemma RemoveExpiredRecords_empty [simp]:
  "\<not> held ts \<Longrightarrow> ts_data ts = [] \<Longrightarrow> RemoveExpiredRecords clock n ts = Returns ts"
  by (simp add: RemoveExpiredRecords_value fresh_at_def)

section \<open>The table in use\<close>

definition peers_ok :: "PeerRecordTable \<Rightarrow> bool" where
  "peers_ok t \<longleftrightarrow>
     \<not> held (mExclusiveTable t) \<and> ts_data (mExclusiveTable t) = [] \<and> omap_ok (mPeerRecordTable t) \<and>
     (\<forall>(k, r) \<in> set (mPeerRecordTable t). mRemoteId r = k)"

definition peer_address :: "PeerRecordTable \<Rightarrow> NetworkID \<Rightarrow> SocketAddress option" where
  "peer_address t nid = map_option mRemoteAddress (omap_get (mPeerRecordTable t) nid)"

lemma peers_ok_new: "peers_ok PeerRecordTable_new"
  by (simp add: peers_ok_def PeerRecordTable_new_def omap_ok_def)

lemma omap_put_set: "set (omap_put k v m) \<subseteq> insert (k, v) (set m)"
  by (induction k v m rule: omap_put.induct) auto

lemma omap_get_mem: "omap_get m k = Some v \<Longrightarrow> (k, v) \<in> set m"
  by (simp add: omap_get_def map_of_SomeD)

lemma Find_value:
  "peers_ok t \<Longrightarrow> Find clock nid out t =
     Returns (case peer_address t nid of Some a \<Rightarrow> (t, a, True) | None \<Rightarrow> (t, out, False))"
  by (simp add: Find_def peers_ok_def peer_address_def Let_def split: option.split)

lemma Contains_value:
  "peers_ok t \<Longrightarrow> Contains clock nid t = Returns (t, peer_address t nid \<noteq> None)"
  by (simp add: Contains_def peers_ok_def peer_address_def)

lemma AddOrUpdate_value:
  assumes "peers_ok t"
  obtains t' where "AddOrUpdate clock nid addr t = Returns (t', peer_address t nid = None)"
    "peers_ok t'" "peer_address t' = (peer_address t)(nid \<mapsto> addr)"
    "\<And>r. omap_get (mPeerRecordTable t') nid = Some r \<Longrightarrow> mLastActiveTime r = clock 0"
proof -
  define r where "r = (case omap_get (mPeerRecordTable t) nid of
      None \<Rightarrow> \<lparr>mRemoteId = nid, mLastActiveTime = clock 0, mRemoteAddress = addr\<rparr>
    | Some r \<Rightarrow> r\<lparr>mRemoteAddress := addr, mLastActiveTime := clock 0\<rparr>)"
  let ?t' = "t\<lparr>mPeerRecordTable := omap_put nid r (mPeerRecordTable t)\<rparr>"
  have r: "mRemoteId r = nid" "mLastActiveTime r = clock 0" "mRemoteAddress r = addr"
    using assms omap_get_mem [of "mPeerRecordTable t" nid]
    by (auto simp: r_def peers_ok_def split: option.splits)
  have "AddOrUpdate clock nid addr t = Returns (?t', peer_address t nid = None)"
    using assms by (simp add: AddOrUpdate_def peers_ok_def peer_address_def r_def GetTimeNow_def Let_def
        split: option.split)
  moreover have "peers_ok ?t'"
    using assms r omap_put_set [of nid r "mPeerRecordTable t"] by (auto simp: peers_ok_def omap_ok_put)
  moreover have "peer_address ?t' = (peer_address t)(nid \<mapsto> addr)"
    by (auto simp: peer_address_def r)
  ultimately show thesis
    using r by (intro that) auto
qed

section \<open>The directory contract\<close>

text \<open>
  What the LAN thread relies on: a directory is a partial map from peers to addresses, changed by
  \<open>learn\<close> only.  No law lets a peer disappear with time.
\<close>

locale peer_directory =
  fixes pinv :: "'d \<Rightarrow> bool"
    and address_of :: "'d \<Rightarrow> 'id \<Rightarrow> 'a option"
    and learn :: "clock \<Rightarrow> 'id \<Rightarrow> 'a \<Rightarrow> 'd \<Rightarrow> ('d \<times> bool) outcome"
    and find :: "clock \<Rightarrow> 'id \<Rightarrow> 'a \<Rightarrow> 'd \<Rightarrow> ('d \<times> 'a \<times> bool) outcome"
  assumes learn_ok:
      "pinv d \<Longrightarrow> \<exists>d'. learn clock i a d = Returns (d', address_of d i = None) \<and> pinv d' \<and>
         address_of d' = (address_of d)(i \<mapsto> a)"
    and find_ok:
      "pinv d \<Longrightarrow> find clock i out d =
         Returns (case address_of d i of Some a \<Rightarrow> (d, a, True) | None \<Rightarrow> (d, out, False))"
begin

fun learns :: "(clock \<times> 'id \<times> 'a) list \<Rightarrow> 'd \<Rightarrow> 'd outcome" where
  "learns [] d = Returns d"
| "learns ((clock, i, a) # rest) d = andThen (learn clock i a d) (\<lambda>(d', new). learns rest d')"

lemma learns_ok:
  "pinv d \<Longrightarrow> \<exists>d'. learns xs d = Returns d' \<and> pinv d' \<and>
     address_of d' = (\<lambda>i. case map_of (rev (map snd xs)) i of None \<Rightarrow> address_of d i | Some a \<Rightarrow> Some a)"
proof (induction xs d rule: learns.induct)
  case (2 clock i a rest d)
  obtain d1 where d1: "learn clock i a d = Returns (d1, address_of d i = None)" "pinv d1"
      "address_of d1 = (address_of d)(i \<mapsto> a)"
    using learn_ok [OF 2(2), of clock i a] by blast
  obtain d2 where d2: "learns rest d1 = Returns d2" "pinv d2" "address_of d2 =
      (\<lambda>i. case map_of (rev (map snd rest)) i of None \<Rightarrow> address_of d1 i | Some a \<Rightarrow> Some a)"
    using 2(1) [OF d1(2)] by blast
  show ?case
    using d1 d2 by (auto simp: fun_eq_iff map_add_def split: option.split)
qed simp

text \<open>Once learnt, a peer is found whatever happens in between and however late the lookup is.\<close>

lemma found_after_learns:
  assumes "pinv d" "learns xs d = Returns d'" "i \<in> (fst \<circ> snd) ` set xs \<or> address_of d i \<noteq> None"
  shows "\<exists>a. find clock i out d' = Returns (d', a, True)"
proof -
  have d': "pinv d'" "address_of d' =
      (\<lambda>i. case map_of (rev (map snd xs)) i of None \<Rightarrow> address_of d i | Some a \<Rightarrow> Some a)"
    using learns_ok [OF assms(1), of xs] assms(2) by auto
  have "map_of (rev (map snd xs)) i \<noteq> None \<or> address_of d i \<noteq> None"
    using assms(3) by (auto simp: map_of_eq_None_iff image_iff)
  then have "address_of d' i \<noteq> None"
    by (auto simp: d'(2) split: option.split)
  then show ?thesis
    using d'(1) by (auto simp: find_ok)
qed

end

interpretation lan_peers: peer_directory peers_ok peer_address AddOrUpdate Find
proof
  show "\<exists>d'. AddOrUpdate clock i a d = Returns (d', peer_address d i = None) \<and> peers_ok d' \<and>
      peer_address d' = (peer_address d)(i \<mapsto> a)" if "peers_ok d" for d clock i a
    by (rule AddOrUpdate_value [OF that, of clock i a]) blast
qed (rule Find_value)

end
