(* ===== verification/Effects.thy ===== *)
theory Effects
  imports Prelude
begin

text \<open>
  Stateful operations.  An \<open>act\<close> takes the state and gives the state it leaves behind together with
  its outcome; when it faults, the state is the one reached at that point, so that a theorem can
  say what had happened by then.  The second half is a small calculus for frame conditions
  (\<open>preserves\<close>) and invariants (\<open>keeps\<close>), whose rules are collected in \<open>act_rules\<close>.
\<close>

type_synonym ('s, 'a) act = "'s \<Rightarrow> 's \<times> 'a outcome"

definition ret :: "'a \<Rightarrow> ('s, 'a) act" where
  "ret x = (\<lambda>s. (s, Returns x))"

definition fail :: "fault \<Rightarrow> ('s, 'a) act" where
  "fail e = (\<lambda>s. (s, Faults e))"

definition seq :: "('s, 'a) act \<Rightarrow> ('a \<Rightarrow> ('s, 'b) act) \<Rightarrow> ('s, 'b) act" where
  "seq m f = (\<lambda>s. case m s of (s', r) \<Rightarrow> (case r of Returns x \<Rightarrow> f x s' | Faults e \<Rightarrow> (s', Faults e)))"

definition look :: "('s \<Rightarrow> 'a) \<Rightarrow> ('s, 'a) act" where
  "look f = (\<lambda>s. (s, Returns (f s)))"

definition update :: "('s \<Rightarrow> 's) \<Rightarrow> ('s, unit) act" where
  "update f = (\<lambda>s. (f s, Returns ()))"

text \<open>What an outcome computed aside, without touching the state, contributes.\<close>

definition lift :: "'a outcome \<Rightarrow> ('s, 'a) act" where
  "lift r = (\<lambda>s. (s, r))"

text \<open>\<open>onlyif b m\<close> is \<open>if (b) m;\<close>, \<open>each f xs\<close> is a range-\<open>for\<close>.\<close>

definition onlyif :: "bool \<Rightarrow> ('s, unit) act \<Rightarrow> ('s, unit) act" where
  "onlyif b m = (if b then m else ret ())"

fun each :: "('a \<Rightarrow> ('s, unit) act) \<Rightarrow> 'a list \<Rightarrow> ('s, unit) act" where
  "each f [] = ret ()"
| "each f (x # xs) = seq (f x) (\<lambda>_. each f xs)"

section \<open>Running\<close>

lemma run_ret [simp]: "ret x s = (s, Returns x)"
  by (simp add: ret_def)

lemma run_fail [simp]: "fail e s = (s, Faults e)"
  by (simp add: fail_def)

lemma run_look [simp]: "look f s = (s, Returns (f s))"
  by (simp add: look_def)

lemma run_update [simp]: "update f s = (f s, Returns ())"
  by (simp add: update_def)

lemma run_lift [simp]: "lift r s = (s, r)"
  by (simp add: lift_def)

lemma run_onlyif [simp]: "onlyif b m s = (if b then m s else (s, Returns ()))"
  by (simp add: onlyif_def)

lemma run_seq: "seq m f s = (case m s of (s', Returns x) \<Rightarrow> f x s' | (s', Faults e) \<Rightarrow> (s', Faults e))"
  by (simp add: seq_def split: prod.split)

lemma run_seq_Returns [simp]: "m s = (s', Returns x) \<Longrightarrow> seq m f s = f x s'"
  by (simp add: seq_def)

lemma run_seq_Faults [simp]: "m s = (s', Faults e) \<Longrightarrow> seq m f s = (s', Faults e)"
  by (simp add: seq_def)

lemma seq_ret_left [simp]: "seq (ret x) f = f x"
  by (simp add: fun_eq_iff run_seq)

lemma seq_ret_right [simp]: "seq m ret = m"
  by (auto simp: fun_eq_iff run_seq split: prod.split outcome.split)

lemma seq_assoc: "seq (seq m f) g = seq m (\<lambda>x. seq (f x) g)"
  by (auto simp: fun_eq_iff run_seq split: prod.split outcome.split)

lemma seq_if [simp]: "seq (if b then m else m') f = (if b then seq m f else seq m' f)"
  by simp

section \<open>Frames and invariants\<close>

named_theorems act_rules

definition keeps :: "('s \<Rightarrow> bool) \<Rightarrow> ('s, 'a) act \<Rightarrow> bool" where
  "keeps I m \<longleftrightarrow> (\<forall>s. I s \<longrightarrow> I (fst (m s)))"

definition preserves :: "('s \<Rightarrow> 'b) \<Rightarrow> ('s, 'a) act \<Rightarrow> bool" where
  "preserves f m \<longleftrightarrow> (\<forall>s. f (fst (m s)) = f s)"

lemma keepsD: "keeps I m \<Longrightarrow> I s \<Longrightarrow> I (fst (m s))"
  by (simp add: keeps_def)

lemma preservesD: "preserves f m \<Longrightarrow> f (fst (m s)) = f s"
  by (simp add: preserves_def)

lemma keeps_run: "keeps I m \<Longrightarrow> m s = (s', r) \<Longrightarrow> I s \<Longrightarrow> I s'"
  by (auto simp: keeps_def dest: spec [of _ s])

lemma preserves_run: "preserves f m \<Longrightarrow> m s = (s', r) \<Longrightarrow> f s' = f s"
  by (auto simp: preserves_def dest: spec [of _ s])

lemma preserves_keeps: "preserves f m \<Longrightarrow> keeps (\<lambda>s. P (f s)) m"
  by (simp add: keeps_def preserves_def)

lemma keeps_ret [act_rules]: "keeps I (ret x)" and keeps_fail [act_rules]: "keeps I (fail e)"
  and keeps_look [act_rules]: "keeps I (look f)" and keeps_lift [act_rules]: "keeps I (lift r)"
  by (simp_all add: keeps_def)

lemma keeps_update [act_rules]: "(\<And>s. I s \<Longrightarrow> I (f s)) \<Longrightarrow> keeps I (update f)"
  by (simp add: keeps_def)

lemma keeps_seq [act_rules]: "keeps I m \<Longrightarrow> (\<And>x. keeps I (f x)) \<Longrightarrow> keeps I (seq m f)"
  by (auto simp: keeps_def run_seq split: prod.split outcome.split)

lemma keeps_if [act_rules]: "(b \<Longrightarrow> keeps I m) \<Longrightarrow> (\<not> b \<Longrightarrow> keeps I m') \<Longrightarrow> keeps I (if b then m else m')"
  by simp

lemma keeps_onlyif [act_rules]: "(b \<Longrightarrow> keeps I m) \<Longrightarrow> keeps I (onlyif b m)"
  by (simp add: keeps_def)

lemma keeps_option [act_rules]:
  "(x = None \<Longrightarrow> keeps I m) \<Longrightarrow> (\<And>y. x = Some y \<Longrightarrow> keeps I (f y)) \<Longrightarrow>
   keeps I (case x of None \<Rightarrow> m | Some y \<Rightarrow> f y)"
  by (cases x) simp_all

lemma keeps_each [act_rules]: "(\<And>x. x \<in> set xs \<Longrightarrow> keeps I (f x)) \<Longrightarrow> keeps I (each f xs)"
  by (induction xs) (auto intro: act_rules)

lemma preserves_iff_keeps: "preserves f m \<longleftrightarrow> (\<forall>c. keeps (\<lambda>s. f s = c) m)"
  by (auto simp: preserves_def keeps_def)

lemma preserves_ret [act_rules]: "preserves f (ret x)" and preserves_fail [act_rules]: "preserves f (fail e)"
  and preserves_look [act_rules]: "preserves f (look g)" and preserves_lift [act_rules]: "preserves f (lift r)"
  by (simp_all add: preserves_def)

lemma preserves_update [act_rules]: "(\<And>s. f (g s) = f s) \<Longrightarrow> preserves f (update g)"
  by (simp add: preserves_def)

lemma preserves_seq [act_rules]: "preserves f m \<Longrightarrow> (\<And>x. preserves f (g x)) \<Longrightarrow> preserves f (seq m g)"
  unfolding preserves_iff_keeps by (simp add: keeps_seq)

lemma preserves_if [act_rules]:
  "(b \<Longrightarrow> preserves f m) \<Longrightarrow> (\<not> b \<Longrightarrow> preserves f m') \<Longrightarrow> preserves f (if b then m else m')"
  by simp

lemma preserves_onlyif [act_rules]: "(b \<Longrightarrow> preserves f m) \<Longrightarrow> preserves f (onlyif b m)"
  by (simp add: preserves_def)

lemma preserves_option [act_rules]:
  "(x = None \<Longrightarrow> preserves f m) \<Longrightarrow> (\<And>y. x = Some y \<Longrightarrow> preserves f (g y)) \<Longrightarrow>
   preserves f (case x of None \<Rightarrow> m | Some y \<Rightarrow> g y)"
  by (cases x) simp_all

lemma preserves_each [act_rules]:
  "(\<And>x. x \<in> set xs \<Longrightarrow> preserves f (g x)) \<Longrightarrow> preserves f (each g xs)"
  by (induction xs) (auto intro: act_rules)

lemma keeps_prod [act_rules]: "(\<And>a b. x = (a, b) \<Longrightarrow> keeps I (f a b)) \<Longrightarrow> keeps I (case x of (a, b) \<Rightarrow> f a b)"
  by (cases x) simp

lemma preserves_prod [act_rules]:
  "(\<And>a b. x = (a, b) \<Longrightarrow> preserves g (f a b)) \<Longrightarrow> preserves g (case x of (a, b) \<Rightarrow> f a b)"
  by (cases x) simp

lemma each_append: "each f (xs @ ys) = seq (each f xs) (\<lambda>_. each f ys)"
  by (induction xs) (simp_all add: seq_assoc)

text \<open>A loop whose body always returns.\<close>

lemma each_total:
  assumes "\<And>x s. x \<in> set xs \<Longrightarrow> f x s = (step x s, Returns ())"
  shows "each f xs s = (fold step xs s, Returns ())"
  using assms by (induction xs arbitrary: s) simp_all

text \<open>Reading the state and going on from there.\<close>

lemma keeps_look_then:
  "(\<And>s. I s \<Longrightarrow> I (fst (f (g s) s))) \<Longrightarrow> keeps I (seq (look g) f)"
  by (simp add: keeps_def)

lemma preserves_look_then:
  "(\<And>s. h (fst (f (g s) s)) = h s) \<Longrightarrow> preserves h (seq (look g) f)"
  by (simp add: preserves_def)

section \<open>Where an operation can go\<close>

text \<open>
  \<open>goes R m s\<close>: the state \<open>m\<close> leaves behind from \<open>s\<close> is related to \<open>s\<close>.  For a reflexive and
  transitive \<open>R\<close> this composes, and unlike an invariant it may use what is known of \<open>s\<close>.
\<close>

definition goes :: "('s \<Rightarrow> 's \<Rightarrow> bool) \<Rightarrow> ('s, 'a) act \<Rightarrow> 's \<Rightarrow> bool" where
  "goes R m s \<longleftrightarrow> R s (fst (m s))"

locale progress =
  fixes R :: "'s \<Rightarrow> 's \<Rightarrow> bool"
  assumes R_refl: "R s s" and R_trans: "R s t \<Longrightarrow> R t u \<Longrightarrow> R s u"
begin

lemma goes_pure: "goes R (ret x) s" "goes R (fail e) s" "goes R (look f) s" "goes R (lift r) s"
  by (simp_all add: goes_def R_refl)

lemma goes_update: "R s (f s) \<Longrightarrow> goes R (update f) s"
  by (simp add: goes_def)

lemma goes_seq:
  assumes "goes R m s" "\<And>t x. m s = (t, Returns x) \<Longrightarrow> goes R (f x) t"
  shows "goes R (seq m f) s"
proof (cases "m s")
  case (Pair t r)
  then show ?thesis
    using assms by (cases r) (auto simp: goes_def intro: R_trans)
qed

lemma goes_look: "goes R (f (g s)) s \<Longrightarrow> goes R (seq (look g) f) s"
  by (simp add: goes_def)

lemma goes_if: "(b \<Longrightarrow> goes R m s) \<Longrightarrow> (\<not> b \<Longrightarrow> goes R m' s) \<Longrightarrow> goes R (if b then m else m') s"
  by simp

lemma goes_onlyif: "(b \<Longrightarrow> goes R m s) \<Longrightarrow> goes R (onlyif b m) s"
  by (simp add: goes_def R_refl)

lemma goes_option:
  "(x = None \<Longrightarrow> goes R m s) \<Longrightarrow> (\<And>y. x = Some y \<Longrightarrow> goes R (f y) s) \<Longrightarrow>
   goes R (case x of None \<Rightarrow> m | Some y \<Rightarrow> f y) s"
  by (cases x) simp_all

lemma goes_preserves: "(\<And>s t. f t = f s \<Longrightarrow> R s t) \<Longrightarrow> preserves f m \<Longrightarrow> goes R m s"
  by (simp add: goes_def preserves_def)

lemmas goes_rules = goes_pure goes_look goes_if goes_onlyif goes_option

end

section \<open>Invariants of the calls that return\<close>

text \<open>A fault may leave an operation half done; \<open>upholds\<close> speaks of the runs that return.\<close>

definition upholds :: "('s \<Rightarrow> bool) \<Rightarrow> ('s, 'a) act \<Rightarrow> bool" where
  "upholds I m \<longleftrightarrow> (\<forall>s s' x. I s \<longrightarrow> m s = (s', Returns x) \<longrightarrow> I s')"

lemma upholdsD: "upholds I m \<Longrightarrow> I s \<Longrightarrow> m s = (s', Returns x) \<Longrightarrow> I s'"
  by (auto simp: upholds_def)

lemma upholds_keeps: "keeps I m \<Longrightarrow> upholds I m"
  by (auto simp: upholds_def dest: keeps_run)

lemma upholds_pure: "upholds I (ret x)" "upholds I (fail e)" "upholds I (look f)" "upholds I (lift r)"
  by (simp_all add: upholds_def)

lemma upholds_update: "(\<And>s. I s \<Longrightarrow> I (f s)) \<Longrightarrow> upholds I (update f)"
  by (simp add: upholds_def)

lemma upholds_seq:
  assumes m: "upholds I m" and f: "\<And>x. upholds I (f x)"
  shows "upholds I (seq m f)"
  unfolding upholds_def
proof (intro allI impI)
  fix s s' y
  assume s: "I s" "seq m f s = (s', Returns y)"
  then obtain t x where "m s = (t, Returns x)" "f x t = (s', Returns y)"
    by (cases "m s"; cases "snd (m s)") auto
  with s(1) show "I s'" using upholdsD [OF m] upholdsD [OF f] by blast
qed

lemma upholds_if: "(b \<Longrightarrow> upholds I m) \<Longrightarrow> (\<not> b \<Longrightarrow> upholds I m') \<Longrightarrow> upholds I (if b then m else m')"
  by simp

lemma upholds_onlyif: "(b \<Longrightarrow> upholds I m) \<Longrightarrow> upholds I (onlyif b m)"
  by (simp add: upholds_def)

lemma upholds_option:
  "(x = None \<Longrightarrow> upholds I m) \<Longrightarrow> (\<And>y. x = Some y \<Longrightarrow> upholds I (f y)) \<Longrightarrow>
   upholds I (case x of None \<Rightarrow> m | Some y \<Rightarrow> f y)"
  by (cases x) simp_all

lemma upholds_list:
  "(x = [] \<Longrightarrow> upholds I m) \<Longrightarrow> (\<And>y ys. x = y # ys \<Longrightarrow> upholds I (f y ys)) \<Longrightarrow>
   upholds I (case x of [] \<Rightarrow> m | y # ys \<Rightarrow> f y ys)"
  by (cases x) simp_all

lemma upholds_prod:
  "(\<And>a b. x = (a, b) \<Longrightarrow> upholds I (f a b)) \<Longrightarrow> upholds I (case x of (a, b) \<Rightarrow> f a b)"
  by (cases x) simp

lemma upholds_sum:
  "(\<And>a. x = Inl a \<Longrightarrow> upholds I (f a)) \<Longrightarrow> (\<And>b. x = Inr b \<Longrightarrow> upholds I (g b)) \<Longrightarrow>
   upholds I (case x of Inl a \<Rightarrow> f a | Inr b \<Rightarrow> g b)"
  by (cases x) simp_all

lemma upholds_each: "(\<And>x. x \<in> set xs \<Longrightarrow> upholds I (f x)) \<Longrightarrow> upholds I (each f xs)"
  by (induction xs) (auto intro: upholds_pure upholds_seq)

lemma upholds_look_then:
  "(\<And>s s' x. I s \<Longrightarrow> f (g s) s = (s', Returns x) \<Longrightarrow> I s') \<Longrightarrow> upholds I (seq (look g) f)"
  by (simp add: upholds_def)

lemmas upholds_rules = upholds_pure upholds_seq upholds_if upholds_onlyif upholds_option
  upholds_list upholds_prod upholds_sum upholds_each

end
