(* ===== verification/Rtc_Thread.thy ===== *)
theory Rtc_Thread
  imports Effects
begin

text \<open>
  \<open>RtcThreadManager\<close> of \<open>threadding/RtcThreadManager.cpp\<close>: an atomic pointer to the \<open>rtc::Thread\<close> that
  the signalling (or worker) code runs on.  The pointer is null until \<open>Initialize\<close>; the thread it is
  given there is a local variable, destroyed when \<open>Initialize\<close> returns.
\<close>

datatype thread_ptr = ThreadNull | ThreadLive | ThreadDangling

record RtcThreadManager =
  mThread :: thread_ptr

definition g_thread_init :: RtcThreadManager where
  "g_thread_init = \<lparr>mThread = ThreadNull\<rparr>"

definition LoadRtcThread :: "RtcThreadManager \<Rightarrow> thread_ptr" where
  "LoadRtcThread m = mThread m"

definition GetRtcThread :: "RtcThreadManager \<Rightarrow> thread_ptr" where
  "GetRtcThread m = LoadRtcThread m"

text \<open>A member call through the pointer.\<close>

definition deref_thread :: "thread_ptr \<Rightarrow> unit outcome" where
  "deref_thread p =
     (case p of ThreadNull \<Rightarrow> Faults NullDeref | ThreadLive \<Rightarrow> Returns () | ThreadDangling \<Rightarrow> Faults DanglingPointer)"

text \<open>\<open>is_current\<close> is what \<open>rtc::Thread::IsCurrent\<close> answers.\<close>

definition IsOnThread :: "bool \<Rightarrow> RtcThreadManager \<Rightarrow> bool outcome" where
  "IsOnThread is_current m =
     (let RtcThread = LoadRtcThread m
      in if RtcThread \<noteq> ThreadNull then andThen (deref_thread RtcThread) (\<lambda>_. Returns is_current)
         else Returns False)"

text \<open>The local thread is live while \<open>Initialize\<close> runs; leaving the scope destroys it.\<close>

definition leave_scope :: "RtcThreadManager \<Rightarrow> RtcThreadManager" where
  "leave_scope m = (if mThread m = ThreadLive then m\<lparr>mThread := ThreadDangling\<rparr> else m)"

definition RtcThread_Initialize :: "RtcThreadManager \<Rightarrow> RtcThreadManager" where
  "RtcThread_Initialize m = leave_scope (m\<lparr>mThread := ThreadLive\<rparr>)"

definition RtcThread_Shutdown :: "RtcThreadManager \<Rightarrow> RtcThreadManager outcome" where
  "RtcThread_Shutdown m =
     (let thread = mThread m
      in if thread \<noteq> ThreadNull
         then andThen (deref_thread thread) (\<lambda>_. Returns (m\<lparr>mThread := ThreadNull\<rparr>))
         else Returns m)"

section \<open>The life of a manager\<close>

inductive rtc_reach :: "RtcThreadManager \<Rightarrow> bool" where
  rtc_start: "rtc_reach g_thread_init"
| rtc_init: "rtc_reach m \<Longrightarrow> rtc_reach (RtcThread_Initialize m)"
| rtc_shutdown: "rtc_reach m \<Longrightarrow> RtcThread_Shutdown m = Returns m' \<Longrightarrow> rtc_reach m'"

lemma RtcThread_Initialize_dangles: "mThread (RtcThread_Initialize m) = ThreadDangling"
  by (simp add: RtcThread_Initialize_def leave_scope_def)

lemma rtc_reach_not_live: "rtc_reach m \<Longrightarrow> mThread m \<noteq> ThreadLive"
  by (induction rule: rtc_reach.induct)
    (auto simp: g_thread_init_def RtcThread_Initialize_dangles RtcThread_Shutdown_def Let_def deref_thread_def
      split: if_splits thread_ptr.splits)

text \<open>No call through the pointer of a manager can succeed: it is null or it dangles.\<close>

lemma rtc_reach_no_use: "rtc_reach m \<Longrightarrow> \<not> returns (deref_thread (LoadRtcThread m))"
  using rtc_reach_not_live [of m]
  by (auto simp: deref_thread_def LoadRtcThread_def split: thread_ptr.split)

lemma after_RtcThread_Initialize:
  "RtcThread_Shutdown (RtcThread_Initialize m) = Faults DanglingPointer"
  "IsOnThread c (RtcThread_Initialize m) = Faults DanglingPointer"
  by (simp_all add: RtcThread_Shutdown_def IsOnThread_def LoadRtcThread_def RtcThread_Initialize_dangles deref_thread_def)

end
