(* ===== verification/Lan_Thread.thy ===== *)
theory Lan_Thread
  imports Packets Peer_Table Rtc_Thread Envelope
begin

unbundle bit_operations_syntax

text \<open>
  \<open>LanThreadManager\<close> of \<open>threadding/LanThreadManager.cpp\<close>: discovery and signalling over the local
  network, on a thread of its own.  Every operation is an \<open>act\<close> on the manager's state, which also
  holds the thread's task queue and the datagrams handed to the socket.  A posted lambda is a
  value of \<open>lan_task\<close> carrying what it captures; most of them capture locals of the posting
  function by reference, and \<open>run_lan_task\<close> is told whether that frame is still alive.

  Two functions of the file flow off their end although they return a value.  What then happens is
  an argument of the model (\<open>off_end\<close>, \<open>storage\<close>): \<open>Faults MissingReturn\<close> is the reading of the
  C++ standard, \<open>Returns r\<close> a compiler that leaves some \<open>r\<close> in the return register.
\<close>

section \<open>State\<close>

datatype lan_task =
    LanBroadcastTask
  | LanEnable
  | LanDisable NetworkID
  | LanPing
  | LanSignal NetworkID NetworkID bytes bool

text \<open>
  A \<open>std::error_code\<close>: a value, and a pointer to a category.  \<open>SendToHelper\<close> flows off its end, so the one it
  gives is indeterminate, and its pointer need not point to a category.
\<close>

record error_code =
  ec_value :: int
  ec_category :: bool    \<comment> \<open>the pointer refers to a category\<close>

definition error_code_message :: "error_code \<Rightarrow> unit outcome" where
  "error_code_message e = (if ec_category e then Returns () else Faults DanglingPointer)"

record LanThreadManager =
  mLanRemoteId :: NetworkID
  mPeers :: "PeerRecordTable option"
  mSocket :: bool
  mSocketAddress :: SocketAddress
  mBindAddress :: SocketAddress
  mBasicNetworkMgr :: bool
  mEphemeralPort :: u16
  mIds :: "NetworkID list"
  mDiscoveredAddresses :: "IPAddress list"
  lan_tasks :: "lan_task list"
  lan_wire :: "(bytes \<times> SocketAddress) list"
  lan_completions :: "error_code list"
  lan_signal_posts :: nat
  lan_discoveries :: nat

definition is_v4 :: "SocketAddress \<Rightarrow> bool" where
  "is_v4 a = (case sa_ip a of AF_INET x \<Rightarrow> True | _ \<Rightarrow> False)"

definition is_v6 :: "SocketAddress \<Rightarrow> bool" where
  "is_v6 a = (case sa_ip a of AF_INET6 x \<Rightarrow> True | _ \<Rightarrow> False)"

definition lan_post :: "lan_task \<Rightarrow> (LanThreadManager, unit) act" where
  "lan_post t = update (\<lambda>m. m\<lparr>lan_tasks := lan_tasks m @ [t]\<rparr>)"

text \<open>\<open>mSocket->SendTo(data, size, addr, options)\<close>; its result is never used.\<close>

definition sock_send :: "bytes \<Rightarrow> nat \<Rightarrow> SocketAddress \<Rightarrow> (LanThreadManager, unit) act" where
  "sock_send data n addr =
     seq (look mSocket) (\<lambda>sock.
     if \<not> sock then fail NullDeref
     else if length data < n then fail OutOfBounds
     else update (\<lambda>m. m\<lparr>lan_wire := lan_wire m @ [(take n data, addr)]\<rparr>))"

text \<open>A call on \<open>*mPeerRecordTable\<close>.\<close>

definition with_peers ::
    "(PeerRecordTable \<Rightarrow> (PeerRecordTable \<times> 'a) outcome) \<Rightarrow> (LanThreadManager, 'a) act" where
  "with_peers f =
     seq (look mPeers) (\<lambda>p. case p of
         None \<Rightarrow> fail NullDeref
       | Some t \<Rightarrow> seq (lift (f t)) (\<lambda>(t', x). seq (update (\<lambda>m. m\<lparr>mPeers := Some t'\<rparr>)) (\<lambda>_. ret x)))"

section \<open>Sending\<close>

text \<open>
  Neither \<open>if\<close> of the source leaves the function, so the second send is never skipped.  \<open>off_end\<close> is what
  flowing off the end amounts to: a fault, or some error code.
\<close>

definition SendToHelper ::
    "error_code outcome \<Rightarrow> bytes \<Rightarrow> nat \<Rightarrow> SocketAddress \<Rightarrow> (LanThreadManager, error_code) act" where
  "SendToHelper off_end data n addr =
     seq (look mBindAddress) (\<lambda>bind.
     seq (onlyif (\<not> is_v6 bind \<or> \<not> is_v4 addr) (sock_send data n addr)) (\<lambda>_.
     let ip6addr = AsIPv6Address (sa_ip addr);
         dst_addr = SocketAddress_new ip6addr (uint (sa_port addr))
     in seq (sock_send data n dst_addr) (\<lambda>_. lift off_end)))"

text \<open>
  \<open>pad\<close>: the four bytes of padding inside the packet object.  The warning is logged after every send, with
  the \<open>message()\<close> of the result.
\<close>

definition broadcast_to ::
    "error_code outcome \<Rightarrow> bytes \<Rightarrow> DiscoveryRequestPacket \<Rightarrow> IPAddress \<Rightarrow> (LanThreadManager, unit) act" where
  "broadcast_to off_end pad disc_req_pkt ip =
     seq (look mEphemeralPort) (\<lambda>port.
     let send_addr = SocketAddress_new ip (uint port)
     in seq (SendToHelper off_end (request_image pad disc_req_pkt) (unat (PacketLength disc_req_pkt)) send_addr)
          (\<lambda>send_result. lift (error_code_message send_result)))"

definition SendLanBroadcastRequest ::
    "error_code outcome \<Rightarrow> bytes \<Rightarrow> NetworkID \<Rightarrow> (LanThreadManager, unit) act" where
  "SendLanBroadcastRequest off_end pad nid =
     (let disc_req_pkt = DiscoveryRequestPacket_new nid
      in seq (look mDiscoveredAddresses) (each (broadcast_to off_end pad disc_req_pkt)))"

text \<open>\<open>SendLanBroadcastResponse\<close> has an empty body.\<close>

definition SendLanBroadcastResponse ::
    "SocketAddress \<Rightarrow> DiscoveryResponsePacket \<Rightarrow> (LanThreadManager, unit) act" where
  "SendLanBroadcastResponse addr packet = ret ()"

definition Ping :: bytes where
  "Ping = [0x50, 0x69, 0x6E, 0x67]"

text \<open>
  \<open>current\<close> is \<open>IsCurrent()\<close>, \<open>junk\<close> the uninitialised message array, \<open>on_complete\<close> whether a
  callback was given.  The bytes sent are those of the message, not of the packet.
\<close>

definition SendSignalingMessageTo ::
    "error_code outcome \<Rightarrow> bytes \<Rightarrow> clock \<Rightarrow> bool \<Rightarrow> NetworkID \<Rightarrow> NetworkID \<Rightarrow> bytes \<Rightarrow> bool
     \<Rightarrow> (LanThreadManager, unit) act" where
  "SendSignalingMessageTo off_end junk clock current src dst data on_complete =
     (if current then
        seq (with_peers (Find clock dst SocketAddress_Clear)) (\<lambda>(addr, found).
        if found then
          seq (lift (DiscoveryMessagePacket_new junk src dst data)) (\<lambda>discovery_msg_pkt.
          seq (SendToHelper off_end data (unat (PacketLength discovery_msg_pkt)) addr) (\<lambda>err.
          onlyif on_complete (update (\<lambda>m. m\<lparr>lan_completions := lan_completions m @ [err]\<rparr>))))
        else ret ())
      else lan_post (LanSignal src dst data on_complete))"

definition IsNetworkIdOnLan :: "clock \<Rightarrow> NetworkID \<Rightarrow> (LanThreadManager, bool) act" where
  "IsNetworkIdOnLan clock nid = with_peers (Contains clock nid)"

section \<open>Discovery\<close>

definition ShouldBeginNetworkDiscovery :: "LanThreadManager \<Rightarrow> bool" where
  "ShouldBeginNetworkDiscovery m = (\<not> mBasicNetworkMgr m)"

definition BeginNetworkDiscovery :: "(LanThreadManager, unit) act" where
  "BeginNetworkDiscovery =
     update (\<lambda>m. m\<lparr>mBasicNetworkMgr := True, lan_discoveries := lan_discoveries m + 1\<rparr>)"

definition BroadcastTask :: "error_code outcome \<Rightarrow> bytes \<Rightarrow> (LanThreadManager, unit) act" where
  "BroadcastTask off_end pad =
     seq (look ShouldBeginNetworkDiscovery) (\<lambda>begin_it.
     seq (onlyif begin_it BeginNetworkDiscovery) (\<lambda>_.
     seq (look mIds) (\<lambda>ids.
     seq (each (SendLanBroadcastRequest off_end pad) ids) (\<lambda>_.
     lan_post LanBroadcastTask))))"

text \<open>Off the thread the call hops onto it with \<open>BlockingCall\<close>, whose frame stays alive.\<close>

function IsBroadcastDiscoveryEnabled :: "bool \<Rightarrow> NetworkID \<Rightarrow> LanThreadManager \<Rightarrow> bool" where
  "IsBroadcastDiscoveryEnabled current nid m =
     (if current then nid \<in> set (mIds m) else IsBroadcastDiscoveryEnabled True nid m)"
  by pat_completeness auto
termination
  by (relation "measure (\<lambda>(current, nid, m). if current then 0 else 1)") auto

declare IsBroadcastDiscoveryEnabled.simps [simp del]

definition EnableBroadcastDiscovery :: "bool \<Rightarrow> NetworkID \<Rightarrow> (LanThreadManager, unit) act" where
  "EnableBroadcastDiscovery current nid =
     (if current then lan_post LanBroadcastTask else lan_post LanEnable)"

definition DisableBroadcastDiscovery :: "bool \<Rightarrow> NetworkID \<Rightarrow> (LanThreadManager, unit) act" where
  "DisableBroadcastDiscovery current nid =
     (if \<not> current then lan_post (LanDisable nid)
      else update (\<lambda>m. m\<lparr>mIds := filter (\<lambda>i. i \<noteq> nid) (mIds m)\<rparr>))"

definition DestroyLanResources :: "(LanThreadManager, unit) act" where
  "DestroyLanResources = update (\<lambda>m. m\<lparr>mSocketAddress := SocketAddress_Clear\<rparr>)"

text \<open>
  \<open>IPv6AllHostsLinkLocal\<close> copies \<open>multi_cast_link_local\<close> when the program starts, before any code
  has written to that zero-initialised variable.
\<close>

record lan_globals =
  multi_cast_link_local :: in6_addr
  IPv6AllHostsLinkLocal :: IPAddress

definition lan_static_init :: lan_globals where
  "lan_static_init = (let a = 0 in \<lparr>multi_cast_link_local = a, IPv6AllHostsLinkLocal = AF_INET6 a\<rparr>)"

text \<open>\<open>-1 << n\<close> on a 32-bit \<open>int\<close>, and the host part \<open>~(-1 << -(char)flags)\<close>.\<close>

definition shift_minus1 :: "int \<Rightarrow> u32 outcome" where
  "shift_minus1 n =
     (if 0 \<le> n \<and> n < 32 then Returns (push_bit (nat n) (- 1)) else Faults ShiftOutOfRange)"

definition broadcast_address :: "u32 \<Rightarrow> int \<Rightarrow> IPAddress outcome" where
  "broadcast_address v4 ip6_flags =
     andThen (shift_minus1 (- sint (word_of_int ip6_flags :: u8))) (\<lambda>mask.
     Returns (AF_INET (v4 OR NOT mask)))"

text \<open>One address of a network, with its \<open>ipv6_flags\<close>: the addresses to broadcast to afterwards.\<close>

definition discover_ip ::
    "lan_globals \<Rightarrow> SocketAddress \<Rightarrow> IPAddress \<times> int \<Rightarrow> IPAddress list \<Rightarrow> IPAddress list outcome" where
  "discover_ip g bind_addr ipf domain =
     (let (ip, flags) = ipf
      in if IPIsLoopback ip then Returns domain
         else case ip of
             AF_INET v4 \<Rightarrow>
               if IPIsLinkLocal ip then Returns domain
               else andThen (broadcast_address v4 flags) (\<lambda>a. Returns (oset_insert a domain))
           | AF_INET6 v6 \<Rightarrow>
               if is_v6 bind_addr then Returns (oset_insert (IPv6AllHostsLinkLocal g) domain)
               else Returns domain
           | AF_UNSPEC \<Rightarrow> Returns domain)"

fun discover_network ::
    "lan_globals \<Rightarrow> SocketAddress \<Rightarrow> (IPAddress \<times> int) list \<Rightarrow> IPAddress list \<Rightarrow> IPAddress list outcome" where
  "discover_network g bind_addr [] domain = Returns domain"
| "discover_network g bind_addr (ip # ips) domain =
     andThen (discover_ip g bind_addr ip domain) (\<lambda>d. discover_network g bind_addr ips d)"

text \<open>
  \<open>networks\<close> is the answer of \<open>GetAnyAddressNetworks\<close>, each network given by its addresses.  The swap
  stands inside the loop over the networks.
\<close>

definition OnNetworkDiscoveryComplete ::
    "lan_globals \<Rightarrow> (IPAddress \<times> int) list list \<Rightarrow> (LanThreadManager, unit) act" where
  "OnNetworkDiscoveryComplete g networks =
     seq (look mBasicNetworkMgr) (\<lambda>mgr.
     if \<not> mgr then fail NullDeref
     else each (\<lambda>network.
       seq (look mBindAddress) (\<lambda>bind_addr.
       seq (lift (discover_network g bind_addr network [])) (\<lambda>broadcast_domain_list.
       update (\<lambda>m. m\<lparr>mDiscoveredAddresses := broadcast_domain_list\<rparr>)))) networks)"

section \<open>Receiving\<close>

text \<open>\<open>buf\<close> is the receive buffer behind \<open>data\<close>, \<open>n\<close> the size of the datagram in it.\<close>

definition read_le :: "bytes \<Rightarrow> nat \<Rightarrow> nat \<Rightarrow> nat outcome" where
  "read_le buf off n =
     (if off + n \<le> length buf then Returns (le_value (take n (drop off buf))) else Faults OutOfBounds)"

text \<open>\<open>TryMakePacketStorage\<close> inspects the packet type and flows off its end.\<close>

definition TryMakePacketStorage :: "bytes outcome \<Rightarrow> bytes \<Rightarrow> bytes outcome" where
  "TryMakePacketStorage storage buf = andThen (read_le buf 2 2) (\<lambda>packetId. storage)"

text \<open>
  The id is read at offset 4, whatever the size of the datagram.  The last step posts an empty task
  to the signalling thread.
\<close>

definition register_sender :: "clock \<Rightarrow> bytes \<Rightarrow> SocketAddress \<Rightarrow> (LanThreadManager, unit) act" where
  "register_sender clock buf addr =
     seq (lift (read_le buf 4 8)) (\<lambda>nid.
     onlyif (nid \<noteq> 0)
       (seq (lift (read_le buf 2 2)) (\<lambda>ptype.
        onlyif (ptype \<noteq> 0)
          (seq (with_peers (AddOrUpdate clock (word_of_nat nid) addr)) (\<lambda>new.
           onlyif new (lan_post LanPing))))))"

definition OnPacket ::
    "bytes outcome \<Rightarrow> thread_ptr \<Rightarrow> clock \<Rightarrow> bytes \<Rightarrow> nat \<Rightarrow> SocketAddress \<Rightarrow> (LanThreadManager, unit) act" where
  "OnPacket storage signal_thread clock buf n addr =
     (if 4 \<le> n then
        seq (lift (read_le buf 0 2)) (\<lambda>packet_len.
        if packet_len \<le> n then
          seq (lift (TryMakePacketStorage storage buf)) (\<lambda>dataStorage.
          if length dataStorage \<le> 1176 then fail OutOfBounds
          else onlyif (dataStorage ! 1176 \<noteq> 0)
            (seq (register_sender clock buf addr) (\<lambda>_.
             onlyif (signal_thread \<noteq> ThreadNull)
               (seq (lift (deref_thread signal_thread)) (\<lambda>_.
                update (\<lambda>m. m\<lparr>lan_signal_posts := lan_signal_posts m + 1\<rparr>))))))
        else ret ())
      else ret ())"

section \<open>The task queue\<close>

text \<open>\<open>LanDisable\<close> and \<open>LanSignal\<close> read locals of the function that posted them.\<close>

definition run_lan_task ::
    "error_code outcome \<Rightarrow> bytes \<Rightarrow> bytes \<Rightarrow> clock \<Rightarrow> bool \<Rightarrow> lan_task \<Rightarrow> (LanThreadManager, unit) act" where
  "run_lan_task off_end pad junk clock frame_alive t =
     (case t of
        LanBroadcastTask \<Rightarrow> BroadcastTask off_end pad
      | LanEnable \<Rightarrow> seq (look mLanRemoteId) (\<lambda>nid. EnableBroadcastDiscovery True nid)
      | LanDisable nid \<Rightarrow> if frame_alive then DisableBroadcastDiscovery True nid else fail DanglingPointer
      | LanPing \<Rightarrow> seq (look mLanRemoteId) (\<lambda>nid.
          SendSignalingMessageTo off_end junk clock True 0 nid Ping False)
      | LanSignal src dst data oc \<Rightarrow>
          if frame_alive then SendSignalingMessageTo off_end junk clock True src dst data oc
          else fail DanglingPointer)"

definition lan_run_next ::
    "error_code outcome \<Rightarrow> bytes \<Rightarrow> bytes \<Rightarrow> clock \<Rightarrow> bool \<Rightarrow> (LanThreadManager, unit) act" where
  "lan_run_next off_end pad junk clock frame_alive =
     seq (look lan_tasks) (\<lambda>q. case q of
         [] \<Rightarrow> ret ()
       | t # ts \<Rightarrow> seq (update (\<lambda>m. m\<lparr>lan_tasks := ts\<rparr>)) (\<lambda>_. run_lan_task off_end pad junk clock frame_alive t))"


section \<open>What goes on the wire\<close>

definition helper_datagrams :: "SocketAddress \<Rightarrow> bytes \<Rightarrow> SocketAddress \<Rightarrow> (bytes \<times> SocketAddress) list" where
  "helper_datagrams bind_addr payload addr =
     (if is_v6 bind_addr \<and> is_v4 addr then [] else [(payload, addr)]) @
     [(payload, SocketAddress_new (AsIPv6Address (sa_ip addr)) (uint (sa_port addr)))]"

lemma SendToHelper_run:
  assumes "mSocket m" "n \<le> length dat"
  shows "SendToHelper off_end dat n addr m =
     (m\<lparr>lan_wire := lan_wire m @ helper_datagrams (mBindAddress m) (take n dat) addr\<rparr>, off_end)"
  using assms by (auto simp: SendToHelper_def sock_send_def helper_datagrams_def Let_def run_seq)

lemma SendToHelper_no_socket:
  "\<not> mSocket m \<Longrightarrow> SendToHelper off_end dat n addr m = (m, Faults NullDeref)"
  by (simp add: SendToHelper_def sock_send_def run_seq Let_def)

definition request_datagrams :: "bytes \<Rightarrow> NetworkID \<Rightarrow> LanThreadManager \<Rightarrow> IPAddress \<Rightarrow> (bytes \<times> SocketAddress) list" where
  "request_datagrams pad nid m ip =
     helper_datagrams (mBindAddress m) (take 20 (request_image pad (DiscoveryRequestPacket_new nid)))
       (SocketAddress_new ip (uint (mEphemeralPort m)))"

lemma PacketLength_request [simp]: "PacketLength (DiscoveryRequestPacket_new nid) = 20"
  by (simp add: PacketLength_def DiscoveryRequestPacket_new_def packet_defs)

text \<open>What a request meets after its datagrams: the end of \<open>SendToHelper\<close>, then the message of its result.\<close>

definition after_send :: "error_code outcome \<Rightarrow> unit outcome" where
  "after_send off_end = andThen off_end error_code_message"

lemma broadcast_to_run:
  assumes "mSocket m" "length pad = 4"
  shows "broadcast_to off_end pad (DiscoveryRequestPacket_new nid) ip m =
     (m\<lparr>lan_wire := lan_wire m @ request_datagrams pad nid m ip\<rparr>, after_send off_end)"
  using assms
  by (cases off_end) (simp_all add: broadcast_to_def run_seq Let_def SendToHelper_run length_request_image
      request_datagrams_def after_send_def)

lemma request_loop:
  assumes "mSocket m" "length pad = 4" "after_send off_end = Returns ()"
  shows "each (broadcast_to off_end pad (DiscoveryRequestPacket_new nid)) ips m =
     (m\<lparr>lan_wire := lan_wire m @ concat (map (request_datagrams pad nid m) ips)\<rparr>, Returns ())"
  using assms
proof (induction ips arbitrary: m)
  case (Cons ip ips)
  let ?m = "m\<lparr>lan_wire := lan_wire m @ request_datagrams pad nid m ip\<rparr>"
  have "request_datagrams pad nid ?m = request_datagrams pad nid m"
    by (simp add: request_datagrams_def fun_eq_iff)
  then show ?case
    using Cons.IH [of ?m] Cons.prems broadcast_to_run [OF Cons.prems(1,2), of off_end nid ip] by simp
qed simp

lemma SendLanBroadcastRequest_run:
  assumes "mSocket m" "length pad = 4" "after_send off_end = Returns () \<or> mDiscoveredAddresses m = []"
  shows "SendLanBroadcastRequest off_end pad nid m =
     (m\<lparr>lan_wire := lan_wire m @ concat (map (request_datagrams pad nid m) (mDiscoveredAddresses m))\<rparr>,
      Returns ())"
  using request_loop [OF assms(1,2), of off_end nid "mDiscoveredAddresses m"] assms(3)
  by (auto simp: SendLanBroadcastRequest_def run_seq)

lemma SendLanBroadcastRequest_missing_return:
  assumes "mSocket m" "length pad = 4" "mDiscoveredAddresses m = ip # ips" "after_send off_end = Faults e"
  shows "SendLanBroadcastRequest off_end pad nid m =
     (m\<lparr>lan_wire := lan_wire m @ request_datagrams pad nid m ip\<rparr>, Faults e)"
  using broadcast_to_run [OF assms(1,2), of off_end nid ip] assms(3,4)
  by (simp add: SendLanBroadcastRequest_def run_seq)

lemma request_loop_ids:
  assumes "mSocket m" "length pad = 4" "after_send off_end = Returns () \<or> mDiscoveredAddresses m = []"
  shows "each (SendLanBroadcastRequest off_end pad) ids m =
     (m\<lparr>lan_wire := lan_wire m @
        concat (map (\<lambda>nid. concat (map (request_datagrams pad nid m) (mDiscoveredAddresses m))) ids)\<rparr>,
      Returns ())"
  using assms
proof (induction ids arbitrary: m)
  case (Cons i ids)
  let ?m = "m\<lparr>lan_wire := lan_wire m @ concat (map (request_datagrams pad i m) (mDiscoveredAddresses m))\<rparr>"
  have "request_datagrams pad j ?m = request_datagrams pad j m" for j
    by (simp add: request_datagrams_def fun_eq_iff)
  then show ?case
    using Cons.IH [of ?m] Cons.prems SendLanBroadcastRequest_run [OF Cons.prems, of i] by simp
qed simp

text \<open>One round: discovery is started if need be, every id is broadcast, and the task posts itself.\<close>

definition discovery_started :: "LanThreadManager \<Rightarrow> LanThreadManager" where
  "discovery_started m =
     (if mBasicNetworkMgr m then m else m\<lparr>mBasicNetworkMgr := True, lan_discoveries := lan_discoveries m + 1\<rparr>)"

lemma discovery_started_fields [simp]:
  "mSocket (discovery_started m) = mSocket m" "mBasicNetworkMgr (discovery_started m)" "mIds (discovery_started m) = mIds m"
  "lan_wire (discovery_started m) = lan_wire m" "lan_tasks (discovery_started m) = lan_tasks m"
  "mDiscoveredAddresses (discovery_started m) = mDiscoveredAddresses m"
  "request_datagrams pad j (discovery_started m) = request_datagrams pad j m"
  by (simp_all add: discovery_started_def request_datagrams_def fun_eq_iff)

lemma BroadcastTask_start:
  "BroadcastTask off_end pad m =
     seq (each (SendLanBroadcastRequest off_end pad) (mIds m)) (\<lambda>_. lan_post LanBroadcastTask) (discovery_started m)"
  by (simp add: BroadcastTask_def run_seq ShouldBeginNetworkDiscovery_def BeginNetworkDiscovery_def discovery_started_def)

lemma BroadcastTask_run:
  assumes "mSocket m" "length pad = 4" "after_send off_end = Returns () \<or> mIds m = [] \<or> mDiscoveredAddresses m = []"
  obtains m' where "BroadcastTask off_end pad m = (m', Returns ())"
    "lan_tasks m' = lan_tasks m @ [LanBroadcastTask]" "mBasicNetworkMgr m'" "mIds m' = mIds m"
    "lan_wire m' = lan_wire m @
       concat (map (\<lambda>nid. concat (map (request_datagrams pad nid m) (mDiscoveredAddresses m))) (mIds m))"
proof -
  have "each (SendLanBroadcastRequest off_end pad) (mIds m) (discovery_started m) =
      ((discovery_started m)\<lparr>lan_wire := lan_wire m @
         concat (map (\<lambda>nid. concat (map (request_datagrams pad nid m) (mDiscoveredAddresses m))) (mIds m))\<rparr>, Returns ())"
    using assms request_loop_ids [of "discovery_started m" pad off_end "mIds m"] by (cases "mIds m = []") auto
  then have "BroadcastTask off_end pad m =
      ((discovery_started m)\<lparr>lan_wire := lan_wire m @
         concat (map (\<lambda>nid. concat (map (request_datagrams pad nid m) (mDiscoveredAddresses m))) (mIds m)),
         lan_tasks := lan_tasks m @ [LanBroadcastTask]\<rparr>, Returns ())"
    using BroadcastTask_start [of off_end pad m] by (simp add: lan_post_def)
  then show thesis
    by (rule that) simp_all
qed

lemma BroadcastTask_stops:
  assumes "mSocket m" "length pad = 4" "after_send off_end = Faults e" "mIds m = nid # ids" "mDiscoveredAddresses m = ip # ips"
  shows "BroadcastTask off_end pad m =
     ((discovery_started m)\<lparr>lan_wire := lan_wire m @ request_datagrams pad nid m ip\<rparr>, Faults e)"
  using assms BroadcastTask_start [of off_end pad m]
    SendLanBroadcastRequest_missing_return [of "discovery_started m" pad ip ips off_end e nid]
  by (simp add: run_seq)

section \<open>The broadcast domain\<close>

lemma broadcast_address_no_flags: "broadcast_address v4 0 = Returns (AF_INET v4)"
  by (simp add: broadcast_address_def shift_minus1_def)

lemma sint_u8_small:
  assumes "0 \<le> f" "f < 128"
  shows "sint (word_of_int f :: u8) = f"
proof -
  have "signed_take_bit 7 f = f"
    using assms by (subst signed_take_bit_int_eq_self_iff) simp
  then show ?thesis
    by (simp add: sint_sbintrunc')
qed

lemma broadcast_address_flags:
  "0 < f \<Longrightarrow> f < 128 \<Longrightarrow> broadcast_address v4 f = Faults ShiftOutOfRange"
  by (simp add: broadcast_address_def shift_minus1_def sint_u8_small)

text \<open>The address an interface address contributes.\<close>

definition domain_target :: "lan_globals \<Rightarrow> SocketAddress \<Rightarrow> IPAddress \<Rightarrow> IPAddress option" where
  "domain_target g bind_addr ip =
     (if IPIsLoopback ip then None
      else case ip of
          AF_INET v4 \<Rightarrow> if IPIsLinkLocal ip then None else Some ip
        | AF_INET6 v6 \<Rightarrow> if is_v6 bind_addr then Some (IPv6AllHostsLinkLocal g) else None
        | AF_UNSPEC \<Rightarrow> None)"

lemma discover_ip_no_flags:
  "discover_ip g b (ip, 0) d =
     Returns (case domain_target g b ip of None \<Rightarrow> d | Some a \<Rightarrow> oset_insert a d)"
  by (auto simp: discover_ip_def domain_target_def broadcast_address_no_flags split: IPAddress.split)

lemma discover_network_no_flags:
  assumes "\<forall>p\<in>set ips. snd p = 0" "sorted_wrt (<) d"
  obtains d' where "discover_network g b ips d = Returns d'" "sorted_wrt (<) d'"
    "set d' = set d \<union> {a. \<exists>p\<in>set ips. domain_target g b (fst p) = Some a}"
  using assms
proof (induction ips arbitrary: d thesis)
  case (Cons p ips)
  obtain ip where p: "p = (ip, 0)" using Cons.prems(2) by (cases p) simp
  let ?d = "case domain_target g b ip of None \<Rightarrow> d | Some a \<Rightarrow> oset_insert a d"
  have "sorted_wrt (<) ?d" using Cons.prems(3) by (simp add: sorted_oset_insert split: option.split)
  then obtain d' where d': "discover_network g b ips ?d = Returns d'" "sorted_wrt (<) d'"
      "set d' = set ?d \<union> {a. \<exists>p\<in>set ips. domain_target g b (fst p) = Some a}"
    using Cons.IH [of ?d] Cons.prems(2) by auto
  show ?case
    by (rule Cons.prems(1) [of d'])
      (use d' in \<open>auto simp: p discover_ip_no_flags split: option.splits\<close>)
qed simp

text \<open>Whatever the networks before it, the last one alone decides.\<close>

lemma discovery_keeps_last:
  assumes "mBasicNetworkMgr m" "OnNetworkDiscoveryComplete g (ns @ [n]) m = (m', Returns ())"
  shows "Returns (mDiscoveredAddresses m') = discover_network g (mBindAddress m) n []"
proof -
  let ?body = "\<lambda>network. seq (look mBindAddress) (\<lambda>bind_addr.
      seq (lift (discover_network g bind_addr network [])) (\<lambda>d.
      update (\<lambda>m. m\<lparr>mDiscoveredAddresses := d\<rparr>)))"
  have run: "OnNetworkDiscoveryComplete g (ns @ [n]) m = seq (each ?body ns) (\<lambda>_. ?body n) m"
    using assms(1) by (simp add: OnNetworkDiscoveryComplete_def run_seq each_append)
  obtain m1 r where m1: "each ?body ns m = (m1, r)" by fastforce
  have "preserves mBindAddress (each ?body ns)"
    by (intro act_rules) simp
  then have "mBindAddress m1 = mBindAddress m"
    using m1 by (rule preserves_run)
  then show ?thesis
    using assms(2) m1 unfolding run
    by (cases r; cases "discover_network g (mBindAddress m) n []") auto
qed

section \<open>The ids to broadcast for\<close>

lemma lan_post_mIds [act_rules]: "preserves mIds (lan_post t)"
  unfolding lan_post_def by (intro act_rules) simp

lemma sock_send_mIds [act_rules]: "preserves mIds (sock_send d n a)"
  unfolding sock_send_def by (intro act_rules) simp

lemma with_peers_mIds [act_rules]: "preserves mIds (with_peers f)"
  unfolding with_peers_def by (intro act_rules) simp

lemma SendToHelper_mIds [act_rules]: "preserves mIds (SendToHelper off_end d n a)"
  unfolding SendToHelper_def Let_def by (intro act_rules)

lemma SendLanBroadcastRequest_mIds [act_rules]: "preserves mIds (SendLanBroadcastRequest off_end pad nid)"
  unfolding SendLanBroadcastRequest_def broadcast_to_def Let_def by (intro act_rules)

lemma SendSignalingMessageTo_mIds [act_rules]:
  "preserves mIds (SendSignalingMessageTo off_end junk clock cur src dst d oc)"
  unfolding SendSignalingMessageTo_def by (intro act_rules) simp

lemma BroadcastTask_mIds [act_rules]: "preserves mIds (BroadcastTask off_end pad)"
  unfolding BroadcastTask_def BeginNetworkDiscovery_def by (intro act_rules) simp

lemma EnableBroadcastDiscovery_mIds [act_rules]: "preserves mIds (EnableBroadcastDiscovery cur nid)"
  unfolding EnableBroadcastDiscovery_def by (intro act_rules)

lemma OnPacket_mIds [act_rules]: "preserves mIds (OnPacket st thr clock buf n addr)"
  unfolding OnPacket_def register_sender_def by (intro act_rules) simp

lemma OnNetworkDiscoveryComplete_mIds [act_rules]: "preserves mIds (OnNetworkDiscoveryComplete g ns)"
  unfolding OnNetworkDiscoveryComplete_def by (intro act_rules) simp

lemma DestroyLanResources_mIds [act_rules]: "preserves mIds DestroyLanResources"
  unfolding DestroyLanResources_def by (intro act_rules) simp


lemma DisableBroadcastDiscovery_mIds [act_rules]:
  "keeps (\<lambda>m. set (mIds m) \<subseteq> A) (DisableBroadcastDiscovery cur nid)"
  unfolding DisableBroadcastDiscovery_def lan_post_def by (intro act_rules) auto

lemma mIds_subset: "preserves mIds op \<Longrightarrow> keeps (\<lambda>m. set (mIds m) \<subseteq> A) op"
  by (rule preserves_keeps)

lemma run_lan_task_mIds: "keeps (\<lambda>m. set (mIds m) \<subseteq> A) (run_lan_task off_end pad junk clock fr t)"
proof (cases "\<exists>nid. t = LanDisable nid")
  case True
  then show ?thesis
    by (auto simp: run_lan_task_def act_rules)
next
  case False
  then have "preserves mIds (run_lan_task off_end pad junk clock fr t)"
    by (cases t) (auto simp: run_lan_task_def intro!: act_rules)
  then show ?thesis
    by (rule mIds_subset)
qed

lemma lan_run_next_mIds: "keeps (\<lambda>m. set (mIds m) \<subseteq> A) (lan_run_next off_end pad junk clock fr)"
  unfolding lan_run_next_def
  by (intro act_rules) (auto split: list.split intro!: act_rules run_lan_task_mIds)

text \<open>
  Everything that can happen to the manager: a client or the thread itself calls an operation, a
  datagram or the result of a discovery arrives, the thread runs its next task.
\<close>

inductive lan_step :: "LanThreadManager \<Rightarrow> LanThreadManager \<Rightarrow> bool" where
  lan_enable: "lan_step m (fst (EnableBroadcastDiscovery cur nid m))"
| lan_disable: "lan_step m (fst (DisableBroadcastDiscovery cur nid m))"
| lan_signal: "lan_step m (fst (SendSignalingMessageTo off_end junk clock cur src dst d oc m))"
| lan_query: "lan_step m (fst (IsNetworkIdOnLan clock nid m))"
| lan_packet: "lan_step m (fst (OnPacket storage thr clock buf n addr m))"
| lan_discovered: "lan_step m (fst (OnNetworkDiscoveryComplete g networks m))"
| lan_destroy: "lan_step m (fst (DestroyLanResources m))"
| lan_next: "lan_step m (fst (lan_run_next off_end pad junk clock fr m))"

abbreviation lan_reach :: "LanThreadManager \<Rightarrow> LanThreadManager \<Rightarrow> bool" where
  "lan_reach \<equiv> lan_step\<^sup>*\<^sup>*"

lemma lan_step_mIds: "lan_step m m' \<Longrightarrow> set (mIds m') \<subseteq> set (mIds m)"
proof (induction rule: lan_step.induct)
  case (lan_disable m cur nid)
  then show ?case by (rule keepsD [OF DisableBroadcastDiscovery_mIds]) simp
next
  case (lan_next m off_end pad junk clock fr)
  then show ?case by (rule keepsD [OF lan_run_next_mIds]) simp
qed (simp_all add: IsNetworkIdOnLan_def preservesD [where f = mIds] act_rules)

interpretation lan_ids: step_invariant lan_step "\<lambda>m. set (mIds m) \<subseteq> A" for A
  by unfold_locales (auto dest: lan_step_mIds)

lemma IsBroadcastDiscoveryEnabled_iff: "IsBroadcastDiscoveryEnabled cur nid m \<longleftrightarrow> nid \<in> set (mIds m)"
  by (cases cur) (simp_all add: IsBroadcastDiscoveryEnabled.simps)

section \<open>Datagrams received\<close>

text \<open>
  The sender's id is at offset 8 of the packet object; what \<open>OnPacket\<close> reads at offset 4 is the
  padding followed by the low half of the id.
\<close>

lemma take_le_bytes: "take k (le_bytes n v) = le_bytes (min k n) v"
proof (induction k arbitrary: n v)
  case (Suc k)
  then show ?case by (cases n) simp_all
qed simp

lemma le_value_append: "le_value (xs @ ys) = le_value xs + 256 ^ length xs * le_value ys"
  by (induction xs) (simp_all add: algebra_simps)

lemma read_id_of_image:
  assumes "length pad = 4"
  shows "read_le (packet_image pad p @ rest) 4 8 =
     Returns (le_value pad + 2 ^ 32 * (unat (mSenderId p) mod 2 ^ 32))"
  using assms
  by (simp add: read_le_def packet_image_def take_le_bytes le_value_append le_value_le_bytes
      del: le_bytes.simps)

lemma read_length_of_image: "read_le (packet_image pad p @ rest) 0 2 = Returns (unat (mPacketLen p))"
  by (simp add: read_le_def packet_image_def take_le_bytes del: le_bytes.simps)

lemma read_type_of_image:
  "read_le (packet_image pad p @ rest) 2 2 = Returns (unat (DiscoveryPacketType_value (mPacketType p)))"
  by (simp add: read_le_def packet_image_def take_le_bytes del: le_bytes.simps)

lemma word_of_low_half: "word_of_nat (2 ^ 32 * (unat w mod 2 ^ 32)) = (push_bit 32 w :: u64)"
proof (rule bit_word_eqI)
  fix n assume "n < LENGTH(64)"
  moreover have "2 ^ 32 * (unat w mod 2 ^ 32) = push_bit 32 (take_bit 32 (unat w))"
    by (simp add: push_bit_eq_mult take_bit_eq_mod mult.commute)
  ultimately show "bit (word_of_nat (2 ^ 32 * (unat w mod 2 ^ 32)) :: u64) n = bit (push_bit 32 w) n"
    by (auto simp: bit_simps simp del: push_bit_numeral)
qed

text \<open>
  So a packet object whose padding is zero is registered under its sender's id shifted left by 32
  bits.
\<close>

lemma OnPacket_short: "n < 4 \<Longrightarrow> OnPacket storage thr clock buf n addr m = (m, Returns ())"
  by (simp add: OnPacket_def)

lemma OnPacket_truncated:
  "4 \<le> n \<Longrightarrow> read_le buf 0 2 = Returns len \<Longrightarrow> n < len \<Longrightarrow>
   OnPacket storage thr clock buf n addr m = (m, Returns ())"
  by (simp add: OnPacket_def)

lemma OnPacket_no_storage:
  assumes "4 \<le> n" "n \<le> length buf" "read_le buf 0 2 = Returns len" "len \<le> n"
  shows "OnPacket (Faults e) thr clock buf n addr m = (m, Faults e)"
    "length st \<le> 1176 \<Longrightarrow> OnPacket (Returns st) thr clock buf n addr m = (m, Faults OutOfBounds)"
    "1176 < length st \<Longrightarrow> st ! 1176 = 0 \<Longrightarrow> OnPacket (Returns st) thr clock buf n addr m = (m, Returns ())"
  using assms by (simp_all add: OnPacket_def TryMakePacketStorage_def read_le_def)

text \<open>A datagram that passes the checks registers its sender and greets it when it is new.\<close>

lemma OnPacket_registers:
  assumes "4 \<le> n" "n \<le> length buf" "read_le buf 0 2 = Returns len" "len \<le> n"
    and "1176 < length st" "st ! 1176 \<noteq> 0"
    and "read_le buf 4 8 = Returns nid" "nid \<noteq> 0" "read_le buf 2 2 = Returns ty" "ty \<noteq> 0"
    and "mPeers m = Some t" "peers_ok t"
  obtains m' t' where "OnPacket (Returns st) thr clock buf n addr m =
      (m', if thr = ThreadDangling then Faults DanglingPointer else Returns ())"
    "mPeers m' = Some t'"
    "lan_tasks m' = lan_tasks m @ (if peer_address t (word_of_nat nid) = None then [LanPing] else [])"
    "peers_ok t'" "peer_address t' = (peer_address t)(word_of_nat nid \<mapsto> addr)"
proof -
  obtain t' where t': "AddOrUpdate clock (word_of_nat nid) addr t =
        Returns (t', peer_address t (word_of_nat nid) = None)" "peers_ok t'"
      "peer_address t' = (peer_address t)(word_of_nat nid \<mapsto> addr)"
    using lan_peers.learn_ok [OF assms(12), of clock "word_of_nat nid" addr] by blast
  let ?m = "m\<lparr>mPeers := Some t', lan_tasks := lan_tasks m @
      (if peer_address t (word_of_nat nid) = None then [LanPing] else [])\<rparr>"
  have "register_sender clock buf addr m = (?m, Returns ())"
    using assms t' by (simp add: register_sender_def with_peers_def lan_post_def run_seq)
  then show thesis
    using assms t'(2,3)
    by (intro that [of "if thr = ThreadLive then ?m\<lparr>lan_signal_posts := lan_signal_posts m + 1\<rparr> else ?m" t'])
      (cases thr; simp add: OnPacket_def TryMakePacketStorage_def deref_thread_def)+
qed

section \<open>Signalling messages\<close>

lemma SendSignalingMessageTo_known:
  assumes "mPeers m = Some t" "peers_ok t" "peer_address t dst = Some addr"
    and "mSocket m" "length junk = 1140" "length msg \<le> 1140"
  shows "SendSignalingMessageTo off_end junk clock True src dst msg oc m =
     (case off_end of
        Returns r \<Rightarrow>
          (m\<lparr>lan_wire := lan_wire m @ helper_datagrams (mBindAddress m) msg addr,
             lan_completions := lan_completions m @ (if oc then [r] else [])\<rparr>, Returns ())
      | Faults e \<Rightarrow> (m\<lparr>lan_wire := lan_wire m @ helper_datagrams (mBindAddress m) msg addr\<rparr>, Faults e))"
proof -
  obtain p where p: "DiscoveryMessagePacket_new junk src dst msg = Returns p"
      "unat (mPacketLen p) = length msg"
    using DiscoveryMessagePacket_new_fits [OF assms(5,6), of src dst] by metis
  show ?thesis
    using assms p lan_peers.find_ok [OF assms(2), of clock dst SocketAddress_Clear]
    by (simp add: SendSignalingMessageTo_def with_peers_def run_seq PacketLength_def SendToHelper_run split: outcome.split)
qed

lemma SendSignalingMessageTo_overflow:
  assumes "mPeers m = Some t" "peers_ok t" "peer_address t dst = Some addr"
    and "length junk = 1140" "1140 < length msg" "length msg < 2 ^ 32"
  shows "SendSignalingMessageTo off_end junk clock True src dst msg oc m = (m, Faults OutOfBounds)"
  using assms lan_peers.find_ok [OF assms(2), of clock dst SocketAddress_Clear]
    DiscoveryMessagePacket_new_overflow [OF assms(4-6), of src dst]
  by (simp add: SendSignalingMessageTo_def with_peers_def run_seq)

lemma SendSignalingMessageTo_unknown:
  assumes "mPeers m = Some t" "peers_ok t" "peer_address t dst = None"
  shows "SendSignalingMessageTo off_end junk clock True src dst msg oc m = (m, Returns ())"
  using assms lan_peers.find_ok [OF assms(2), of clock dst SocketAddress_Clear]
  by (simp add: SendSignalingMessageTo_def with_peers_def run_seq)

text \<open>From another thread the message is posted, and lost once the caller's frame is gone.\<close>

lemma posted_signal_dangles:
  assumes "lan_tasks m = []"
  shows "seq (SendSignalingMessageTo off_end junk clock False src dst msg oc)
      (\<lambda>_. lan_run_next off_end pad junk clock False) m = (m, Faults DanglingPointer)"
  using assms by (simp add: SendSignalingMessageTo_def lan_post_def lan_run_next_def run_lan_task_def run_seq)


section \<open>Creating the sockets\<close>

text \<open>
  The socket server and the operating system are parameters (\<open>sock_env\<close>): the socket
  \<open>CreateSocket\<close> gives (none when the cast to \<open>PhysicalSocket\<close> fails), the results of \<open>SetOption\<close> and
  \<open>Bind\<close>, and the error codes.  The calls made are recorded in order.
\<close>

datatype sock_option =
    OPT_IPV6_V6ONLY int
  | OPT_SO_BROADCAST int
  | OPT_RCVBUF int
  | OPT_IPV6_JOIN_GROUP IPAddress
  | OPT_IPV6_MULTICAST_LOOP int

datatype sock_call = SockCreate | SockOption sock_option | SockBind SocketAddress

record sock_env =
  create_socket :: "nat option"
  last_error :: int
  set_option :: "sock_option \<Rightarrow> int"
  bind_result :: "SocketAddress \<Rightarrow> int"
  get_error :: int

record sock_state = lan_globals +
  sock_calls :: "sock_call list"

definition IPv6Any :: IPAddress where
  "IPv6Any = AF_INET6 in6addr_any"

definition set_s6_addr :: "nat \<Rightarrow> u8 \<Rightarrow> in6_addr \<Rightarrow> in6_addr" where
  "set_s6_addr i b a =
     (a AND NOT (push_bit (8 * (15 - i)) 0xFF)) OR push_bit (8 * (15 - i)) (ucast b)"

definition SetOption :: "sock_env \<Rightarrow> sock_option \<Rightarrow> (sock_state, int) act" where
  "SetOption e opt =
     seq (update (\<lambda>s. s\<lparr>sock_calls := sock_calls s @ [SockOption opt]\<rparr>)) (\<lambda>_. ret (set_option e opt))"

definition TryCreateDualStackIPv6Socket ::
    "sock_env \<Rightarrow> u16 \<Rightarrow> (sock_state, (nat, int) ErrorOr) act" where
  "TryCreateDualStackIPv6Socket e port =
     seq (update (\<lambda>s. s\<lparr>sock_calls := sock_calls s @ [SockCreate]\<rparr>)) (\<lambda>_.
     case create_socket e of
       None \<Rightarrow> ret (ErrorOr_error (last_error e))
     | Some ip6_socket \<Rightarrow>
         seq (SetOption e (OPT_IPV6_V6ONLY 0)) (\<lambda>set_opt_res.
         if set_opt_res \<noteq> 0 then ret (ErrorOr_error (get_error e)) else
         seq (SetOption e (OPT_SO_BROADCAST 1)) (\<lambda>set_opt_res.
         if set_opt_res \<noteq> 0 then ret (ErrorOr_error (get_error e)) else
         seq (SetOption e (OPT_RCVBUF 0x8000)) (\<lambda>_.
         let sock_addr = SocketAddress_new IPv6Any (uint port)
         in seq (update (\<lambda>s. s\<lparr>sock_calls := sock_calls s @ [SockBind sock_addr]\<rparr>)) (\<lambda>_.
         if bind_result e sock_addr \<noteq> 0 then ret (ErrorOr_error (get_error e)) else
         seq (update (\<lambda>s. s\<lparr>multi_cast_link_local :=
                 set_s6_addr 15 0x01 (set_s6_addr 1 0x02 (set_s6_addr 0 0xFF (multi_cast_link_local s)))\<rparr>)) (\<lambda>_.
         seq (look IPv6AllHostsLinkLocal) (\<lambda>ip6_multicast_link_local_scope.
         seq (SetOption e (OPT_IPV6_JOIN_GROUP ip6_multicast_link_local_scope)) (\<lambda>_.
         seq (SetOption e (OPT_IPV6_MULTICAST_LOOP 0)) (\<lambda>_.
         ret (ErrorOr_value ip6_socket))))))))))"

text \<open>The error branch of \<open>TryCreateBroadcastSocket\<close> only compares codes.\<close>

definition TryCreateBroadcastSocket ::
    "sock_env \<Rightarrow> u16 \<Rightarrow> (sock_state, (nat, int) ErrorOr) act" where
  "TryCreateBroadcastSocket e port =
     seq (TryCreateDualStackIPv6Socket e port) (\<lambda>try_ip6_socket.
     if err try_ip6_socket then seq (lift (error_of try_ip6_socket)) (\<lambda>_. ret try_ip6_socket)
     else ret try_ip6_socket)"

definition TryCreateEncryptedBroadcastSocket ::
    "openssl \<Rightarrow> (OpenSSLAesAdapter, int) ErrorOr outcome \<Rightarrow> sock_env \<Rightarrow> u64 \<Rightarrow> u16
     \<Rightarrow> (sock_state, (OpenSSLAesAdapter, int) ErrorOr) act" where
  "TryCreateEncryptedBroadcastSocket ssl off_end e key port =
     seq (TryCreateBroadcastSocket e port) (\<lambda>socket_create.
     seq (lift (value_of socket_create)) (\<lambda>sock.
     let aes_adapter = AesAdapter_Create
     in if err aes_adapter then ret aes_adapter
        else seq (lift (value_of aes_adapter)) (\<lambda>ad.
             seq (lift (SetKey ssl key ad)) (\<lambda>(set_key, ad').
             if err set_key then seq (lift (error_of set_key)) (\<lambda>e. ret (ErrorOr_error e))
             else lift off_end))))"

text \<open>The calls of an attempt that gets as far as binding.\<close>

definition bind_calls :: "u16 \<Rightarrow> sock_call list" where
  "bind_calls port =
     [SockCreate, SockOption (OPT_IPV6_V6ONLY 0), SockOption (OPT_SO_BROADCAST 1),
      SockOption (OPT_RCVBUF 0x8000), SockBind (SocketAddress_new IPv6Any (uint port))]"

definition options_ok :: "sock_env \<Rightarrow> bool" where
  "options_ok e \<longleftrightarrow> set_option e (OPT_IPV6_V6ONLY 0) = 0 \<and> set_option e (OPT_SO_BROADCAST 1) = 0"

lemma TryCreateDualStackIPv6Socket_ok:
  assumes "create_socket e = Some h" "options_ok e"
    and "bind_result e (SocketAddress_new IPv6Any (uint port)) = 0"
  shows "TryCreateDualStackIPv6Socket e port s =
     (s\<lparr>multi_cast_link_local :=
          set_s6_addr 15 0x01 (set_s6_addr 1 0x02 (set_s6_addr 0 0xFF (multi_cast_link_local s))),
        sock_calls := sock_calls s @ bind_calls port @
          [SockOption (OPT_IPV6_JOIN_GROUP (IPv6AllHostsLinkLocal s)), SockOption (OPT_IPV6_MULTICAST_LOOP 0)]\<rparr>,
      Returns (ErrorOr_value h))"
  using assms
  by (simp add: TryCreateDualStackIPv6Socket_def SetOption_def options_ok_def bind_calls_def run_seq Let_def)

lemma TryCreateDualStackIPv6Socket_fails:
  assumes "create_socket e = None \<or> \<not> options_ok e \<or>
      bind_result e (SocketAddress_new IPv6Any (uint port)) \<noteq> 0"
  shows "\<exists>s' c. TryCreateDualStackIPv6Socket e port s = (s', Returns (ErrorOr_error c)) \<and>
      c \<in> {last_error e, get_error e}"
  using assms
  by (cases "create_socket e")
    (auto simp: TryCreateDualStackIPv6Socket_def SetOption_def options_ok_def run_seq Let_def)

text \<open>The group that is joined, whatever the socket: the unspecified address.\<close>

lemma link_local_bytes:
  "set_s6_addr 15 0x01 (set_s6_addr 1 0x02 (set_s6_addr 0 0xFF 0)) = push_bit 112 0xFF02 OR 1"
  by (simp add: set_s6_addr_def)

lemma IPv6AllHostsLinkLocal_static: "IPv6AllHostsLinkLocal lan_static_init = IPv6Any"
  by (simp add: lan_static_init_def IPv6Any_def in6addr_any_def)

lemma TryCreateEncryptedBroadcastSocket_no_value:
  assumes "TryCreateEncryptedBroadcastSocket ssl off_end e key port s = (s', Returns (ErrorOr_value ad))"
  shows "off_end = Returns (ErrorOr_value ad)"
  using assms
  by (auto simp: TryCreateEncryptedBroadcastSocket_def run_seq AesAdapter_Create_def Let_def
      split: prod.splits outcome.splits if_splits)

end
