(* ===== verification/Buffers.thy ===== *)
theory Buffers
  imports Effects
begin

text \<open>
  \<open>rtc::BufferT<uint8_t>\<close> (\<open>rtc_base/buffer.h\<close>), the growable byte block under every message of
  WebRTC.  The heap block is a list of \<open>capacity_\<close> bytes of which the first \<open>size_\<close> are the
  contents; what \<open>new uint8_t[n]\<close> finds in memory is a parameter \<open>m\<close>, so nothing is assumed of
  uninitialised bytes.  Copies are bounds-checked and accesses through the null block fault, and the
  lemmas say that a consistent buffer never faults and behaves as its contents, a plain list.
  Sizes are natural numbers: a sum of the sizes of two live blocks fits \<open>size_t\<close>.  The \<open>RTC_DCHECK\<close>s
  are compiled out, as in a release build; their condition \<open>IsConsistent\<close> is the invariant.
\<close>

section \<open>The buffer\<close>

record BufferT =
  buf_size :: nat
  buf_capacity :: nat
  buf_data :: "bytes option"

text \<open>The bytes a new block happens to hold.\<close>

type_synonym garbage = "nat \<Rightarrow> u8"

definition new_block :: "garbage \<Rightarrow> nat \<Rightarrow> bytes" where
  "new_block m n = map m [0..<n]"

lemma length_new_block [simp]: "length (new_block m n) = n"
  by (simp add: new_block_def)

definition BufferT_empty :: BufferT where
  "BufferT_empty = \<lparr>buf_size = 0, buf_capacity = 0, buf_data = None\<rparr>"

definition BufferT_sized :: "garbage \<Rightarrow> nat \<Rightarrow> nat \<Rightarrow> BufferT" where
  "BufferT_sized m count capacity =
     (let cap = max count capacity
      in \<lparr>buf_size = count, buf_capacity = cap,
          buf_data = (if cap > 0 then Some (new_block m cap) else None)\<rparr>)"

text \<open>\<open>memcpy (data_.get () + off, src)\<close>, where \<open>data_\<close> may be null.\<close>

definition buf_memcpy :: "BufferT \<Rightarrow> nat \<Rightarrow> bytes \<Rightarrow> BufferT outcome" where
  "buf_memcpy b off src =
     (case buf_data b of
        None \<Rightarrow> Faults NullDeref
      | Some d \<Rightarrow> andThen (memcpy_at d off src) (\<lambda>d'. Returns (b\<lparr>buf_data := Some d'\<rparr>)))"

definition BufferT_from :: "garbage \<Rightarrow> bytes \<Rightarrow> nat \<Rightarrow> BufferT outcome" where
  "BufferT_from m data capacity =
     (let b = BufferT_sized m (length data) capacity
      in if length data > 0 then buf_memcpy b 0 data else Returns b)"

definition buf_IsConsistent :: "BufferT \<Rightarrow> bool" where
  "buf_IsConsistent b \<longleftrightarrow>
     (buf_data b \<noteq> None \<or> buf_capacity b = 0) \<and> buf_capacity b \<ge> buf_size b"

definition buf_empty :: "BufferT \<Rightarrow> bool" where
  "buf_empty b \<longleftrightarrow> buf_size b = 0"

definition buf_OnMovedFrom :: "BufferT \<Rightarrow> BufferT" where
  "buf_OnMovedFrom b = b\<lparr>buf_size := 0, buf_capacity := 0\<rparr>"

text \<open>The move constructor: the new buffer, and what is left of the old one.\<close>

definition BufferT_move :: "BufferT \<Rightarrow> BufferT \<times> BufferT" where
  "BufferT_move buf =
     (\<lparr>buf_size = buf_size buf, buf_capacity = buf_capacity buf, buf_data = buf_data buf\<rparr>,
      buf_OnMovedFrom (buf\<lparr>buf_data := None\<rparr>))"

text \<open>Move assignment swaps the blocks and then drops the one it gave away.\<close>

definition buf_assign :: "BufferT \<Rightarrow> BufferT \<Rightarrow> BufferT \<times> BufferT" where
  "buf_assign this buf =
     (let this' = this\<lparr>buf_size := buf_size buf, buf_capacity := buf_capacity buf,
                       buf_data := buf_data buf\<rparr>;
          buf' = buf\<lparr>buf_data := buf_data this\<rparr>;
          buf'' = buf'\<lparr>buf_data := None\<rparr>
      in (this', buf_OnMovedFrom buf''))"

definition buf_EnsureCapacityWithHeadroom ::
  "garbage \<Rightarrow> nat \<Rightarrow> bool \<Rightarrow> BufferT \<Rightarrow> BufferT outcome" where
  "buf_EnsureCapacityWithHeadroom m capacity extra_headroom b =
     (if capacity \<le> buf_capacity b then Returns b
      else
        let new_capacity = (if extra_headroom
                            then max capacity (buf_capacity b + buf_capacity b div 2)
                            else capacity);
            new_data = new_block m new_capacity
        in andThen
             (case buf_data b of
                None \<Rightarrow> Returns new_data
              | Some d \<Rightarrow> (if buf_size b \<le> length d
                           then memcpy_at new_data 0 (take (buf_size b) d)
                           else Faults OutOfBounds))
             (\<lambda>new_data. Returns (b\<lparr>buf_data := Some new_data, buf_capacity := new_capacity\<rparr>)))"

definition buf_EnsureCapacity :: "garbage \<Rightarrow> nat \<Rightarrow> BufferT \<Rightarrow> BufferT outcome" where
  "buf_EnsureCapacity m capacity b = buf_EnsureCapacityWithHeadroom m capacity False b"

definition buf_AppendData :: "garbage \<Rightarrow> bytes \<Rightarrow> BufferT \<Rightarrow> BufferT outcome" where
  "buf_AppendData m data b =
     (if length data = 0 then Returns b
      else
        let new_size = buf_size b + length data
        in andThen (buf_EnsureCapacityWithHeadroom m new_size True b) (\<lambda>b.
           andThen (buf_memcpy b (buf_size b) data) (\<lambda>b.
           Returns (b\<lparr>buf_size := new_size\<rparr>))))"

definition buf_SetData :: "garbage \<Rightarrow> bytes \<Rightarrow> BufferT \<Rightarrow> BufferT outcome" where
  "buf_SetData m data b = buf_AppendData m data (b\<lparr>buf_size := 0\<rparr>)"

definition buf_SetSize :: "garbage \<Rightarrow> nat \<Rightarrow> BufferT \<Rightarrow> BufferT outcome" where
  "buf_SetSize m count b =
     andThen (buf_EnsureCapacityWithHeadroom m count True b) (\<lambda>b.
     Returns (b\<lparr>buf_size := count\<rparr>))"

text \<open>
  \<open>AppendData\<close> and \<open>SetData\<close> with a setter: it is given \<open>max_elements\<close> bytes to write over and
  answers the bytes it leaves there and how many of them count.
\<close>

definition buf_AppendWith ::
  "garbage \<Rightarrow> nat \<Rightarrow> (bytes \<Rightarrow> bytes \<times> nat) \<Rightarrow> BufferT \<Rightarrow> (BufferT \<times> nat) outcome" where
  "buf_AppendWith m max_elements setter b =
     (let old_size = buf_size b
      in andThen (buf_SetSize m (old_size + max_elements) b) (\<lambda>b.
         let view = take max_elements (drop old_size (case buf_data b of None \<Rightarrow> [] | Some d \<Rightarrow> d));
             (filled, written_elements) = setter view
         in andThen (if max_elements = 0 then Returns b
                     else buf_memcpy b old_size (take max_elements filled)) (\<lambda>b.
            if written_elements \<le> max_elements
            then Returns (b\<lparr>buf_size := old_size + written_elements\<rparr>, written_elements)
            else Faults CheckFailed)))"

definition buf_SetWith ::
  "garbage \<Rightarrow> nat \<Rightarrow> (bytes \<Rightarrow> bytes \<times> nat) \<Rightarrow> BufferT \<Rightarrow> (BufferT \<times> nat) outcome" where
  "buf_SetWith m max_elements setter b = buf_AppendWith m max_elements setter (b\<lparr>buf_size := 0\<rparr>)"

definition buf_Clear :: "BufferT \<Rightarrow> BufferT" where
  "buf_Clear b = b\<lparr>buf_size := 0\<rparr>"

definition buf_swap :: "BufferT \<Rightarrow> BufferT \<Rightarrow> BufferT \<times> BufferT" where
  "buf_swap a b = (b, a)"

definition buf_index :: "BufferT \<Rightarrow> nat \<Rightarrow> u8 outcome" where
  "buf_index b i =
     (case buf_data b of
        None \<Rightarrow> Faults NullDeref
      | Some d \<Rightarrow> (if i < length d then Returns (d ! i) else Faults OutOfBounds))"

text \<open>Equality compares the sizes and then the first \<open>size_\<close> bytes of the blocks.\<close>

definition buf_eq :: "BufferT \<Rightarrow> BufferT \<Rightarrow> bool" where
  "buf_eq a b \<longleftrightarrow>
     buf_size a = buf_size b \<and>
     take (buf_size a) (case buf_data a of None \<Rightarrow> [] | Some d \<Rightarrow> d) =
     take (buf_size a) (case buf_data b of None \<Rightarrow> [] | Some d \<Rightarrow> d)"

section \<open>Contents\<close>

text \<open>
  A buffer is well formed when it is consistent and its block really has \<open>capacity_\<close> bytes.  Then
  every operation returns, keeps it so, and does to the contents what its name says.
\<close>

definition buf_block :: "BufferT \<Rightarrow> bytes" where
  "buf_block b = (case buf_data b of None \<Rightarrow> [] | Some d \<Rightarrow> d)"

definition buf_contents :: "BufferT \<Rightarrow> bytes" where
  "buf_contents b = take (buf_size b) (buf_block b)"

definition buf_ok :: "BufferT \<Rightarrow> bool" where
  "buf_ok b \<longleftrightarrow> buf_IsConsistent b \<and> length (buf_block b) = buf_capacity b"

lemmas buf_ok_defs = buf_ok_def buf_IsConsistent_def buf_block_def

lemma buf_ok_length: "buf_ok b \<Longrightarrow> length (buf_contents b) = buf_size b"
  by (simp add: buf_contents_def buf_ok_def buf_IsConsistent_def)

lemma buf_ok_size: "buf_ok b \<Longrightarrow> buf_size b \<le> buf_capacity b"
  by (simp add: buf_ok_def buf_IsConsistent_def)

lemma empty_ok [simp]: "buf_ok BufferT_empty" "buf_contents BufferT_empty = []"
  by (simp_all add: buf_ok_defs BufferT_empty_def buf_contents_def)

lemma sized_ok [simp]: "buf_ok (BufferT_sized m n c)"
  by (auto simp: buf_ok_defs BufferT_sized_def Let_def)

lemma sized_fields [simp]:
  "buf_size (BufferT_sized m n c) = n" "buf_capacity (BufferT_sized m n c) = max n c"
  by (simp_all add: BufferT_sized_def Let_def)

text \<open>A copy inside the block.\<close>

lemma buf_memcpy_ok:
  assumes "buf_ok b" "off + length src \<le> buf_capacity b" "src \<noteq> []"
  obtains b' where "buf_memcpy b off src = Returns b'" "buf_ok b'"
    "buf_size b' = buf_size b" "buf_capacity b' = buf_capacity b"
    "buf_block b' = take off (buf_block b) @ src @ drop (off + length src) (buf_block b)"
proof -
  have "buf_capacity b \<noteq> 0" using assms(2,3) by (cases src) auto
  then obtain d where d: "buf_data b = Some d"
    using assms(1) by (auto simp: buf_ok_defs)
  let ?b = "b\<lparr>buf_data := Some (take off d @ src @ drop (off + length src) d)\<rparr>"
  show thesis
    using assms d by (intro that [of ?b]) (auto simp: buf_memcpy_def memcpy_at_def buf_ok_defs)
qed

lemma buf_from_ok:
  obtains b where "BufferT_from m data c = Returns b" "buf_ok b" "buf_size b = length data"
    "buf_capacity b = max (length data) c" "buf_contents b = data"
proof (cases "data = []")
  case True
  then show thesis
    by (intro that [of "BufferT_sized m 0 c"]) (simp_all add: BufferT_from_def buf_contents_def)
next
  case False
  obtain b where "buf_memcpy (BufferT_sized m (length data) c) 0 data = Returns b" "buf_ok b"
    "buf_size b = length data" "buf_capacity b = max (length data) c"
    "buf_block b = data @ drop (length data) (buf_block (BufferT_sized m (length data) c))"
    using False buf_memcpy_ok [OF sized_ok [of m "length data" c], of 0 data] by auto
  with False show thesis
    by (intro that [of b]) (simp_all add: BufferT_from_def Let_def buf_contents_def)
qed

lemma buf_ensure_ok:
  assumes "buf_ok b"
  obtains b' where "buf_EnsureCapacityWithHeadroom m c h b = Returns b'" "buf_ok b'"
    "buf_size b' = buf_size b" "buf_contents b' = buf_contents b" "c \<le> buf_capacity b'"
    "buf_capacity b \<le> buf_capacity b'"
proof (cases "c \<le> buf_capacity b")
  case True
  with assms show thesis
    by (intro that [of b]) (simp_all add: buf_EnsureCapacityWithHeadroom_def)
next
  case False
  define n where "n = (if h then max c (buf_capacity b + buf_capacity b div 2) else c)"
  have n: "c \<le> n" "buf_capacity b \<le> n" using False by (auto simp: n_def)
  define d where "d = buf_contents b @ drop (buf_size b) (new_block m n)"
  have sz: "buf_size b \<le> n" using buf_ok_size [OF assms] n by simp
  have "buf_EnsureCapacityWithHeadroom m c h b
        = Returns (b\<lparr>buf_data := Some d, buf_capacity := n\<rparr>)"
  proof (cases "buf_data b")
    case None
    then have "buf_size b = 0" using assms by (simp add: buf_ok_defs)
    with None False show ?thesis
      by (simp add: buf_EnsureCapacityWithHeadroom_def n_def [symmetric] d_def buf_contents_def)
  next
    case (Some e)
    with assms False sz show ?thesis
      by (simp add: buf_EnsureCapacityWithHeadroom_def n_def [symmetric] d_def buf_contents_def
          memcpy_at_0 buf_ok_defs)
  qed
  moreover have "buf_ok (b\<lparr>buf_data := Some d, buf_capacity := n\<rparr>)"
    using sz buf_ok_length [OF assms] by (simp add: buf_ok_defs d_def)
  moreover have "buf_contents (b\<lparr>buf_data := Some d, buf_capacity := n\<rparr>) = buf_contents b"
    using buf_ok_length [OF assms] by (simp add: d_def buf_contents_def [of "_\<lparr>buf_capacity := _\<rparr>"] buf_block_def)
  ultimately show thesis
    using n by (intro that [of "b\<lparr>buf_data := Some d, buf_capacity := n\<rparr>"]) simp_all
qed

lemma buf_AppendData_ok:
  assumes "buf_ok b"
  obtains b' where "buf_AppendData m xs b = Returns b'" "buf_ok b'"
    "buf_contents b' = buf_contents b @ xs" "buf_capacity b \<le> buf_capacity b'"
proof (cases "xs = []")
  case True
  with assms show thesis by (intro that [of b]) (simp_all add: buf_AppendData_def)
next
  case False
  obtain b1 where b1: "buf_EnsureCapacityWithHeadroom m (buf_size b + length xs) True b = Returns b1"
    "buf_ok b1" "buf_size b1 = buf_size b" "buf_contents b1 = buf_contents b"
    "buf_size b + length xs \<le> buf_capacity b1" "buf_capacity b \<le> buf_capacity b1"
    using assms by (rule buf_ensure_ok)
  obtain b2 where b2: "buf_memcpy b1 (buf_size b1) xs = Returns b2" "buf_ok b2"
    "buf_size b2 = buf_size b1" "buf_capacity b2 = buf_capacity b1"
    "buf_block b2 = buf_contents b1 @ xs @ drop (buf_size b1 + length xs) (buf_block b1)"
    using b1(3,5) False buf_memcpy_ok [OF b1(2), of "buf_size b1" xs]
    by (auto simp: buf_contents_def)
  let ?b = "b2\<lparr>buf_size := buf_size b + length xs\<rparr>"
  have "buf_ok ?b" using b1(3,5) b2 by (simp add: buf_ok_defs)
  moreover have "buf_contents ?b = buf_contents b @ xs"
    using b2(5) b1(3,4) buf_ok_length [OF assms] by (simp add: buf_contents_def [of ?b] buf_block_def)
  ultimately show thesis
    using False b1 b2 by (intro that [of ?b]) (simp_all add: buf_AppendData_def Let_def)
qed

lemma buf_cleared_ok: "buf_ok b \<Longrightarrow> buf_ok (b\<lparr>buf_size := 0\<rparr>)"
  by (simp add: buf_ok_defs)

lemma buf_SetData_ok:
  assumes "buf_ok b"
  obtains b' where "buf_SetData m xs b = Returns b'" "buf_ok b'" "buf_contents b' = xs"
    "buf_capacity b \<le> buf_capacity b'"
proof -
  obtain b' where "buf_AppendData m xs (b\<lparr>buf_size := 0\<rparr>) = Returns b'" "buf_ok b'"
    "buf_contents b' = buf_contents (b\<lparr>buf_size := 0\<rparr>) @ xs" "buf_capacity b \<le> buf_capacity b'"
    using buf_AppendData_ok [OF buf_cleared_ok [OF assms], of m xs] by auto
  then show thesis by (intro that [of b']) (simp_all add: buf_SetData_def buf_contents_def [of "b\<lparr>buf_size := 0\<rparr>"])
qed

text \<open>Growing keeps the contents and adds unspecified bytes; shrinking truncates.\<close>

lemma buf_SetSize_ok:
  assumes "buf_ok b"
  obtains b' where "buf_SetSize m n b = Returns b'" "buf_ok b'" "buf_size b' = n"
    "take (buf_size b) (buf_contents b') = take n (buf_contents b)"
    "buf_capacity b \<le> buf_capacity b'"
proof -
  obtain b1 where b1: "buf_EnsureCapacityWithHeadroom m n True b = Returns b1"
    "buf_ok b1" "buf_size b1 = buf_size b" "buf_contents b1 = buf_contents b"
    "n \<le> buf_capacity b1" "buf_capacity b \<le> buf_capacity b1"
    using assms by (rule buf_ensure_ok)
  let ?b = "b1\<lparr>buf_size := n\<rparr>"
  have "take (buf_size b) (buf_contents ?b) = take n (buf_contents b1)"
    using b1(3) by (simp add: buf_contents_def buf_block_def min.commute)
  with b1 show thesis
    by (intro that [of ?b]) (simp_all add: buf_SetSize_def buf_ok_defs)
qed

lemma buf_SetSize_shrink:
  assumes "buf_ok b" "n \<le> buf_size b"
  shows "buf_SetSize m n b = Returns (b\<lparr>buf_size := n\<rparr>)"
  using assms by (simp add: buf_SetSize_def buf_EnsureCapacityWithHeadroom_def buf_ok_defs)

lemma buf_truncate:
  assumes "buf_ok b" "n \<le> buf_size b"
  shows "buf_ok (b\<lparr>buf_size := n\<rparr>)" "buf_contents (b\<lparr>buf_size := n\<rparr>) = take n (buf_contents b)"
  using assms by (simp_all add: buf_ok_defs buf_contents_def min_def)

lemma buf_Clear_ok:
  "buf_ok b \<Longrightarrow> buf_ok (buf_Clear b)" "buf_contents (buf_Clear b) = []"
  "buf_size (buf_Clear b) = 0" "buf_capacity (buf_Clear b) = buf_capacity b"
  by (simp_all add: buf_Clear_def buf_ok_defs buf_contents_def)

lemma buf_eq_iff: "buf_ok a \<Longrightarrow> buf_ok b \<Longrightarrow> buf_eq a b \<longleftrightarrow> buf_contents a = buf_contents b"
  using buf_ok_length [of a] buf_ok_length [of b]
  unfolding buf_eq_def buf_block_def [symmetric] by (metis buf_contents_def)

lemma buf_index_ok:
  "buf_ok b \<Longrightarrow> i < buf_size b \<Longrightarrow> buf_index b i = Returns (buf_contents b ! i)"
  by (auto simp: buf_index_def buf_ok_defs buf_contents_def split: option.splits)

lemma buf_move_ok:
  assumes "buf_ok b"
  shows "buf_contents (fst (BufferT_move b)) = buf_contents b" "buf_ok (fst (BufferT_move b))"
    "buf_contents (snd (BufferT_move b)) = []" "buf_ok (snd (BufferT_move b))"
  using assms
  by (simp_all add: BufferT_move_def buf_OnMovedFrom_def buf_contents_def buf_ok_defs)

lemma buf_assign_ok:
  assumes "buf_ok b"
  shows "buf_contents (fst (buf_assign a b)) = buf_contents b" "buf_ok (fst (buf_assign a b))"
    "buf_contents (snd (buf_assign a b)) = []" "buf_ok (snd (buf_assign a b))"
  using assms
  by (simp_all add: buf_assign_def buf_OnMovedFrom_def buf_contents_def buf_ok_defs Let_def)

text \<open>
  A setter that keeps to its view, and says how much of it counts, appends exactly that much; the
  answer beyond the view is what the \<open>RTC_CHECK\<close> stops.
\<close>

lemma buf_AppendWith_ok:
  assumes "buf_ok b"
    and setter: "\<And>view. length view = n \<Longrightarrow> length (fst (setter view)) = n \<and> snd (setter view) \<le> n"
  obtains b' k filled where "buf_AppendWith m n setter b = Returns (b', k)" "buf_ok b'" "k \<le> n"
    "buf_contents b' = buf_contents b @ take k filled" "length filled = n"
proof -
  obtain b1 where b1: "buf_SetSize m (buf_size b + n) b = Returns b1" "buf_ok b1"
    "buf_size b1 = buf_size b + n"
    "take (buf_size b) (buf_contents b1) = take (buf_size b + n) (buf_contents b)"
    using assms(1) by (rule buf_SetSize_ok)
  have pre: "take (buf_size b) (buf_block b1) = buf_contents b"
    using b1 buf_ok_length [OF assms(1)] by (simp add: buf_contents_def [of b1] min_def)
  define view where "view = take n (drop (buf_size b) (buf_block b1))"
  obtain filled k where s: "setter view = (filled, k)" by (cases "setter view")
  have "length view = n"
    using b1(2,3) by (auto simp: view_def buf_ok_def buf_IsConsistent_def)
  then have f: "length filled = n" "k \<le> n" using setter [of view] s by auto
  have unfold: "buf_AppendWith m n setter b
      = andThen (if n = 0 then Returns b1 else buf_memcpy b1 (buf_size b) filled)
          (\<lambda>b'. Returns (b'\<lparr>buf_size := buf_size b + k\<rparr>, k))"
    using b1(1) s f by (simp add: buf_AppendWith_def Let_def view_def buf_block_def)
  show thesis
  proof (cases "n = 0")
    case True
    with unfold b1 f pre show thesis
      by (intro that [of "b1\<lparr>buf_size := buf_size b\<rparr>" 0 filled])
        (simp_all add: buf_contents_def [of "_\<lparr>buf_size := _\<rparr>"] buf_block_def buf_ok_defs)
  next
    case False
    obtain b2 where b2: "buf_memcpy b1 (buf_size b) filled = Returns b2" "buf_ok b2"
      "buf_size b2 = buf_size b1" "buf_capacity b2 = buf_capacity b1"
      "buf_block b2 = buf_contents b @ filled @ drop (buf_size b + n) (buf_block b1)"
      using False f pre buf_ok_size [OF b1(2)] b1(3) buf_memcpy_ok [OF b1(2), of "buf_size b" filled]
      by auto
    let ?b = "b2\<lparr>buf_size := buf_size b + k\<rparr>"
    have "buf_contents ?b = buf_contents b @ take k filled"
      using b2(5) f buf_ok_length [OF assms(1)] by (simp add: buf_contents_def [of ?b] buf_block_def)
    moreover have "buf_ok ?b" using b2 b1(3) f by (simp add: buf_ok_defs)
    ultimately show thesis
      using unfold b2(1) False f by (intro that [of ?b k filled]) simp_all
  qed
qed

section \<open>Byte sinks\<close>

text \<open>
  What a writer asks of the buffer class it is a template over: appending to a sound buffer returns
  a sound buffer with the bytes at the end.  \<open>appends\<close> says so of a whole operation.
\<close>

definition appends ::
  "('b \<Rightarrow> bool) \<Rightarrow> ('b \<Rightarrow> bytes) \<Rightarrow> ('b \<Rightarrow> 'b outcome) \<Rightarrow> bytes \<Rightarrow> bool" where
  "appends ok contents f xs \<longleftrightarrow>
     (\<forall>b. ok b \<longrightarrow> (\<exists>b'. f b = Returns b' \<and> ok b' \<and> contents b' = contents b @ xs))"

locale byte_sink =
  fixes ok :: "'b \<Rightarrow> bool" and contents :: "'b \<Rightarrow> bytes" and put :: "'m \<Rightarrow> bytes \<Rightarrow> 'b \<Rightarrow> 'b outcome"
  assumes put_appends: "appends ok contents (put m xs) xs"
begin

lemma put_all: "appends ok contents (\<lambda>b. andThen (put m xs b) f) (xs @ ys)"
  if "appends ok contents f ys"
  using put_appends [of m xs] that unfolding appends_def by fastforce

lemma appends_seq:
  assumes "appends ok contents f xs" "appends ok contents g ys"
  shows "appends ok contents (\<lambda>b. andThen (f b) g) (xs @ ys)"
  using assms unfolding appends_def by fastforce

lemma then_appends:
  assumes "appends ok contents f xs" "ok b"
    and "\<And>b'. ok b' \<Longrightarrow> contents b' = contents b @ xs \<Longrightarrow> k b' = r"
  shows "andThen (f b) k = r"
  using assms by (fastforce simp: appends_def)

lemma appends_run:
  assumes "appends ok contents f xs" "ok b"
  obtains b' where "f b = Returns b'" "ok b'" "contents b' = contents b @ xs"
  using assms by (auto simp: appends_def)

end

interpretation buf: byte_sink buf_ok buf_contents buf_AppendData
proof
  fix m xs show "appends buf_ok buf_contents (buf_AppendData m xs) xs"
    unfolding appends_def by (blast elim: buf_AppendData_ok [of _ m xs])
qed

end
