(* ===== verification/Byte_Buffer.thy ===== *)
theory Byte_Buffer
  imports Buffers Byte_Order
begin

text \<open>
  \<open>rtc::ByteBufferWriter\<close> and \<open>rtc::ByteBufferReader\<close> (\<open>rtc_base/byte_buffer.h\<close> and \<open>.cc\<close>), in network
  byte order.  A write appends to the
  writer's \<open>BufferT\<close>; a read advances the reader's position, and answers \<open>None\<close> where the code
  answers \<open>false\<close>.  The first argument of a read says whether the pointer for the result is not null.
  The lemmas are round trips, field by field, and that a reader never passes its end.
\<close>

unbundle bit_operations_syntax

section \<open>The writer\<close>

type_synonym writer = BufferT

definition kDefaultCapacity :: nat where "kDefaultCapacity = 4096"

definition Writer_Construct :: "garbage \<Rightarrow> bytes option \<Rightarrow> nat \<Rightarrow> writer outcome" where
  "Writer_Construct m bytes n =
     (case bytes of
        Some bs \<Rightarrow> buf_AppendData m (take n bs) BufferT_empty
      | None \<Rightarrow> buf_EnsureCapacity m n BufferT_empty)"

definition ByteBufferWriter :: "garbage \<Rightarrow> writer outcome" where
  "ByteBufferWriter m = Writer_Construct m None kDefaultCapacity"

definition WriteBytesInternal :: "garbage \<Rightarrow> bytes \<Rightarrow> writer \<Rightarrow> writer outcome" where
  "WriteBytesInternal m val w = buf_AppendData m val w"

definition WriteUInt8 :: "garbage \<Rightarrow> u8 \<Rightarrow> writer \<Rightarrow> writer outcome" where
  "WriteUInt8 m val = WriteBytesInternal m [val]"

definition WriteUInt16 :: "garbage \<Rightarrow> u16 \<Rightarrow> writer \<Rightarrow> writer outcome" where
  "WriteUInt16 m val = (let v = HostToNetwork16 val in WriteBytesInternal m (le_bytes 2 (unat v)))"

definition WriteUInt24 :: "garbage \<Rightarrow> u32 \<Rightarrow> writer \<Rightarrow> writer outcome" where
  "WriteUInt24 m val =
     (let v = HostToNetwork32 val; start = drop 1 (le_bytes 4 (unat v))
      in WriteBytesInternal m (take 3 start))"

definition WriteUInt32 :: "garbage \<Rightarrow> u32 \<Rightarrow> writer \<Rightarrow> writer outcome" where
  "WriteUInt32 m val = (let v = HostToNetwork32 val in WriteBytesInternal m (le_bytes 4 (unat v)))"

definition WriteUInt64 :: "garbage \<Rightarrow> u64 \<Rightarrow> writer \<Rightarrow> writer outcome" where
  "WriteUInt64 m val = (let v = HostToNetwork64 val in WriteBytesInternal m (le_bytes 8 (unat v)))"

text \<open>The loop shifts seven bits out of a 64-bit value, so it ends.\<close>

function WriteUVarint :: "garbage \<Rightarrow> u64 \<Rightarrow> writer \<Rightarrow> writer outcome" where
  "WriteUVarint m val w =
     (if val \<ge> 0x80
      then andThen (WriteBytesInternal m [ucast val OR 0x80] w) (\<lambda>w. WriteUVarint m (drop_bit 7 val) w)
      else WriteBytesInternal m [ucast val] w)"
  by pat_completeness auto

lemma drop_bit_7_less: "0x80 \<le> (val :: u64) \<Longrightarrow> unat (drop_bit 7 val) < unat val"
  by (simp only: unat_drop_bit_eq) (simp add: drop_bit_eq_div word_le_nat_alt)

termination WriteUVarint
  by (relation "measure (\<lambda>(m, val, w). unat val)") (simp_all add: drop_bit_7_less)

declare WriteUVarint.simps [simp del]

definition WriteString :: "garbage \<Rightarrow> bytes \<Rightarrow> writer \<Rightarrow> writer outcome" where
  "WriteString m val = WriteBytesInternal m val"

definition WriteBytes :: "garbage \<Rightarrow> bytes \<Rightarrow> nat \<Rightarrow> writer \<Rightarrow> writer outcome" where
  "WriteBytes m val len = WriteBytesInternal m (take len val)"

definition ReserveWriteBuffer :: "garbage \<Rightarrow> nat \<Rightarrow> writer \<Rightarrow> writer outcome" where
  "ReserveWriteBuffer m len w = buf_SetSize m (buf_size w + len) w"

definition Writer_Resize :: "garbage \<Rightarrow> nat \<Rightarrow> writer \<Rightarrow> writer outcome" where
  "Writer_Resize m n w = buf_SetSize m n w"

definition Writer_Clear :: "writer \<Rightarrow> writer" where
  "Writer_Clear w = buf_Clear w"

section \<open>The reader\<close>

record reader =
  rd_bytes :: bytes
  rd_size :: nat
  rd_start :: nat
  rd_end :: nat

definition ByteBufferReader :: "bytes \<Rightarrow> reader" where
  "ByteBufferReader bs = \<lparr>rd_bytes = bs, rd_size = length bs, rd_start = 0, rd_end = length bs\<rparr>"

definition Reader_Length :: "reader \<Rightarrow> nat" where
  "Reader_Length r = rd_end r - rd_start r"

text \<open>A copy of \<open>len\<close> bytes from \<open>bytes_ + start_\<close>.\<close>

definition peek_bytes :: "nat \<Rightarrow> (reader, bytes) act" where
  "peek_bytes len = (\<lambda>r. if rd_start r + len \<le> length (rd_bytes r)
                         then (r, Returns (take len (drop (rd_start r) (rd_bytes r))))
                         else (r, Faults OutOfBounds))"

definition advance :: "nat \<Rightarrow> (reader, unit) act" where
  "advance len = update (\<lambda>r. r\<lparr>rd_start := rd_start r + len\<rparr>)"

text \<open>The private \<open>ReadBytes\<close> the others call.\<close>

definition ReadBytes_ptr :: "nat \<Rightarrow> (reader, bytes option) act" where
  "ReadBytes_ptr len =
     seq (look Reader_Length) (\<lambda>n.
     if len > n then ret None
     else if len = 0 then ret (Some [])
     else seq (peek_bytes len) (\<lambda>v. seq (advance len) (\<lambda>_. ret (Some v))))"

definition ReadUInt8 :: "bool \<Rightarrow> (reader, u8 option) act" where
  "ReadUInt8 val =
     (if \<not> val then ret None
      else seq (ReadBytes_ptr 1) (\<lambda>v. ret (map_option hd v)))"

definition ReadUInt16 :: "bool \<Rightarrow> (reader, u16 option) act" where
  "ReadUInt16 val =
     (if \<not> val then ret None
      else seq (ReadBytes_ptr 2) (\<lambda>v.
           ret (map_option (\<lambda>bs. NetworkToHost16 (word_of_nat (le_value bs))) v)))"

text \<open>The three bytes go behind a zero byte.\<close>

definition ReadUInt24 :: "bool \<Rightarrow> (reader, u32 option) act" where
  "ReadUInt24 val =
     (if \<not> val then ret None
      else seq (ReadBytes_ptr 3) (\<lambda>v.
           ret (map_option (\<lambda>bs. NetworkToHost32 (word_of_nat (le_value (0 # bs)))) v)))"

definition ReadUInt32 :: "bool \<Rightarrow> (reader, u32 option) act" where
  "ReadUInt32 val =
     (if \<not> val then ret None
      else seq (ReadBytes_ptr 4) (\<lambda>v.
           ret (map_option (\<lambda>bs. NetworkToHost32 (word_of_nat (le_value bs))) v)))"

definition ReadUInt64 :: "bool \<Rightarrow> (reader, u64 option) act" where
  "ReadUInt64 val =
     (if \<not> val then ret None
      else seq (ReadBytes_ptr 8) (\<lambda>v.
           ret (map_option (\<lambda>bs. NetworkToHost64 (word_of_nat (le_value bs))) v)))"

text \<open>The loop of \<open>ReadUVarint\<close>, from the bit \<open>i\<close> on.\<close>

function read_uvarint_from :: "nat \<Rightarrow> u64 \<Rightarrow> (reader, u64 option) act" where
  "read_uvarint_from i v =
     (if i < 64
      then seq (ReadBytes_ptr 1) (\<lambda>bs.
           case bs of
             None \<Rightarrow> ret None
           | Some bs \<Rightarrow>
               let byte = hd bs; v = v OR push_bit i (ucast byte AND 0x7F)
               in if byte < 0x80 then ret (Some v) else read_uvarint_from (i + 7) v)
      else ret None)"
  by pat_completeness auto
termination read_uvarint_from
  by (relation "measure (\<lambda>(i, v). 64 - i)") simp_all

declare read_uvarint_from.simps [simp del]

definition ReadUVarint :: "bool \<Rightarrow> (reader, u64 option) act" where
  "ReadUVarint val = (if \<not> val then ret None else read_uvarint_from 0 0)"

text \<open>\<open>ReadString\<close> appends to the string it is given, \<open>ReadStringView\<close> replaces it.\<close>

definition ReadString :: "bytes option \<Rightarrow> nat \<Rightarrow> (reader, bytes option) act" where
  "ReadString val len =
     (case val of
        None \<Rightarrow> ret None
      | Some old \<Rightarrow>
          seq (look Reader_Length) (\<lambda>n.
          if len > n then ret None
          else seq (peek_bytes len) (\<lambda>v. seq (advance len) (\<lambda>_. ret (Some (old @ v))))))"

definition ReadStringView :: "bool \<Rightarrow> nat \<Rightarrow> (reader, bytes option) act" where
  "ReadStringView val len =
     seq (look Reader_Length) (\<lambda>n.
     if \<not> val \<or> len > n then ret None
     else seq (peek_bytes len) (\<lambda>v. seq (advance len) (\<lambda>_. ret (Some v))))"

definition ReadBytes :: "nat \<Rightarrow> (reader, bytes option) act" where
  "ReadBytes len = (if len = 0 then ret (Some []) else ReadBytes_ptr len)"

definition Reader_Consume :: "nat \<Rightarrow> (reader, bool) act" where
  "Reader_Consume n =
     seq (look Reader_Length) (\<lambda>len.
     if n > len then ret False else seq (advance n) (\<lambda>_. ret True))"

section \<open>Safe reads\<close>

definition reader_ok :: "reader \<Rightarrow> bool" where
  "reader_ok r \<longleftrightarrow> rd_start r \<le> rd_end r \<and> rd_end r \<le> length (rd_bytes r)"

definition reader_rest :: "reader \<Rightarrow> bytes" where
  "reader_rest r = drop (rd_start r) (take (rd_end r) (rd_bytes r))"

text \<open>A call that never faults, only moves forward, and stays inside the bytes.\<close>

definition reads_safely :: "(reader, 'a) act \<Rightarrow> bool" where
  "reads_safely m \<longleftrightarrow>
     (\<forall>r. reader_ok r \<longrightarrow>
        (\<exists>r' x. m r = (r', Returns x) \<and> reader_ok r' \<and> rd_start r \<le> rd_start r' \<and>
                rd_end r' = rd_end r \<and> rd_bytes r' = rd_bytes r \<and> rd_size r' = rd_size r))"

named_theorems read_rules

lemma reads_safely_ret [read_rules]: "reads_safely (ret x)" and reads_safely_look [read_rules]: "reads_safely (look f)"
  by (simp_all add: reads_safely_def)

lemma reads_safely_seq [read_rules]:
  "reads_safely m \<Longrightarrow> (\<And>x. reads_safely (f x)) \<Longrightarrow> reads_safely (seq m f)"
  unfolding reads_safely_def by (fastforce intro: order_trans)

lemma reads_safely_if [read_rules]:
  "(b \<Longrightarrow> reads_safely m) \<Longrightarrow> (\<not> b \<Longrightarrow> reads_safely m') \<Longrightarrow> reads_safely (if b then m else m')"
  by simp

lemma reads_safely_option [read_rules]:
  "(x = None \<Longrightarrow> reads_safely m) \<Longrightarrow> (\<And>y. x = Some y \<Longrightarrow> reads_safely (f y)) \<Longrightarrow>
   reads_safely (case x of None \<Rightarrow> m | Some y \<Rightarrow> f y)"
  by (cases x) simp_all

text \<open>The guarded copy shared by all reads.\<close>

lemma guarded_read:
  "reads_safely (seq (look Reader_Length) (\<lambda>n. if P \<or> len > n then ret a
     else seq (peek_bytes len) (\<lambda>v. seq (advance len) (\<lambda>_. ret (g v)))))"
  by (auto simp: reads_safely_def reader_ok_def Reader_Length_def peek_bytes_def advance_def run_seq)

lemma ReadBytes_ptr_safe [read_rules]: "reads_safely (ReadBytes_ptr len)"
  using guarded_read [of False len None Some]
  by (cases "len = 0")
    (auto simp: ReadBytes_ptr_def reads_safely_def run_seq Reader_Length_def cong: if_cong)

lemma ReadString_safe [read_rules]: "reads_safely (ReadString val len)"
proof (cases val)
  case (Some old)
  then show ?thesis
    using guarded_read [of False len None "\<lambda>v. Some (old @ v)"] by (simp add: ReadString_def)
qed (simp add: ReadString_def reads_safely_ret)

lemma ReadStringView_safe [read_rules]: "reads_safely (ReadStringView val len)"
  using guarded_read [of "\<not> val" len None Some] by (simp add: ReadStringView_def)

lemma Consume_safe [read_rules]: "reads_safely (Reader_Consume n)"
  by (auto simp: reads_safely_def Reader_Consume_def reader_ok_def Reader_Length_def advance_def run_seq)

lemma read_uvarint_safe [read_rules]: "reads_safely (read_uvarint_from i v)"
proof (induction i v rule: read_uvarint_from.induct)
  case (1 i v)
  then show ?case
    by (subst read_uvarint_from.simps) (auto intro!: read_rules simp: Let_def)
qed

lemma ReadUInt_safe [read_rules]:
  "reads_safely (ReadUInt8 val)" "reads_safely (ReadUInt16 val)" "reads_safely (ReadUInt24 val)"
  "reads_safely (ReadUInt32 val)" "reads_safely (ReadUInt64 val)" "reads_safely (ReadUVarint val)"
  "reads_safely (ReadBytes len)"
  by (auto simp: ReadUInt8_def ReadUInt16_def ReadUInt24_def ReadUInt32_def ReadUInt64_def
      ReadUVarint_def ReadBytes_def intro!: read_rules)

section \<open>Parsing\<close>

text \<open>A call that reads exactly the bytes \<open>xs\<close>, whatever follows, and answers \<open>x\<close>.\<close>

definition parses :: "(reader, 'a) act \<Rightarrow> bytes \<Rightarrow> 'a \<Rightarrow> bool" where
  "parses m xs x \<longleftrightarrow>
     (\<forall>r ys. reader_ok r \<longrightarrow> reader_rest r = xs @ ys \<longrightarrow>
        (\<exists>r'. m r = (r', Returns x) \<and> reader_ok r' \<and> reader_rest r' = ys))"

lemma parses_ret: "parses (ret x) [] x"
  by (simp add: parses_def)

lemma parses_seq: "parses m xs x \<Longrightarrow> parses (f x) ys y \<Longrightarrow> parses (seq m f) (xs @ ys) y"
  unfolding parses_def by (metis (no_types, lifting) append_assoc run_seq_Returns)

lemma parses_map: "parses m xs x \<Longrightarrow> y = f x \<Longrightarrow> parses (seq m (\<lambda>x. ret (f x))) xs y"
  using parses_seq [of m xs x "\<lambda>x. ret (f x)" "[]"] by (simp add: parses_ret)

lemma parses_start:
  assumes "parses m bs x"
  obtains r' where "m (ByteBufferReader (bs @ ys)) = (r', Returns x)" "reader_ok r'" "reader_rest r' = ys"
proof -
  have "reader_ok (ByteBufferReader (bs @ ys))" "reader_rest (ByteBufferReader (bs @ ys)) = bs @ ys"
    by (simp_all add: ByteBufferReader_def reader_ok_def reader_rest_def)
  with assms that show thesis unfolding parses_def by blast
qed

lemma reader_rest_append:
  assumes "reader_ok r" "reader_rest r = xs @ ys"
  shows "Reader_Length r = length xs + length ys" "rd_start r + length xs \<le> rd_end r"
    "take (length xs) (drop (rd_start r) (rd_bytes r)) = xs"
    "reader_rest (r\<lparr>rd_start := rd_start r + length xs\<rparr>) = ys"
    "reader_ok (r\<lparr>rd_start := rd_start r + length xs\<rparr>)"
proof -
  have len: "length xs + length ys = rd_end r - rd_start r"
  proof -
    have "length (reader_rest r) = rd_end r - rd_start r"
      using assms(1) by (simp add: reader_rest_def reader_ok_def)
    then show ?thesis using assms(2) by simp
  qed
  then show "Reader_Length r = length xs + length ys" by (simp add: Reader_Length_def)
  show le: "rd_start r + length xs \<le> rd_end r" 
    using len assms(1) unfolding reader_ok_def by linarith
  have "take (length xs) (reader_rest r) = xs" "drop (length xs) (reader_rest r) = ys"
    using assms(2) by simp_all
  then show "take (length xs) (drop (rd_start r) (rd_bytes r)) = xs"
    "reader_rest (r\<lparr>rd_start := rd_start r + length xs\<rparr>) = ys"
    using le by (simp_all add: reader_rest_def drop_take add.commute)
  show "reader_ok (r\<lparr>rd_start := rd_start r + length xs\<rparr>)"
    using le assms(1) by (simp add: reader_ok_def)
qed

lemma parses_guarded:
  assumes "length xs = len" "\<not> P"
  shows "parses (seq (look Reader_Length) (\<lambda>n. if P \<or> len > n then ret a
     else seq (peek_bytes len) (\<lambda>v. seq (advance len) (\<lambda>_. ret (g v))))) xs (g xs)"
  unfolding parses_def
proof (intro allI impI)
  fix r ys assume r: "reader_ok r" "reader_rest r = xs @ ys"
  note facts = reader_rest_append [OF r, unfolded assms(1)]
  show "\<exists>r'. seq (look Reader_Length) (\<lambda>n. if P \<or> len > n then ret a
     else seq (peek_bytes len) (\<lambda>v. seq (advance len) (\<lambda>_. ret (g v)))) r = (r', Returns (g xs)) \<and>
     reader_ok r' \<and> reader_rest r' = ys"
    using assms(2) facts r(1)
    by (intro exI [of _ "r\<lparr>rd_start := rd_start r + len\<rparr>"])
      (simp add: run_seq peek_bytes_def advance_def reader_ok_def)
qed

lemma parses_ReadBytes_ptr: "length xs = len \<Longrightarrow> parses (ReadBytes_ptr len) xs (Some xs)"
  using parses_guarded [of xs len False None Some]
  by (cases "len = 0") (auto simp: ReadBytes_ptr_def parses_def run_seq)

lemma parses_ReadString: "length xs = len \<Longrightarrow> parses (ReadString (Some old) len) xs (Some (old @ xs))"
  using parses_guarded [of xs len False None "\<lambda>v. Some (old @ v)"] by (simp add: ReadString_def)

lemma parses_ReadStringView: "length xs = len \<Longrightarrow> parses (ReadStringView True len) xs (Some xs)"
  using parses_guarded [of xs len "\<not> True" None Some] by (simp add: ReadStringView_def)

text \<open>Too few bytes left: the answer is \<open>false\<close> and the reader has not moved.\<close>

lemma short_read:
  assumes "len > Reader_Length r"
  shows "ReadBytes_ptr len r = (r, Returns None)" "ReadString val len r = (r, Returns None)"
    "ReadStringView b len r = (r, Returns None)" "Reader_Consume len r = (r, Returns False)"
  using assms
  by (simp_all add: ReadBytes_ptr_def ReadString_def ReadStringView_def Reader_Consume_def run_seq
      split: option.split)

lemma short_integer:
  "Reader_Length r < 1 \<Longrightarrow> ReadUInt8 val r = (r, Returns None)"
  "Reader_Length r < 2 \<Longrightarrow> ReadUInt16 val r = (r, Returns None)"
  "Reader_Length r < 3 \<Longrightarrow> ReadUInt24 val r = (r, Returns None)"
  "Reader_Length r < 4 \<Longrightarrow> ReadUInt32 val r = (r, Returns None)"
  "Reader_Length r < 8 \<Longrightarrow> ReadUInt64 val r = (r, Returns None)"
  by (simp_all add: ReadUInt8_def ReadUInt16_def ReadUInt24_def ReadUInt32_def ReadUInt64_def short_read)

section \<open>Codecs\<close>

text \<open>
  A field: how it is written, how it is read, and the bytes in between.  A codec gives back what it
  wrote from a fresh reader, and leaves the rest of the input alone.
\<close>

locale codec =
  fixes valid :: "'a \<Rightarrow> bool" and enc :: "'a \<Rightarrow> bytes"
    and wr :: "garbage \<Rightarrow> 'a \<Rightarrow> writer \<Rightarrow> writer outcome"
    and rd :: "(reader, 'a option) act"
  assumes wr_enc: "valid x \<Longrightarrow> appends buf_ok buf_contents (wr m x) (enc x)"
    and rd_enc: "valid x \<Longrightarrow> parses rd (enc x) (Some x)"
begin

lemma write_read:
  assumes "valid x" "buf_ok w" "buf_contents w = []"
  obtains w' r' where "wr m x w = Returns w'" "buf_ok w'"
    "rd (ByteBufferReader (buf_contents w' @ ys)) = (r', Returns (Some x))"
    "reader_ok r'" "reader_rest r' = ys"
proof -
  obtain w' where w': "wr m x w = Returns w'" "buf_ok w'" "buf_contents w' = buf_contents w @ enc x"
    using wr_enc [OF assms(1)] assms(2) by (rule buf.appends_run)
  obtain r' where "rd (ByteBufferReader (enc x @ ys)) = (r', Returns (Some x))" "reader_ok r'"
    "reader_rest r' = ys"
    using rd_enc [OF assms(1)] by (rule parses_start)
  with w' assms(3) show thesis by (intro that [of w' r']) simp_all
qed

end

lemma write_integer_bytes:
  "WriteUInt16 m v16 = buf_AppendData m (be_bytes 2 (unat v16))"
  "WriteUInt32 m v32 = buf_AppendData m (be_bytes 4 (unat v32))"
  "WriteUInt64 m v64 = buf_AppendData m (be_bytes 8 (unat v64))"
  by (simp_all add: WriteUInt16_def WriteUInt32_def WriteUInt64_def WriteBytesInternal_def fun_eq_iff
      unat_byte_swap le_bytes_byte_swap)

lemma parses_integer:
  "parses (ReadUInt16 True) (be_bytes 2 (unat v16)) (Some v16)"
  "parses (ReadUInt32 True) (be_bytes 4 (unat v32)) (Some v32)"
  "parses (ReadUInt64 True) (be_bytes 8 (unat v64)) (Some v64)"
proof -
  have "NetworkToHost16 (word_of_nat (le_value (be_bytes 2 (unat v16)))) = v16"
    using le_value_be_less [of 2 "unat v16"] unsigned_less [of v16, where 'a = nat]
    by (simp add: NetworkToHost16_def unat_of_nat byte_swap_be_bytes)
  then show "parses (ReadUInt16 True) (be_bytes 2 (unat v16)) (Some v16)"
    by (simp add: ReadUInt16_def parses_map [OF parses_ReadBytes_ptr])
  have "NetworkToHost32 (word_of_nat (le_value (be_bytes 4 (unat v32)))) = v32"
    using le_value_be_less [of 4 "unat v32"] unsigned_less [of v32, where 'a = nat]
    by (simp add: NetworkToHost32_def unat_of_nat byte_swap_be_bytes)
  then show "parses (ReadUInt32 True) (be_bytes 4 (unat v32)) (Some v32)"
    by (simp add: ReadUInt32_def parses_map [OF parses_ReadBytes_ptr])
  have "NetworkToHost64 (word_of_nat (le_value (be_bytes 8 (unat v64)))) = v64"
    using le_value_be_less [of 8 "unat v64"] unsigned_less [of v64, where 'a = nat]
    by (simp add: NetworkToHost64_def unat_of_nat byte_swap_be_bytes)
  then show "parses (ReadUInt64 True) (be_bytes 8 (unat v64)) (Some v64)"
    by (simp add: ReadUInt64_def parses_map [OF parses_ReadBytes_ptr])
qed

lemma parses_u8: "parses (ReadUInt8 True) [b] (Some b)"
  by (simp add: ReadUInt8_def parses_map [OF parses_ReadBytes_ptr])

lemma write_u8: "WriteUInt8 m v = buf_AppendData m [v]"
  by (simp add: WriteUInt8_def WriteBytesInternal_def fun_eq_iff)

text \<open>Twenty-four bits: the top byte of the argument is dropped by the writer, zero in the reader.\<close>

lemma codec_u24:
  assumes "v < 0x1000000"
  shows "WriteUInt24 m v = buf_AppendData m (be_bytes 3 (unat v))"
    and "parses (ReadUInt24 True) (be_bytes 3 (unat v)) (Some v)"
proof -
  have v: "unat v < 256 ^ 3" using assms by (simp add: word_less_nat_alt)
  then have top: "be_bytes 4 (unat v) = 0 # be_bytes 3 (unat v)"
    using be_bytes_top [of "unat v" 3] by simp
  show "WriteUInt24 m v = buf_AppendData m (be_bytes 3 (unat v))"
    by (simp add: WriteUInt24_def WriteBytesInternal_def fun_eq_iff unat_byte_swap le_bytes_byte_swap top)
  have "NetworkToHost32 (word_of_nat (le_value (be_bytes 4 (unat v)))) = v"
    using le_value_be_less [of 4 "unat v"] unsigned_less [of v, where 'a = nat]
    by (simp add: NetworkToHost32_def unat_of_nat byte_swap_be_bytes)
  then show "parses (ReadUInt24 True) (be_bytes 3 (unat v)) (Some v)"
    unfolding top by (simp add: ReadUInt24_def parses_map [OF parses_ReadBytes_ptr])
qed

interpretation u8: codec "\<lambda>_. True" "\<lambda>v. [v]" WriteUInt8 "ReadUInt8 True"
  by unfold_locales (simp_all add: write_u8 buf.put_appends parses_u8)

interpretation u16: codec "\<lambda>_. True" "\<lambda>v. be_bytes 2 (unat v)" WriteUInt16 "ReadUInt16 True"
  by unfold_locales (simp_all add: write_integer_bytes buf.put_appends parses_integer)

interpretation u24: codec "\<lambda>v. v < 0x1000000" "\<lambda>v. be_bytes 3 (unat v)" WriteUInt24 "ReadUInt24 True"
  by unfold_locales (simp_all add: codec_u24 buf.put_appends)

interpretation u32: codec "\<lambda>_. True" "\<lambda>v. be_bytes 4 (unat v)" WriteUInt32 "ReadUInt32 True"
  by unfold_locales (simp_all add: write_integer_bytes buf.put_appends parses_integer)

interpretation u64: codec "\<lambda>_. True" "\<lambda>v. be_bytes 8 (unat v)" WriteUInt64 "ReadUInt64 True"
  by unfold_locales (simp_all add: write_integer_bytes buf.put_appends parses_integer)

section \<open>Variable-length integers\<close>

function uvarint_bytes :: "u64 \<Rightarrow> bytes" where
  "uvarint_bytes x =
     (if x \<ge> 0x80 then (ucast x OR 0x80) # uvarint_bytes (drop_bit 7 x) else [ucast x])"
  by pat_completeness auto
termination uvarint_bytes
  by (relation "measure unat") (simp_all add: drop_bit_7_less)

declare uvarint_bytes.simps [simp del]

lemma appends_uvarint: "appends buf_ok buf_contents (WriteUVarint m x) (uvarint_bytes x)"
proof (induction x rule: uvarint_bytes.induct)
  case (1 x)
  show ?case
  proof (cases "x \<ge> 0x80")
    case True
    have "WriteUVarint m x =
        (\<lambda>w. andThen (buf_AppendData m [ucast x OR 0x80] w) (WriteUVarint m (drop_bit 7 x)))"
      using True by (subst WriteUVarint.simps [abs_def]) (simp add: WriteBytesInternal_def fun_eq_iff)
    then show ?thesis
      using buf.put_all [OF 1 [OF True], of m "[ucast x OR 0x80]"] True
      by (simp add: uvarint_bytes.simps [of x])
  next
    case False
    then have "WriteUVarint m x = buf_AppendData m [ucast x]"
      by (subst WriteUVarint.simps [abs_def]) (simp add: WriteBytesInternal_def fun_eq_iff)
    with False show ?thesis
      by (simp add: uvarint_bytes.simps [of x] buf.put_appends)
  qed
qed

text \<open>The bits of the two kinds of bytes.\<close>

lemma and_7F: "(y :: u64) AND 0x7F = take_bit 7 y"
proof -
  have "(0x7F :: u64) = mask 7" by (simp add: mask_eq_exp_minus_1)
  then show ?thesis by (simp add: take_bit_eq_mask)
qed

lemma continuation_byte:
  "\<not> (ucast (x :: u64) OR 0x80 :: u8) < 0x80" "ucast (ucast (x :: u64) OR 0x80 :: u8) AND 0x7F = (take_bit 7 x :: u64)"
proof -
  have "(0x80 :: u8) \<le> 0x80 OR ucast x" by (rule le_word_or2)
  then show "\<not> (ucast x OR 0x80 :: u8) < 0x80" by (simp add: or.commute)
  have b7: "(0x80 :: u8) = push_bit 7 1" by simp
  have cut: "take_bit k (ucast (ucast x OR push_bit k 1 :: u8)) = (take_bit k x :: u64)" if "k < 8" for k
    using that by (intro bit_word_eqI) (auto simp: bit_simps)
  have "take_bit 7 (ucast (ucast x OR push_bit 7 1 :: u8)) = (take_bit 7 x :: u64)"
    by (rule cut) simp
  then show "ucast (ucast x OR 0x80 :: u8) AND 0x7F = (take_bit 7 x :: u64)"
    unfolding and_7F b7 .
qed

lemma last_byte:
  assumes "\<not> 0x80 \<le> (x :: u64)"
  shows "(ucast x :: u8) < 0x80" "ucast (ucast x :: u8) AND 0x7F = x"
proof -
  have x: "unat x < 128" using assms by (simp add: word_le_nat_alt)
  show "(ucast x :: u8) < 0x80" using x by (simp add: word_less_nat_alt unat_ucast_mod)
  from x have "take_bit 7 x = x"
    by (simp only: word_unat_eq_iff unsigned_take_bit_eq) (simp add: take_bit_eq_mod)
  moreover have "take_bit 7 (ucast (ucast x :: u8) :: u64) = take_bit 7 x"
    by (intro bit_word_eqI) (auto simp: bit_take_bit_iff bit_unsigned_iff)
  ultimately show "ucast (ucast x :: u8) AND 0x7F = x" by (simp add: and_7F)
qed

lemma split_7: "push_bit i (take_bit 7 x) OR push_bit (i + 7) (drop_bit 7 x) = push_bit i (x :: u64)"
proof (rule bit_word_eqI)
  fix n assume "n < LENGTH(64)"
  moreover have "7 + (n - (i + 7)) = n - i" if "\<not> n - i < 7" using that by simp
  ultimately show "bit (push_bit i (take_bit 7 x) OR push_bit (i + 7) (drop_bit 7 x)) n = bit (push_bit i x) n"
    by (cases "n - i < 7") (auto simp: bit_simps)
qed

lemma parses_uvarint_from:
  assumes "i < 64" "unat x < 2 ^ (64 - i)"
  shows "parses (read_uvarint_from i v) (uvarint_bytes x) (Some (v OR push_bit i x))"
  using assms
proof (induction x arbitrary: i v rule: uvarint_bytes.induct)
  case (1 x)
  show ?case
  proof (cases "x \<ge> 0x80")
    case True
    have "(2 :: nat) ^ 7 \<le> unat x" using True by (simp add: word_le_nat_alt)
    then have "(2 :: nat) ^ 7 < 2 ^ (64 - i)" using 1(3) by (rule le_less_trans)
    then have i: "7 < 64 - i" by (rule power_less_imp_less_exp [rotated]) simp
    have "unat (drop_bit 7 x) = unat x div 2 ^ 7"
      by (simp only: unat_drop_bit_eq) (simp add: drop_bit_eq_div)
    also have "\<dots> < 2 ^ (64 - (i + 7))"
    proof -
      have "(2 :: nat) ^ (64 - i) = 2 ^ (64 - (i + 7)) * 2 ^ 7"
        unfolding power_add [symmetric] using i by (intro arg_cong [of _ _ "(^) 2"]) simp
      with 1(3) show ?thesis by (simp add: less_mult_imp_div_less)
    qed
    finally have small: "unat (drop_bit 7 x) < 2 ^ (64 - (i + 7))" .
    have "parses (seq (ReadBytes_ptr 1) (\<lambda>bs.
           case bs of
             None \<Rightarrow> ret None
           | Some bs \<Rightarrow>
               let byte = hd bs; v = v OR push_bit i (ucast byte AND 0x7F)
               in if byte < 0x80 then ret (Some v) else read_uvarint_from (i + 7) v))
        ([ucast x OR 0x80] @ uvarint_bytes (drop_bit 7 x))
        (Some ((v OR push_bit i (take_bit 7 x)) OR push_bit (i + 7) (drop_bit 7 x)))"
      using 1(1) [OF True _ small, of "v OR push_bit i (take_bit 7 x)"] i
      by (intro parses_seq [OF parses_ReadBytes_ptr]) (simp_all add: continuation_byte Let_def del: push_bit_and)
    then show ?thesis
      using 1(2) True split_7 [of i x]
      by (simp add: uvarint_bytes.simps [of x] read_uvarint_from.simps [of i] or.assoc del: push_bit_and)
  next
    case False
    have "parses (seq (ReadBytes_ptr 1) (\<lambda>bs.
           case bs of
             None \<Rightarrow> ret None
           | Some bs \<Rightarrow>
               let byte = hd bs; v = v OR push_bit i (ucast byte AND 0x7F)
               in if byte < 0x80 then ret (Some v) else read_uvarint_from (i + 7) v))
        ([ucast x] @ []) (Some (v OR push_bit i x))"
      using False
      by (intro parses_seq [OF parses_ReadBytes_ptr]) (simp_all add: last_byte Let_def parses_ret del: push_bit_and)
    then show ?thesis
      using 1(2) False by (simp add: uvarint_bytes.simps [of x] read_uvarint_from.simps [of i] del: push_bit_and)
  qed
qed

lemma parses_uvarint: "parses (ReadUVarint True) (uvarint_bytes x) (Some x)"
  using parses_uvarint_from [of 0 x 0] unsigned_less [of x, where 'a = nat]
  by (simp add: ReadUVarint_def)

interpretation uvarint: codec "\<lambda>_. True" uvarint_bytes WriteUVarint "ReadUVarint True"
  by unfold_locales (simp_all add: appends_uvarint parses_uvarint)

lemma length_uvarint_le: "unat x < 2 ^ (7 * k) \<Longrightarrow> 0 < k \<Longrightarrow> length (uvarint_bytes x) \<le> k"
proof (induction x arbitrary: k rule: uvarint_bytes.induct)
  case (1 x)
  show ?case
  proof (cases "x \<ge> 0x80")
    case True
    then obtain k' where k: "k = Suc k'" "0 < k'"
      using 1(2,3) by (cases k; cases "k - 1") (auto simp: word_le_nat_alt)
    have "unat (drop_bit 7 x) = unat x div 2 ^ 7"
      by (simp only: unat_drop_bit_eq) (simp add: drop_bit_eq_div)
    also have "\<dots> < 2 ^ (7 * k')"
      using 1(2) by (simp add: k power_add less_mult_imp_div_less)
    finally have "length (uvarint_bytes (drop_bit 7 x)) \<le> k'" using 1(1) [OF True] k by blast
    with True k show ?thesis by (simp add: uvarint_bytes.simps [of x])
  next
    case False
    with 1(3) show ?thesis by (simp add: uvarint_bytes.simps [of x])
  qed
qed

lemma length_uvarint: "0 < length (uvarint_bytes x)" "length (uvarint_bytes x) \<le> 10"
proof -
  show "0 < length (uvarint_bytes x)" by (simp add: uvarint_bytes.simps [of x])
  have "unat x < 2 ^ 64" using unsigned_less [of x, where 'a = nat] by simp
  also have "\<dots> < 2 ^ (7 * 10)" by simp
  finally show "length (uvarint_bytes x) \<le> 10" by (rule length_uvarint_le) simp
qed

text \<open>Whatever the input, \<open>ReadUVarint\<close> takes at most ten bytes.\<close>

lemma ReadBytes_ptr_one:
  "\<exists>r' x. ReadBytes_ptr 1 r = (r', Returns x) \<or> (\<exists>e. ReadBytes_ptr 1 r = (r, Faults e))"
  "rd_start (fst (ReadBytes_ptr 1 r)) \<le> rd_start r + 1"
  by (auto simp: ReadBytes_ptr_def run_seq peek_bytes_def advance_def)

lemma read_uvarint_bound:
  "rd_start (fst (read_uvarint_from i v r)) \<le> rd_start r + (70 - i) div 7"
proof (induction i v arbitrary: r rule: read_uvarint_from.induct)
  case (1 i v)
  show ?case
  proof (cases "i < 64")
    case True
    obtain r1 o1 where r1: "ReadBytes_ptr 1 r = (r1, o1)" by (cases "ReadBytes_ptr 1 r")
    then have le: "rd_start r1 \<le> rd_start r + 1" using ReadBytes_ptr_one(2) [of r] by simp
    have div: "(70 - (i + 7)) div 7 + 1 \<le> (70 - i) div 7" using True by linarith
    show ?thesis
    proof (cases o1)
      case (Returns bs)
      show ?thesis
      proof (cases bs)
        case None
        with Returns r1 le True div show ?thesis by (simp add: read_uvarint_from.simps [of i])
      next
        case (Some b)
        let ?v = "v OR push_bit i (ucast (hd b) AND 0x7F)"
        show ?thesis
        proof (cases "hd b < 0x80")
          case False
          have "rd_start (fst (read_uvarint_from (i + 7) ?v r1)) \<le> rd_start r1 + (70 - (i + 7)) div 7"
            using 1 [OF True refl refl, of "b"] False by simp
          with Returns r1 le True div Some False show ?thesis
            by (simp add: read_uvarint_from.simps [of i] Let_def)
        qed (use Returns r1 le True div Some in \<open>simp add: read_uvarint_from.simps [of i] Let_def\<close>)
      qed
    qed (use r1 le True div in \<open>simp add: read_uvarint_from.simps [of i]\<close>)
  qed (simp add: read_uvarint_from.simps [of i])
qed

lemma ReadUVarint_bound: "rd_start (fst (ReadUVarint val r)) \<le> rd_start r + 10"
  using read_uvarint_bound [of 0 0 r] by (simp add: ReadUVarint_def)

end
