(* ===== verification/Sctp_Utils.thy ===== *)
theory Sctp_Utils
  imports Byte_Buffer
begin

text \<open>
  The in-band handshake of a data channel (\<open>pc/sctp_utils.cc\<close>): writing and parsing of the OPEN
  and OPEN_ACK messages, with \<open>DataChannelInit\<close> (\<open>api/data_channel_interface.h\<close>) and the priorities
  (\<open>api/priority.h\<close>).  Payloads are byte lists, which is what a \<open>CopyOnWriteBuffer\<close> amounts to.
  The parser writes through its two pointers as it goes, so the label and the configuration it
  leaves are part of its answer also when it gives up.
\<close>

section \<open>Constants\<close>

definition DATA_CHANNEL_OPEN_MESSAGE_TYPE :: u8 where "DATA_CHANNEL_OPEN_MESSAGE_TYPE = 0x03"
definition DATA_CHANNEL_OPEN_ACK_MESSAGE_TYPE :: u8 where "DATA_CHANNEL_OPEN_ACK_MESSAGE_TYPE = 0x02"

definition DCOMCT_ORDERED_RELIABLE :: u8 where "DCOMCT_ORDERED_RELIABLE = 0x00"
definition DCOMCT_ORDERED_PARTIAL_RTXS :: u8 where "DCOMCT_ORDERED_PARTIAL_RTXS = 0x01"
definition DCOMCT_ORDERED_PARTIAL_TIME :: u8 where "DCOMCT_ORDERED_PARTIAL_TIME = 0x02"
definition DCOMCT_UNORDERED_RELIABLE :: u8 where "DCOMCT_UNORDERED_RELIABLE = 0x80"
definition DCOMCT_UNORDERED_PARTIAL_RTXS :: u8 where "DCOMCT_UNORDERED_PARTIAL_RTXS = 0x81"
definition DCOMCT_UNORDERED_PARTIAL_TIME :: u8 where "DCOMCT_UNORDERED_PARTIAL_TIME = 0x82"

lemmas channel_types =
  DCOMCT_ORDERED_RELIABLE_def DCOMCT_ORDERED_PARTIAL_RTXS_def DCOMCT_ORDERED_PARTIAL_TIME_def
  DCOMCT_UNORDERED_RELIABLE_def DCOMCT_UNORDERED_PARTIAL_RTXS_def DCOMCT_UNORDERED_PARTIAL_TIME_def

lemmas message_types = DATA_CHANNEL_OPEN_MESSAGE_TYPE_def DATA_CHANNEL_OPEN_ACK_MESSAGE_TYPE_def

datatype Priority = pVeryLow | pLow | pMedium | pHigh

fun PriorityValue :: "Priority \<Rightarrow> u16" where
  "PriorityValue pVeryLow = 128"
| "PriorityValue pLow = 256"
| "PriorityValue pMedium = 512"
| "PriorityValue pHigh = 1024"

section \<open>The configuration\<close>

text \<open>The \<open>int\<close> members are 32-bit values.\<close>

record DataChannelInit =
  dci_reliable :: bool
  dci_ordered :: bool
  dci_maxRetransmitTime :: "int option"
  dci_maxRetransmits :: "int option"
  dci_protocol :: bytes
  dci_negotiated :: bool
  dci_id :: int
  dci_priority :: "u16 option"

definition DataChannelInit_default :: DataChannelInit where
  "DataChannelInit_default =
     \<lparr>dci_reliable = False, dci_ordered = True, dci_maxRetransmitTime = None, dci_maxRetransmits = None,
      dci_protocol = [], dci_negotiated = False, dci_id = -1, dci_priority = None\<rparr>"

section \<open>The messages\<close>

definition IsOpenMessage :: "bytes \<Rightarrow> bool" where
  "IsOpenMessage payload =
     (if length payload < 1 then False
      else let message_type = payload ! 0 in message_type = DATA_CHANNEL_OPEN_MESSAGE_TYPE)"

text \<open>The tail of the parser, from the channel type and the reliability parameter.\<close>

definition set_reliability :: "u8 \<Rightarrow> u32 \<Rightarrow> DataChannelInit \<Rightarrow> DataChannelInit" where
  "set_reliability channel_type reliability_param config =
     (let config = config\<lparr>dci_ordered := True\<rparr>;
          config = (if channel_type \<in> {DCOMCT_UNORDERED_RELIABLE, DCOMCT_UNORDERED_PARTIAL_RTXS,
                                        DCOMCT_UNORDERED_PARTIAL_TIME}
                    then config\<lparr>dci_ordered := False\<rparr> else config);
          config = config\<lparr>dci_maxRetransmits := None, dci_maxRetransmitTime := None\<rparr>
      in if channel_type \<in> {DCOMCT_ORDERED_PARTIAL_RTXS, DCOMCT_UNORDERED_PARTIAL_RTXS}
         then config\<lparr>dci_maxRetransmits := Some (sint reliability_param)\<rparr>
         else if channel_type \<in> {DCOMCT_ORDERED_PARTIAL_TIME, DCOMCT_UNORDERED_PARTIAL_TIME}
         then config\<lparr>dci_maxRetransmitTime := Some (sint reliability_param)\<rparr>
         else config)"

text \<open>\<open>need v k\<close> goes on with a value that was read; otherwise the parser gives up with \<open>bad\<close>.\<close>

definition need :: "'b \<Rightarrow> 'a option \<Rightarrow> ('a \<Rightarrow> ('s, 'b) act) \<Rightarrow> ('s, 'b) act" where
  "need bad v k = (case v of None \<Rightarrow> ret bad | Some x \<Rightarrow> k x)"

definition parse_open ::
  "bytes \<Rightarrow> DataChannelInit \<Rightarrow> (reader, bool \<times> bytes \<times> DataChannelInit) act" where
  "parse_open label config =
     seq (ReadUInt8 True) (\<lambda>v. need (False, label, config) v (\<lambda>message_type.
     if message_type \<noteq> DATA_CHANNEL_OPEN_MESSAGE_TYPE then ret (False, label, config)
     else seq (ReadUInt8 True) (\<lambda>v. need (False, label, config) v (\<lambda>channel_type.
     seq (ReadUInt16 True) (\<lambda>v. need (False, label, config) v (\<lambda>priority.
     let config = config\<lparr>dci_priority := Some priority\<rparr>
     in seq (ReadUInt32 True) (\<lambda>v. need (False, label, config) v (\<lambda>reliability_param.
     seq (ReadUInt16 True) (\<lambda>v. need (False, label, config) v (\<lambda>label_length.
     seq (ReadUInt16 True) (\<lambda>v. need (False, label, config) v (\<lambda>protocol_length.
     seq (ReadString (Some label) (unat label_length)) (\<lambda>v. need (False, label, config) v (\<lambda>label.
     seq (ReadString (Some (dci_protocol config)) (unat protocol_length)) (\<lambda>v.
     need (False, label, config) v (\<lambda>protocol.
     let config = config\<lparr>dci_protocol := protocol\<rparr>
     in ret (True, label, set_reliability channel_type reliability_param config)))))))))))))))))"

definition ParseDataChannelOpenMessage ::
  "bytes \<Rightarrow> bytes \<Rightarrow> DataChannelInit \<Rightarrow> (bool \<times> bytes \<times> DataChannelInit) outcome" where
  "ParseDataChannelOpenMessage payload label config = snd (parse_open label config (ByteBufferReader payload))"

definition ParseDataChannelOpenAckMessage :: "bytes \<Rightarrow> bool" where
  "ParseDataChannelOpenAckMessage payload =
     (if length payload < 1 then False
      else let message_type = payload ! 0 in message_type = DATA_CHANNEL_OPEN_ACK_MESSAGE_TYPE)"

text \<open>The channel type byte and the reliability parameter of an OPEN message.\<close>

definition open_reliability :: "bool \<Rightarrow> int option \<Rightarrow> int option \<Rightarrow> u8 \<times> u32" where
  "open_reliability ordered max_retransmits max_retransmit_time =
     (if ordered then
        (case max_retransmits of
           Some n \<Rightarrow> (DCOMCT_ORDERED_PARTIAL_RTXS, word_of_int n)
         | None \<Rightarrow> (case max_retransmit_time of
                      Some t \<Rightarrow> (DCOMCT_ORDERED_PARTIAL_TIME, word_of_int t)
                    | None \<Rightarrow> (DCOMCT_ORDERED_RELIABLE, 0)))
      else
        (case max_retransmits of
           Some n \<Rightarrow> (DCOMCT_UNORDERED_PARTIAL_RTXS, word_of_int n)
         | None \<Rightarrow> (case max_retransmit_time of
                      Some t \<Rightarrow> (DCOMCT_UNORDERED_PARTIAL_TIME, word_of_int t)
                    | None \<Rightarrow> (DCOMCT_UNORDERED_RELIABLE, 0))))"

text \<open>The bytes the call leaves in \<open>payload\<close>; the code always answers \<open>true\<close>.\<close>

definition WriteDataChannelOpenMessage ::
  "garbage \<Rightarrow> bytes \<Rightarrow> bytes \<Rightarrow> u16 option \<Rightarrow> bool \<Rightarrow> int option \<Rightarrow> int option \<Rightarrow> bytes outcome" where
  "WriteDataChannelOpenMessage g label protocol opt_priority ordered max_retransmits max_retransmit_time =
     (let priority = (case opt_priority of Some p \<Rightarrow> p | None \<Rightarrow> PriorityValue pLow);
          (channel_type, reliability_param) = open_reliability ordered max_retransmits max_retransmit_time
      in andThen (Writer_Construct g None (20 + length label + length protocol)) (\<lambda>buffer.
         andThen (WriteUInt8 g DATA_CHANNEL_OPEN_MESSAGE_TYPE buffer) (\<lambda>buffer.
         andThen (WriteUInt8 g channel_type buffer) (\<lambda>buffer.
         andThen (WriteUInt16 g priority buffer) (\<lambda>buffer.
         andThen (WriteUInt32 g reliability_param buffer) (\<lambda>buffer.
         andThen (WriteUInt16 g (word_of_nat (length label)) buffer) (\<lambda>buffer.
         andThen (WriteUInt16 g (word_of_nat (length protocol)) buffer) (\<lambda>buffer.
         andThen (WriteString g label buffer) (\<lambda>buffer.
         andThen (WriteString g protocol buffer) (\<lambda>buffer.
         Returns (buf_contents buffer)))))))))))"

definition WriteDataChannelOpenMessage_config ::
  "garbage \<Rightarrow> bytes \<Rightarrow> DataChannelInit \<Rightarrow> bytes outcome" where
  "WriteDataChannelOpenMessage_config g label config =
     WriteDataChannelOpenMessage g label (dci_protocol config) (dci_priority config) (dci_ordered config)
       (dci_maxRetransmits config) (dci_maxRetransmitTime config)"

definition WriteDataChannelOpenAckMessage :: "bytes" where
  "WriteDataChannelOpenAckMessage = [DATA_CHANNEL_OPEN_ACK_MESSAGE_TYPE]"

section \<open>The wire format\<close>

definition open_header :: "u8 \<Rightarrow> u16 \<Rightarrow> u32 \<Rightarrow> u16 \<Rightarrow> u16 \<Rightarrow> bytes" where
  "open_header channel_type priority reliability_param label_length protocol_length =
     [DATA_CHANNEL_OPEN_MESSAGE_TYPE] @ [channel_type] @ be_bytes 2 (unat priority) @
     be_bytes 4 (unat reliability_param) @ be_bytes 2 (unat label_length) @
     be_bytes 2 (unat protocol_length)"

definition open_bytes :: "u8 \<Rightarrow> u16 \<Rightarrow> u32 \<Rightarrow> bytes \<Rightarrow> bytes \<Rightarrow> bytes" where
  "open_bytes channel_type priority reliability_param label protocol =
     open_header channel_type priority reliability_param (word_of_nat (length label))
       (word_of_nat (length protocol)) @ label @ protocol"

lemma appends_WriteString: "appends buf_ok buf_contents (WriteString g xs) xs"
  using buf.put_appends [of g xs] by (simp add: WriteString_def WriteBytesInternal_def [abs_def])

lemma Writer_Construct_ok:
  obtains w where "Writer_Construct g None n = Returns w" "buf_ok w" "buf_contents w = []"
proof -
  obtain w where "buf_EnsureCapacityWithHeadroom g n False BufferT_empty = Returns w" "buf_ok w"
    "buf_contents w = buf_contents BufferT_empty"
    using empty_ok(1) by (rule buf_ensure_ok)
  then show thesis by (intro that [of w]) (simp_all add: Writer_Construct_def buf_EnsureCapacity_def)
qed

lemma WriteDataChannelOpenMessage_bytes:
  assumes "open_reliability ordered n t = (ctype, rel)"
  shows "WriteDataChannelOpenMessage g label protocol prio ordered n t
    = Returns (open_bytes ctype (case prio of Some p \<Rightarrow> p | None \<Rightarrow> PriorityValue pLow) rel label protocol)"
proof -
  obtain w where w: "Writer_Construct g None (20 + length label + length protocol) = Returns w"
    "buf_ok w" "buf_contents w = []" by (rule Writer_Construct_ok)
  show ?thesis
    unfolding WriteDataChannelOpenMessage_def Let_def assms prod.case w(1) andThen.simps
    by (rule buf.then_appends [OF u8.wr_enc [OF TrueI] w(2)],
        rule buf.then_appends [OF u8.wr_enc [OF TrueI]], assumption,
        rule buf.then_appends [OF u16.wr_enc [OF TrueI]], assumption,
        rule buf.then_appends [OF u32.wr_enc [OF TrueI]], assumption,
        rule buf.then_appends [OF u16.wr_enc [OF TrueI]], assumption,
        rule buf.then_appends [OF u16.wr_enc [OF TrueI]], assumption,
        rule buf.then_appends [OF appends_WriteString], assumption,
        rule buf.then_appends [OF appends_WriteString], assumption)
      (simp add: w(3) open_bytes_def open_header_def)
qed

text \<open>A read that succeeds, followed by the rest of the parser.\<close>

lemma parses_need:
  "parses m xs (Some x) \<Longrightarrow> parses (k x) ys y \<Longrightarrow> parses (seq m (\<lambda>v. need bad v k)) (xs @ ys) y"
  using parses_seq [of m xs "Some x" "\<lambda>v. need bad v k" ys y] by (simp add: need_def)

lemma parses_else: "\<not> b \<Longrightarrow> parses m xs x \<Longrightarrow> parses (if b then m' else m) xs x"
  by simp

lemma parses_open:
  assumes "length lab = unat l" "length pro = unat p"
  shows "parses (parse_open old config) (open_header ctype prio rel l p @ lab @ pro)
    (True, old @ lab, set_reliability ctype rel
       (config\<lparr>dci_priority := Some prio, dci_protocol := dci_protocol config @ pro\<rparr>))"
proof -
  have "parses (parse_open old config)
    ([DATA_CHANNEL_OPEN_MESSAGE_TYPE] @ [ctype] @ be_bytes 2 (unat prio) @ be_bytes 4 (unat rel) @
     be_bytes 2 (unat l) @ be_bytes 2 (unat p) @ lab @ pro @ [])
    (True, old @ lab, set_reliability ctype rel
       (config\<lparr>dci_priority := Some prio, dci_protocol := dci_protocol config @ pro\<rparr>))"
    using assms unfolding parse_open_def Let_def
    by (intro parses_need [OF parses_u8] parses_need [OF parses_integer(1)] parses_else
        parses_need [OF parses_integer(2)] parses_need [OF parses_ReadString])
      (simp_all add: parses_ret)
  then show ?thesis by (simp add: open_header_def)
qed

text \<open>
  The lengths on the wire are those of the label and the protocol modulo \<open>2\<^sup>16\<close>, and the parser cuts
  the text that follows at these lengths.
\<close>

lemma ParseDataChannelOpenMessage_bytes:
  fixes label protocol
  defines "l \<equiv> length label mod 2 ^ 16" and "p \<equiv> length protocol mod 2 ^ 16"
  shows "ParseDataChannelOpenMessage (open_bytes ctype prio rel label protocol) old config
    = Returns (True, old @ take l (label @ protocol), set_reliability ctype rel
        (config\<lparr>dci_priority := Some prio,
                dci_protocol := dci_protocol config @ take p (drop l (label @ protocol))\<rparr>))"
proof -
  define text' where "text' = label @ protocol"
  define hd' where "hd' = open_header ctype prio rel (word_of_nat (length label)) (word_of_nat (length protocol))"
  have "l + p \<le> length text'" by (simp add: text'_def l_def p_def add_mono)
  then have "length (take l text') = l" "length (take p (drop l text')) = p" by auto
  then have len: "length (take l text') = unat (word_of_nat (length label) :: u16)"
    "length (take p (drop l text')) = unat (word_of_nat (length protocol) :: u16)"
    by (simp_all add: l_def p_def unat_of_nat)
  have bytes: "open_bytes ctype prio rel label protocol =
      (hd' @ take l text' @ take p (drop l text')) @ drop (l + p) text'"
  proof -
    have "take p (drop l text') @ drop (l + p) text' = drop l text'"
      using append_take_drop_id [of p "drop l text'"] by (simp add: add.commute)
    then have "take l text' @ take p (drop l text') @ drop (l + p) text' = text'" by simp
    then show ?thesis unfolding open_bytes_def hd'_def append_assoc text'_def by simp
  qed
  obtain r where "parse_open old config (ByteBufferReader (open_bytes ctype prio rel label protocol))
    = (r, Returns (True, old @ take l text', set_reliability ctype rel
        (config\<lparr>dci_priority := Some prio, dci_protocol := dci_protocol config @ take p (drop l text')\<rparr>)))"
    unfolding bytes hd'_def by (rule parses_start [OF parses_open [OF len]])
  then show ?thesis by (simp add: ParseDataChannelOpenMessage_def text'_def)
qed

text \<open>What an \<open>int\<close> becomes on its way through \<open>uint32_t\<close> and back.\<close>

lemma sint_word_of_int_u32:
  "-(2 ^ 31) \<le> n \<Longrightarrow> n < 2 ^ 31 \<Longrightarrow> sint (word_of_int n :: u32) = n"
  by (simp add: sint_sbintrunc' signed_take_bit_int_eq_self)

definition int32 :: "int \<Rightarrow> bool" where
  "int32 n \<longleftrightarrow> -(2 ^ 31) \<le> n \<and> n < 2 ^ 31"

definition opt_int32 :: "int option \<Rightarrow> bool" where
  "opt_int32 v = (case v of None \<Rightarrow> True | Some n \<Rightarrow> int32 n)"

lemma set_open_reliability:
  assumes "open_reliability ordered n t = (ctype, rel)" "opt_int32 n" "opt_int32 t"
  shows "set_reliability ctype rel config
    = config\<lparr>dci_ordered := ordered, dci_maxRetransmits := n,
             dci_maxRetransmitTime := (if n = None then t else None)\<rparr>"
  using assms
  by (cases ordered; cases n; cases t)
    (auto simp: open_reliability_def set_reliability_def channel_types opt_int32_def int32_def
      sint_word_of_int_u32 Let_def)

text \<open>The parser returns on every input: it reads inside the payload only.\<close>

lemma reads_safely_need:
  "reads_safely m \<Longrightarrow> (\<And>x. reads_safely (k x)) \<Longrightarrow> reads_safely (seq m (\<lambda>v. need bad v k))"
  unfolding need_def by (intro read_rules)

lemma parse_open_safe: "reads_safely (parse_open label config)"
  unfolding parse_open_def Let_def by (intro reads_safely_need read_rules)

lemma ParseDataChannelOpenMessage_returns: "returns (ParseDataChannelOpenMessage payload label config)"
proof -
  have "reader_ok (ByteBufferReader payload)" by (simp add: ByteBufferReader_def reader_ok_def)
  then have "\<exists>r x. parse_open label config (ByteBufferReader payload) = (r, Returns x)"
    using parse_open_safe [of label config] unfolding reads_safely_def by blast
  then show ?thesis by (auto simp: ParseDataChannelOpenMessage_def)
qed

text \<open>An OPEN message is never taken for an acknowledgement, nor the other way round.\<close>

lemma open_is_open: "IsOpenMessage (open_bytes ctype prio rel label protocol)"
  "\<not> ParseDataChannelOpenAckMessage (open_bytes ctype prio rel label protocol)"
  by (simp_all add: IsOpenMessage_def ParseDataChannelOpenAckMessage_def open_bytes_def open_header_def
      message_types)

lemma ack_is_ack: "ParseDataChannelOpenAckMessage WriteDataChannelOpenAckMessage"
  "\<not> IsOpenMessage WriteDataChannelOpenAckMessage"
  by (simp_all add: IsOpenMessage_def ParseDataChannelOpenAckMessage_def WriteDataChannelOpenAckMessage_def
      message_types)

end
