(* ===== verification/Net_Env.thy ===== *)
theory Net_Env
  imports Lan_Thread Enums Sctp_Utils
begin

text \<open>
  What the sessions, their manager and the transport interface share: the two thread managers, the
  LAN thread, the fields of \<open>SimpleNetworkInterfaceImpl\<close> that a session reads through
  \<open>mNetworkSessionMgr->mSimpleNetworkInterface\<close>, the signalling thread's queue, and the trace of the
  calls made on the application's callbacks and on WebRTC objects.  The operations of the
  interface that a session calls back into are here too (\<open>NotifyOnSessionOpen\<close>,
  \<open>NotifyOnSessionClose\<close>, \<open>GetConnectionFlags\<close>, \<open>SendToSignalingChannel\<close>).

  WebRTC objects are handles; the answers of WebRTC, and what happens when one of the program's
  functions flows off its end, are the fields of \<open>platform\<close>, an argument of every operation that
  needs them.  \<open>now\<close> is the reading of \<open>steady_clock\<close> for the operation at hand.
\<close>

section \<open>The WebRTC vocabulary\<close>

datatype DataState = kConnecting | kOpen | kClosing | kClosed

datatype IceConnectionState =
    kIceConnectionNew | kIceConnectionChecking | kIceConnectionConnected | kIceConnectionCompleted
  | kIceConnectionFailed | kIceConnectionDisconnected | kIceConnectionClosed | kIceConnectionMax

primrec IceConnectionState_value :: "IceConnectionState \<Rightarrow> int" where
  "IceConnectionState_value kIceConnectionNew = 0"
| "IceConnectionState_value kIceConnectionChecking = 1"
| "IceConnectionState_value kIceConnectionConnected = 2"
| "IceConnectionState_value kIceConnectionCompleted = 3"
| "IceConnectionState_value kIceConnectionFailed = 4"
| "IceConnectionState_value kIceConnectionDisconnected = 5"
| "IceConnectionState_value kIceConnectionClosed = 6"
| "IceConnectionState_value kIceConnectionMax = 7"

datatype IceGatheringState = kIceGatheringNew | kIceGatheringGathering | kIceGatheringComplete

primrec IceGatheringState_value :: "IceGatheringState \<Rightarrow> int" where
  "IceGatheringState_value kIceGatheringNew = 0"
| "IceGatheringState_value kIceGatheringGathering = 1"
| "IceGatheringState_value kIceGatheringComplete = 2"

datatype IceCandidateType = kHost | kSrflx | kPrflx | kRelayCandidate

datatype IceTransportsType = kNone | kRelay | kNoHost | kAll

datatype TcpCandidatePolicy = kTcpCandidatePolicyEnabled | kTcpCandidatePolicyDisabled

datatype RtcpMuxPolicy = kRtcpMuxPolicyNegotiate | kRtcpMuxPolicyRequire

record IceServer =
  is_uri :: string
  is_username :: string
  is_password :: string

record RTCConfiguration =
  cfg_type :: IceTransportsType
  tcp_candidate_policy :: TcpCandidatePolicy
  rtcp_mux_policy :: RtcpMuxPolicy
  servers :: "IceServer list"

section \<open>Signals\<close>

record ConnectError =
  ce_mSessionId :: u64
  ce_mErr :: ESessionError

definition ConnectError_Create :: "u64 \<Rightarrow> ESessionError \<Rightarrow> ConnectError" where
  "ConnectError_Create sessionId e = \<lparr>ce_mSessionId = sessionId, ce_mErr = e\<rparr>"

text \<open>\<open>ConnectRequest\<close> and \<open>CandidateAdd\<close> hold their SDP; \<open>ConnectResponse\<close> is an alias of \<open>uint64_t\<close>.\<close>

datatype SignalingMessage =
    SigConnectRequest string
  | SigConnectResponse u64
  | SigConnectError ConnectError
  | SigCandidateAdd string

section \<open>Effects\<close>

datatype net_event =
    EvSessionOpen NetworkID
  | EvSessionClose NetworkID ESessionError
  | EvSessionRequested NetworkID
  | EvBroadcastResponse NetworkID bytes int
  | EvProcessSignal NetworkID SignalingMessage SignalingChannelId
  | EvChannelSend nat bytes
  | EvRegisterObserver nat
  | EvPeerClose nat
  | EvSetRemoteDescription nat
  | EvSignIn
  | EvSignOut
  | EvUpdate

text \<open>
  Lambdas posted to the signalling thread, with what they capture.  A session is named by its
  address; \<open>TaskEraseRecord\<close> refers to an entry of \<open>mSessionList\<close>.
\<close>

datatype net_task =
    TaskSendPacket nat bytes ESendType
  | TaskSessionResponse nat
  | TaskUpdateStats nat
  | TaskClosePeer nat
  | TaskInitializeOutgoing nat NetworkID
  | TaskEraseRecord NetworkID
  | TaskCleanupRecord NetworkID
  | TaskTurnConfig string
  | TaskSetConfig RTCConfiguration
  | TaskSetServers "IceServer list"

record platform =
  pf_lan_off_end :: "error_code outcome"
  pf_junk :: bytes
  pf_clock :: clock
  pf_signal_off_end :: "ESessionError outcome"
  pf_candidate_off_end :: "SignalingMessage option outcome"
  pf_observer_off_end :: "unit outcome"
  pf_channel_state :: "nat \<Rightarrow> DataState"
  pf_channel_label :: "nat \<Rightarrow> string"
  pf_candidate_type :: "nat \<Rightarrow> IceCandidateType"
  pf_create_peer :: "RTCConfiguration \<Rightarrow> nat option"
  pf_create_channel :: "nat \<Rightarrow> string \<Rightarrow> DataChannelInit \<Rightarrow> nat option"
  pf_add_ice :: "nat \<Rightarrow> nat \<Rightarrow> bool"
  pf_fresh_id :: NetworkID
  pf_flags :: "NetworkID \<Rightarrow> u32"

record net_env =
  now :: time
  g_SignalThread :: RtcThreadManager
  g_WorkerThread :: RtcThreadManager
  g_LanThread :: "LanThreadManager option"
  on_signal_thread :: bool
  on_lan_thread :: bool
  mCallBack :: bool
  mReceiverId :: NetworkID
  mpPeerConnectionFactory :: bool
  mRtcConfig :: RTCConfiguration
  mDisableLANSignaling :: bool
  mNegotiationTimeout :: int
  net_events :: "net_event list"
  signal_tasks :: "net_task list"

definition emit :: "net_event \<Rightarrow> ('e net_env_scheme, unit) act" where
  "emit ev = update (\<lambda>s. s\<lparr>net_events := net_events s @ [ev]\<rparr>)"

text \<open>
  \<open>if (auto t = getSignalThread()->LoadRtcThread()) t->PostTask(...)\<close>: nothing is posted when there is
  no thread.
\<close>

definition post_signal :: "net_task \<Rightarrow> ('e net_env_scheme, unit) act" where
  "post_signal t =
     seq (look (\<lambda>s. LoadRtcThread (g_SignalThread s))) (\<lambda>rtc_thread.
     onlyif (rtc_thread \<noteq> ThreadNull)
       (seq (lift (deref_thread rtc_thread)) (\<lambda>_.
        update (\<lambda>s. s\<lparr>signal_tasks := signal_tasks s @ [t]\<rparr>))))"

text \<open>An operation on \<open>getLanThread()\<close>.\<close>

definition on_lan :: "(LanThreadManager, 'a) act \<Rightarrow> ('e net_env_scheme, 'a) act" where
  "on_lan f =
     (\<lambda>s. case g_LanThread s of
         None \<Rightarrow> (s, Faults NullDeref)
       | Some l \<Rightarrow> (case f l of (l', r) \<Rightarrow> (s\<lparr>g_LanThread := Some l'\<rparr>, r)))"

section \<open>Callbacks of the interface\<close>

definition NotifyOnSessionOpen :: "NetworkID \<Rightarrow> ('e net_env_scheme, unit) act" where
  "NotifyOnSessionOpen nid =
     seq (look mCallBack) (\<lambda>cb. if \<not> cb then fail NullDeref else emit (EvSessionOpen nid))"

definition NotifyOnSessionClose :: "NetworkID \<Rightarrow> ESessionError \<Rightarrow> ('e net_env_scheme, unit) act" where
  "NotifyOnSessionClose nid e =
     seq (look mCallBack) (\<lambda>cb. if \<not> cb then fail NullDeref else emit (EvSessionClose nid e))"

definition GetConnectionFlags :: "platform \<Rightarrow> NetworkID \<Rightarrow> ('e net_env_scheme, u32) act" where
  "GetConnectionFlags pf remoteId =
     seq (look mCallBack) (\<lambda>cb. if \<not> cb then ret 0 else ret (pf_flags pf remoteId))"

text \<open>
  The message is never serialised: an empty string is sent, only over the LAN, and no error code is
  returned on any path.
\<close>

definition SendToSignalingChannel ::
    "platform \<Rightarrow> NetworkID \<Rightarrow> SignalingMessage \<Rightarrow> SignalingChannelId option \<Rightarrow> bool
     \<Rightarrow> ('e net_env_scheme, ESessionError) act" where
  "SendToSignalingChannel pf remoteId message preference onComplete =
     seq (look mDisableLANSignaling) (\<lambda>disable_lan_signal.
     seq (on_lan (ret ())) (\<lambda>_.
     seq (if disable_lan_signal then ret False else on_lan (IsNetworkIdOnLan (pf_clock pf) remoteId)) (\<lambda>use_lan.
     let is_ws = (preference \<noteq> None \<and> preference \<noteq> Some Lan)
     in seq (onlyif (use_lan \<and> \<not> is_ws)
          (seq (look mReceiverId) (\<lambda>me.
           seq (look on_lan_thread) (\<lambda>current.
           on_lan (SendSignalingMessageTo (pf_lan_off_end pf) (pf_junk pf) (pf_clock pf) current
             me remoteId [] onComplete))))) (\<lambda>_.
        lift (pf_signal_off_end pf)))))"

section \<open>What these operations do\<close>

lemma emit_run [simp]: "emit ev s = (s\<lparr>net_events := net_events s @ [ev]\<rparr>, Returns ())"
  by (simp add: emit_def)

lemma NotifyOnSessionOpen_run:
  "NotifyOnSessionOpen nid s =
     (if mCallBack s then (s\<lparr>net_events := net_events s @ [EvSessionOpen nid]\<rparr>, Returns ())
      else (s, Faults NullDeref))"
  by (simp add: NotifyOnSessionOpen_def run_seq)

lemma NotifyOnSessionClose_run:
  "NotifyOnSessionClose nid e s =
     (if mCallBack s then (s\<lparr>net_events := net_events s @ [EvSessionClose nid e]\<rparr>, Returns ())
      else (s, Faults NullDeref))"
  by (simp add: NotifyOnSessionClose_def run_seq)

lemma post_signal_run:
  "post_signal t s =
     (case mThread (g_SignalThread s) of
        ThreadNull \<Rightarrow> (s, Returns ())
      | ThreadLive \<Rightarrow> (s\<lparr>signal_tasks := signal_tasks s @ [t]\<rparr>, Returns ())
      | ThreadDangling \<Rightarrow> (s, Faults DanglingPointer))"
  by (simp add: post_signal_def run_seq LoadRtcThread_def deref_thread_def split: thread_ptr.split)

lemma GetConnectionFlags_run:
  "GetConnectionFlags pf nid s = (s, Returns (if mCallBack s then pf_flags pf nid else 0))"
  by (simp add: GetConnectionFlags_def run_seq)

lemmas env_runs = NotifyOnSessionOpen_run NotifyOnSessionClose_run post_signal_run GetConnectionFlags_run

text \<open>No function of the session layer can be posted to a thread that was set up by \<open>Initialize\<close>.\<close>

lemma post_signal_reachable:
  "rtc_reach (g_SignalThread s) \<Longrightarrow> fst (post_signal t s) = s"
  using rtc_reach_not_live [of "g_SignalThread s"]
  by (auto simp: post_signal_run split: thread_ptr.split)

end
