(* ===== verification/Session.thy ===== *)
theory Session
  imports Net_Env
begin

unbundle bit_operations_syntax

text \<open>
  \<open>NetworkSession\<close> of \<open>connection/NetworkSession.cpp\<close>: one peer connection with its two data channels,
  its negotiation state and its timers.  Every method is an \<open>act\<close> on a \<open>session_ctx\<close>, the session
  (\<open>this\<close>) in its environment; a posted lambda is a method of its own, told whether the locals it
  captured by reference still exist (\<open>frame_alive\<close>).
\<close>

section \<open>State\<close>

datatype ENegotiationState = NegotiationNone | WaitingForResponse | WaitingForAccept | ICEProcessing

record SessionState =
  ConnectionActive :: bool
  Connecting :: bool
  HasSessionError :: bool
  UsingRelay :: bool
  CurrentRTT :: u64
  BytesSendBuffer :: u64
  TotalBytesSent :: u64
  TotalBytesSentPerSecond :: u64
  TotalBytesReceived :: u64
  TotalPacketsSent :: u64
  TotalPacketsLost :: u64
  ss_IceConnectionState :: IceConnectionState

record NetworkSession =
  mConnNegotiationState :: ENegotiationState
  mNegotiationStateTimer :: time
  mIsOutGoingSession :: bool
  mHasSentAcceptSession :: bool
  mStatsRequestInProgress :: bool
  mConnectionId :: NetworkID
  mRemoteID :: NetworkID
  mpPeerConnection :: "nat option"
  mDeferredIceCandidates :: "nat list"
  mNetworkSessionMgr :: bool  \<comment> \<open>whether the pointer refers to the manager\<close>
  mIceConnectionState :: IceConnectionState
  mPeerConnectionState :: int
  mConnectionStat :: u32
  mUnreliableChannelInterface :: "nat option"
  mUnreliablePackets :: "bytes list"
  mUnreliableChannelState :: DataState
  mReliableChannelInterface :: "nat option"
  mReliablePackets :: "bytes list"
  mIsUsingRelay :: bool
  mCurrentRTT :: u64
  mTotalBytesSent :: u64
  mTotalBytesReceived :: u64
  mTotalPacketLost :: u64
  mIsDeleting :: bool
  mReliableChannelState :: DataState
  mLastStatsUpdate :: time
  mConnectionFlag :: u32
  mLastSessionActivity :: time
  mSignalingPreference :: "SignalingChannelId option"

record session_ctx = net_env +
  self :: nat
  this :: NetworkSession

type_synonym 'a session_act = "(session_ctx, 'a) act"

definition set_this :: "(NetworkSession \<Rightarrow> NetworkSession) \<Rightarrow> unit session_act" where
  "set_this f = update (\<lambda>c. c\<lparr>this := f (this c)\<rparr>)"

definition field :: "(NetworkSession \<Rightarrow> 'a) \<Rightarrow> 'a session_act" where
  "field f = look (\<lambda>c. f (this c))"

text \<open>\<open>mNetworkSessionMgr->mSimpleNetworkInterface\<close>; the constructor never sets the pointer.\<close>

definition through_manager :: "unit session_act" where
  "through_manager = seq (field mNetworkSessionMgr) (\<lambda>p. if p then ret () else fail NullDeref)"

definition post_this :: "(nat \<Rightarrow> net_task) \<Rightarrow> unit session_act" where
  "post_this t = seq (look self) (\<lambda>a. post_signal (t a))"

definition notify_close :: "ESessionError \<Rightarrow> unit session_act" where
  "notify_close e =
     seq through_manager (\<lambda>_. seq (field mRemoteID) (\<lambda>r. NotifyOnSessionClose r e))"

section \<open>Activity and sending\<close>

definition UpdateSessionActivity :: "unit session_act" where
  "UpdateSessionActivity = seq (look now) (\<lambda>t. set_this (\<lambda>s. s\<lparr>mLastSessionActivity := t\<rparr>))"

definition NetworkSession_SendPacket :: "bytes \<Rightarrow> ESendType \<Rightarrow> unit session_act" where
  "NetworkSession_SendPacket buf send_type =
     seq UpdateSessionActivity (\<lambda>_. post_this (\<lambda>a. TaskSendPacket a buf send_type))"

definition SendPacket_task :: "bool \<Rightarrow> bytes \<Rightarrow> ESendType \<Rightarrow> unit session_act" where
  "SendPacket_task frame_alive send_buf send_type =
     seq (field mpPeerConnection) (\<lambda>peer.
     onlyif (peer \<noteq> None)
       (if \<not> frame_alive then fail DanglingPointer
        else if send_type = eSendTypeReliable then
          seq (field mReliableChannelInterface) (\<lambda>ch.
          seq (field mReliableChannelState) (\<lambda>st.
          case ch of
            None \<Rightarrow> set_this (\<lambda>s. s\<lparr>mReliablePackets := mReliablePackets s @ [send_buf]\<rparr>)
          | Some h \<Rightarrow>
              if st \<noteq> kOpen then set_this (\<lambda>s. s\<lparr>mReliablePackets := mReliablePackets s @ [send_buf]\<rparr>)
              else emit (EvChannelSend h send_buf)))
        else
          seq (field mUnreliableChannelInterface) (\<lambda>ch.
          seq (field mUnreliableChannelState) (\<lambda>st.
          case ch of
            None \<Rightarrow> set_this (\<lambda>s. s\<lparr>mUnreliablePackets := mUnreliablePackets s @ [send_buf]\<rparr>)
          | Some h \<Rightarrow>
              if st = kOpen then emit (EvChannelSend h send_buf)
              else set_this (\<lambda>s. s\<lparr>mUnreliablePackets := mUnreliablePackets s @ [send_buf]\<rparr>)))))"

text \<open>The second loop sends through \<open>mReliableChannelInterface\<close> as well.\<close>

definition CheckSendDeferredData :: "unit session_act" where
  "CheckSendDeferredData =
     seq (field mReliableChannelInterface) (\<lambda>rel.
     seq (case rel of
            None \<Rightarrow> ret ()
          | Some h \<Rightarrow>
              seq through_manager (\<lambda>_.
              seq (field mReliablePackets) (\<lambda>pkts.
              seq (each (\<lambda>pkt. emit (EvChannelSend h pkt)) pkts) (\<lambda>_.
              set_this (\<lambda>s. s\<lparr>mReliablePackets := []\<rparr>))))) (\<lambda>_.
     seq (field mUnreliableChannelInterface) (\<lambda>unrel.
     seq (onlyif (unrel \<noteq> None)
            (seq through_manager (\<lambda>_.
             seq (field mUnreliablePackets) (\<lambda>pkts.
             each (\<lambda>pkt. case rel of None \<Rightarrow> fail NullDeref | Some h \<Rightarrow> emit (EvChannelSend h pkt)) pkts)))) (\<lambda>_.
     set_this (\<lambda>s. s\<lparr>mUnreliablePackets := []\<rparr>)))))"

section \<open>Negotiation\<close>

definition TrySendSessionResponse :: "unit session_act" where
  "TrySendSessionResponse =
     seq UpdateSessionActivity (\<lambda>_.
     seq through_manager (\<lambda>_.
     post_this TaskSessionResponse))"

text \<open>The lambda captures \<open>this\<close> only; the observer it builds is dropped.\<close>

definition TrySendSessionResponse_task :: "platform \<Rightarrow> unit session_act" where
  "TrySendSessionResponse_task pf =
     seq (field mConnNegotiationState) (\<lambda>st.
     seq (field mHasSentAcceptSession) (\<lambda>sent.
     onlyif (st \<noteq> WaitingForAccept \<and> \<not> sent) (lift (pf_observer_off_end pf))))"

definition AcceptSession :: "unit session_act" where
  "AcceptSession =
     seq UpdateSessionActivity (\<lambda>_.
     seq (field mConnNegotiationState) (\<lambda>st.
     if st = WaitingForAccept then
       seq (set_this (\<lambda>s. s\<lparr>mConnNegotiationState := ICEProcessing\<rparr>)) (\<lambda>_. TrySendSessionResponse)
     else through_manager))"

definition ApplyConnectionFlags :: "RTCConfiguration \<Rightarrow> u32 \<Rightarrow> RTCConfiguration session_act" where
  "ApplyConnectionFlags config flag =
     (let config = (if flag AND 1 \<noteq> 0 then config\<lparr>cfg_type := kRelay\<rparr> else config);
          config = (if flag AND 2 \<noteq> 0 then config\<lparr>tcp_candidate_policy := kTcpCandidatePolicyDisabled\<rparr> else config)
      in seq (set_this (\<lambda>s. s\<lparr>mConnectionFlag := flag\<rparr>)) (\<lambda>_. ret config))"

section \<open>Statistics and state\<close>

definition CheckUpdateStats :: "unit session_act" where
  "CheckUpdateStats =
     seq (look now) (\<lambda>t.
     seq (field mLastStatsUpdate) (\<lambda>last_stats_update.
     seq (field mStatsRequestInProgress) (\<lambda>in_progress.
     onlyif (2000 \<le> duration_cast nanos_per_milli (t - last_stats_update) \<and> \<not> in_progress)
       (seq (post_this TaskUpdateStats) (\<lambda>_.
        set_this (\<lambda>s. s\<lparr>mStatsRequestInProgress := True, mLastStatsUpdate := t\<rparr>))))))"

text \<open>
  \<open>HasSessionError == true\<close> is a comparison, so \<open>HasSessionError\<close> keeps the caller's value.  The
  result is the caller's structure afterwards and the returned flag.
\<close>

definition NetworkSession_GetSessionState ::
    "SessionState option \<Rightarrow> (SessionState option \<times> bool) session_act" where
  "NetworkSession_GetSessionState outState =
     (case outState of
        None \<Rightarrow> ret (None, False)
      | Some out \<Rightarrow>
          seq (field id) (\<lambda>s.
          let out = out\<lparr>TotalPacketsSent := 0, TotalBytesSentPerSecond := 0, BytesSendBuffer := 0,
                        ConnectionActive := False, ss_IceConnectionState := kIceConnectionNew\<rparr>;
              current_state = mIceConnectionState s;
              out = (if IceConnectionState_value current_state \<le> 1 then out\<lparr>Connecting := True\<rparr> else out);
              out = (if current_state \<in> {kIceConnectionCompleted, kIceConnectionConnected,
                                          kIceConnectionDisconnected}
                     then out\<lparr>ConnectionActive :=
                            (mUnreliableChannelState s = kOpen \<and> mReliableChannelState s = kOpen)\<rparr>
                     else out);
              out = out\<lparr>UsingRelay := mIsUsingRelay s, CurrentRTT := mCurrentRTT s,
                        TotalBytesSent := mTotalBytesSent s, TotalBytesReceived := mTotalBytesReceived s,
                        TotalPacketsLost := mTotalPacketLost s, ss_IceConnectionState := current_state\<rparr>
          in seq CheckUpdateStats (\<lambda>_. ret (Some out, True))))"

definition IsConnectionAlive :: "NetworkSession \<Rightarrow> bool" where
  "IsConnectionAlive s = ((mConnectionStat s - 4) AND 0xFFFFFFFD \<noteq> 0)"

definition IsInactiveSession :: "time \<Rightarrow> NetworkSession \<Rightarrow> bool" where
  "IsInactiveSession t s = (1 < duration_cast nanos_per_minute (t - mLastSessionActivity s))"

text \<open>The error code is computed as \<open>(state == WaitingForResponse) ^ 0xF\<close>; the timeout is in seconds.\<close>

definition dead_session_error :: "NetworkSession \<Rightarrow> ESessionError option" where
  "dead_session_error s =
     ESessionError_cast (of_bool (mConnNegotiationState s = WaitingForResponse) XOR 0xF)"

definition IsDeadSession :: "int \<Rightarrow> bool session_act" where
  "IsDeadSession negotiationTimeout =
     seq (look now) (\<lambda>t.
     seq (field id) (\<lambda>s.
     if IsConnectionAlive s then
       if mConnNegotiationState s = ICEProcessing then ret False
       else if duration_cast nanos_per_milli (t - mNegotiationStateTimer s) \<le> negotiationTimeout * 1000
       then ret False
       else case dead_session_error s of
              None \<Rightarrow> fail BadAccess
            | Some e \<Rightarrow> seq (notify_close e) (\<lambda>_. ret True)
     else seq (notify_close ESessionErrorICE) (\<lambda>_. ret True)))"

section \<open>Events of the peer connection\<close>

definition UpdateDataChannelStates :: "platform \<Rightarrow> unit session_act" where
  "UpdateDataChannelStates pf =
     seq (set_this (\<lambda>s. s\<lparr>mReliableChannelState :=
            (case mReliableChannelInterface s of Some h \<Rightarrow> pf_channel_state pf h | None \<Rightarrow> kClosed)\<rparr>)) (\<lambda>_.
     seq (set_this (\<lambda>s. s\<lparr>mUnreliableChannelState :=
            (case mUnreliableChannelInterface s of Some h \<Rightarrow> pf_channel_state pf h | None \<Rightarrow> kClosed)\<rparr>)) (\<lambda>_.
     seq (field id) (\<lambda>s.
     onlyif (mReliableChannelState s = kOpen \<and> mUnreliableChannelState s = kOpen)
       (seq through_manager (\<lambda>_. NotifyOnSessionOpen (mRemoteID s))))))"

definition OnDataChannelStateChange :: "platform \<Rightarrow> unit session_act" where
  "OnDataChannelStateChange pf = seq (UpdateDataChannelStates pf) (\<lambda>_. CheckSendDeferredData)"

definition Close :: "unit session_act" where
  "Close =
     seq (field mpPeerConnection) (\<lambda>peer. onlyif (peer \<noteq> None) (post_this TaskClosePeer))"

definition Close_task :: "unit session_act" where
  "Close_task =
     seq (field mpPeerConnection) (\<lambda>peer.
     case peer of None \<Rightarrow> fail NullDeref | Some h \<Rightarrow> emit (EvPeerClose h))"

definition NetworkSession_SendToSignalingChannel :: "platform \<Rightarrow> SignalingMessage \<Rightarrow> unit session_act" where
  "NetworkSession_SendToSignalingChannel pf sigvar =
     seq (field id) (\<lambda>s.
     seq through_manager (\<lambda>_.
     seq (SendToSignalingChannel pf (mRemoteID s) sigvar (mSignalingPreference s) True) (\<lambda>send_result.
     onlyif (send_result \<noteq> ESessionErrorNone)
       (NotifyOnSessionClose (mRemoteID s) send_result))))"

definition candidate_filtered :: "u32 \<Rightarrow> IceCandidateType \<Rightarrow> bool" where
  "candidate_filtered flag type =
     (let need_create = True;
          need_create = (if flag AND 4 \<noteq> 0 \<and> type = kHost then False else need_create);
          need_create = (if flag AND 8 \<noteq> 0 \<and> type = kSrflx then False else need_create);
          need_create = (if flag AND 16 \<noteq> 0 \<and> type = kPrflx then False else need_create)
      in \<not> ((flag AND 32 = 0 \<or> type \<noteq> kRelayCandidate) \<and> need_create))"

text \<open>\<open>CandidateAdd::TryCreate\<close> has an empty body: \<open>pf_candidate_off_end\<close>.\<close>

definition OnIceCandidate :: "platform \<Rightarrow> nat \<Rightarrow> unit session_act" where
  "OnIceCandidate pf iface =
     seq (field mConnectionFlag) (\<lambda>flag.
     onlyif (\<not> candidate_filtered flag (pf_candidate_type pf iface))
       (seq (lift (pf_candidate_off_end pf)) (\<lambda>candidate_create.
        case candidate_create of
          None \<Rightarrow> ret ()
        | Some msg \<Rightarrow> NetworkSession_SendToSignalingChannel pf msg)))"

definition OnConnectionChange :: "int \<Rightarrow> unit session_act" where
  "OnConnectionChange new_state =
     seq (set_this (\<lambda>s. s\<lparr>mPeerConnectionState := new_state\<rparr>)) (\<lambda>_. through_manager)"

definition OnDataChannel :: "platform \<Rightarrow> nat \<Rightarrow> unit session_act" where
  "OnDataChannel pf iface =
     (let lbl = pf_channel_label pf iface;
          is_reliable = (length lbl = 19 \<and> lbl = ''ReliableDataChannel'')
      in seq (if is_reliable then set_this (\<lambda>s. s\<lparr>mReliableChannelInterface := Some iface\<rparr>)
              else set_this (\<lambda>s. s\<lparr>mUnreliableChannelInterface := Some iface\<rparr>)) (\<lambda>_.
         seq (emit (EvRegisterObserver iface)) (\<lambda>_.
         seq (UpdateDataChannelStates pf) (\<lambda>_.
         CheckSendDeferredData))))"

definition OnIceConnectionChange :: "IceConnectionState \<Rightarrow> unit session_act" where
  "OnIceConnectionChange new_state =
     seq (set_this (\<lambda>s. s\<lparr>mIceConnectionState := new_state\<rparr>)) (\<lambda>_.
     seq through_manager (\<lambda>_.
     onlyif (IceConnectionState_value new_state - 1 \<le> 1) CheckUpdateStats))"

text \<open>
  Every deferred candidate is offered to the peer connection; the ones it refuses stay.
\<close>

fun ProcessIceCandidates_loop :: "platform \<Rightarrow> nat option \<Rightarrow> nat list \<Rightarrow> nat list outcome" where
  "ProcessIceCandidates_loop pf peer [] = Returns []"
| "ProcessIceCandidates_loop pf peer (ice_candidate # its) =
     (case peer of
        None \<Rightarrow> Faults NullDeref
      | Some h \<Rightarrow>
          if pf_add_ice pf h ice_candidate then ProcessIceCandidates_loop pf peer its
          else andThen (ProcessIceCandidates_loop pf peer its) (\<lambda>kept. Returns (ice_candidate # kept)))"

definition ProcessIceCandidates :: "platform \<Rightarrow> unit session_act" where
  "ProcessIceCandidates pf =
     seq through_manager (\<lambda>_.
     seq (field id) (\<lambda>s.
     seq (lift (ProcessIceCandidates_loop pf (mpPeerConnection s) (mDeferredIceCandidates s))) (\<lambda>kept.
     set_this (\<lambda>s. s\<lparr>mDeferredIceCandidates := kept\<rparr>))))"

definition OnIceGatheringChange :: "platform \<Rightarrow> IceGatheringState \<Rightarrow> unit session_act" where
  "OnIceGatheringChange pf new_state =
     onlyif (IceGatheringState_value new_state - 1 \<le> 1) (ProcessIceCandidates pf)"

definition NetworkSession_ProcessError :: "ESessionError \<Rightarrow> unit session_act" where
  "NetworkSession_ProcessError e = notify_close e"

text \<open>\<open>OnRemoteMessageReceived\<close> of the manager ends in an empty function.\<close>

definition OnDataChannelMessage :: "bytes \<Rightarrow> unit session_act" where
  "OnDataChannelMessage data = seq UpdateSessionActivity (\<lambda>_. through_manager)"

section \<open>Opening a connection\<close>

definition create_peer :: "platform \<Rightarrow> NetworkID \<Rightarrow> nat option session_act" where
  "create_peer pf remoteId =
     seq through_manager (\<lambda>_.
     seq (look mRtcConfig) (\<lambda>config.
     seq (GetConnectionFlags pf remoteId) (\<lambda>connection_flag.
     seq (ApplyConnectionFlags config connection_flag) (\<lambda>config.
     seq (look mpPeerConnectionFactory) (\<lambda>factory.
     if \<not> factory then fail NullDeref else ret (pf_create_peer pf config))))))"

text \<open>The new peer connection is moved out of \<open>mpPeerConnection\<close> again, into a local.\<close>

definition InitializeIncoming ::
    "platform \<Rightarrow> NetworkID \<Rightarrow> u64 \<Rightarrow> SignalingChannelId \<Rightarrow> unit session_act" where
  "InitializeIncoming pf remoteId connectionId preference =
     seq UpdateSessionActivity (\<lambda>_.
     seq (set_this (\<lambda>s. s\<lparr>mIsOutGoingSession := False, mConnectionId := connectionId,
                           mRemoteID := remoteId, mSignalingPreference := Some preference\<rparr>)) (\<lambda>_.
     seq (create_peer pf remoteId) (\<lambda>peer_conn_create.
     case peer_conn_create of
       None \<Rightarrow> notify_close ESessionErrorFailedToCreatePeerConnection
     | Some h \<Rightarrow>
         seq (look now) (\<lambda>t.
         seq (set_this (\<lambda>s. s\<lparr>mpPeerConnection := Some h, mConnNegotiationState := WaitingForAccept,
                               mNegotiationStateTimer := t\<rparr>)) (\<lambda>_.
         seq through_manager (\<lambda>_.
         seq (set_this (\<lambda>s. s\<lparr>mpPeerConnection := None\<rparr>)) (\<lambda>_.
         emit (EvSetRemoteDescription h))))))))"

definition InitializeIncoming_on_success :: "platform \<Rightarrow> unit session_act" where
  "InitializeIncoming_on_success pf =
     seq (field mIsDeleting) (\<lambda>deleting.
     onlyif (\<not> deleting) (seq TrySendSessionResponse (\<lambda>_. ProcessIceCandidates pf)))"

definition InitializeIncoming_on_failure :: "unit session_act" where
  "InitializeIncoming_on_failure = notify_close ESessionErrorFailedToSetRemoteDescription"

definition InitializeOutgoing :: "platform \<Rightarrow> NetworkID \<Rightarrow> unit session_act" where
  "InitializeOutgoing pf remoteID =
     seq UpdateSessionActivity (\<lambda>_.
     seq (look now) (\<lambda>t.
     seq (set_this (\<lambda>s. s\<lparr>mIsOutGoingSession := True, mConnectionId := pf_fresh_id pf,
                           mRemoteID := remoteID, mConnNegotiationState := WaitingForResponse,
                           mNegotiationStateTimer := t\<rparr>)) (\<lambda>_.
     seq through_manager (\<lambda>_.
     post_this (\<lambda>a. TaskInitializeOutgoing a remoteID)))))"

text \<open>
  One data channel: \<open>existing\<close> is the interface the conditional tests and \<open>reuse\<close> the one it picks
  when that is set (for the unreliable channel the source picks the reliable interface).
\<close>

definition open_channel ::
    "platform \<Rightarrow> string \<Rightarrow> DataChannelInit \<Rightarrow> (NetworkSession \<Rightarrow> nat option) \<Rightarrow> (NetworkSession \<Rightarrow> nat option) \<Rightarrow> unit session_act" where
  "open_channel pf label init existing reuse =
     seq (field id) (\<lambda>s.
     case mpPeerConnection s of
       None \<Rightarrow> fail NullDeref
     | Some peer \<Rightarrow>
         (case pf_create_channel pf peer label init of
            None \<Rightarrow> notify_close ESessionErrorFailedToCreatePeerConnection
          | Some created \<Rightarrow>
              (case (if existing s \<noteq> None then reuse s else Some created) of
                 None \<Rightarrow> fail NullDeref
               | Some channel \<Rightarrow> emit (EvRegisterObserver channel))))"

definition InitializeOutgoing_task :: "platform \<Rightarrow> bool \<Rightarrow> NetworkID \<Rightarrow> unit session_act" where
  "InitializeOutgoing_task pf frame_alive remoteID =
     (if \<not> frame_alive then fail DanglingPointer else
     seq (create_peer pf remoteID) (\<lambda>peer_create.
     seq (case peer_create of
            None \<Rightarrow> notify_close ESessionErrorFailedToCreatePeerConnection
          | Some h \<Rightarrow> set_this (\<lambda>s. s\<lparr>mpPeerConnection := Some h\<rparr>)) (\<lambda>_.
     seq (open_channel pf ''&ReliableDataChannel'' (DataChannelInit_default\<lparr>dci_reliable := True\<rparr>)
            mReliableChannelInterface mReliableChannelInterface) (\<lambda>_.
     seq (open_channel pf ''*UnreliableDataChannel'' (DataChannelInit_default\<lparr>dci_reliable := False\<rparr>)
            mUnreliableChannelInterface mReliableChannelInterface) (\<lambda>_.
     seq (set_this (\<lambda>s. s\<lparr>mReliableChannelState :=
            (case mReliableChannelInterface s of Some h \<Rightarrow> pf_channel_state pf h | None \<Rightarrow> kClosed)\<rparr>)) (\<lambda>_.
     seq (field id) (\<lambda>s.
     seq (case mUnreliableChannelInterface s of
            Some h \<Rightarrow>
              seq (set_this (\<lambda>s. s\<lparr>mUnreliableChannelState := pf_channel_state pf h\<rparr>)) (\<lambda>_.
              onlyif (pf_channel_state pf h = kOpen \<and> mReliableChannelState s = kOpen)
                (seq through_manager (\<lambda>_. NotifyOnSessionOpen remoteID)))
          | None \<Rightarrow> set_this (\<lambda>s. s\<lparr>mUnreliableChannelState := kClosed\<rparr>)) (\<lambda>_.
     seq through_manager (\<lambda>_.
     lift (pf_observer_off_end pf))))))))))"

section \<open>Signals from the peer\<close>

definition NetworkSession_ProcessSignal_CandidateAdd :: "string \<Rightarrow> unit session_act" where
  "NetworkSession_ProcessSignal_CandidateAdd sdp = UpdateSessionActivity"

definition NetworkSession_ProcessSignal_ConnectResponse :: "u64 \<Rightarrow> unit session_act" where
  "NetworkSession_ProcessSignal_ConnectResponse signal =
     seq UpdateSessionActivity (\<lambda>_.
     seq through_manager (\<lambda>_.
     seq (look now) (\<lambda>t.
     set_this (\<lambda>s. s\<lparr>mConnNegotiationState := ICEProcessing, mNegotiationStateTimer := t\<rparr>))))"


section \<open>Running the building blocks\<close>

lemma set_this_run [simp]: "set_this f c = (c\<lparr>this := f (this c)\<rparr>, Returns ())"
  by (simp add: set_this_def)

lemma field_run [simp]: "field f c = (c, Returns (f (this c)))"
  by (simp add: field_def)

lemma through_manager_run:
  "through_manager c = (c, if mNetworkSessionMgr (this c) then Returns () else Faults NullDeref)"
  by (simp add: through_manager_def run_seq)

lemma UpdateSessionActivity_run [simp]:
  "UpdateSessionActivity c = (c\<lparr>this := (this c)\<lparr>mLastSessionActivity := now c\<rparr>\<rparr>, Returns ())"
  by (simp add: UpdateSessionActivity_def run_seq)

text \<open>The state in which the pointers a session follows are all valid.\<close>

definition wired :: "session_ctx \<Rightarrow> bool" where
  "wired c \<longleftrightarrow> mNetworkSessionMgr (this c) \<and> mCallBack c \<and> mThread (g_SignalThread c) \<noteq> ThreadDangling"

lemma notify_close_run:
  "wired c \<Longrightarrow> notify_close e c =
     (c\<lparr>net_events := net_events c @ [EvSessionClose (mRemoteID (this c)) e]\<rparr>, Returns ())"
  by (simp add: notify_close_def run_seq through_manager_run wired_def env_runs)

lemma post_this_run:
  "wired c \<Longrightarrow> post_this t c =
     (if mThread (g_SignalThread c) = ThreadLive
      then c\<lparr>signal_tasks := signal_tasks c @ [t (self c)]\<rparr> else c, Returns ())"
  by (simp add: post_this_def run_seq env_runs wired_def split: thread_ptr.split)

lemmas session_runs = run_seq through_manager_run notify_close_run post_this_run env_runs

section \<open>Liveness tests\<close>

lemma and_not_2_eq_0: "(y :: u32) AND 0xFFFFFFFD = 0 \<longleftrightarrow> y = 0 \<or> y = 2"
proof
  assume "y AND 0xFFFFFFFD = 0"
  moreover have "(0xFFFFFFFD :: u32) = NOT 2" by simp
  ultimately have z: "y AND NOT 2 = 0" by simp
  have "y = (y AND 2) OR (y AND NOT 2)"
    by (rule bit_word_eqI) (auto simp: bit_simps)
  then have y: "y = y AND 2 ^ 1" using z by simp
  show "y = 0 \<or> y = 2"
  proof (cases "bit y 1")
    case True
    then have "y AND 2 ^ 1 = 2 ^ 1"
      by (intro bit_word_eqI) (auto simp: bit_simps)
    then show ?thesis using y by simp
  next
    case False
    then have "y AND 2 ^ 1 = 0"
      by (intro bit_word_eqI) (auto simp: bit_simps)
    then show ?thesis using y by simp
  qed
qed auto

lemma IsConnectionAlive_iff: "IsConnectionAlive s \<longleftrightarrow> mConnectionStat s \<noteq> 4 \<and> mConnectionStat s \<noteq> 6"
proof -
  have "mConnectionStat s - 4 = 0 \<longleftrightarrow> mConnectionStat s = 4"
    by simp
  moreover have "mConnectionStat s - 4 = 2 \<longleftrightarrow> mConnectionStat s = 6"
    by (simp add: diff_eq_eq)
  ultimately show ?thesis
    by (simp add: IsConnectionAlive_def and_not_2_eq_0)
qed

lemma IsInactiveSession_iff: "IsInactiveSession t s \<longleftrightarrow> 2 * nanos_per_minute \<le> t - mLastSessionActivity s"
  using duration_cast_gt_iff [of nanos_per_minute 1 "t - mLastSessionActivity s"]
  by (simp add: IsInactiveSession_def unit_defs)

lemma dead_session_error_value:
  "dead_session_error s =
     Some (if mConnNegotiationState s = WaitingForResponse then ESessionErrorNegotiationTimeoutWaitingForResponse
           else ESessionErrorNegotiationTimeoutWaitingForAccept)"
proof -
  have "ESessionError_cast 14 = Some ESessionErrorNegotiationTimeoutWaitingForResponse"
    "ESessionError_cast 15 = Some ESessionErrorNegotiationTimeoutWaitingForAccept"
    by (simp_all add: ESessionError_cast_def ESessionError_all_def)
  then show ?thesis
    by (simp add: dead_session_error_def)
qed

definition negotiation_expired :: "int \<Rightarrow> time \<Rightarrow> NetworkSession \<Rightarrow> bool" where
  "negotiation_expired timeout t s \<longleftrightarrow>
     mConnNegotiationState s \<noteq> ICEProcessing \<and>
     (timeout * 1000 + 1) * nanos_per_milli \<le> t - mNegotiationStateTimer s"

lemma IsDeadSession_run:
  assumes "wired c" "0 \<le> timeout"
  shows "IsDeadSession timeout c =
     (if \<not> IsConnectionAlive (this c)
      then (c\<lparr>net_events := net_events c @ [EvSessionClose (mRemoteID (this c)) ESessionErrorICE]\<rparr>, Returns True)
      else if negotiation_expired timeout (now c) (this c)
      then (c\<lparr>net_events := net_events c @ [EvSessionClose (mRemoteID (this c))
              (the (dead_session_error (this c)))]\<rparr>, Returns True)
      else (c, Returns False))"
proof -
  have "duration_cast nanos_per_milli d \<le> timeout * 1000 \<longleftrightarrow> \<not> (timeout * 1000 + 1) * nanos_per_milli \<le> d" for d
    using duration_cast_le_iff [of nanos_per_milli "timeout * 1000" d] assms(2)
    by (auto simp: unit_defs not_le)
  then show ?thesis
    using assms
    by (simp add: IsDeadSession_def session_runs negotiation_expired_def dead_session_error_value)
qed


section \<open>Packets\<close>

text \<open>
  While the locals that the task refers to are alive, a packet for a channel that is there and open is sent
  at once; any other packet is queued.  After \<open>SendPacket\<close> has returned they are not.
\<close>

lemma SendPacket_task_reliable:
  assumes "mpPeerConnection (this c) \<noteq> None"
  shows "SendPacket_task True buf eSendTypeReliable c =
     (case mReliableChannelInterface (this c) of
        Some h \<Rightarrow>
          if mReliableChannelState (this c) = kOpen
          then (c\<lparr>net_events := net_events c @ [EvChannelSend h buf]\<rparr>, Returns ())
          else (c\<lparr>this := (this c)\<lparr>mReliablePackets := mReliablePackets (this c) @ [buf]\<rparr>\<rparr>, Returns ())
      | None \<Rightarrow> (c\<lparr>this := (this c)\<lparr>mReliablePackets := mReliablePackets (this c) @ [buf]\<rparr>\<rparr>, Returns ()))"
  using assms by (simp add: SendPacket_task_def run_seq split: option.split)

lemma SendPacket_task_unreliable:
  assumes "mpPeerConnection (this c) \<noteq> None"
  shows "SendPacket_task True buf eSendTypeUnreliable c =
     (case mUnreliableChannelInterface (this c) of
        Some h \<Rightarrow>
          if mUnreliableChannelState (this c) = kOpen
          then (c\<lparr>net_events := net_events c @ [EvChannelSend h buf]\<rparr>, Returns ())
          else (c\<lparr>this := (this c)\<lparr>mUnreliablePackets := mUnreliablePackets (this c) @ [buf]\<rparr>\<rparr>, Returns ())
      | None \<Rightarrow> (c\<lparr>this := (this c)\<lparr>mUnreliablePackets := mUnreliablePackets (this c) @ [buf]\<rparr>\<rparr>, Returns ()))"
  using assms by (simp add: SendPacket_task_def run_seq split: option.split)

lemma SendPacket_task_no_peer:
  "mpPeerConnection (this c) = None \<Longrightarrow> SendPacket_task fr buf ty c = (c, Returns ())"
  by (simp add: SendPacket_task_def run_seq)

lemma emit_loop:
  "each (\<lambda>pkt. emit (EvChannelSend h pkt)) pkts c =
     (c\<lparr>net_events := net_events c @ map (EvChannelSend h) pkts\<rparr>, Returns ())"
  by (induction pkts arbitrary: c) (simp_all add: run_seq)

text \<open>
  The flush.  With a reliable channel both queues go out in order, reliable packets first, and
  all of them through the reliable channel; with an unreliable channel alone the first queued
  packet is sent through a null pointer; with no channel the unreliable queue is dropped.
\<close>

lemma CheckSendDeferredData_reliable:
  assumes "mNetworkSessionMgr (this c)" "mReliableChannelInterface (this c) = Some h"
  shows "CheckSendDeferredData c =
     (c\<lparr>this := (this c)\<lparr>mReliablePackets := [], mUnreliablePackets := []\<rparr>,
        net_events := net_events c @ map (EvChannelSend h) (mReliablePackets (this c)) @
          (if mUnreliableChannelInterface (this c) = None then []
           else map (EvChannelSend h) (mUnreliablePackets (this c)))\<rparr>, Returns ())"
  using assms
  by (cases "mUnreliableChannelInterface (this c)")
    (simp_all add: CheckSendDeferredData_def run_seq through_manager_run emit_loop)

lemma CheckSendDeferredData_no_reliable:
  assumes "mNetworkSessionMgr (this c)" "mReliableChannelInterface (this c) = None"
  shows "CheckSendDeferredData c =
     (if mUnreliableChannelInterface (this c) \<noteq> None \<and> mUnreliablePackets (this c) \<noteq> []
      then (c, Faults NullDeref)
      else (c\<lparr>this := (this c)\<lparr>mUnreliablePackets := []\<rparr>\<rparr>, Returns ()))"
  using assms
  by (cases "mUnreliablePackets (this c)")
    (auto simp: CheckSendDeferredData_def run_seq through_manager_run)

section \<open>Statistics\<close>

lemma CheckUpdateStats_run:
  assumes "wired c"
  shows "CheckUpdateStats c =
     (if 2000 * nanos_per_milli \<le> now c - mLastStatsUpdate (this c) \<and> \<not> mStatsRequestInProgress (this c)
      then (c\<lparr>this := (this c)\<lparr>mStatsRequestInProgress := True, mLastStatsUpdate := now c\<rparr>,
              signal_tasks := signal_tasks c @
                (if mThread (g_SignalThread c) = ThreadLive then [TaskUpdateStats (self c)] else [])\<rparr>, Returns ())
      else (c, Returns ()))"
proof -
  have "2000 \<le> duration_cast nanos_per_milli d \<longleftrightarrow> 2000 * nanos_per_milli \<le> d" for d
    using duration_cast_gt_iff [of nanos_per_milli 1999 d] by (simp add: unit_defs) linarith
  then show ?thesis
    using assms by (simp add: CheckUpdateStats_def session_runs)
qed

lemma CheckUpdateStats_in_progress:
  "mStatsRequestInProgress (this c) \<Longrightarrow> CheckUpdateStats c = (c, Returns ())"
  by (simp add: CheckUpdateStats_def run_seq)

definition reported_state :: "NetworkSession \<Rightarrow> SessionState \<Rightarrow> SessionState" where
  "reported_state s out =
     \<lparr>ConnectionActive =
        (mIceConnectionState s \<in> {kIceConnectionCompleted, kIceConnectionConnected, kIceConnectionDisconnected}
         \<and> mUnreliableChannelState s = kOpen \<and> mReliableChannelState s = kOpen),
      Connecting = (Connecting out \<or> mIceConnectionState s \<in> {kIceConnectionNew, kIceConnectionChecking}),
      HasSessionError = HasSessionError out, UsingRelay = mIsUsingRelay s, CurrentRTT = mCurrentRTT s,
      BytesSendBuffer = 0, TotalBytesSent = mTotalBytesSent s, TotalBytesSentPerSecond = 0,
      TotalBytesReceived = mTotalBytesReceived s, TotalPacketsSent = 0,
      TotalPacketsLost = mTotalPacketLost s, ss_IceConnectionState = mIceConnectionState s\<rparr>"

lemma NetworkSession_GetSessionState_run:
  assumes "wired c"
  shows "NetworkSession_GetSessionState (Some out) c =
     (fst (CheckUpdateStats c), Returns (Some (reported_state (this c) out), True))"
proof -
  obtain c' where c': "CheckUpdateStats c = (c', Returns ())"
    using CheckUpdateStats_run [OF assms] by metis
  have "IceConnectionState_value x \<le> 1 \<longleftrightarrow> x \<in> {kIceConnectionNew, kIceConnectionChecking}" for x
    by (cases x) simp_all
  then show ?thesis
    by (cases out) (simp add: NetworkSession_GetSessionState_def run_seq c' reported_state_def Let_def)
qed

section \<open>Candidates\<close>

lemma ProcessIceCandidates_loop_value:
  "ProcessIceCandidates_loop pf (Some h) cs = Returns (filter (\<lambda>c. \<not> pf_add_ice pf h c) cs)"
  by (induction cs) simp_all

lemma ProcessIceCandidates_run:
  assumes "mNetworkSessionMgr (this c)"
  shows "ProcessIceCandidates pf c =
     (case mpPeerConnection (this c) of
        Some h \<Rightarrow> (c\<lparr>this := (this c)\<lparr>mDeferredIceCandidates :=
                     filter (\<lambda>i. \<not> pf_add_ice pf h i) (mDeferredIceCandidates (this c))\<rparr>\<rparr>, Returns ())
      | None \<Rightarrow> (c, if mDeferredIceCandidates (this c) = [] then Returns () else Faults NullDeref))"
proof (cases "mpPeerConnection (this c)")
  case None
  then show ?thesis
    using assms
    by (cases "mDeferredIceCandidates (this c)")
      (simp_all add: ProcessIceCandidates_def run_seq through_manager_run)
next
  case (Some h)
  then show ?thesis
    using assms
    by (simp add: ProcessIceCandidates_def run_seq through_manager_run ProcessIceCandidates_loop_value)
qed

definition filter_bit :: "IceCandidateType \<Rightarrow> nat" where
  "filter_bit type = (case type of kHost \<Rightarrow> 2 | kSrflx \<Rightarrow> 3 | kPrflx \<Rightarrow> 4 | kRelayCandidate \<Rightarrow> 5)"

lemma candidate_filtered_iff: "candidate_filtered flag type \<longleftrightarrow> bit flag (filter_bit type)"
proof -
  have "flag AND 2 ^ n = 0 \<longleftrightarrow> \<not> bit flag n" for n
    by (rule and_exp_eq_0_iff_not_bit)
  from this [of 2] this [of 3] this [of 4] this [of 5] show ?thesis
    by (cases type) (simp_all add: candidate_filtered_def filter_bit_def Let_def)
qed

lemma OnIceGatheringChange_always: "OnIceGatheringChange pf st = ProcessIceCandidates pf"
  by (cases st) (simp_all add: OnIceGatheringChange_def fun_eq_iff)


section \<open>Opening\<close>

definition flagged :: "u32 \<Rightarrow> RTCConfiguration \<Rightarrow> RTCConfiguration" where
  "flagged flag config =
     config\<lparr>cfg_type := (if bit flag 0 then kRelay else cfg_type config),
            tcp_candidate_policy := (if bit flag 1 then kTcpCandidatePolicyDisabled
                                     else tcp_candidate_policy config)\<rparr>"

lemma ApplyConnectionFlags_run:
  "ApplyConnectionFlags config flag c =
     (c\<lparr>this := (this c)\<lparr>mConnectionFlag := flag\<rparr>\<rparr>, Returns (flagged flag config))"
proof -
  have "flag AND 2 ^ n = 0 \<longleftrightarrow> \<not> bit flag n" for n
    by (rule and_exp_eq_0_iff_not_bit)
  from this [of 0] this [of 1] show ?thesis
    by (simp add: ApplyConnectionFlags_def flagged_def run_seq Let_def)
qed

lemma create_peer_run:
  assumes "mNetworkSessionMgr (this c)" "mpPeerConnectionFactory c" "mCallBack c"
  shows "create_peer pf r c =
     (c\<lparr>this := (this c)\<lparr>mConnectionFlag := pf_flags pf r\<rparr>\<rparr>,
      Returns (pf_create_peer pf (flagged (pf_flags pf r) (mRtcConfig c))))"
  using assms by (simp add: create_peer_def run_seq through_manager_run env_runs ApplyConnectionFlags_run)

text \<open>An incoming session waits for the application, and holds no peer connection any more.\<close>

lemma InitializeIncoming_ok:
  assumes "wired c" "mpPeerConnectionFactory c"
    and "pf_create_peer pf (flagged (pf_flags pf r) (mRtcConfig c)) = Some h"
  shows "InitializeIncoming pf r cid pref c =
     (c\<lparr>this := (this c)\<lparr>mLastSessionActivity := now c, mIsOutGoingSession := False, mConnectionId := cid,
          mRemoteID := r, mSignalingPreference := Some pref, mConnectionFlag := pf_flags pf r,
          mpPeerConnection := None, mConnNegotiationState := WaitingForAccept,
          mNegotiationStateTimer := now c\<rparr>,
        net_events := net_events c @ [EvSetRemoteDescription h]\<rparr>, Returns ())"
  using assms
  by (simp add: InitializeIncoming_def session_runs create_peer_run wired_def ApplyConnectionFlags_run)

lemma InitializeIncoming_no_peer:
  assumes "wired c" "mpPeerConnectionFactory c"
    and "pf_create_peer pf (flagged (pf_flags pf r) (mRtcConfig c)) = None"
  obtains c' where "InitializeIncoming pf r cid pref c = (c', Returns ())"
    "net_events c' = net_events c @ [EvSessionClose r ESessionErrorFailedToCreatePeerConnection]"
    "mConnNegotiationState (this c') = mConnNegotiationState (this c)"
  using assms
  by (simp add: InitializeIncoming_def session_runs create_peer_run wired_def ApplyConnectionFlags_run)

text \<open>Accepting twice is harmless: the second call only refreshes the activity time.\<close>

lemma AcceptSession_waiting:
  assumes "wired c" "mConnNegotiationState (this c) = WaitingForAccept"
  shows "AcceptSession c =
     (c\<lparr>this := (this c)\<lparr>mConnNegotiationState := ICEProcessing, mLastSessionActivity := now c\<rparr>,
        signal_tasks := signal_tasks c @
          (if mThread (g_SignalThread c) = ThreadLive then [TaskSessionResponse (self c)] else [])\<rparr>, Returns ())"
  using assms
  by (simp add: AcceptSession_def TrySendSessionResponse_def session_runs wired_def)

lemma AcceptSession_other:
  assumes "mNetworkSessionMgr (this c)" "mConnNegotiationState (this c) \<noteq> WaitingForAccept"
  shows "AcceptSession c = (c\<lparr>this := (this c)\<lparr>mLastSessionActivity := now c\<rparr>\<rparr>, Returns ())"
  using assms by (simp add: AcceptSession_def session_runs)

text \<open>
  The outgoing task.  On a session without channels it creates both channels, registers observers
  with them and forgets them: no interface is stored and both channel states read closed.
\<close>

lemma InitializeOutgoing_task_ok:
  assumes "wired c" "mpPeerConnectionFactory c"
    and "pf_create_peer pf (flagged (pf_flags pf r) (mRtcConfig c)) = Some h"
    and "mReliableChannelInterface (this c) = None" "mUnreliableChannelInterface (this c) = None"
    and "pf_create_channel pf h ''&ReliableDataChannel'' (DataChannelInit_default\<lparr>dci_reliable := True\<rparr>) = Some ch1"
    and "pf_create_channel pf h ''*UnreliableDataChannel'' (DataChannelInit_default\<lparr>dci_reliable := False\<rparr>) = Some ch2"
  shows "InitializeOutgoing_task pf True r c =
     (c\<lparr>this := (this c)\<lparr>mConnectionFlag := pf_flags pf r, mpPeerConnection := Some h,
          mReliableChannelState := kClosed, mUnreliableChannelState := kClosed\<rparr>,
        net_events := net_events c @ [EvRegisterObserver ch1, EvRegisterObserver ch2]\<rparr>,
      pf_observer_off_end pf)"
  using assms
  by (simp add: InitializeOutgoing_task_def open_channel_def session_runs create_peer_run wired_def)

text \<open>When no peer connection can be created the close is reported, and a null pointer is used next.\<close>

lemma InitializeOutgoing_task_no_peer:
  assumes "wired c" "mpPeerConnectionFactory c" "mpPeerConnection (this c) = None"
    and "pf_create_peer pf (flagged (pf_flags pf r) (mRtcConfig c)) = None"
  shows "snd (InitializeOutgoing_task pf True r c) = Faults NullDeref"
    and "net_events (fst (InitializeOutgoing_task pf True r c)) =
      net_events c @ [EvSessionClose (mRemoteID (this c)) ESessionErrorFailedToCreatePeerConnection]"
  using assms
  by (simp_all add: InitializeOutgoing_task_def open_channel_def session_runs create_peer_run wired_def)

text \<open>The labels the program gives its channels are never taken for the reliable one.\<close>

lemma UpdateDataChannelStates_interfaces:
  "preserves (\<lambda>c. mReliableChannelInterface (this c)) (UpdateDataChannelStates pf)"
  unfolding UpdateDataChannelStates_def set_this_def field_def through_manager_def NotifyOnSessionOpen_def
    emit_def
  by (intro act_rules) simp_all

lemma CheckSendDeferredData_interfaces:
  "preserves (\<lambda>c. mReliableChannelInterface (this c)) CheckSendDeferredData"
  unfolding CheckSendDeferredData_def set_this_def field_def through_manager_def emit_def
  by (intro act_rules) simp_all

lemma OnDataChannel_own_label:
  assumes "pf_channel_label pf ch \<in> {''&ReliableDataChannel'', ''*UnreliableDataChannel''}"
  shows "preserves (\<lambda>c. mReliableChannelInterface (this c)) (OnDataChannel pf ch)"
proof -
  have "pf_channel_label pf ch \<noteq> ''ReliableDataChannel''"
    using assms by auto
  then show ?thesis
    unfolding OnDataChannel_def Let_def
    by (simp add: preserves_seq UpdateDataChannelStates_interfaces CheckSendDeferredData_interfaces)
      (intro preserves_seq UpdateDataChannelStates_interfaces CheckSendDeferredData_interfaces,
       simp_all add: preserves_def)
qed


section \<open>The life of a session\<close>

text \<open>Frame rules for the fields of the session itself.\<close>

definition of_this :: "(NetworkSession \<Rightarrow> 'a) \<Rightarrow> session_ctx \<Rightarrow> 'a" where
  "of_this f c = f (this c)"

lemma set_this_of_this [act_rules]: "(\<And>s. f (g s) = f s) \<Longrightarrow> preserves (of_this f) (set_this g)"
  by (simp add: preserves_def of_this_def)

lemma field_of_this [act_rules]: "preserves (of_this f) (field g)"
  by (simp add: preserves_def of_this_def)

lemma emit_of_this [act_rules]: "preserves (of_this f) (emit ev)"
  by (simp add: preserves_def of_this_def)

lemma post_signal_of_this [act_rules]: "preserves (of_this f) (post_signal t)"
  by (simp add: preserves_def of_this_def post_signal_run split: thread_ptr.split)

lemma on_lan_of_this [act_rules]: "preserves (of_this f) (on_lan op)"
  by (simp add: preserves_def of_this_def on_lan_def split: option.split prod.split)

lemma through_manager_of_this [act_rules]: "preserves (of_this f) through_manager"
  by (simp add: preserves_def of_this_def through_manager_run)

lemma notify_of_this [act_rules]:
  "preserves (of_this f) (NotifyOnSessionOpen nid)" "preserves (of_this f) (NotifyOnSessionClose nid e)"
  "preserves (of_this f) (notify_close e)" "preserves (of_this f) (post_this t)"
  unfolding NotifyOnSessionOpen_def NotifyOnSessionClose_def notify_close_def post_this_def
  by (intro act_rules)+

lemma SendToSignalingChannel_of_this [act_rules]:
  "preserves (of_this f) (SendToSignalingChannel pf r msg pref oc)"
  unfolding SendToSignalingChannel_def Let_def by (intro act_rules)

text \<open>
  Everything that happens to a session: its methods, the tasks it posted, the passing of time.  The
  first argument says whether the two tasks that capture locals by reference may run while the posting
  method is still on the stack; without it they run after its return, when those locals are gone.  The
  second argument marks the two methods that start a negotiation.
\<close>

inductive session_step :: "bool \<Rightarrow> bool \<Rightarrow> session_ctx \<Rightarrow> session_ctx \<Rightarrow> bool" where
  st_send: "session_step early False c (fst (NetworkSession_SendPacket buf ty c))"
| st_send_task: "fr \<longrightarrow> early \<Longrightarrow> session_step early False c (fst (SendPacket_task fr buf ty c))"
| st_accept: "session_step early False c (fst (AcceptSession c))"
| st_respond: "session_step early False c (fst (TrySendSessionResponse c))"
| st_respond_task: "session_step early False c (fst (TrySendSessionResponse_task pf c))"
| st_state: "session_step early False c (fst (NetworkSession_GetSessionState out c))"
| st_dead: "session_step early False c (fst (IsDeadSession timeout c))"
| st_channel_state: "session_step early False c (fst (OnDataChannelStateChange pf c))"
| st_close: "session_step early False c (fst (Close c))"
| st_close_task: "session_step early False c (fst (Close_task c))"
| st_candidate: "session_step early False c (fst (OnIceCandidate pf iface c))"
| st_connection: "session_step early False c (fst (OnConnectionChange st c))"
| st_data_channel: "session_step early False c (fst (OnDataChannel pf iface c))"
| st_ice: "session_step early False c (fst (OnIceConnectionChange ice c))"
| st_gathering: "session_step early False c (fst (OnIceGatheringChange pf gs c))"
| st_error: "session_step early False c (fst (NetworkSession_ProcessError e c))"
| st_message: "session_step early False c (fst (OnDataChannelMessage buf c))"
| st_incoming: "session_step early True c (fst (InitializeIncoming pf r cid pref c))"
| st_incoming_ok: "session_step early False c (fst (InitializeIncoming_on_success pf c))"
| st_incoming_fail: "session_step early False c (fst (InitializeIncoming_on_failure c))"
| st_outgoing: "session_step early True c (fst (InitializeOutgoing pf r c))"
| st_outgoing_task: "fr \<longrightarrow> early \<Longrightarrow> session_step early False c (fst (InitializeOutgoing_task pf fr r c))"
| st_add_candidate: "session_step early False c (fst (NetworkSession_ProcessSignal_CandidateAdd sdp c))"
| st_response: "session_step early False c (fst (NetworkSession_ProcessSignal_ConnectResponse sig c))"
| st_tick: "now c \<le> t \<Longrightarrow> session_step early False c (c\<lparr>now := t\<rparr>)"

text \<open>A history in which the session is not initialised again.\<close>

abbreviation session_run :: "session_ctx \<Rightarrow> session_ctx \<Rightarrow> bool" where
  "session_run \<equiv> (session_step True False)\<^sup>*\<^sup>*"

lemmas session_method_defs = NetworkSession_SendPacket_def SendPacket_task_def AcceptSession_def
  TrySendSessionResponse_def TrySendSessionResponse_task_def NetworkSession_GetSessionState_def
  IsDeadSession_def OnDataChannelStateChange_def Close_def Close_task_def OnIceCandidate_def
  OnConnectionChange_def OnDataChannel_def OnIceConnectionChange_def OnIceGatheringChange_def
  NetworkSession_ProcessError_def OnDataChannelMessage_def InitializeIncoming_def
  InitializeIncoming_on_success_def InitializeIncoming_on_failure_def InitializeOutgoing_def
  InitializeOutgoing_task_def NetworkSession_ProcessSignal_CandidateAdd_def
  NetworkSession_ProcessSignal_ConnectResponse_def
  UpdateSessionActivity_def CheckUpdateStats_def UpdateDataChannelStates_def
  NetworkSession_SendToSignalingChannel_def ProcessIceCandidates_def create_peer_def open_channel_def
  ApplyConnectionFlags_def GetConnectionFlags_def Let_def

lemmas session_op_defs = session_method_defs CheckSendDeferredData_def

text \<open>
  Some members are read but written by no method, \<open>mConnectionStat\<close>, \<open>mIsDeleting\<close> and
  \<open>mHasSentAcceptSession\<close> among them; so is the pointer to the manager.
\<close>

definition unwritten :: "NetworkSession \<Rightarrow> u32 \<times> bool \<times> bool \<times> bool \<times> bool" where
  "unwritten s =
     (mConnectionStat s, mIsDeleting s, mHasSentAcceptSession s, mNetworkSessionMgr s, mIsUsingRelay s)"

lemma unwritten_ops:
  "preserves (of_this unwritten) (NetworkSession_SendPacket buf ty)"
  "preserves (of_this unwritten) (SendPacket_task fr buf ty)"
  "preserves (of_this unwritten) (TrySendSessionResponse)"
  "preserves (of_this unwritten) (TrySendSessionResponse_task pf)"
  "preserves (of_this unwritten) (NetworkSession_GetSessionState out)"
  "preserves (of_this unwritten) (IsDeadSession timeout)"
  "preserves (of_this unwritten) (OnDataChannelStateChange pf)"
  "preserves (of_this unwritten) (Close)"
  "preserves (of_this unwritten) (Close_task)"
  "preserves (of_this unwritten) (OnIceCandidate pf iface)"
  "preserves (of_this unwritten) (OnConnectionChange st)"
  "preserves (of_this unwritten) (OnDataChannel pf iface)"
  "preserves (of_this unwritten) (OnIceConnectionChange ice)"
  "preserves (of_this unwritten) (OnIceGatheringChange pf gs)"
  "preserves (of_this unwritten) (NetworkSession_ProcessError e)"
  "preserves (of_this unwritten) (OnDataChannelMessage buf)"
  "preserves (of_this unwritten) (InitializeIncoming_on_success pf)"
  "preserves (of_this unwritten) (InitializeIncoming_on_failure)"
  "preserves (of_this unwritten) (InitializeOutgoing_task pf fr r)"
  "preserves (of_this unwritten) (NetworkSession_ProcessSignal_CandidateAdd sdp)"
  "preserves (of_this unwritten) (AcceptSession)"
  "preserves (of_this unwritten) (InitializeIncoming pf r cid pref)"
  "preserves (of_this unwritten) (InitializeOutgoing pf r)"
  "preserves (of_this unwritten) (NetworkSession_ProcessSignal_ConnectResponse sig)"
  unfolding session_op_defs by (intro act_rules; simp add: unwritten_def)+

lemma session_step_unwritten: "session_step early b c c' \<Longrightarrow> of_this unwritten c' = of_this unwritten c"
proof (induction rule: session_step.induct)
  case (st_tick c t)
  then show ?case by (simp add: of_this_def)
qed (simp_all add: preservesD [where f = "of_this unwritten"] unwritten_ops)

interpretation session_frame: step_constant "session_step early b" "of_this unwritten" for early b
  by unfold_locales (rule session_step_unwritten)

text \<open>The negotiation state and its timer move in four methods only.\<close>

definition negotiation :: "NetworkSession \<Rightarrow> ENegotiationState \<times> time" where
  "negotiation s = (mConnNegotiationState s, mNegotiationStateTimer s)"

lemma negotiation_ops:
  "preserves (of_this negotiation) (NetworkSession_SendPacket buf ty)"
  "preserves (of_this negotiation) (SendPacket_task fr buf ty)"
  "preserves (of_this negotiation) (TrySendSessionResponse)"
  "preserves (of_this negotiation) (TrySendSessionResponse_task pf)"
  "preserves (of_this negotiation) (NetworkSession_GetSessionState out)"
  "preserves (of_this negotiation) (IsDeadSession timeout)"
  "preserves (of_this negotiation) (OnDataChannelStateChange pf)"
  "preserves (of_this negotiation) (Close)"
  "preserves (of_this negotiation) (Close_task)"
  "preserves (of_this negotiation) (OnIceCandidate pf iface)"
  "preserves (of_this negotiation) (OnConnectionChange st)"
  "preserves (of_this negotiation) (OnDataChannel pf iface)"
  "preserves (of_this negotiation) (OnIceConnectionChange ice)"
  "preserves (of_this negotiation) (OnIceGatheringChange pf gs)"
  "preserves (of_this negotiation) (NetworkSession_ProcessError e)"
  "preserves (of_this negotiation) (OnDataChannelMessage buf)"
  "preserves (of_this negotiation) (InitializeIncoming_on_success pf)"
  "preserves (of_this negotiation) (InitializeIncoming_on_failure)"
  "preserves (of_this negotiation) (InitializeOutgoing_task pf fr r)"
  "preserves (of_this negotiation) (NetworkSession_ProcessSignal_CandidateAdd sdp)"
  unfolding session_op_defs by (intro act_rules; simp add: negotiation_def)+

lemma negotiation_accept:
  "mConnNegotiationState (this c) = ICEProcessing \<Longrightarrow>
   mConnNegotiationState (this (fst (AcceptSession c))) = ICEProcessing"
  by (simp add: AcceptSession_def run_seq through_manager_run split: if_splits)

lemma negotiation_response:
  "mConnNegotiationState (this c) = ICEProcessing \<Longrightarrow>
   mConnNegotiationState (this (fst (NetworkSession_ProcessSignal_ConnectResponse sig c))) = ICEProcessing"
  by (simp add: NetworkSession_ProcessSignal_ConnectResponse_def run_seq through_manager_run)

lemma negotiation_quiet:
  "preserves (of_this negotiation) op \<Longrightarrow> mConnNegotiationState (this (fst (op c))) = mConnNegotiationState (this c)"
  by (auto simp: preserves_def of_this_def negotiation_def)

lemma session_step_established:
  "session_step early b c c' \<Longrightarrow> \<not> b \<Longrightarrow> mConnNegotiationState (this c) = ICEProcessing \<Longrightarrow>
   mConnNegotiationState (this c') = ICEProcessing"
  by (induction rule: session_step.induct)
    (simp_all add: negotiation_accept negotiation_response negotiation_quiet negotiation_ops)

interpretation established: step_invariant "session_step early False" "\<lambda>c. mConnNegotiationState (this c) = ICEProcessing"
  for early
  by unfold_locales (simp add: session_step_established)

text \<open>
  An established session is never reported dead: its negotiation is over, and the member the
  liveness test reads does not follow the state of the ICE connection.
\<close>

lemma established_never_dead:
  assumes "session_run c0 c" "mConnNegotiationState (this c0) = ICEProcessing" "IsConnectionAlive (this c0)"
  shows "IsDeadSession timeout c = (c, Returns False)"
proof -
  have "mConnectionStat (this c) = mConnectionStat (this c0)"
    using session_frame.reach_obs [OF assms(1)] by (simp add: of_this_def unwritten_def)
  then have "IsConnectionAlive (this c)"
    using assms(3) by (simp add: IsConnectionAlive_def)
  then show ?thesis
    using established.reach_inv [OF assms(1,2)] by (simp add: IsDeadSession_def run_seq)
qed


section \<open>Packets that are sent\<close>

text \<open>
  The task that \<open>SendPacket\<close> posts reads \<open>send_type\<close> and \<open>send_buf\<close>, locals of \<open>SendPacket\<close> it captured by
  reference.  In the histories \<open>late_run\<close> it runs after \<open>SendPacket\<close> has returned.
\<close>

abbreviation late_run :: "session_ctx \<Rightarrow> session_ctx \<Rightarrow> bool" where
  "late_run \<equiv> (\<lambda>c c'. \<exists>init. session_step False init c c')\<^sup>*\<^sup>*"

fun is_channel_send :: "net_event \<Rightarrow> bool" where
  "is_channel_send (EvChannelSend h buf) = True"
| "is_channel_send ev = False"

definition channel_sends :: "session_ctx \<Rightarrow> net_event list" where
  "channel_sends c = filter is_channel_send (net_events c)"

text \<open>No packet waits in the session, and its channels have been given the packets \<open>sent\<close>.\<close>

definition no_packets :: "NetworkSession \<Rightarrow> bool" where
  "no_packets s \<longleftrightarrow> mReliablePackets s = [] \<and> mUnreliablePackets s = []"

definition idle_output :: "net_event list \<Rightarrow> session_ctx \<Rightarrow> bool" where
  "idle_output sent c \<longleftrightarrow> no_packets (this c) \<and> channel_sends c = sent"

lemma idle_output_primitives [act_rules]:
  "(\<And>s. no_packets s \<Longrightarrow> no_packets (g s)) \<Longrightarrow> keeps (idle_output sent) (set_this g)"
  "keeps (idle_output sent) (field h)"
  "\<not> is_channel_send ev \<Longrightarrow> keeps (idle_output sent) (emit ev)"
  "keeps (idle_output sent) (post_signal t)"
  "keeps (idle_output sent) (on_lan op)"
  "keeps (idle_output sent) through_manager"
  by (auto simp: keeps_def idle_output_def channel_sends_def post_signal_run on_lan_def through_manager_run
      split: thread_ptr.split option.split prod.split)

lemma idle_output_calls [act_rules]:
  "keeps (idle_output sent) (NotifyOnSessionOpen nid)" "keeps (idle_output sent) (NotifyOnSessionClose nid e)"
  "keeps (idle_output sent) (notify_close e)" "keeps (idle_output sent) (post_this t)"
  "keeps (idle_output sent) (SendToSignalingChannel pf r msg pref oc)"
  unfolding NotifyOnSessionOpen_def NotifyOnSessionClose_def notify_close_def post_this_def
    SendToSignalingChannel_def Let_def
  by (intro act_rules; simp)+

lemma idle_output_flush [act_rules]: "keeps (idle_output sent) CheckSendDeferredData"
  by (auto simp: keeps_def idle_output_def no_packets_def channel_sends_def CheckSendDeferredData_def run_seq
      through_manager_run split: option.split)

lemma SendPacket_task_late:
  "SendPacket_task False buf ty c =
     (c, if mpPeerConnection (this c) = None then Returns () else Faults DanglingPointer)"
  by (simp add: SendPacket_task_def run_seq)

lemma NetworkSession_SendPacket_run:
  "mThread (g_SignalThread c) = ThreadLive \<Longrightarrow>
   NetworkSession_SendPacket buf ty c =
     (c\<lparr>this := (this c)\<lparr>mLastSessionActivity := now c\<rparr>,
        signal_tasks := signal_tasks c @ [TaskSendPacket (self c) buf ty]\<rparr>, Returns ())"
  by (simp add: NetworkSession_SendPacket_def UpdateSessionActivity_def post_this_def run_seq post_signal_run)

lemma idle_output_ops:
  "keeps (idle_output sent) (NetworkSession_SendPacket buf ty)"
  "keeps (idle_output sent) (TrySendSessionResponse)"
  "keeps (idle_output sent) (TrySendSessionResponse_task pf)"
  "keeps (idle_output sent) (NetworkSession_GetSessionState out)"
  "keeps (idle_output sent) (IsDeadSession timeout)"
  "keeps (idle_output sent) (OnDataChannelStateChange pf)"
  "keeps (idle_output sent) (Close)"
  "keeps (idle_output sent) (Close_task)"
  "keeps (idle_output sent) (OnIceCandidate pf iface)"
  "keeps (idle_output sent) (OnConnectionChange st)"
  "keeps (idle_output sent) (OnDataChannel pf iface)"
  "keeps (idle_output sent) (OnIceConnectionChange ice)"
  "keeps (idle_output sent) (OnIceGatheringChange pf gs)"
  "keeps (idle_output sent) (NetworkSession_ProcessError e)"
  "keeps (idle_output sent) (OnDataChannelMessage buf)"
  "keeps (idle_output sent) (InitializeIncoming_on_success pf)"
  "keeps (idle_output sent) (InitializeIncoming_on_failure)"
  "keeps (idle_output sent) (InitializeOutgoing_task pf fr r)"
  "keeps (idle_output sent) (NetworkSession_ProcessSignal_CandidateAdd sdp)"
  "keeps (idle_output sent) (AcceptSession)"
  "keeps (idle_output sent) (InitializeIncoming pf r cid pref)"
  "keeps (idle_output sent) (InitializeOutgoing pf r)"
  "keeps (idle_output sent) (NetworkSession_ProcessSignal_ConnectResponse sig)"
  unfolding session_method_defs by (intro act_rules; simp add: no_packets_def)+

lemma late_step_idle:
  "session_step early b c c' \<Longrightarrow> \<not> early \<Longrightarrow> idle_output sent c \<Longrightarrow> idle_output sent c'"
proof (induction rule: session_step.induct)
  case (st_tick c t)
  then show ?case by (simp add: idle_output_def channel_sends_def)
next
  case (st_send_task fr early c buf ty)
  then show ?case by (simp add: SendPacket_task_late)
qed (simp_all add: keepsD [where I = "idle_output sent"] idle_output_ops)

interpretation idle: step_invariant "\<lambda>c c'. \<exists>init. session_step False init c c'" "idle_output sent" for sent
  by unfold_locales (auto dest: late_step_idle)

end
