(* ===== verification/Session_Manager.thy ===== *)
theory Session_Manager
  imports Session Containers
begin

text \<open>
  \<open>NetworkSessionManager\<close> of \<open>network/NetworkSessionManager.cpp\<close>: the table of sessions by remote id, the
  packets received and the mutex around both.  Sessions live in \<open>session_heap\<close>; a record points to
  one or holds a null pointer.  A method of a session runs on the session and the shared
  environment through \<open>on_session\<close>.
\<close>

section \<open>State\<close>

record NetworkSessionRecord =
  mOwnSession :: "nat option"
  rec_mConnectionId :: NetworkID

record mgr_state = net_env +
  mPacketData :: "(NetworkID, bytes) omap"
  mSessionCreationMutex :: bool  \<comment> \<open>held by the calling thread\<close>
  mSessionList :: "(NetworkID, NetworkSessionRecord) omap"
  session_heap :: "nat \<Rightarrow> NetworkSession option"

definition empty_record :: NetworkSessionRecord where
  "empty_record = \<lparr>mOwnSession = None, rec_mConnectionId = 0\<rparr>"

text \<open>Entering a session's method from the manager, and the manager's state afterwards.\<close>

definition enter :: "nat \<Rightarrow> NetworkSession \<Rightarrow> 'e net_env_scheme \<Rightarrow> session_ctx" where
  "enter p ses s = net_env.extend (net_env.truncate s) (session_ctx.fields p ses)"

definition leave :: "nat \<Rightarrow> session_ctx \<Rightarrow> 'e mgr_state_scheme \<Rightarrow> 'e mgr_state_scheme" where
  "leave p c s =
     (let s' = net_env.extend (net_env.truncate c) (net_env.more s)
      in s'\<lparr>session_heap := (session_heap s')(p \<mapsto> this c)\<rparr>)"

definition on_session :: "nat \<Rightarrow> 'a session_act \<Rightarrow> ('e mgr_state_scheme, 'a) act" where
  "on_session p op =
     (\<lambda>s. case session_heap s p of
         None \<Rightarrow> (s, Faults DanglingPointer)
       | Some ses \<Rightarrow> (case op (enter p ses s) of (c, r) \<Rightarrow> (leave p c s, r)))"

text \<open>\<open>std::lock_guard lock(mSessionCreationMutex)\<close> around a body.\<close>

definition guarded :: "('e mgr_state_scheme, 'a) act \<Rightarrow> ('e mgr_state_scheme, 'a) act" where
  "guarded body =
     seq (look mSessionCreationMutex) (\<lambda>held.
     if held then fail SelfDeadlock
     else seq (update (\<lambda>s. s\<lparr>mSessionCreationMutex := True\<rparr>)) (\<lambda>_.
          seq body (\<lambda>x.
          seq (update (\<lambda>s. s\<lparr>mSessionCreationMutex := False\<rparr>)) (\<lambda>_. ret x))))"

definition set_own_session :: "NetworkID \<Rightarrow> nat option \<Rightarrow> ('e mgr_state_scheme, unit) act" where
  "set_own_session nid p =
     update (\<lambda>s. case omap_get (mSessionList s) nid of
         None \<Rightarrow> s
       | Some rec \<Rightarrow> s\<lparr>mSessionList := omap_put nid (rec\<lparr>mOwnSession := p\<rparr>) (mSessionList s)\<rparr>)"

definition signal_IsOnThread :: "('e net_env_scheme, bool) act" where
  "signal_IsOnThread =
     seq (look on_signal_thread) (\<lambda>cur. seq (look g_SignalThread) (\<lambda>t. lift (IsOnThread cur t)))"

section \<open>Packet data\<close>

definition ClearPacketData :: "NetworkID \<Rightarrow> ('e mgr_state_scheme, unit) act" where
  "ClearPacketData nid = guarded (update (\<lambda>s. s\<lparr>mPacketData := omap_del nid (mPacketData s)\<rparr>))"

text \<open>The caller's \<open>*mcbMessage\<close> is passed in and handed back.\<close>

definition IsPacketAvailable :: "NetworkID \<Rightarrow> u32 \<Rightarrow> ('e mgr_state_scheme, u32 \<times> bool) act" where
  "IsPacketAvailable nid mcbMessage =
     guarded (seq (look (\<lambda>s. omap_get (mPacketData s) nid)) (\<lambda>data_elem.
       case data_elem of
         None \<Rightarrow> ret (mcbMessage, False)
       | Some d \<Rightarrow> ret (word_of_nat (length d), True)))"

definition RemoteMessageReceived :: "NetworkID \<Rightarrow> bytes \<Rightarrow> ('e mgr_state_scheme, unit) act" where
  "RemoteMessageReceived nid pdata = ret ()"

definition OnRemoteMessageReceived :: "NetworkID \<Rightarrow> bytes \<Rightarrow> ('e mgr_state_scheme, unit) act" where
  "OnRemoteMessageReceived nid pdata = onlyif (pdata \<noteq> []) (RemoteMessageReceived nid pdata)"

section \<open>Sessions\<close>

definition FilterDeadSession :: "NetworkID \<Rightarrow> NetworkSessionRecord \<Rightarrow> ('e mgr_state_scheme, bool) act" where
  "FilterDeadSession nid rec =
     (case mOwnSession rec of
        None \<Rightarrow> ret False
      | Some session \<Rightarrow>
          seq (look mNegotiationTimeout) (\<lambda>negotiationTimeOut.
          seq (on_session session (IsDeadSession negotiationTimeOut)) (\<lambda>dead.
          if \<not> dead then ret False
          else
            seq signal_IsOnThread (\<lambda>on_thread.
            seq (if on_thread then set_own_session nid None else post_signal (TaskEraseRecord nid)) (\<lambda>_.
            ret True)))))"

text \<open>\<open>mSessionList[id]\<close> inserts an empty record for an unknown id.\<close>

definition session_record :: "NetworkID \<Rightarrow> ('e mgr_state_scheme, NetworkSessionRecord) act" where
  "session_record nid =
     seq (update (\<lambda>s. s\<lparr>mSessionList := omap_at empty_record nid (mSessionList s)\<rparr>)) (\<lambda>_.
     look (\<lambda>s. case omap_get (mSessionList s) nid of Some rec \<Rightarrow> rec | None \<Rightarrow> empty_record))"

definition GetCurrentSession :: "NetworkID \<Rightarrow> ('e mgr_state_scheme, nat option) act" where
  "GetCurrentSession nid =
     seq (session_record nid) (\<lambda>rec.
     seq (FilterDeadSession nid rec) (\<lambda>dead.
     if dead then ret None
     else seq (session_record nid) (\<lambda>rec. ret (mOwnSession rec))))"

definition CloseSessionWithUser :: "NetworkID \<Rightarrow> ('e mgr_state_scheme, bool) act" where
  "CloseSessionWithUser nid =
     guarded (seq (look (\<lambda>s. omap_get (mSessionList s) nid)) (\<lambda>session_elem.
       case session_elem of
         None \<Rightarrow> ret False
       | Some session \<Rightarrow>
           seq (case mOwnSession session of None \<Rightarrow> ret () | Some p \<Rightarrow> on_session p Close) (\<lambda>_. ret True)))"

definition AcceptSessionWithUser :: "NetworkID \<Rightarrow> ('e mgr_state_scheme, bool) act" where
  "AcceptSessionWithUser nid =
     guarded (seq (look (\<lambda>s. omap_get (mSessionList s) nid)) (\<lambda>session_elem.
       case session_elem of
         None \<Rightarrow> ret False
       | Some session \<Rightarrow>
           (case mOwnSession session of
              None \<Rightarrow> ret False
            | Some p \<Rightarrow> seq (on_session p AcceptSession) (\<lambda>_. ret True))))"

definition CloseSessionIfInactive ::
    "NetworkID \<Rightarrow> NetworkSessionRecord \<Rightarrow> ('e mgr_state_scheme, unit) act" where
  "CloseSessionIfInactive nid rec =
     (case mOwnSession rec of
        None \<Rightarrow> ret ()
      | Some p \<Rightarrow>
          seq (on_session p (field id)) (\<lambda>ses.
          seq (look now) (\<lambda>t.
          onlyif (\<not> IsConnectionAlive ses \<and> IsInactiveSession t ses)
            (seq (on_session p (NetworkSession_ProcessError ESessionErrorInactivityTimeout)) (\<lambda>_.
             on_session p Close)))))"

definition GetSessionState ::
    "NetworkID \<Rightarrow> SessionState option \<Rightarrow> ('e mgr_state_scheme, SessionState option \<times> bool) act" where
  "GetSessionState nid outState =
     guarded (seq (GetCurrentSession nid) (\<lambda>current_session.
       case current_session of
         Some p \<Rightarrow> on_session p (NetworkSession_GetSessionState outState)
       | None \<Rightarrow> ret (outState, False)))"

definition HasKnownConnection :: "NetworkID \<Rightarrow> ('e mgr_state_scheme, bool) act" where
  "HasKnownConnection nid = guarded (seq (session_record nid) (\<lambda>rec. ret (mOwnSession rec \<noteq> None)))"

text \<open>The code that would build the new session is commented out.\<close>

definition InitiateIncomingSession :: "NetworkID \<Rightarrow> u64 \<Rightarrow> ('e mgr_state_scheme, bool) act" where
  "InitiateIncomingSession nid connectionId =
     seq (GetCurrentSession nid) (\<lambda>current_session.
     seq (case current_session of
            None \<Rightarrow> ret False
          | Some p \<Rightarrow> seq (on_session p (field mConnectionId)) (\<lambda>cid. ret (connectionId = cid))) (\<lambda>overlaps.
     if overlaps then ret False
     else
       seq (ClearPacketData nid) (\<lambda>_.
       seq (look (\<lambda>s. omap_get (mSessionList s) nid \<noteq> None)) (\<lambda>known.
       seq (onlyif known
              (seq signal_IsOnThread (\<lambda>on_thread.
               seq (onlyif (\<not> on_thread) (post_signal (TaskCleanupRecord nid))) (\<lambda>_.
               set_own_session nid None)))) (\<lambda>_.
       ret True)))))"

definition InitiateOutgoingSession :: "NetworkID \<Rightarrow> ('e mgr_state_scheme, nat option) act" where
  "InitiateOutgoingSession nid =
     seq (look (\<lambda>s. omap_get (mSessionList s) nid)) (\<lambda>it.
     case it of
       Some rec \<Rightarrow> ret (mOwnSession rec)
     | None \<Rightarrow> seq (ClearPacketData nid) (\<lambda>_. GetCurrentSession nid))"

definition FindSpecificSession :: "NetworkID \<Rightarrow> u64 \<Rightarrow> ('e mgr_state_scheme, nat option) act" where
  "FindSpecificSession nid connectionid =
     seq (look (\<lambda>s. omap_get (mSessionList s) nid)) (\<lambda>it.
     case it of
       None \<Rightarrow> ret None
     | Some rec \<Rightarrow>
         if mOwnSession rec \<noteq> None \<and> rec_mConnectionId rec = connectionid then ret (mOwnSession rec)
         else ret None)"

text \<open>The whole body of \<open>OpenSessionWithUser\<close> is a comment.\<close>

definition OpenSessionWithUser :: "bool outcome \<Rightarrow> NetworkID \<Rightarrow> ('e mgr_state_scheme, bool) act" where
  "OpenSessionWithUser off_end nid = lift off_end"

definition Manager_ProcessError :: "NetworkID \<Rightarrow> ESessionError \<Rightarrow> ('e mgr_state_scheme, unit) act" where
  "Manager_ProcessError nid e =
     guarded (seq (GetCurrentSession nid) (\<lambda>cur_session.
       case cur_session of
         None \<Rightarrow> ret ()
       | Some p \<Rightarrow> on_session p (NetworkSession_ProcessError e)))"

definition Manager_SendPacket ::
    "NetworkID \<Rightarrow> bytes \<Rightarrow> ESendType \<Rightarrow> ('e mgr_state_scheme, int) act" where
  "Manager_SendPacket nid pbData send_type =
     guarded (seq (GetCurrentSession nid) (\<lambda>current_session.
       case current_session of
         None \<Rightarrow> ret 0
       | Some p \<Rightarrow> seq (on_session p (NetworkSession_SendPacket pbData send_type)) (\<lambda>_. ret 1)))"

section \<open>The signalling thread's queue\<close>

text \<open>The tasks of sessions and of the manager; those of the interface are in \<open>Network_Interface\<close>.\<close>

definition run_session_task :: "platform \<Rightarrow> bool \<Rightarrow> net_task \<Rightarrow> ('e mgr_state_scheme, unit) act" where
  "run_session_task pf frame_alive t =
     (case t of
        TaskSendPacket p buf ty \<Rightarrow> on_session p (SendPacket_task frame_alive buf ty)
      | TaskSessionResponse p \<Rightarrow> on_session p (TrySendSessionResponse_task pf)
      | TaskClosePeer p \<Rightarrow> on_session p Close_task
      | TaskInitializeOutgoing p r \<Rightarrow> on_session p (InitializeOutgoing_task pf frame_alive r)
      | TaskEraseRecord nid \<Rightarrow> set_own_session nid None
      | _ \<Rightarrow> ret ())"


section \<open>Entering and leaving a session\<close>

lemma enter_fields [simp]:
  "this (enter p ses s) = ses" "self (enter p ses s) = p" "now (enter p ses s) = now s"
  "g_SignalThread (enter p ses s) = g_SignalThread s" "mCallBack (enter p ses s) = mCallBack s"
  "net_events (enter p ses s) = net_events s" "signal_tasks (enter p ses s) = signal_tasks s"
  by (simp_all add: enter_def net_env.defs session_ctx.defs)

lemma leave_fields [simp]:
  "now (leave p c s) = now c" "g_SignalThread (leave p c s) = g_SignalThread c"
  "mCallBack (leave p c s) = mCallBack c" "net_events (leave p c s) = net_events c"
  "signal_tasks (leave p c s) = signal_tasks c" "on_signal_thread (leave p c s) = on_signal_thread c"
  "mPacketData (leave p c s) = mPacketData s" "mSessionList (leave p c s) = mSessionList s"
  "mSessionCreationMutex (leave p c s) = mSessionCreationMutex s"
  "session_heap (leave p c s) = (session_heap s)(p \<mapsto> this c)"
  by (cases s, simp add: leave_def net_env.defs mgr_state.defs Let_def)+

lemma leave_enter: "session_heap s p = Some ses \<Longrightarrow> leave p (enter p ses s) s = s"
  by (cases s) (simp add: leave_def enter_def net_env.defs session_ctx.defs mgr_state.defs Let_def fun_upd_idem)

lemma leave_events:
  "session_heap s p = Some ses \<Longrightarrow> leave p (enter p ses s\<lparr>net_events := evs\<rparr>) s = s\<lparr>net_events := evs\<rparr>"
  by (cases s) (simp add: leave_def enter_def net_env.defs session_ctx.defs mgr_state.defs Let_def fun_upd_idem)

lemma on_session_run:
  "session_heap s p = Some ses \<Longrightarrow> op (enter p ses s) = (c, r) \<Longrightarrow> on_session p op s = (leave p c s, r)"
  by (simp add: on_session_def)

lemma on_session_mSessionList [act_rules]: "preserves mSessionList (on_session p op)"
  by (simp add: preserves_def on_session_def split: option.split prod.split)

lemma on_session_mPacketData [act_rules]: "preserves mPacketData (on_session p op)"
  by (simp add: preserves_def on_session_def split: option.split prod.split)

text \<open>A session whose pointers are valid, in the manager's state.\<close>

definition wired_session :: "'e mgr_state_scheme \<Rightarrow> nat \<Rightarrow> NetworkSession \<Rightarrow> bool" where
  "wired_session s p ses \<longleftrightarrow>
     session_heap s p = Some ses \<and> mNetworkSessionMgr ses \<and> mCallBack s \<and>
     mThread (g_SignalThread s) \<noteq> ThreadDangling"

lemma wired_enter: "wired_session s p ses \<Longrightarrow> wired (enter p ses s)"
  by (simp add: wired_def wired_session_def)

definition session_dead :: "'e mgr_state_scheme \<Rightarrow> NetworkSession \<Rightarrow> bool" where
  "session_dead s ses \<longleftrightarrow>
     \<not> IsConnectionAlive ses \<or> negotiation_expired (mNegotiationTimeout s) (now s) ses"

definition session_close_error :: "NetworkSession \<Rightarrow> ESessionError" where
  "session_close_error ses =
     (if IsConnectionAlive ses then the (dead_session_error ses) else ESessionErrorICE)"

lemma on_session_IsDeadSession:
  assumes "wired_session s p ses" "0 \<le> timeout" "timeout = mNegotiationTimeout s"
  shows "on_session p (IsDeadSession timeout) s =
     (if session_dead s ses
      then (s\<lparr>net_events := net_events s @ [EvSessionClose (mRemoteID ses) (session_close_error ses)]\<rparr>, Returns True)
      else (s, Returns False))"
proof -
  have h: "session_heap s p = Some ses" using assms(1) by (simp add: wired_session_def)
  show ?thesis
    using IsDeadSession_run [OF wired_enter [OF assms(1)] assms(2)] assms(3) h
    by (simp add: on_session_def session_dead_def session_close_error_def leave_enter leave_events)
qed

section \<open>Looking a session up\<close>

lemma guarded_run:
  assumes "\<not> mSessionCreationMutex s" "body (s\<lparr>mSessionCreationMutex := True\<rparr>) = (s', Returns x)"
  shows "guarded body s = (s'\<lparr>mSessionCreationMutex := False\<rparr>, Returns x)"
  using assms by (simp add: guarded_def run_seq)

lemma guarded_locked: "mSessionCreationMutex s \<Longrightarrow> guarded body s = (s, Faults SelfDeadlock)"
  by (simp add: guarded_def run_seq)

lemma session_record_known:
  "omap_get (mSessionList s) nid = Some rec \<Longrightarrow> session_record nid s = (s, Returns rec)"
  by (simp add: session_record_def run_seq omap_at_def)

lemma session_record_unknown:
  "omap_get (mSessionList s) nid = None \<Longrightarrow> session_record nid s =
     (s\<lparr>mSessionList := omap_put nid empty_record (mSessionList s)\<rparr>, Returns empty_record)"
  by (simp add: session_record_def run_seq omap_at_def)

lemma GetCurrentSession_unknown:
  "omap_get (mSessionList s) nid = None \<Longrightarrow> GetCurrentSession nid s =
     (s\<lparr>mSessionList := omap_put nid empty_record (mSessionList s)\<rparr>, Returns None)"
  by (simp add: GetCurrentSession_def run_seq session_record_unknown session_record_known
      FilterDeadSession_def empty_record_def)

lemma GetCurrentSession_null:
  "omap_get (mSessionList s) nid = Some rec \<Longrightarrow> mOwnSession rec = None \<Longrightarrow>
   GetCurrentSession nid s = (s, Returns None)"
  by (simp add: GetCurrentSession_def run_seq session_record_known FilterDeadSession_def)

lemma GetCurrentSession_live:
  assumes "omap_get (mSessionList s) nid = Some rec" "mOwnSession rec = Some p"
    and "wired_session s p ses" "0 \<le> mNegotiationTimeout s" "\<not> session_dead s ses"
  shows "GetCurrentSession nid s = (s, Returns (Some p))"
  using assms on_session_IsDeadSession [OF assms(3,4) refl]
  by (simp add: GetCurrentSession_def run_seq session_record_known FilterDeadSession_def)

text \<open>
  A dead session is reported and given up: on the signalling thread its record is cleared at
  once, elsewhere a task to clear it is posted (when there is a thread to post it to).
\<close>

lemma GetCurrentSession_dead:
  assumes "omap_get (mSessionList s) nid = Some rec" "mOwnSession rec = Some p"
    and "wired_session s p ses" "0 \<le> mNegotiationTimeout s" "session_dead s ses"
  shows "GetCurrentSession nid s =
     (let s' = s\<lparr>net_events := net_events s @ [EvSessionClose (mRemoteID ses) (session_close_error ses)]\<rparr>
      in (if mThread (g_SignalThread s) = ThreadLive
          then if on_signal_thread s
               then s'\<lparr>mSessionList := omap_put nid (rec\<lparr>mOwnSession := None\<rparr>) (mSessionList s)\<rparr>
               else s'\<lparr>signal_tasks := signal_tasks s @ [TaskEraseRecord nid]\<rparr>
          else s', Returns None))"
proof -
  have "mThread (g_SignalThread s) \<noteq> ThreadDangling"
    using assms(3) by (simp add: wired_session_def)
  then show ?thesis
    using assms on_session_IsDeadSession [OF assms(3,4) refl]
    by (cases "mThread (g_SignalThread s)")
      (simp_all add: GetCurrentSession_def run_seq session_record_known FilterDeadSession_def
        signal_IsOnThread_def IsOnThread_def LoadRtcThread_def deref_thread_def set_own_session_def
        post_signal_run Let_def)
qed


section \<open>Sending through the manager\<close>

text \<open>
  A packet for a session that is not dead becomes a task of the signalling thread, and the session
  counts as active; any other packet is refused.
\<close>

lemma Manager_SendPacket_live:
  assumes "omap_get (mSessionList s) nid = Some rec" "mOwnSession rec = Some p"
    and "wired_session s p ses" "0 \<le> mNegotiationTimeout s" "\<not> session_dead s ses"
    and "\<not> mSessionCreationMutex s"
  obtains s' where "Manager_SendPacket nid buf ty s = (s', Returns 1)" "\<not> mSessionCreationMutex s'"
    "session_heap s' p = Some (ses\<lparr>mLastSessionActivity := now s\<rparr>)" "mSessionList s' = mSessionList s"
    "signal_tasks s' = signal_tasks s @
       (if mThread (g_SignalThread s) = ThreadLive then [TaskSendPacket p buf ty] else [])"
proof -
  let ?s = "s\<lparr>mSessionCreationMutex := True\<rparr>"
  have wired: "wired_session ?s p ses"
    using assms(3) by (simp add: wired_session_def)
  have cur: "GetCurrentSession nid ?s = (?s, Returns (Some p))"
    using assms(1-2,4-5) wired by (intro GetCurrentSession_live) (simp_all add: session_dead_def)
  let ?c = "enter p (ses\<lparr>mLastSessionActivity := now s\<rparr>) ?s"
  have up: "(enter p ses ?s)\<lparr>this := ses\<lparr>mLastSessionActivity := now s\<rparr>\<rparr> = ?c"
    by (simp add: enter_def net_env.defs session_ctx.defs)
  have "wired ?c"
    using assms(3) by (simp add: wired_def wired_session_def)
  then have "on_session p (NetworkSession_SendPacket buf ty) ?s =
      (leave p (if mThread (g_SignalThread s) = ThreadLive
         then ?c\<lparr>signal_tasks := signal_tasks s @ [TaskSendPacket p buf ty]\<rparr> else ?c) ?s, Returns ())"
    using assms(3) by (simp add: on_session_def NetworkSession_SendPacket_def run_seq up post_this_run wired_session_def)
  then have "Manager_SendPacket nid buf ty s =
      ((leave p (if mThread (g_SignalThread s) = ThreadLive
         then ?c\<lparr>signal_tasks := signal_tasks s @ [TaskSendPacket p buf ty]\<rparr> else ?c) ?s)
       \<lparr>mSessionCreationMutex := False\<rparr>, Returns 1)"
    using assms(6) cur unfolding Manager_SendPacket_def
    by (intro guarded_run) (simp_all add: run_seq)
  then show thesis
    by (rule that) (simp_all split: if_split)
qed

lemma Manager_SendPacket_no_session:
  assumes "\<not> mSessionCreationMutex s"
    and "\<forall>rec. omap_get (mSessionList s) nid = Some rec \<longrightarrow> mOwnSession rec = None"
  obtains s' where "Manager_SendPacket nid buf ty s = (s', Returns 0)" "net_events s' = net_events s"
    "signal_tasks s' = signal_tasks s"
proof (cases "omap_get (mSessionList s) nid")
  case None
  then have "Manager_SendPacket nid buf ty s =
      (s\<lparr>mSessionCreationMutex := True, mSessionList := omap_put nid empty_record (mSessionList s),
         mSessionCreationMutex := False\<rparr>, Returns 0)"
    using assms(1) by (simp add: Manager_SendPacket_def guarded_def run_seq GetCurrentSession_unknown)
  then show thesis by (rule that) simp_all
next
  case (Some rec)
  then have "Manager_SendPacket nid buf ty s = (s\<lparr>mSessionCreationMutex := False\<rparr>, Returns 0)"
    using assms by (simp add: Manager_SendPacket_def guarded_def run_seq GetCurrentSession_null)
  then show thesis by (rule that) simp_all
qed

section \<open>The manager's invariant\<close>

definition owned :: "'e mgr_state_scheme \<Rightarrow> nat set" where
  "owned s = {p. \<exists>k rec. omap_get (mSessionList s) k = Some rec \<and> mOwnSession rec = Some p}"

definition packet_keys :: "'e mgr_state_scheme \<Rightarrow> NetworkID set" where
  "packet_keys s = {k. omap_get (mPacketData s) k \<noteq> None}"

text \<open>The tables stay sorted, no session is ever added and no packet data is ever added.\<close>

definition mgr_inv :: "nat set \<Rightarrow> NetworkID set \<Rightarrow> 'e mgr_state_scheme \<Rightarrow> bool" where
  "mgr_inv A B s \<longleftrightarrow>
     omap_ok (mSessionList s) \<and> omap_ok (mPacketData s) \<and> owned s \<subseteq> A \<and> packet_keys s \<subseteq> B"

lemma mgr_inv_cong:
  "mSessionList s = mSessionList t \<Longrightarrow> mPacketData s = mPacketData t \<Longrightarrow> mgr_inv A B s = mgr_inv A B t"
  by (simp add: mgr_inv_def owned_def packet_keys_def)

lemma mgr_inv_frame: "preserves mSessionList op \<Longrightarrow> preserves mPacketData op \<Longrightarrow> keeps (mgr_inv A B) op"
  by (auto simp: keeps_def preserves_def mgr_inv_def owned_def packet_keys_def)

lemma mgr_inv_on_session [act_rules]: "keeps (mgr_inv A B) (on_session p op)"
  by (intro mgr_inv_frame act_rules)

lemma mgr_inv_post_signal [act_rules]: "keeps (mgr_inv A B) (post_signal t)"
  unfolding post_signal_def by (intro act_rules) (simp add: mgr_inv_def owned_def packet_keys_def)

lemma mgr_inv_signal_IsOnThread [act_rules]: "keeps (mgr_inv A B) signal_IsOnThread"
  unfolding signal_IsOnThread_def by (intro act_rules)

lemma mgr_inv_guarded [act_rules]: "keeps (mgr_inv A B) body \<Longrightarrow> keeps (mgr_inv A B) (guarded body)"
  unfolding guarded_def by (intro act_rules) (simp_all add: mgr_inv_def owned_def packet_keys_def)

lemma mgr_inv_session_record [act_rules]: "keeps (mgr_inv A B) (session_record nid)"
  unfolding session_record_def
  by (intro act_rules)
    (auto simp: mgr_inv_def owned_def packet_keys_def omap_ok_at empty_record_def
      split: if_splits option.splits)

lemma mgr_inv_set_own_session [act_rules]: "keeps (mgr_inv A B) (set_own_session nid None)"
  unfolding set_own_session_def
  by (intro act_rules)
    (auto simp: mgr_inv_def owned_def packet_keys_def omap_ok_put split: option.split if_splits)

lemma mgr_inv_clear: "mgr_inv A B s \<Longrightarrow> mgr_inv A B (s\<lparr>mPacketData := omap_del nid (mPacketData s)\<rparr>)"
  by (auto simp: mgr_inv_def owned_def packet_keys_def omap_ok_del split: if_splits)

lemma mgr_inv_FilterDeadSession [act_rules]: "keeps (mgr_inv A B) (FilterDeadSession nid rec)"
  unfolding FilterDeadSession_def by (intro act_rules)

lemma mgr_inv_GetCurrentSession [act_rules]: "keeps (mgr_inv A B) (GetCurrentSession nid)"
  unfolding GetCurrentSession_def by (intro act_rules)

lemma mgr_inv_ClearPacketData [act_rules]: "keeps (mgr_inv A B) (ClearPacketData nid)"
  unfolding ClearPacketData_def by (intro act_rules) (rule mgr_inv_clear)

lemmas mgr_op_defs = IsPacketAvailable_def RemoteMessageReceived_def OnRemoteMessageReceived_def
  CloseSessionWithUser_def AcceptSessionWithUser_def CloseSessionIfInactive_def GetSessionState_def
  HasKnownConnection_def InitiateIncomingSession_def InitiateOutgoingSession_def
  FindSpecificSession_def OpenSessionWithUser_def Manager_ProcessError_def Manager_SendPacket_def

lemma mgr_inv_ops [act_rules]:
  "keeps (mgr_inv A B) (IsPacketAvailable nid n)" "keeps (mgr_inv A B) (OnRemoteMessageReceived nid d)"
  "keeps (mgr_inv A B) (CloseSessionWithUser nid)" "keeps (mgr_inv A B) (AcceptSessionWithUser nid)"
  "keeps (mgr_inv A B) (CloseSessionIfInactive nid rec)" "keeps (mgr_inv A B) (GetSessionState nid out)"
  "keeps (mgr_inv A B) (HasKnownConnection nid)" "keeps (mgr_inv A B) (InitiateIncomingSession nid cid)"
  "keeps (mgr_inv A B) (InitiateOutgoingSession nid)" "keeps (mgr_inv A B) (FindSpecificSession nid cid)"
  "keeps (mgr_inv A B) (OpenSessionWithUser off_end nid)" "keeps (mgr_inv A B) (Manager_ProcessError nid e)"
  "keeps (mgr_inv A B) (Manager_SendPacket nid buf ty)"
  unfolding mgr_op_defs by (intro act_rules)+

lemma mgr_inv_run_session_task [act_rules]: "keeps (mgr_inv A B) (run_session_task pf fr t)"
  unfolding run_session_task_def by (cases t) (simp_all add: act_rules)

text \<open>
  What can happen to a manager: its methods, its tasks, any method or callback of one of its
  sessions, the passing of time, a change of the running thread.
\<close>

inductive mgr_step :: "mgr_state \<Rightarrow> mgr_state \<Rightarrow> bool" where
  mgr_clear: "mgr_step s (fst (ClearPacketData nid s))"
| mgr_available: "mgr_step s (fst (IsPacketAvailable nid n s))"
| mgr_received: "mgr_step s (fst (OnRemoteMessageReceived nid d s))"
| mgr_close: "mgr_step s (fst (CloseSessionWithUser nid s))"
| mgr_accept: "mgr_step s (fst (AcceptSessionWithUser nid s))"
| mgr_inactive: "mgr_step s (fst (CloseSessionIfInactive nid rec s))"
| mgr_state: "mgr_step s (fst (GetSessionState nid out s))"
| mgr_known: "mgr_step s (fst (HasKnownConnection nid s))"
| mgr_incoming: "mgr_step s (fst (InitiateIncomingSession nid cid s))"
| mgr_outgoing: "mgr_step s (fst (InitiateOutgoingSession nid s))"
| mgr_find: "mgr_step s (fst (FindSpecificSession nid cid s))"
| mgr_open: "mgr_step s (fst (OpenSessionWithUser off_end nid s))"
| mgr_error: "mgr_step s (fst (Manager_ProcessError nid e s))"
| mgr_send: "mgr_step s (fst (Manager_SendPacket nid buf ty s))"
| mgr_task: "mgr_step s (fst (run_session_task pf fr t s))"
| mgr_session: "mgr_step s (fst (on_session p (op :: unit session_act) s))"
| mgr_tick: "now s \<le> t \<Longrightarrow> mgr_step s (s\<lparr>now := t\<rparr>)"
| mgr_thread: "mgr_step s (s\<lparr>on_signal_thread := b\<rparr>)"

abbreviation mgr_reach :: "mgr_state \<Rightarrow> mgr_state \<Rightarrow> bool" where
  "mgr_reach \<equiv> mgr_step\<^sup>*\<^sup>*"

interpretation mgr_tables: step_invariant mgr_step "mgr_inv A B" for A B
proof
  show "mgr_inv A B t" if "mgr_step s t" "mgr_inv A B s" for s t
    using that
    by (induction rule: mgr_step.induct)
      (simp_all add: keepsD act_rules, simp_all add: mgr_inv_def owned_def packet_keys_def)
qed

text \<open>So a manager that starts empty refuses every packet and has none to deliver.\<close>

lemma mgr_reach_no_session:
  assumes "mgr_reach s0 s" "mgr_inv {} {} s0" "omap_get (mSessionList s) nid = Some rec"
  shows "mOwnSession rec = None"
  using mgr_tables.reach_inv [OF assms(1,2)] assms(3)
  by (cases "mOwnSession rec") (auto simp: mgr_inv_def owned_def)

lemma IsPacketAvailable_run:
  "\<not> mSessionCreationMutex s \<Longrightarrow> IsPacketAvailable nid n s =
     (s, Returns (case omap_get (mPacketData s) nid of
         None \<Rightarrow> (n, False) | Some d \<Rightarrow> (word_of_nat (length d), True)))"
  by (cases "omap_get (mPacketData s) nid"; cases s)
    (simp_all add: IsPacketAvailable_def guarded_def run_seq)

end
