(* ===== verification/Network_Interface.thy ===== *)
theory Network_Interface
  imports Session_Manager
begin

text \<open>
  \<open>SimpleNetworkInterfaceImpl\<close> of \<open>connection/SimpleNetworkInterfaceImpl.cpp\<close>, the transport that the
  application calls: configuration, the API mutex, sending, signals received, LAN discovery
  packets.  Its state extends the manager's.  JSON parsing (a library outside the repository), the
  application's discovery callback and functions the repository declares but does not define
  (\<open>ReadPacket\<close>, \<open>PeriodicDeadSessionCleaup\<close>, \<open>ProcessSignal\<close> of the manager) are parameters or events.
\<close>

section \<open>State\<close>

record iface_state = mgr_state +
  mNetworkSessionMgrPtr :: bool
  mApiLevelMutex :: bool
  mUsernameCert :: string
  mPasswordCert :: string
  mpWebRTCSignalingInterface :: "bool option"  \<comment> \<open>null, or what \<open>IsSignedIn\<close> answers\<close>

record StunRelayServer =
  Uri :: "string option"
  Username :: "string option"
  Password :: "string option"

record ServerConfiguration =
  StunRelayServers :: "StunRelayServer list"  \<comment> \<open>an array of 16\<close>
  StunRelayServerCount :: u64
  KnownMappedAddressCount :: int

record SignalingConfiguration =
  StunServer :: "string option"
  TurnServer :: "string option"

record TurnAuthServer =
  ta_userName :: string
  ta_password :: string
  ta_turnUri :: string
  ta_stunUri :: string

text \<open>
  What the JSON library makes of a text: the \<open>Code\<close> and \<open>Message\<close> members of a signalling envelope,
  and the members of a TURN configuration.  Reading a member may throw.
\<close>

record turn_json =
  tj_servers :: "(string \<times> string \<times> string list) list option"
  tj_username :: string
  tj_password :: string

record json_api =
  js_envelope :: "string \<Rightarrow> (int outcome \<times> string outcome) option"
  js_turn :: "string \<Rightarrow> turn_json option"

definition api_guarded :: "(iface_state, 'a) act \<Rightarrow> (iface_state, 'a) act" where
  "api_guarded body =
     seq (look mApiLevelMutex) (\<lambda>held.
     if held then fail SelfDeadlock
     else seq (update (\<lambda>s. s\<lparr>mApiLevelMutex := True\<rparr>)) (\<lambda>_.
          seq body (\<lambda>x.
          seq (update (\<lambda>s. s\<lparr>mApiLevelMutex := False\<rparr>)) (\<lambda>_. ret x))))"

definition with_manager :: "(iface_state, 'a) act \<Rightarrow> (iface_state, 'a) act" where
  "with_manager m = seq (look mNetworkSessionMgrPtr) (\<lambda>p. if p then m else fail NullDeref)"

section \<open>Switches\<close>

definition EnableSignalingOverLAN :: "(iface_state, unit) act" where
  "EnableSignalingOverLAN =
     seq (look mDisableLANSignaling) (\<lambda>d. onlyif d (update (\<lambda>s. s\<lparr>mDisableLANSignaling := False\<rparr>)))"

definition DisableSignalingOverLAN :: "(iface_state, unit) act" where
  "DisableSignalingOverLAN =
     seq (look mDisableLANSignaling) (\<lambda>d. onlyif (\<not> d) (update (\<lambda>s. s\<lparr>mDisableLANSignaling := True\<rparr>)))"

definition Interface_IsBroadcastDiscoveryEnabled :: "(iface_state, bool) act" where
  "Interface_IsBroadcastDiscoveryEnabled =
     seq (look mReceiverId) (\<lambda>me. seq (look on_lan_thread) (\<lambda>cur.
     on_lan (look (IsBroadcastDiscoveryEnabled cur me))))"

definition Interface_EnableBroadcastDiscovery :: "(iface_state, unit) act" where
  "Interface_EnableBroadcastDiscovery =
     seq (look mReceiverId) (\<lambda>me. seq (look on_lan_thread) (\<lambda>cur. on_lan (EnableBroadcastDiscovery cur me)))"

definition Interface_DisableBroadcastDiscovery :: "(iface_state, unit) act" where
  "Interface_DisableBroadcastDiscovery =
     seq (look mReceiverId) (\<lambda>me. seq (look on_lan_thread) (\<lambda>cur. on_lan (DisableBroadcastDiscovery cur me)))"

definition IsSignedIntoSignalingService :: "iface_state \<Rightarrow> bool" where
  "IsSignedIntoSignalingService s =
     (case mpWebRTCSignalingInterface s of Some signed_in \<Rightarrow> signed_in | None \<Rightarrow> False)"

section \<open>Sessions\<close>

definition Interface_AcceptSessionWithUser :: "NetworkID \<Rightarrow> (iface_state, unit) act" where
  "Interface_AcceptSessionWithUser nid =
     api_guarded (with_manager (seq (AcceptSessionWithUser nid) (\<lambda>_. ret ())))"

definition Interface_ClearPacketData :: "NetworkID \<Rightarrow> (iface_state, unit) act" where
  "Interface_ClearPacketData nid = with_manager (ClearPacketData nid)"

definition Interface_GetSessionState ::
    "NetworkID \<Rightarrow> SessionState option \<Rightarrow> (iface_state, SessionState option \<times> bool) act" where
  "Interface_GetSessionState remoteId pConnState =
     api_guarded (seq (look mReceiverId) (\<lambda>me.
       if me = remoteId then ret (pConnState, False)
       else with_manager (GetSessionState remoteId pConnState)))"

definition Interface_IsPacketAvailable :: "NetworkID \<Rightarrow> u32 \<Rightarrow> (iface_state, u32 \<times> bool) act" where
  "Interface_IsPacketAvailable remoteId n = api_guarded (with_manager (IsPacketAvailable remoteId n))"

definition ProcessSessionError :: "NetworkID \<Rightarrow> ESessionError \<Rightarrow> (iface_state, unit) act" where
  "ProcessSessionError remoteId e = with_manager (Manager_ProcessError remoteId e)"

definition Interface_CloseSessionWithUser :: "NetworkID \<Rightarrow> (iface_state, bool) act" where
  "Interface_CloseSessionWithUser nid = api_guarded (with_manager (CloseSessionWithUser nid))"

definition Interface_OpenSessionWithUser :: "bool outcome \<Rightarrow> NetworkID \<Rightarrow> (iface_state, bool) act" where
  "Interface_OpenSessionWithUser off_end nid = api_guarded (with_manager (OpenSessionWithUser off_end nid))"

definition NotifyOnSessionRequested :: "NetworkID \<Rightarrow> (iface_state, unit) act" where
  "NotifyOnSessionRequested nid =
     seq (look mCallBack) (\<lambda>cb.
     if cb then emit (EvSessionRequested nid)
     else seq (Interface_CloseSessionWithUser nid) (\<lambda>_. ret ()))"

text \<open>The manager is rebuilt with empty tables.\<close>

definition Interface_Initialize :: "(iface_state, unit) act" where
  "Interface_Initialize =
     update (\<lambda>s. s\<lparr>mNetworkSessionMgrPtr := True, mPacketData := [], mSessionList := [],
                   mSessionCreationMutex := False\<rparr>)"

text \<open>\<open>cleanup\<close> stands for \<open>PeriodicDeadSessionCleaup\<close>, which the repository does not define.\<close>

definition PeriodicUpdateOnSignalThread :: "(iface_state, unit) act \<Rightarrow> (iface_state, unit) act" where
  "PeriodicUpdateOnSignalThread cleanup =
     seq (look mpWebRTCSignalingInterface) (\<lambda>sig.
     seq (onlyif (sig \<noteq> None) (emit EvUpdate)) (\<lambda>_.
     seq (look mApiLevelMutex) (\<lambda>held.
     onlyif (\<not> held)
       (seq (update (\<lambda>s. s\<lparr>mApiLevelMutex := True\<rparr>)) (\<lambda>_.
        seq (with_manager cleanup) (\<lambda>_.
        update (\<lambda>s. s\<lparr>mApiLevelMutex := False\<rparr>)))))))"

section \<open>Sending\<close>

definition Interface_SendPacket ::
    "platform \<Rightarrow> NetworkID \<Rightarrow> bytes \<Rightarrow> u32 \<Rightarrow> ESendType \<Rightarrow> (iface_state, int) act" where
  "Interface_SendPacket pf remoteId pbdata cbData sendType =
     api_guarded
       (if 1197 \<le> cbData \<and> sendType = eSendTypeUnreliable then ret 0
        else if 15361 \<le> cbData \<and> sendType = eSendTypeReliable then ret 0
        else
          seq (on_lan (ret ())) (\<lambda>_.
          seq (look mReceiverId) (\<lambda>me.
          if me = remoteId then
            seq (with_manager (RemoteMessageReceived remoteId (take (unat cbData) pbdata))) (\<lambda>_. ret 1)
          else
            seq (with_manager (HasKnownConnection remoteId)) (\<lambda>known.
            seq (if known then ret True
                 else seq (on_lan (IsNetworkIdOnLan (pf_clock pf) remoteId)) (\<lambda>lan.
                      if lan then ret True else look IsSignedIntoSignalingService)) (\<lambda>reachable.
            if reachable then with_manager (Manager_SendPacket remoteId (take (unat cbData) pbdata) sendType)
            else ret 0)))))"

section \<open>Configuration\<close>

definition UpdateConfigWithRelayToken :: "iface_state \<Rightarrow> RTCConfiguration \<Rightarrow> RTCConfiguration" where
  "UpdateConfigWithRelayToken s cfg =
     (if servers cfg \<noteq> []
      then cfg\<lparr>servers := map (\<lambda>server. server\<lparr>is_username := mUsernameCert s, is_password := mPasswordCert s\<rparr>)
                 (servers cfg)\<rparr>
      else cfg)"

text \<open>A \<open>std::string\<close> assigned from a null \<open>const char*\<close> is undefined, and so is \<open>StunRelayServers[i]\<close> past 16.\<close>

definition from_c_str :: "string option \<Rightarrow> string outcome" where
  "from_c_str p = (case p of None \<Rightarrow> Faults NullDeref | Some t \<Rightarrow> Returns t)"

fun stun_servers :: "StunRelayServer list \<Rightarrow> nat \<Rightarrow> IceServer list outcome" where
  "stun_servers arr 0 = Returns []"
| "stun_servers [] (Suc n) = Faults OutOfBounds"
| "stun_servers (stun_server # arr) (Suc n) =
     andThen (from_c_str (Uri stun_server)) (\<lambda>u.
     andThen (from_c_str (Username stun_server)) (\<lambda>nm.
     andThen (from_c_str (Password stun_server)) (\<lambda>pw.
     andThen (stun_servers arr n) (\<lambda>rest.
     Returns (\<lparr>is_uri = u, is_username = nm, is_password = pw\<rparr> # rest)))))"

definition InitializeConfiguration ::
    "ServerConfiguration \<Rightarrow> RTCConfiguration \<Rightarrow> (iface_state, RTCConfiguration) act" where
  "InitializeConfiguration config outRtcConfig =
     (let out = outRtcConfig\<lparr>rtcp_mux_policy := kRtcpMuxPolicyRequire,
                             tcp_candidate_policy := kTcpCandidatePolicyDisabled, servers := []\<rparr>
      in seq (lift (stun_servers (StunRelayServers config) (unat (StunRelayServerCount config)))) (\<lambda>list.
         look (\<lambda>s. UpdateConfigWithRelayToken s (out\<lparr>servers := list\<rparr>))))"

definition RTCConfiguration_default :: RTCConfiguration where
  "RTCConfiguration_default =
     \<lparr>cfg_type = kAll, tcp_candidate_policy = kTcpCandidatePolicyEnabled,
      rtcp_mux_policy = kRtcpMuxPolicyRequire, servers = []\<rparr>"

definition SetServerConfiguration :: "ServerConfiguration \<Rightarrow> (iface_state, unit) act" where
  "SetServerConfiguration config =
     api_guarded (seq (InitializeConfiguration config RTCConfiguration_default) (\<lambda>config_out.
       post_signal (TaskSetConfig config_out)))"

definition SetWebRTCSignalingInterface :: "bool option \<Rightarrow> (iface_state, unit) act" where
  "SetWebRTCSignalingInterface iface = update (\<lambda>s. s\<lparr>mpWebRTCSignalingInterface := iface\<rparr>)"

text \<open>A fresh \<open>WebSocketSignalingInterfaceImpl\<close> is not signed in.\<close>

definition MakeDefaultSignalingChannel :: "ServerConfiguration \<Rightarrow> (iface_state, unit) act" where
  "MakeDefaultSignalingChannel config =
     onlyif (KnownMappedAddressCount config = 0) (update (\<lambda>s. s\<lparr>mpWebRTCSignalingInterface := Some False\<rparr>))"

definition uri_server :: "string \<Rightarrow> IceServer" where
  "uri_server u = \<lparr>is_uri = u, is_username = [], is_password = []\<rparr>"

definition SignIntoSignalingService :: "SignalingConfiguration \<Rightarrow> (iface_state, unit) act" where
  "SignIntoSignalingService config =
     (let ice_server_list =
            (case StunServer config of Some u \<Rightarrow> [uri_server u] | None \<Rightarrow> []) @
            (case TurnServer config of Some u \<Rightarrow> [uri_server u] | None \<Rightarrow> [])
      in seq (post_signal (TaskSetServers ice_server_list)) (\<lambda>_.
         seq (look mpWebRTCSignalingInterface) (\<lambda>sig. onlyif (sig \<noteq> None) (emit EvSignIn))))"

definition SignOutFromSignalingService :: "(iface_state, unit) act" where
  "SignOutFromSignalingService =
     seq (look mpWebRTCSignalingInterface) (\<lambda>sig. onlyif (sig \<noteq> None) (emit EvSignOut))"

section \<open>TURN configuration\<close>

fun is_substring :: "'a list \<Rightarrow> 'a list \<Rightarrow> bool" where
  "is_substring pat [] = (pat = [])"
| "is_substring pat (x # xs) = (take (length pat) (x # xs) = pat \<or> is_substring pat xs)"

definition turn_server_of :: "string \<times> string \<times> string list \<Rightarrow> TurnAuthServer" where
  "turn_server_of entry =
     (let (user, pw, urls) = entry
      in foldl (\<lambda>srv url_str.
           let srv = (if is_substring ''turn'' url_str then srv\<lparr>ta_turnUri := url_str\<rparr> else srv)
           in if is_substring ''stun'' url_str then srv\<lparr>ta_stunUri := url_str\<rparr> else srv)
         \<lparr>ta_userName = user, ta_password = pw, ta_turnUri = [], ta_stunUri = []\<rparr> urls)"

definition turn_auth_server_list :: "turn_json \<Rightarrow> TurnAuthServer list" where
  "turn_auth_server_list j =
     (case tj_servers j of None \<Rightarrow> [] | Some entries \<Rightarrow> map turn_server_of entries) @
     [\<lparr>ta_userName = tj_username j, ta_password = tj_password j, ta_turnUri = [], ta_stunUri = []\<rparr>]"

text \<open>The list is copied only if the target, cleared just before, is not empty.\<close>

definition install_turn_servers :: "TurnAuthServer list \<Rightarrow> RTCConfiguration \<Rightarrow> RTCConfiguration" where
  "install_turn_servers list cfg =
     (let cfg = cfg\<lparr>servers := []\<rparr>
      in if servers cfg \<noteq> []
         then cfg\<lparr>servers := servers cfg @ map (\<lambda>t.
                \<lparr>is_uri = ta_stunUri t, is_username = ta_userName t, is_password = ta_password t\<rparr>) list\<rparr>
         else cfg)"

definition ProcessTurnConfig_task :: "json_api \<Rightarrow> bool \<Rightarrow> string \<Rightarrow> (iface_state, unit) act" where
  "ProcessTurnConfig_task js frame_alive config =
     (if \<not> frame_alive then fail DanglingPointer
      else case js_turn js config of
             None \<Rightarrow> ret ()
           | Some j \<Rightarrow>
               update (\<lambda>s. s\<lparr>mRtcConfig := install_turn_servers (turn_auth_server_list j) (mRtcConfig s)\<rparr>))"

definition ProcessTurnConfig :: "string \<Rightarrow> (iface_state, unit) act" where
  "ProcessTurnConfig config = post_signal (TaskTurnConfig config)"

section \<open>Signals received\<close>

definition int_sub :: "int \<Rightarrow> int \<Rightarrow> int outcome" where
  "int_sub a b = (if - (2 ^ 31) \<le> a - b \<and> a - b < 2 ^ 31 then Returns (a - b) else Faults SignedOverflow)"

text \<open>
  The error a status code stands for, or else the text to parse as a signal.
\<close>

definition envelope_result :: "int outcome \<times> string outcome \<Rightarrow> (ESessionError + string) outcome" where
  "envelope_result env =
     andThen (fst env) (\<lambda>message_code.
     if message_code \<noteq> 0 then
       andThen (int_sub message_code 1) (\<lambda>m1.
       if m1 = 0 then Returns (Inl ESessionErrorDestinationNotLoggedIn) else
       andThen (int_sub message_code 2) (\<lambda>message_code_sub2.
       andThen (if message_code_sub2 = 0 then snd env else Returns []) (\<lambda>message_data.
       andThen (int_sub message_code_sub2 1) (\<lambda>message_code_sub2.
       if message_code_sub2 = 0 then Returns (Inl ESessionErrorSignalingTurnAuthFailed)
       else if message_code_sub2 = 1 then Returns (Inl ESessionErrorSignalingFallbackToBestEffortDelivery)
       else Returns (Inr message_data)))))
     else Returns (Inl ESessionErrorSignalingUnknownError))"

text \<open>\<open>parse\<close> is what the empty \<open>TryParseSignalingMessage\<close> gives for a text.\<close>

definition ReceiveFromSignalingChannel ::
    "json_api \<Rightarrow> (string \<Rightarrow> SignalingMessage option outcome) \<Rightarrow> NetworkID \<Rightarrow> string \<Rightarrow> bool
     \<Rightarrow> SignalingChannelId \<Rightarrow> (iface_state, unit) act" where
  "ReceiveFromSignalingChannel js parse remoteId message a3 channelId =
     seq (lift (if a3 then
                  (case js_envelope js message of
                     None \<Rightarrow> Returns (Inl ESessionErrorSignalingParsingFailure)
                   | Some env \<Rightarrow> envelope_result env)
                else Returns (Inr []))) (\<lambda>res.
     case res of
       Inl e \<Rightarrow> ProcessSessionError remoteId e
     | Inr message_data \<Rightarrow>
         seq (lift (parse message_data)) (\<lambda>result.
         case result of
           Some msg \<Rightarrow> with_manager (emit (EvProcessSignal remoteId msg channelId))
         | None \<Rightarrow> onlyif (is_substring ''Username'' message) (ProcessTurnConfig message)))"

definition ReceiveFromLanSignalingChannel ::
    "json_api \<Rightarrow> (string \<Rightarrow> SignalingMessage option outcome) \<Rightarrow> NetworkID \<Rightarrow> string \<Rightarrow> (iface_state, unit) act" where
  "ReceiveFromLanSignalingChannel js parse remoteId dat =
     ReceiveFromSignalingChannel js parse remoteId dat False Lan"

definition ReceiveFromWebSocketSignalingChannel ::
    "json_api \<Rightarrow> (string \<Rightarrow> SignalingMessage option outcome) \<Rightarrow> NetworkID \<Rightarrow> string \<Rightarrow> bool \<Rightarrow> (iface_state, unit) act" where
  "ReceiveFromWebSocketSignalingChannel js parse remoteId dat a3 =
     ReceiveFromSignalingChannel js parse remoteId dat a3 WebSocketChannel"

section \<open>Discovery packets\<close>

text \<open>\<open>assign(message_data.data())\<close> reads up to the first zero byte of the packet's array.\<close>

definition c_string_at :: "bytes \<Rightarrow> string outcome" where
  "c_string_at buf =
     (if 0 \<in> set buf then Returns (map (\<lambda>b. char_of (unat b)) (takeWhile (\<lambda>b. b \<noteq> 0) buf))
      else Faults OutOfBounds)"

definition HandleDiscoveryMessage ::
    "json_api \<Rightarrow> (string \<Rightarrow> SignalingMessage option outcome) \<Rightarrow> DiscoveryMessagePacket \<Rightarrow> (iface_state, unit) act" where
  "HandleDiscoveryMessage js parse packet =
     seq (look mReceiverId) (\<lambda>me.
     onlyif (RecipientId packet = me)
       (seq (lift (c_string_at (mMessageData packet))) (\<lambda>packet_data.
        ReceiveFromLanSignalingChannel js parse (SenderId packet) packet_data)))"

definition HandleDiscoveryResponse :: "DiscoveryResponsePacket \<Rightarrow> (iface_state, unit) act" where
  "HandleDiscoveryResponse packet =
     seq (look mCallBack) (\<lambda>cb. seq (look mReceiverId) (\<lambda>me.
     onlyif (cb \<and> SenderId packet \<noteq> me)
       (emit (EvBroadcastResponse (SenderId packet) (ApplicationData packet) (uint (PacketLength packet))))))"

text \<open>
  \<open>response\<close> is what the application's callback answers: whether to respond, the 1152 bytes of the
  buffer afterwards and the size it reports.  A size beyond the buffer is clamped to 1148 by the
  packet, so cutting the view at 1152 loses nothing.
\<close>

definition HandleDiscoveryRequest ::
    "bytes \<Rightarrow> bool \<times> bytes \<times> int \<Rightarrow> SocketAddress \<Rightarrow> DiscoveryRequestPacket \<Rightarrow> (iface_state, unit) act" where
  "HandleDiscoveryRequest junk response addr packet =
     seq (look mCallBack) (\<lambda>cb. seq (look mReceiverId) (\<lambda>me.
     onlyif (cb \<and> SenderId packet \<noteq> me)
       (let (answer, outData, n) = response
        in onlyif answer
             (seq (lift (DiscoveryResponsePacket_new junk me
                      (take (if n < 0 then 1152 else nat n) outData))) (\<lambda>disc_resp_pkt.
              on_lan (SendLanBroadcastResponse addr disc_resp_pkt))))))"

section \<open>Tasks of the interface\<close>

definition run_iface_task :: "platform \<Rightarrow> json_api \<Rightarrow> bool \<Rightarrow> net_task \<Rightarrow> (iface_state, unit) act" where
  "run_iface_task pf js frame_alive t =
     (case t of
        TaskTurnConfig config \<Rightarrow> ProcessTurnConfig_task js frame_alive config
      | TaskSetConfig cfg \<Rightarrow>
          if frame_alive then update (\<lambda>s. s\<lparr>mRtcConfig := cfg\<rparr>) else fail DanglingPointer
      | TaskSetServers list \<Rightarrow>
          if frame_alive then update (\<lambda>s. s\<lparr>mRtcConfig := (mRtcConfig s)\<lparr>servers := list\<rparr>\<rparr>)
          else fail DanglingPointer
      | _ \<Rightarrow> run_session_task pf frame_alive t)"


section \<open>Sending, by cases\<close>

lemma api_guarded_run:
  "\<not> mApiLevelMutex s \<Longrightarrow> body (s\<lparr>mApiLevelMutex := True\<rparr>) = (s', Returns x) \<Longrightarrow>
   api_guarded body s = (s'\<lparr>mApiLevelMutex := False\<rparr>, Returns x)"
  by (simp add: api_guarded_def run_seq)

lemma api_guarded_locked: "mApiLevelMutex s \<Longrightarrow> api_guarded body s = (s, Faults SelfDeadlock)"
  by (simp add: api_guarded_def run_seq)

lemma unlock_noop [simp]: "\<not> mApiLevelMutex s \<Longrightarrow> s\<lparr>mApiLevelMutex := False\<rparr> = s"
  by (cases s) simp

definition packet_limit :: "ESendType \<Rightarrow> nat" where
  "packet_limit ty = (case ty of eSendTypeUnreliable \<Rightarrow> 1196 | eSendTypeReliable \<Rightarrow> 15360)"

lemma Interface_SendPacket_too_big:
  assumes "packet_limit ty < unat n" "\<not> mApiLevelMutex s"
  shows "Interface_SendPacket pf r buf n ty s = (s, Returns 0)"
proof -
  have "1197 \<le> n" if "ty = eSendTypeUnreliable"
    using assms(1) that by (simp add: packet_limit_def word_le_nat_alt)
  moreover have "15361 \<le> n" if "ty = eSendTypeReliable"
    using assms(1) that by (simp add: packet_limit_def word_le_nat_alt)
  ultimately show ?thesis
    using assms(2) by (cases ty) (simp_all add: Interface_SendPacket_def api_guarded_def run_seq)
qed

lemma within_limit:
  assumes "unat (n :: u32) \<le> packet_limit ty"
  shows "\<not> (1197 \<le> n \<and> ty = eSendTypeUnreliable)" "\<not> (15361 \<le> n \<and> ty = eSendTypeReliable)"
  using assms by (auto simp: packet_limit_def word_le_nat_alt split: ESendType.splits)

text \<open>A packet to oneself is accepted and dropped.\<close>

lemma Interface_SendPacket_self:
  assumes "unat n \<le> packet_limit ty" "\<not> mApiLevelMutex s" "g_LanThread s \<noteq> None" "mNetworkSessionMgrPtr s"
  shows "Interface_SendPacket pf (mReceiverId s) buf n ty s = (s, Returns 1)"
proof -
  obtain l where l: "g_LanThread s = Some l" using assms(3) by blast
  show ?thesis
    using assms(2,4) within_limit [OF assms(1)] l
    by (cases s) (auto simp: Interface_SendPacket_def api_guarded_def with_manager_def run_seq on_lan_def
        RemoteMessageReceived_def)
qed

text \<open>The LAN thread is dereferenced for every packet that is not too big.\<close>

lemma Interface_SendPacket_no_lan:
  assumes "unat n \<le> packet_limit ty" "\<not> mApiLevelMutex s" "g_LanThread s = None"
  shows "snd (Interface_SendPacket pf r buf n ty s) = Faults NullDeref"
  using assms(2,3) within_limit [OF assms(1)]
  by (auto simp: Interface_SendPacket_def api_guarded_def run_seq on_lan_def)

section \<open>Signals, by cases\<close>

lemma int_sub_ok: "- (2 ^ 31) + b \<le> a \<Longrightarrow> a < 2 ^ 31 \<Longrightarrow> 0 \<le> b \<Longrightarrow> int_sub a b = Returns (a - b)"
  by (simp add: int_sub_def)

lemma envelope_result_value:
  assumes "- (2 ^ 31) + 3 \<le> code" "code < 2 ^ 31"
  shows "envelope_result (Returns code, text) =
     (if code = 0 then Returns (Inl ESessionErrorSignalingUnknownError)
      else if code = 1 then Returns (Inl ESessionErrorDestinationNotLoggedIn)
      else if code = 2 then andThen text (\<lambda>t. Returns (Inr t))
      else if code = 3 then Returns (Inl ESessionErrorSignalingTurnAuthFailed)
      else if code = 4 then Returns (Inl ESessionErrorSignalingFallbackToBestEffortDelivery)
      else Returns (Inr []))"
  using assms by (simp add: envelope_result_def int_sub_def)

lemma ReceiveFromSignalingChannel_error:
  assumes "js_envelope js msg = Some env" "envelope_result env = Returns (Inl e)"
  shows "ReceiveFromSignalingChannel js parse r msg True ch = ProcessSessionError r e"
  using assms by (simp add: ReceiveFromSignalingChannel_def fun_eq_iff run_seq)

lemma ReceiveFromSignalingChannel_unparsable:
  "js_envelope js msg = None \<Longrightarrow>
   ReceiveFromSignalingChannel js parse r msg True ch = ProcessSessionError r ESessionErrorSignalingParsingFailure"
  by (simp add: ReceiveFromSignalingChannel_def fun_eq_iff run_seq)

text \<open>A message from the LAN is never looked at: the empty text is parsed in its place.\<close>

lemma ReceiveFromLan_ignores_text:
  "parse [] = Returns (Some sig) \<Longrightarrow>
   ReceiveFromLanSignalingChannel js parse r msg = with_manager (emit (EvProcessSignal r sig Lan))"
  "parse [] = Returns None \<Longrightarrow> \<not> is_substring ''Username'' msg \<Longrightarrow>
   ReceiveFromLanSignalingChannel js parse r msg = ret ()"
  by (simp_all add: ReceiveFromLanSignalingChannel_def ReceiveFromSignalingChannel_def fun_eq_iff run_seq)

section \<open>Configuration, by cases\<close>

lemma stun_servers_length: "stun_servers arr n = Returns l \<Longrightarrow> length l = n"
  by (induction arr n arbitrary: l rule: stun_servers.induct) (auto simp: andThen_eq_Returns)

lemma stun_servers_bound: "length arr < n \<Longrightarrow> \<not> returns (stun_servers arr n)"
  by (induction arr n rule: stun_servers.induct)
    (auto simp: from_c_str_def returns_iff andThen_eq_Returns split: option.splits)

lemma stun_servers_uris:
  "stun_servers arr n = Returns l \<Longrightarrow> map (\<lambda>x. Some (is_uri x)) l = map Uri (take n arr)"
  by (induction arr n arbitrary: l rule: stun_servers.induct)
    (auto simp: andThen_eq_Returns from_c_str_def split: option.splits)

text \<open>
  A server configuration is turned into ICE servers one by one, each with the credentials of the
  relay token and not those of the configuration.
\<close>

lemma InitializeConfiguration_run:
  assumes "stun_servers (StunRelayServers config) (unat (StunRelayServerCount config)) = Returns l"
  obtains out where "InitializeConfiguration config cfg s = (s, Returns out)"
    "rtcp_mux_policy out = kRtcpMuxPolicyRequire" "tcp_candidate_policy out = kTcpCandidatePolicyDisabled"
    "cfg_type out = cfg_type cfg" "map is_uri (servers out) = map is_uri l"
    "\<forall>x\<in>set (servers out). is_username x = mUsernameCert s \<and> is_password x = mPasswordCert s"
  using assms
  by (auto simp: InitializeConfiguration_def run_seq UpdateConfigWithRelayToken_def Let_def comp_def)

lemma install_turn_servers_empty: "servers (install_turn_servers list cfg) = []"
  by (simp add: install_turn_servers_def Let_def)

lemma ProcessTurnConfig_task_run:
  "js_turn js config = Some j \<Longrightarrow> ProcessTurnConfig_task js True config s =
     (s\<lparr>mRtcConfig := (mRtcConfig s)\<lparr>servers := []\<rparr>\<rparr>, Returns ())"
  by (simp add: ProcessTurnConfig_task_def install_turn_servers_def Let_def)

section \<open>Discovery packets, by cases\<close>

lemma takeWhile_nonzero_append:
  "(0 :: u8) \<notin> set msg \<Longrightarrow> takeWhile (\<lambda>b. b \<noteq> 0) (msg @ rest) = msg @ takeWhile (\<lambda>b. b \<noteq> 0) rest"
  by (induction msg) auto

text \<open>
  The text taken from a message packet: the message, when no zero byte is in it, followed by
  whatever the uninitialised rest of the array holds up to its first zero.
\<close>

lemma c_string_of_message:
  assumes "length junk = 1140" "length msg \<le> 1140" "0 \<notin> set msg"
    and "DiscoveryMessagePacket_new junk src dst msg = Returns p" "0 \<in> set (drop (length msg) junk)"
  shows "c_string_at (mMessageData p) =
     Returns (map (\<lambda>b. char_of (unat b)) (msg @ takeWhile (\<lambda>b. b \<noteq> 0) (drop (length msg) junk)))"
proof -
  have "unat (word_of_nat (length msg) :: u32) = length msg"
    using assms(2) by (simp add: unat_of_nat)
  then have p: "mMessageData p = msg @ drop (length msg) junk"
    using assms(1,2,4) by (auto simp: DiscoveryMessagePacket_new_def memcpy_at_def Let_def)
  then show ?thesis
    using assms(3,5) by (simp add: c_string_at_def takeWhile_nonzero_append)
qed

lemma HandleDiscoveryMessage_other:
  "RecipientId p \<noteq> mReceiverId s \<Longrightarrow> HandleDiscoveryMessage js parse p s = (s, Returns ())"
  by (simp add: HandleDiscoveryMessage_def run_seq)

lemma HandleDiscoveryRequest_no_reply:
  assumes "length junk = 1148" "g_LanThread s \<noteq> None"
  shows "HandleDiscoveryRequest junk response addr p s = (s, Returns ())"
proof -
  obtain l where l: "g_LanThread s = Some l" using assms(2) by blast
  obtain q where q: "DiscoveryResponsePacket_new junk (mReceiverId s)
      (take (if snd (snd response) < 0 then 1152 else nat (snd (snd response))) (fst (snd response))) = Returns q"
    using DiscoveryResponsePacket_new_Returns [OF assms(1)] by metis
  show ?thesis
    using l q by (cases response; cases s)
      (auto simp: HandleDiscoveryRequest_def run_seq SendLanBroadcastResponse_def on_lan_def Let_def)
qed

end
