(* ===== verification/Web_Socket.thy ===== *)
theory Web_Socket
  imports Effects
begin

text \<open>
  \<open>WebSocket\<close> and \<open>WebSocketSignalingInterfaceImpl\<close> (\<open>connection/WebSocket.cpp\<close>,
  \<open>connection/WebSocketSignalingInterfaceImpl.cpp\<close>) over the handle API of libHttpClient, and the small
  observer classes.  The answers of libHttpClient are the fields of \<open>hc_api\<close>; the calls made on it
  and the completion callbacks are recorded.  A null handle is \<open>None\<close>.
\<close>

section \<open>State\<close>

datatype hc_call =
    HcDuplicate "nat option"
  | HcSendMessage nat string
  | HcClose "nat option"
  | HcDisconnect "nat option"
  | HcGetEventFunctions "nat option"
  | HcSetHeader nat string string
  | HcComplete int  \<comment> \<open>\<open>onComplete\<close> is called with this error value\<close>

record hc_api =
  hc_duplicate :: "nat option \<Rightarrow> nat option"
  hc_send :: "nat \<Rightarrow> string \<Rightarrow> int"
  hc_close :: "nat option \<Rightarrow> int"
  hc_get_functions :: "nat option \<Rightarrow> int"
  hc_set_header :: "nat \<Rightarrow> string \<Rightarrow> string \<Rightarrow> int"

record WebSocket =
  mOperationGuard :: bool
  mWebSocketHandle :: "nat option"
  hc_calls :: "hc_call list"

definition E_INVALIDARG :: int where "E_INVALIDARG = - 2147024809"

definition hc :: "hc_call \<Rightarrow> (WebSocket, unit) act" where
  "hc c = update (\<lambda>w. w\<lparr>hc_calls := hc_calls w @ [c]\<rparr>)"

section \<open>Operations\<close>

definition IsConnected :: "WebSocket \<Rightarrow> bool" where
  "IsConnected w = (mWebSocketHandle w \<noteq> None)"

text \<open>
  The error code given to the callback is default-constructed, value 0, on every failure.
\<close>

definition WebSocket_Send :: "hc_api \<Rightarrow> string \<Rightarrow> bool \<Rightarrow> (WebSocket, unit) act" where
  "WebSocket_Send api message onComplete =
     seq (look mOperationGuard) (\<lambda>held.
     if held then fail SelfDeadlock
     else
       seq (look mWebSocketHandle) (\<lambda>h.
       seq (hc (HcDuplicate h)) (\<lambda>_.
       case hc_duplicate api h of
         None \<Rightarrow> onlyif onComplete (hc (HcComplete 0))
       | Some dupHandle \<Rightarrow>
           seq (hc (HcSendMessage dupHandle message)) (\<lambda>_.
           if hc_send api dupHandle message < 0 then
             if onComplete then hc (HcComplete 0) else fail BadFunctionCall
           else hc (HcClose (Some dupHandle))))))"

definition DeallocateSocketAsync :: "hc_api \<Rightarrow> nat option \<Rightarrow> (WebSocket, unit) act" where
  "DeallocateSocketAsync api socket =
     seq (hc (HcGetEventFunctions socket)) (\<lambda>_.
     onlyif (0 \<le> hc_get_functions api socket) (hc (HcClose socket)))"

definition DeallocateSocket :: "hc_api \<Rightarrow> nat option \<Rightarrow> (WebSocket, int) act" where
  "DeallocateSocket api handle =
     (if handle = None then ret E_INVALIDARG
      else seq (hc (HcGetEventFunctions handle)) (\<lambda>_.
           let fetch_result = hc_get_functions api handle
           in if 0 \<le> fetch_result then seq (hc (HcClose handle)) (\<lambda>_. ret (hc_close api handle))
              else ret fetch_result))"

text \<open>After the swap the member is null, and it is the member that is disconnected and closed.\<close>

definition Disconnect :: "hc_api \<Rightarrow> (WebSocket, unit) act" where
  "Disconnect api =
     seq (look mOperationGuard) (\<lambda>held.
     if held then fail SelfDeadlock
     else
       seq (look mWebSocketHandle) (\<lambda>m_handle.
       seq (update (\<lambda>w. w\<lparr>mWebSocketHandle := None\<rparr>)) (\<lambda>_.
       onlyif (m_handle \<noteq> None)
         (seq (look mWebSocketHandle) (\<lambda>h.
          seq (hc (HcDisconnect h)) (\<lambda>_.
          DeallocateSocketAsync api h))))))"

text \<open>\<open>AllocateSocket\<close> has an empty body; \<open>off_end\<close> is what it gives.\<close>

fun set_headers :: "hc_api \<Rightarrow> nat \<Rightarrow> (string \<times> string) list \<Rightarrow> (WebSocket, unit) act" where
  "set_headers api h [] = ret ()"
| "set_headers api h ((name, val) # hdrs) =
     seq (hc (HcSetHeader h name val)) (\<lambda>_.
     if hc_set_header api h name val < 0 then ret () else set_headers api h hdrs)"

definition WebSocket_Connect ::
    "hc_api \<Rightarrow> nat option outcome \<Rightarrow> (string \<times> string) list \<Rightarrow> bool \<Rightarrow> (WebSocket, unit) act" where
  "WebSocket_Connect api off_end headers onComplete =
     seq (lift off_end) (\<lambda>h.
     seq (update (\<lambda>w. w\<lparr>mWebSocketHandle := h\<rparr>)) (\<lambda>_.
     case h of
       None \<Rightarrow> onlyif onComplete (hc (HcComplete 0))
     | Some x \<Rightarrow> set_headers api x headers))"

section \<open>The signalling interface\<close>

record WebSocketSignalingInterfaceImpl =
  mWebSocket :: WebSocket
  mStartPingTimer :: time
  mTurnCredentialsExpirationInSeconds :: int
  mTurnCredentialTimer :: time

definition WebSocketSignalingInterfaceImpl_new :: "time \<Rightarrow> WebSocketSignalingInterfaceImpl" where
  "WebSocketSignalingInterfaceImpl_new t =
     \<lparr>mWebSocket = \<lparr>mOperationGuard = False, mWebSocketHandle = None, hc_calls = []\<rparr>,
      mStartPingTimer = t, mTurnCredentialsExpirationInSeconds = 0, mTurnCredentialTimer = t\<rparr>"

definition SignOut :: "hc_api \<Rightarrow> (WebSocketSignalingInterfaceImpl, unit) act" where
  "SignOut api = (\<lambda>s. case Disconnect api (mWebSocket s) of (w, r) \<Rightarrow> (s\<lparr>mWebSocket := w\<rparr>, r))"

definition IsSignedIn :: "WebSocketSignalingInterfaceImpl \<Rightarrow> bool" where
  "IsSignedIn s = IsConnected (mWebSocket s)"

section \<open>Observers\<close>

text \<open>
  The callbacks of the observers are optional; \<open>'c\<close> is what calling one does.  A completed
  \<open>SetRemoteDescription\<close> calls exactly one of the two.
\<close>

record 'c description_observer =
  onSuccessCallback :: "'c option"
  onFailureCallback :: "'c option"

definition OnSuccess :: "'c description_observer \<Rightarrow> 'c option" where
  "OnSuccess ob = onSuccessCallback ob"

definition OnFailure :: "'c description_observer \<Rightarrow> 'c option" where
  "OnFailure ob = onFailureCallback ob"

definition OnSetRemoteDescriptionComplete :: "bool \<Rightarrow> 'c description_observer \<Rightarrow> 'c option" where
  "OnSetRemoteDescriptionComplete ok ob = (if \<not> ok then onFailureCallback ob else onSuccessCallback ob)"

section \<open>Behaviour\<close>

lemma hc_run [simp]: "hc c w = (w\<lparr>hc_calls := hc_calls w @ [c]\<rparr>, Returns ())"
  by (simp add: hc_def)

lemma Disconnect_run:
  assumes "\<not> mOperationGuard w" "mWebSocketHandle w = Some h"
  shows "Disconnect api w =
     (w\<lparr>mWebSocketHandle := None, hc_calls := hc_calls w @ [HcDisconnect None, HcGetEventFunctions None] @
        (if 0 \<le> hc_get_functions api None then [HcClose None] else [])\<rparr>, Returns ())"
  using assms by (simp add: Disconnect_def DeallocateSocketAsync_def run_seq)

text \<open>The open handle appears in no call at all.\<close>

definition mentions :: "nat \<Rightarrow> hc_call \<Rightarrow> bool" where
  "mentions h c =
     (case c of
        HcDuplicate x \<Rightarrow> x = Some h | HcSendMessage x m \<Rightarrow> x = h | HcClose x \<Rightarrow> x = Some h
      | HcDisconnect x \<Rightarrow> x = Some h | HcGetEventFunctions x \<Rightarrow> x = Some h
      | HcSetHeader x n v \<Rightarrow> x = h | HcComplete e \<Rightarrow> False)"

lemma Disconnect_leaks:
  assumes "\<not> mOperationGuard w" "mWebSocketHandle w = Some h"
  obtains w' cs where "Disconnect api w = (w', Returns ())" "mWebSocketHandle w' = None"
    "hc_calls w' = hc_calls w @ cs" "\<forall>c\<in>set cs. \<not> mentions h c"
  using Disconnect_run [OF assms, of api] by (auto simp: mentions_def)

lemma WebSocket_Send_ok:
  assumes "\<not> mOperationGuard w" "mWebSocketHandle w = Some h" "hc_duplicate api (Some h) = Some d"
    and "0 \<le> hc_send api d msg"
  shows "WebSocket_Send api msg oc w =
     (w\<lparr>hc_calls := hc_calls w @ [HcDuplicate (Some h), HcSendMessage d msg, HcClose (Some d)]\<rparr>, Returns ())"
  using assms by (simp add: WebSocket_Send_def run_seq)

text \<open>When the message cannot be sent the duplicate is not closed, and the callback is told 0.\<close>

lemma WebSocket_Send_failed:
  assumes "\<not> mOperationGuard w" "mWebSocketHandle w = Some h" "hc_duplicate api (Some h) = Some d"
    and "hc_send api d msg < 0"
  shows "WebSocket_Send api msg True w =
     (w\<lparr>hc_calls := hc_calls w @ [HcDuplicate (Some h), HcSendMessage d msg, HcComplete 0]\<rparr>, Returns ())"
    and "snd (WebSocket_Send api msg False w) = Faults BadFunctionCall"
  using assms by (simp_all add: WebSocket_Send_def run_seq)

text \<open>Headers are set in order up to and including the first one that is refused.\<close>

lemma set_headers_run:
  "set_headers api h hdrs w =
     (w\<lparr>hc_calls := hc_calls w @ map (\<lambda>(n, v). HcSetHeader h n v)
        (takeWhile (\<lambda>(n, v). 0 \<le> hc_set_header api h n v) hdrs @
         take 1 (dropWhile (\<lambda>(n, v). 0 \<le> hc_set_header api h n v) hdrs))\<rparr>, Returns ())"
proof (induction hdrs arbitrary: w)
  case (Cons x hdrs)
  then show ?case by (cases x) (auto simp: run_seq)
qed simp

lemma SignOut_signs_out:
  assumes "\<not> mOperationGuard (mWebSocket s)"
  obtains s' where "SignOut api s = (s', Returns ())" "\<not> IsSignedIn s'"
proof (cases "mWebSocketHandle (mWebSocket s)")
  case None
  then show thesis
    using assms by (intro that) (simp_all add: SignOut_def Disconnect_def run_seq IsSignedIn_def IsConnected_def)
next
  case (Some h)
  show thesis
    by (rule that, simp add: SignOut_def Disconnect_run [OF assms Some])
      (simp add: IsSignedIn_def IsConnected_def)
qed

end
