(* ===== verification/Cow_Buffer.thy ===== *)
theory Cow_Buffer
  imports Buffers
begin

text \<open>
  \<open>rtc::CopyOnWriteBuffer\<close> (\<open>rtc_base/copy_on_write_buffer.h\<close> and \<open>.cc\<close>), in which the session
  queues its packets and hands them to the channels.  Copies share one reference-counted
  \<open>rtc::Buffer\<close>, so the model has an explicit memory: blocks at addresses with their reference
  counts, and the variables of type \<open>CopyOnWriteBuffer\<close> with the block, the offset and the size of
  their view.  The operations run on a variable and change counts the way \<open>scoped_refptr\<close>
  (\<open>api/scoped_refptr.h\<close>) and \<open>FinalRefCountedObject\<close> do.  The refinement at the end says that,
  whatever is shared, each variable behaves as a byte list of its own.
\<close>

section \<open>Memory\<close>

record RefCountedBuffer =
  rcb_buffer :: BufferT
  ref_count :: nat

record cow =
  cow_buffer :: "nat option"
  cow_offset :: nat
  cow_size :: nat

record memory =
  cow_blocks :: "nat \<Rightarrow> RefCountedBuffer option"
  fresh :: nat
  cows :: "nat \<Rightarrow> cow option"

definition the_cow :: "nat \<Rightarrow> (memory, cow) act" where
  "the_cow h = (\<lambda>s. case cows s h of None \<Rightarrow> (s, Faults DanglingPointer) | Some c \<Rightarrow> (s, Returns c))"

definition put_cow :: "nat \<Rightarrow> cow \<Rightarrow> (memory, unit) act" where
  "put_cow h c = update (\<lambda>s. s\<lparr>cows := (cows s)(h \<mapsto> c)\<rparr>)"

definition the_block :: "nat \<Rightarrow> (memory, RefCountedBuffer) act" where
  "the_block a = (\<lambda>s. case cow_blocks s a of None \<Rightarrow> (s, Faults DanglingPointer) | Some r \<Rightarrow> (s, Returns r))"

definition put_block :: "nat \<Rightarrow> BufferT \<Rightarrow> (memory, unit) act" where
  "put_block a b = seq (the_block a) (\<lambda>r.
     update (\<lambda>s. s\<lparr>cow_blocks := (cow_blocks s)(a \<mapsto> r\<lparr>rcb_buffer := b\<rparr>)\<rparr>))"

text \<open>\<open>new RefCountedBuffer (...)\<close>: the count starts at zero.\<close>

definition new_RefCountedBuffer :: "BufferT outcome \<Rightarrow> (memory, nat) act" where
  "new_RefCountedBuffer ob = seq (lift ob) (\<lambda>b. seq (look fresh) (\<lambda>a.
     seq (update (\<lambda>s. s\<lparr>cow_blocks := (cow_blocks s)(a \<mapsto> \<lparr>rcb_buffer = b, ref_count = 0\<rparr>), fresh := Suc a\<rparr>))
         (\<lambda>_. ret a)))"

section \<open>References\<close>

definition AddRef :: "nat \<Rightarrow> (memory, unit) act" where
  "AddRef a = seq (the_block a) (\<lambda>r.
     update (\<lambda>s. s\<lparr>cow_blocks := (cow_blocks s)(a \<mapsto> r\<lparr>ref_count := ref_count r + 1\<rparr>)\<rparr>))"

definition Release :: "nat \<Rightarrow> (memory, unit) act" where
  "Release a = seq (the_block a) (\<lambda>r.
     if ref_count r - 1 = 0 then update (\<lambda>s. s\<lparr>cow_blocks := (cow_blocks s)(a := None)\<rparr>)
     else update (\<lambda>s. s\<lparr>cow_blocks := (cow_blocks s)(a \<mapsto> r\<lparr>ref_count := ref_count r - 1\<rparr>)\<rparr>))"

definition HasOneRef :: "nat \<Rightarrow> (memory, bool) act" where
  "HasOneRef a = seq (the_block a) (\<lambda>r. ret (ref_count r = 1))"

text \<open>\<open>scoped_refptr::operator= (T*)\<close> on the \<open>buffer_\<close> of a variable.\<close>

definition refptr_set :: "nat \<Rightarrow> nat option \<Rightarrow> (memory, unit) act" where
  "refptr_set h p =
     seq (case p of None \<Rightarrow> ret () | Some a \<Rightarrow> AddRef a) (\<lambda>_.
     seq (the_cow h) (\<lambda>c.
     seq (case cow_buffer c of None \<Rightarrow> ret () | Some a \<Rightarrow> Release a) (\<lambda>_.
     put_cow h (c\<lparr>cow_buffer := p\<rparr>))))"

text \<open>The offset and size members.\<close>

definition set_view :: "nat \<Rightarrow> nat \<Rightarrow> nat \<Rightarrow> (memory, unit) act" where
  "set_view h off n = seq (the_cow h) (\<lambda>c. put_cow h (c\<lparr>cow_offset := off, cow_size := n\<rparr>))"

definition cow_null :: cow where
  "cow_null = \<lparr>cow_buffer = None, cow_offset = 0, cow_size = 0\<rparr>"

section \<open>Construction and destruction\<close>

definition cow_create :: "nat \<Rightarrow> (memory, unit) act" where
  "cow_create h = put_cow h cow_null"

definition cow_copy :: "nat \<Rightarrow> nat \<Rightarrow> (memory, unit) act" where
  "cow_copy h src = seq (the_cow src) (\<lambda>b.
     seq (put_cow h cow_null) (\<lambda>_.
     seq (refptr_set h (cow_buffer b)) (\<lambda>_.
     set_view h (cow_offset b) (cow_size b))))"

text \<open>The moved reference leaves the source without touching the count.\<close>

definition cow_move :: "nat \<Rightarrow> nat \<Rightarrow> (memory, unit) act" where
  "cow_move h src = seq (the_cow src) (\<lambda>b.
     seq (put_cow h b) (\<lambda>_. put_cow src cow_null))"

definition cow_sized :: "garbage \<Rightarrow> nat \<Rightarrow> nat \<Rightarrow> nat \<Rightarrow> (memory, unit) act" where
  "cow_sized g h n capacity =
     seq (put_cow h cow_null) (\<lambda>_.
     seq (if n > 0 \<or> capacity > 0
          then seq (new_RefCountedBuffer (Returns (BufferT_sized g n capacity))) (\<lambda>a. refptr_set h (Some a))
          else ret ()) (\<lambda>_.
     set_view h 0 n))"

definition cow_from :: "garbage \<Rightarrow> nat \<Rightarrow> bytes \<Rightarrow> nat \<Rightarrow> (memory, unit) act" where
  "cow_from g h data capacity =
     seq (cow_sized g h (length data) capacity) (\<lambda>_.
     seq (the_cow h) (\<lambda>c.
     case cow_buffer c of
       None \<Rightarrow> ret ()
     | Some a \<Rightarrow>
         seq (the_block a) (\<lambda>r.
         seq (lift (if data = [] then Returns (rcb_buffer r) else buf_memcpy (rcb_buffer r) 0 data)) (\<lambda>b.
         seq (put_block a b) (\<lambda>_.
         set_view h 0 (length data))))))"

definition cow_destroy :: "nat \<Rightarrow> (memory, unit) act" where
  "cow_destroy h = seq (refptr_set h None) (\<lambda>_. update (\<lambda>s. s\<lparr>cows := (cows s)(h := None)\<rparr>))"

section \<open>Assignment\<close>

definition cow_assign :: "nat \<Rightarrow> nat \<Rightarrow> (memory, unit) act" where
  "cow_assign h src =
     (if src \<noteq> h
      then seq (the_cow src) (\<lambda>b.
           seq (refptr_set h (cow_buffer b)) (\<lambda>_.
           set_view h (cow_offset b) (cow_size b)))
      else ret ())"

text \<open>
  Move assignment goes through a temporary reference that takes the source's, swaps with the
  destination's and then releases what the destination held.
\<close>

definition cow_move_assign :: "nat \<Rightarrow> nat \<Rightarrow> (memory, unit) act" where
  "cow_move_assign h src = seq (the_cow src) (\<lambda>b.
     seq (put_cow src (b\<lparr>cow_buffer := None\<rparr>)) (\<lambda>_.
     seq (the_cow h) (\<lambda>c.
     seq (put_cow h (c\<lparr>cow_buffer := cow_buffer b\<rparr>)) (\<lambda>_.
     seq (case cow_buffer c of None \<Rightarrow> ret () | Some a \<Rightarrow> Release a) (\<lambda>_.
     seq (the_cow src) (\<lambda>b'.
     seq (set_view h (cow_offset b') (cow_size b')) (\<lambda>_.
     set_view src 0 0)))))))"

definition cow_swap :: "nat \<Rightarrow> nat \<Rightarrow> (memory, unit) act" where
  "cow_swap h k = seq (the_cow h) (\<lambda>a. seq (the_cow k) (\<lambda>b.
     seq (put_cow h b) (\<lambda>_. put_cow k a)))"

section \<open>Access\<close>

definition cow_capacity :: "nat \<Rightarrow> (memory, nat) act" where
  "cow_capacity h = seq (the_cow h) (\<lambda>c.
     case cow_buffer c of
       None \<Rightarrow> ret 0
     | Some a \<Rightarrow> seq (the_block a) (\<lambda>r. ret (buf_capacity (rcb_buffer r) - cow_offset c)))"

definition cow_IsConsistent :: "nat \<Rightarrow> (memory, bool) act" where
  "cow_IsConsistent h = seq (the_cow h) (\<lambda>c.
     case cow_buffer c of
       None \<Rightarrow> ret (cow_size c = 0 \<and> cow_offset c = 0)
     | Some a \<Rightarrow> seq (the_block a) (\<lambda>r.
         ret (buf_capacity (rcb_buffer r) > 0 \<and> cow_offset c \<le> buf_size (rcb_buffer r) \<and>
              cow_offset c + cow_size c \<le> buf_size (rcb_buffer r))))"

definition cow_empty :: "nat \<Rightarrow> (memory, bool) act" where
  "cow_empty h = seq (the_cow h) (\<lambda>c. ret (cow_size c = 0))"

definition cow_index :: "nat \<Rightarrow> nat \<Rightarrow> (memory, u8) act" where
  "cow_index h i = seq (the_cow h) (\<lambda>c.
     case cow_buffer c of
       None \<Rightarrow> fail NullDeref
     | Some a \<Rightarrow> seq (the_block a) (\<lambda>r. lift (buf_index (rcb_buffer r) (cow_offset c + i))))"

text \<open>The bytes of the view, what \<open>memcmp\<close> reads from \<open>cdata ()\<close>.\<close>

definition cow_view :: "cow \<Rightarrow> (memory, bytes) act" where
  "cow_view c =
     (case cow_buffer c of
        None \<Rightarrow> ret []
      | Some a \<Rightarrow> seq (the_block a) (\<lambda>r.
          ret (take (cow_size c) (drop (cow_offset c) (buf_block (rcb_buffer r))))))"

definition cow_eq :: "nat \<Rightarrow> nat \<Rightarrow> (memory, bool) act" where
  "cow_eq h k = seq (the_cow h) (\<lambda>a. seq (the_cow k) (\<lambda>b.
     if cow_size a \<noteq> cow_size b then ret False
     else if cow_buffer a = cow_buffer b \<and> cow_offset a = cow_offset b then ret True
     else seq (cow_view a) (\<lambda>xs. seq (cow_view b) (\<lambda>ys. ret (xs = ys)))))"

section \<open>Mutation\<close>

definition cow_UnshareAndEnsureCapacity :: "garbage \<Rightarrow> nat \<Rightarrow> nat \<Rightarrow> (memory, unit) act" where
  "cow_UnshareAndEnsureCapacity g h new_capacity = seq (the_cow h) (\<lambda>c.
     case cow_buffer c of
       None \<Rightarrow> fail NullDeref
     | Some a \<Rightarrow>
         seq (HasOneRef a) (\<lambda>one.
         seq (cow_capacity h) (\<lambda>cap.
         if one \<and> new_capacity \<le> cap then ret ()
         else seq (cow_view c) (\<lambda>xs.
              seq (new_RefCountedBuffer (BufferT_from g xs new_capacity)) (\<lambda>a'.
              seq (refptr_set h (Some a')) (\<lambda>_.
              set_view h 0 (cow_size c)))))))"

text \<open>\<open>MutableData\<close> answers a pointer into the block, here its address and offset.\<close>

definition cow_MutableData :: "garbage \<Rightarrow> nat \<Rightarrow> (memory, (nat \<times> nat) option) act" where
  "cow_MutableData g h = seq (the_cow h) (\<lambda>c.
     case cow_buffer c of
       None \<Rightarrow> ret None
     | Some _ \<Rightarrow>
         seq (cow_capacity h) (\<lambda>cap.
         seq (cow_UnshareAndEnsureCapacity g h cap) (\<lambda>_.
         seq (the_cow h) (\<lambda>c'.
         ret (map_option (\<lambda>a. (a, cow_offset c')) (cow_buffer c'))))))"

definition cow_SetData :: "garbage \<Rightarrow> nat \<Rightarrow> bytes \<Rightarrow> (memory, unit) act" where
  "cow_SetData g h data =
     seq (the_cow h) (\<lambda>c.
     seq (case cow_buffer c of
            None \<Rightarrow>
              (if length data > 0
               then seq (new_RefCountedBuffer (BufferT_from g data (length data))) (\<lambda>a. refptr_set h (Some a))
               else refptr_set h None)
          | Some a \<Rightarrow>
              seq (HasOneRef a) (\<lambda>one.
              if \<not> one
              then seq (cow_capacity h) (\<lambda>cap.
                   seq (new_RefCountedBuffer (BufferT_from g data cap)) (\<lambda>a. refptr_set h (Some a)))
              else seq (the_block a) (\<lambda>r.
                   seq (lift (buf_SetData g data (rcb_buffer r))) (\<lambda>b. put_block a b)))) (\<lambda>_.
     set_view h 0 (length data)))"

definition cow_AppendData :: "garbage \<Rightarrow> nat \<Rightarrow> bytes \<Rightarrow> (memory, unit) act" where
  "cow_AppendData g h data =
     seq (the_cow h) (\<lambda>c.
     case cow_buffer c of
       None \<Rightarrow>
         seq (new_RefCountedBuffer (BufferT_from g data (length data))) (\<lambda>a.
         seq (refptr_set h (Some a)) (\<lambda>_.
         set_view h 0 (length data)))
     | Some _ \<Rightarrow>
         seq (cow_capacity h) (\<lambda>cap.
         seq (cow_UnshareAndEnsureCapacity g h (max cap (cow_size c + length data))) (\<lambda>_.
         seq (the_cow h) (\<lambda>c.
         case cow_buffer c of
           None \<Rightarrow> fail NullDeref
         | Some a \<Rightarrow>
             seq (the_block a) (\<lambda>r.
             seq (lift (buf_SetSize g (cow_offset c + cow_size c) (rcb_buffer r))) (\<lambda>b.
             seq (lift (buf_AppendData g data b)) (\<lambda>b.
             seq (put_block a b) (\<lambda>_.
             set_view h (cow_offset c) (cow_size c + length data)))))))))"

definition cow_SetSize :: "garbage \<Rightarrow> nat \<Rightarrow> nat \<Rightarrow> (memory, unit) act" where
  "cow_SetSize g h n =
     seq (the_cow h) (\<lambda>c.
     case cow_buffer c of
       None \<Rightarrow>
         (if n > 0
          then seq (new_RefCountedBuffer (Returns (BufferT_sized g n n))) (\<lambda>a.
               seq (refptr_set h (Some a)) (\<lambda>_. set_view h 0 n))
          else ret ())
     | Some _ \<Rightarrow>
         if n \<le> cow_size c then set_view h (cow_offset c) n
         else
           seq (cow_capacity h) (\<lambda>cap.
           seq (cow_UnshareAndEnsureCapacity g h (max cap n)) (\<lambda>_.
           seq (the_cow h) (\<lambda>c.
           case cow_buffer c of
             None \<Rightarrow> fail NullDeref
           | Some a \<Rightarrow>
               seq (the_block a) (\<lambda>r.
               seq (lift (buf_SetSize g (n + cow_offset c) (rcb_buffer r))) (\<lambda>b.
               seq (put_block a b) (\<lambda>_.
               set_view h (cow_offset c) n)))))))"

definition cow_EnsureCapacity :: "garbage \<Rightarrow> nat \<Rightarrow> nat \<Rightarrow> (memory, unit) act" where
  "cow_EnsureCapacity g h new_capacity =
     seq (the_cow h) (\<lambda>c.
     case cow_buffer c of
       None \<Rightarrow>
         (if new_capacity > 0
          then seq (new_RefCountedBuffer (Returns (BufferT_sized g 0 new_capacity))) (\<lambda>a.
               seq (refptr_set h (Some a)) (\<lambda>_. set_view h 0 0))
          else ret ())
     | Some _ \<Rightarrow>
         seq (cow_capacity h) (\<lambda>cap.
         if new_capacity \<le> cap then ret ()
         else cow_UnshareAndEnsureCapacity g h new_capacity))"

definition cow_Clear :: "garbage \<Rightarrow> nat \<Rightarrow> (memory, unit) act" where
  "cow_Clear g h =
     seq (the_cow h) (\<lambda>c.
     case cow_buffer c of
       None \<Rightarrow> ret ()
     | Some a \<Rightarrow>
         seq (seq (HasOneRef a) (\<lambda>one.
              if one then seq (the_block a) (\<lambda>r. put_block a (buf_Clear (rcb_buffer r)))
              else seq (cow_capacity h) (\<lambda>cap.
                   seq (new_RefCountedBuffer (Returns (BufferT_sized g 0 cap))) (\<lambda>a.
                   refptr_set h (Some a))))) (\<lambda>_.
         set_view h 0 0))"

definition cow_Slice :: "nat \<Rightarrow> nat \<Rightarrow> nat \<Rightarrow> nat \<Rightarrow> (memory, unit) act" where
  "cow_Slice h src off len = seq (cow_copy h src) (\<lambda>_.
     seq (the_cow h) (\<lambda>c. set_view h (cow_offset c + off) len))"

text \<open>A write through the pointer that \<open>MutableData\<close> answers.\<close>

definition poke :: "nat \<Rightarrow> nat \<Rightarrow> u8 \<Rightarrow> (memory, unit) act" where
  "poke a i v = seq (the_block a) (\<lambda>r.
     case buf_data (rcb_buffer r) of
       None \<Rightarrow> fail NullDeref
     | Some d \<Rightarrow> (if i < length d then put_block a ((rcb_buffer r)\<lparr>buf_data := Some (d[i := v])\<rparr>)
                  else fail OutOfBounds))"

definition cow_write :: "garbage \<Rightarrow> nat \<Rightarrow> nat \<Rightarrow> u8 \<Rightarrow> (memory, unit) act" where
  "cow_write g h i v = seq (cow_MutableData g h) (\<lambda>p.
     case p of None \<Rightarrow> fail NullDeref | Some (a, off) \<Rightarrow> poke a (off + i) v)"

section \<open>Reference counts\<close>

text \<open>The variables that hold a reference to a block.\<close>

definition holders :: "memory \<Rightarrow> nat \<Rightarrow> nat set" where
  "holders s a = {h. \<exists>c. cows s h = Some c \<and> cow_buffer c = Some a}"

definition refs_ok :: "memory \<Rightarrow> bool" where
  "refs_ok s \<longleftrightarrow> finite (dom (cows s)) \<and>
     (\<forall>a. case cow_blocks s a of
            None \<Rightarrow> holders s a = {}
          | Some r \<Rightarrow> a < fresh s \<and> ref_count r = card (holders s a))"

lemma finite_holders: "refs_ok s \<Longrightarrow> finite (holders s a)"
  by (rule finite_subset [of _ "dom (cows s)"]) (auto simp: holders_def refs_ok_def)

lemma mem_holders: "cows s h = Some c \<Longrightarrow> h \<in> holders s a \<longleftrightarrow> cow_buffer c = Some a"
  by (simp add: holders_def)

lemma refs_ok_block:
  assumes "refs_ok s" "cows s h = Some c" "cow_buffer c = Some a"
  obtains r where "cow_blocks s a = Some r" "ref_count r = card (holders s a)" "0 < ref_count r"
proof -
  have h: "h \<in> holders s a" using assms by (simp add: mem_holders)
  then have "0 < card (holders s a)"
    using finite_holders [OF assms(1), of a] by (auto simp: card_gt_0_iff)
  with assms(1) h show thesis
    by (cases "cow_blocks s a") (auto simp: refs_ok_def dest!: spec [of _ a] intro: that)
qed

lemma refs_ok_fresh: "refs_ok s \<Longrightarrow> cow_blocks s (fresh s) = None"
  by (auto simp: refs_ok_def dest!: spec [of _ "fresh s"] split: option.splits)

text \<open>
  What assigning a reference does to the memory: the variable holds the new block, each count
  is the number of holders, and the old block is gone if that was its last.
\<close>

definition retarget :: "memory \<Rightarrow> nat \<Rightarrow> nat option \<Rightarrow> memory" where
  "retarget s h p =
     (let c = the (cows s h); now = (\<lambda>a. holders s a - {h} \<union> (if p = Some a then {h} else {}))
      in s\<lparr>cow_blocks := (\<lambda>a. case cow_blocks s a of
                          None \<Rightarrow> None
                        | Some r \<Rightarrow> if cow_buffer c = Some a \<and> now a = {} then None
                                    else Some (r\<lparr>ref_count := card (now a)\<rparr>)),
           cows := (cows s)(h \<mapsto> c\<lparr>cow_buffer := p\<rparr>)\<rparr>)"

lemma memory_eqI: "cow_blocks s = cow_blocks t \<Longrightarrow> fresh s = fresh t \<Longrightarrow> cows s = cows t \<Longrightarrow> s = (t :: memory)"
  by simp

text \<open>The counts before and after, by whether the variable held the block.\<close>

lemma count_holders:
  assumes s: "refs_ok s" and h: "cows s h = Some c" and r: "cow_blocks s a = Some r"
  shows "ref_count r = card (holders s a)"
    and "cow_buffer c \<noteq> Some a \<Longrightarrow> holders s a - {h} = holders s a"
    and "cow_buffer c = Some a \<Longrightarrow> insert h (holders s a) = holders s a"
    and "cow_buffer c = Some a \<Longrightarrow> card (holders s a - {h}) = ref_count r - 1"
    and "cow_buffer c \<noteq> Some a \<Longrightarrow> card (insert h (holders s a)) = ref_count r + 1"
    and "cow_buffer c = Some a \<Longrightarrow> holders s a - {h} = {} \<longleftrightarrow> ref_count r - 1 = 0"
    and "cow_buffer c = Some a \<Longrightarrow> 0 < ref_count r"
    and "r\<lparr>ref_count := card (holders s a)\<rparr> = r"
proof -
  show cnt: "ref_count r = card (holders s a)"
    using s r by (auto simp: refs_ok_def dest!: spec [of _ a])
  show "cow_buffer c \<noteq> Some a \<Longrightarrow> holders s a - {h} = holders s a"
    "cow_buffer c = Some a \<Longrightarrow> insert h (holders s a) = holders s a"
    using h by (auto simp: holders_def)
  show out: "cow_buffer c = Some a \<Longrightarrow> card (holders s a - {h}) = ref_count r - 1"
    using h cnt by (simp add: mem_holders)
  show "cow_buffer c \<noteq> Some a \<Longrightarrow> card (insert h (holders s a)) = ref_count r + 1"
    using h cnt finite_holders [OF s] by (simp add: mem_holders)
  show "cow_buffer c = Some a \<Longrightarrow> holders s a - {h} = {} \<longleftrightarrow> ref_count r - 1 = 0"
    using out card_0_eq [OF finite_Diff [OF finite_holders [OF s, of a]], of "{h}"] by simp
  show "0 < ref_count r" if "cow_buffer c = Some a"
    by (rule refs_ok_block [OF s h that]) (simp add: r)
  show "r\<lparr>ref_count := card (holders s a)\<rparr> = r"
    unfolding cnt [symmetric] by simp
qed

lemma refptr_set_retarget:
  assumes s: "refs_ok s" and h: "cows s h = Some c" and p: "\<And>a. p = Some a \<Longrightarrow> cow_blocks s a \<noteq> None"
  shows "refptr_set h p s = (retarget s h p, Returns ())"
proof -
  note counts = count_holders [OF s h]
  note defs = refptr_set_def the_cow_def put_cow_def run_seq AddRef_def Release_def the_block_def
  have same: "cow_blocks (retarget s h p) a = cow_blocks s a" if "cow_buffer c \<noteq> Some a" "p \<noteq> Some a" for a
    using h that by (auto simp: retarget_def Let_def counts split: option.split)
  have kept: "cow_blocks (retarget s h p) a = cow_blocks s a" if "cow_buffer c = Some a" "p = Some a" for a
    using h that counts(3) [OF _ that(1)] mem_holders [OF h, of a]
    by (auto simp: retarget_def Let_def counts split: option.split)
  have released: "cow_blocks (retarget s h p) a
      = (if ref_count r - 1 = 0 then None else Some (r\<lparr>ref_count := ref_count r - 1\<rparr>))"
    if "cow_buffer c = Some a" "p \<noteq> Some a" "cow_blocks s a = Some r" for a r
    using h that counts(4,6) [OF that(3,1)] by (simp add: retarget_def Let_def)
  have added: "cow_blocks (retarget s h p) a = Some (r\<lparr>ref_count := ref_count r + 1\<rparr>)"
    if "cow_buffer c \<noteq> Some a" "p = Some a" "cow_blocks s a = Some r" for a r
    using h that counts(2,5) [OF that(3,1)] by (simp add: retarget_def Let_def)
  have rest: "fresh (retarget s h p) = fresh s" "cows (retarget s h p) = (cows s)(h \<mapsto> c\<lparr>cow_buffer := p\<rparr>)"
    using h by (simp_all add: retarget_def Let_def)
  have old: "\<exists>r. cow_blocks s a = Some r \<and> 0 < ref_count r" if "cow_buffer c = Some a" for a
    using refs_ok_block [OF s h that] by blast
  show ?thesis
  proof (cases p; cases "cow_buffer c")
    assume np: "p = None" and nc: "cow_buffer c = None"
    then have "s\<lparr>cows := (cows s)(h \<mapsto> c\<lparr>cow_buffer := p\<rparr>)\<rparr> = retarget s h p"
      using same rest by (intro memory_eqI) (auto simp: fun_eq_iff)
    then show ?thesis using np nc h by (simp add: defs)
  next
    fix a assume np: "p = None" and sc: "cow_buffer c = Some a"
    obtain r where r: "cow_blocks s a = Some r" using old [OF sc] by blast
    let ?b = "if ref_count r - 1 = 0 then None else Some (r\<lparr>ref_count := ref_count r - 1\<rparr>)"
    have "s\<lparr>cow_blocks := (cow_blocks s)(a := ?b), cows := (cows s)(h \<mapsto> c\<lparr>cow_buffer := p\<rparr>)\<rparr> = retarget s h p"
      using same rest released [OF sc _ r] np sc by (intro memory_eqI) (auto simp: fun_eq_iff)
    then show ?thesis using np sc h r by (auto simp: defs)
  next
    fix a assume sp: "p = Some a" and nc: "cow_buffer c = None"
    obtain r where r: "cow_blocks s a = Some r" using p sp by blast
    let ?b = "Some (r\<lparr>ref_count := ref_count r + 1\<rparr>)"
    have "s\<lparr>cow_blocks := (cow_blocks s)(a := ?b), cows := (cows s)(h \<mapsto> c\<lparr>cow_buffer := p\<rparr>)\<rparr> = retarget s h p"
      using same rest added [OF _ sp r] nc sp by (intro memory_eqI) (auto simp: fun_eq_iff)
    then show ?thesis using sp nc h r by (auto simp: defs)
  next
    fix a a' assume sp: "p = Some a" and sc: "cow_buffer c = Some a'"
    obtain r where r: "cow_blocks s a = Some r" using p sp by blast
    obtain r' where r': "cow_blocks s a' = Some r'" "0 < ref_count r'" using old [OF sc] by blast
    show ?thesis
    proof (cases "a = a'")
      case True
      have "s\<lparr>cow_blocks := (cow_blocks s)(a \<mapsto> r), cows := (cows s)(h \<mapsto> c\<lparr>cow_buffer := p\<rparr>)\<rparr> = retarget s h p"
        using same rest kept sc sp r True by (intro memory_eqI) (auto simp: fun_eq_iff)
      then show ?thesis using sp sc h r r' True by (auto simp: defs)
    next
      case False
      let ?b = "if ref_count r' - 1 = 0 then None else Some (r'\<lparr>ref_count := ref_count r' - 1\<rparr>)"
      have "s\<lparr>cow_blocks := (cow_blocks s)(a \<mapsto> r\<lparr>ref_count := ref_count r + 1\<rparr>, a' := ?b),
              cows := (cows s)(h \<mapsto> c\<lparr>cow_buffer := p\<rparr>)\<rparr> = retarget s h p"
        using same rest added [OF _ sp r] released [OF sc _ r'(1)] sc sp False
        by (intro memory_eqI) (auto simp: fun_eq_iff)
      then show ?thesis using sp sc h r r' False by (auto simp: defs)
    qed
  qed
qed

lemma holders_retarget:
  "cows s h = Some c \<Longrightarrow>
   holders (retarget s h p) a = holders s a - {h} \<union> (if p = Some a then {h} else {})"
  by (auto simp: holders_def retarget_def Let_def)

lemma retarget_fields:
  "fresh (retarget s h p) = fresh s"
  "cows s h = Some c \<Longrightarrow> cows (retarget s h p) = (cows s)(h \<mapsto> c\<lparr>cow_buffer := p\<rparr>)"
  by (simp_all add: retarget_def Let_def)

lemma blocks_retarget:
  assumes "cows s h = Some c"
  shows "cow_blocks (retarget s h p) a =
    (case cow_blocks s a of
       None \<Rightarrow> None
     | Some r \<Rightarrow> if cow_buffer c = Some a \<and> holders (retarget s h p) a = {} then None
                 else Some (r\<lparr>ref_count := card (holders (retarget s h p) a)\<rparr>))"
  unfolding holders_retarget [OF assms] using assms
  by (simp add: retarget_def Let_def del: Un_empty Diff_eq_empty_iff cong: option.case_cong)

lemma refs_ok_retarget:
  assumes s: "refs_ok s" and h: "cows s h = Some c" and p: "\<And>a. p = Some a \<Longrightarrow> cow_blocks s a \<noteq> None"
  shows "refs_ok (retarget s h p)"
proof -
  have "case cow_blocks (retarget s h p) a of
          None \<Rightarrow> holders (retarget s h p) a = {}
        | Some r \<Rightarrow> a < fresh (retarget s h p) \<and> ref_count r = card (holders (retarget s h p) a)" for a
  proof (cases "cow_blocks s a")
    case None
    with s have "holders s a = {}" by (auto simp: refs_ok_def dest!: spec [of _ a])
    with None p h show ?thesis by (auto simp: blocks_retarget [OF h] holders_retarget [OF h])
  next
    case (Some r)
    with s have "a < fresh s" by (auto simp: refs_ok_def dest!: spec [of _ a])
    with Some show ?thesis by (simp add: blocks_retarget [OF h] retarget_fields)
  qed
  moreover have "finite (dom (cows (retarget s h p)))"
    using s by (simp add: retarget_fields(2) [OF h] refs_ok_def)
  ultimately show ?thesis by (simp add: refs_ok_def)
qed

section \<open>Well-formed memory and its values\<close>

definition cow_ok :: "memory \<Rightarrow> cow \<Rightarrow> bool" where
  "cow_ok s c =
     (case cow_buffer c of
        None \<Rightarrow> cow_offset c = 0 \<and> cow_size c = 0
      | Some a \<Rightarrow> (case cow_blocks s a of
                     None \<Rightarrow> False
                   | Some r \<Rightarrow> cow_offset c + cow_size c \<le> buf_size (rcb_buffer r)))"

definition blocks_ok :: "memory \<Rightarrow> bool" where
  "blocks_ok s \<longleftrightarrow> (\<forall>a r. cow_blocks s a = Some r \<longrightarrow> buf_ok (rcb_buffer r) \<and> 0 < ref_count r)"

definition cow_wf :: "memory \<Rightarrow> bool" where
  "cow_wf s \<longleftrightarrow> refs_ok s \<and> blocks_ok s \<and> (\<forall>h c. cows s h = Some c \<longrightarrow> cow_ok s c)"

definition view_of :: "memory \<Rightarrow> cow \<Rightarrow> bytes" where
  "view_of s c =
     (case cow_buffer c of
        None \<Rightarrow> []
      | Some a \<Rightarrow> (case cow_blocks s a of
                     None \<Rightarrow> []
                   | Some r \<Rightarrow> take (cow_size c) (drop (cow_offset c) (buf_contents (rcb_buffer r)))))"

text \<open>The abstraction: the byte list each variable stands for.\<close>

definition cow_value :: "memory \<Rightarrow> nat \<rightharpoonup> bytes" where
  "cow_value s h = map_option (view_of s) (cows s h)"

lemma cow_wfD:
  assumes "cow_wf s" "cows s h = Some c"
  shows "cow_ok s c" "refs_ok s" "blocks_ok s"
  using assms by (auto simp: cow_wf_def)

lemma cow_value_Some: "cows s h = Some c \<Longrightarrow> cow_value s h = Some (view_of s c)"
  by (simp add: cow_value_def)

lemma view_of_cong:
  "(\<And>a. cow_buffer c = Some a \<Longrightarrow> map_option rcb_buffer (cow_blocks t a) = map_option rcb_buffer (cow_blocks s a))
   \<Longrightarrow> view_of t c = view_of s c \<and> (cow_ok t c \<longleftrightarrow> cow_ok s c)"
  by (auto simp: view_of_def cow_ok_def split: option.splits)

lemma cows_update_simps [simp]:
  "view_of (s\<lparr>cows := f\<rparr>) = view_of s" "cow_ok (s\<lparr>cows := f\<rparr>) = cow_ok s"
  by (simp_all add: view_of_def cow_ok_def fun_eq_iff cong: option.case_cong)

lemma null_view [simp]: "view_of s cow_null = []" "cow_ok s cow_null"
  by (simp_all add: view_of_def cow_ok_def cow_null_def)

lemma length_view_of: "cow_ok s c \<Longrightarrow> blocks_ok s \<Longrightarrow> length (view_of s c) = cow_size c"
  by (auto simp: view_of_def cow_ok_def blocks_ok_def buf_ok_length split: option.splits)

text \<open>A memory that changed one variable, and no block of the others, changed one value.\<close>

definition same_others :: "nat \<Rightarrow> memory \<Rightarrow> memory \<Rightarrow> bool" where
  "same_others h s t \<longleftrightarrow>
     (\<forall>k ck a. k \<noteq> h \<longrightarrow> cows s k = Some ck \<longrightarrow> cow_buffer ck = Some a \<longrightarrow>
        map_option rcb_buffer (cow_blocks t a) = map_option rcb_buffer (cow_blocks s a))"

lemma same_othersI:
  "(\<And>k ck a. k \<noteq> h \<Longrightarrow> cows s k = Some ck \<Longrightarrow> cow_buffer ck = Some a \<Longrightarrow>
      map_option rcb_buffer (cow_blocks t a) = map_option rcb_buffer (cow_blocks s a)) \<Longrightarrow> same_others h s t"
  by (simp add: same_others_def)

lemma same_othersD:
  "same_others h s t \<Longrightarrow> k \<noteq> h \<Longrightarrow> cows s k = Some ck \<Longrightarrow> cow_buffer ck = Some a \<Longrightarrow>
   map_option rcb_buffer (cow_blocks t a) = map_option rcb_buffer (cow_blocks s a)"
  by (simp add: same_others_def)

lemma cow_wf_change:
  assumes s: "cow_wf s" and t: "refs_ok t" "blocks_ok t" "cow_ok t c'"
    and cows: "cows t = (cows s)(h \<mapsto> c')"
    and others: "same_others h s t"
  shows "cow_wf t" "cow_value t = (cow_value s)(h \<mapsto> view_of t c')"
proof -
  have k: "view_of t ck = view_of s ck \<and> (cow_ok t ck \<longleftrightarrow> cow_ok s ck)"
    if "k \<noteq> h" "cows s k = Some ck" for k ck
    by (rule view_of_cong) (rule same_othersD [OF others that])
  show "cow_wf t"
    using t k s cows by (auto simp: cow_wf_def split: if_splits)
  show "cow_value t = (cow_value s)(h \<mapsto> view_of t c')"
  proof (rule ext)
    fix k show "cow_value t k = ((cow_value s)(h \<mapsto> view_of t c')) k"
      using k [of k] cows by (cases "cows s k") (auto simp: cow_value_def)
  qed
qed

text \<open>No block is of capacity zero; this is what \<open>IsConsistent\<close> asks beyond well-formedness.\<close>

definition roomy :: "memory \<Rightarrow> bool" where
  "roomy s \<longleftrightarrow> (\<forall>a r. cow_blocks s a = Some r \<longrightarrow> 0 < buf_capacity (rcb_buffer r))"

text \<open>
  \<open>sets Q m s h v\<close>: the call \<open>m\<close> returns in \<open>s\<close>, keeps the memory well formed, gives the variable \<open>h\<close>
  the value \<open>v\<close> and leaves every other variable's value alone; under \<open>Q\<close> it allocates no block of
  capacity zero.
\<close>

definition sets :: "bool \<Rightarrow> (memory, unit) act \<Rightarrow> memory \<Rightarrow> nat \<Rightarrow> bytes \<Rightarrow> bool" where
  "sets Q m s h v \<longleftrightarrow>
     (\<exists>t. m s = (t, Returns ()) \<and> cow_wf t \<and> cow_value t = (cow_value s)(h \<mapsto> v) \<and>
          (roomy s \<and> Q \<longrightarrow> roomy t))"

lemma setsI:
  "m s = (t, Returns ()) \<Longrightarrow> cow_wf t \<Longrightarrow> cow_value t = (cow_value s)(h \<mapsto> v) \<Longrightarrow>
   (roomy s \<Longrightarrow> Q \<Longrightarrow> roomy t) \<Longrightarrow> sets Q m s h v"
  by (auto simp: sets_def)

lemma setsE:
  assumes "sets Q m s h v"
  obtains t where "m s = (t, Returns ())" "cow_wf t" "cow_value t = (cow_value s)(h \<mapsto> v)"
    "roomy s \<and> Q \<longrightarrow> roomy t"
  using assms by (auto simp: sets_def)

lemma run_set_view:
  "cows s h = Some c \<Longrightarrow>
   set_view h off n s = (s\<lparr>cows := (cows s)(h \<mapsto> c\<lparr>cow_offset := off, cow_size := n\<rparr>)\<rparr>, Returns ())"
  by (simp add: set_view_def the_cow_def put_cow_def run_seq)

lemma refs_ok_same_blocks:
  assumes "refs_ok s" "cows s h = Some c" "cow_buffer c' = cow_buffer c"
  shows "refs_ok (s\<lparr>cows := (cows s)(h \<mapsto> c')\<rparr>)"
proof -
  have "holders (s\<lparr>cows := (cows s)(h \<mapsto> c')\<rparr>) = holders s"
    using assms by (auto simp: holders_def fun_eq_iff)
  then show ?thesis using assms by (simp add: refs_ok_def cong: option.case_cong)
qed

lemma cow_eta: "\<lparr>cow_buffer = cow_buffer c, cow_offset = cow_offset c, cow_size = cow_size c\<rparr> = c"
  by simp

lemma cow_update_all:
  "c\<lparr>cow_buffer := p, cow_offset := off, cow_size := n\<rparr> =
   \<lparr>cow_buffer = p, cow_offset = off, cow_size = n\<rparr>"
  by (cases c) simp

text \<open>
  Assigning a reference and then the view.  Every change of the block of a variable is of this
  form; the assigned block may be the one just allocated, whose count is still zero.
\<close>

lemma refptr_set_view:
  fixes p off n
  defines "c' \<equiv> \<lparr>cow_buffer = p, cow_offset = off, cow_size = n\<rparr>"
  assumes s: "refs_ok s" and h: "cows s h = Some c" and ok: "cow_ok s c'"
    and cow_blocks: "\<And>a r. cow_blocks s a = Some r \<Longrightarrow> buf_ok (rcb_buffer r) \<and> (0 < ref_count r \<or> p = Some a)"
  obtains t where "seq (refptr_set h p) (\<lambda>_. set_view h off n) s = (t, Returns ())"
    "refs_ok t" "blocks_ok t" "cow_ok t c'" "cows t = (cows s)(h \<mapsto> c')"
    "view_of t c' = view_of s c'" "roomy s \<longrightarrow> roomy t" "same_others h s t"
    "\<forall>a. p = Some a \<longrightarrow> map_option rcb_buffer (cow_blocks t a) = map_option rcb_buffer (cow_blocks s a)"
proof -
  let ?u = "retarget s h p"
  define t where "t = ?u\<lparr>cows := (cows s)(h \<mapsto> c')\<rparr>"
  have p: "\<And>a. p = Some a \<Longrightarrow> cow_blocks s a \<noteq> None"
    using ok by (auto simp: cow_ok_def c'_def split: option.splits)
  have u: "refs_ok ?u" using s h p by (rule refs_ok_retarget)
  have cu: "cows ?u h = Some (c\<lparr>cow_buffer := p\<rparr>)" by (simp add: retarget_fields(2) [OF h])
  have t_eq: "t = ?u\<lparr>cows := (cows ?u)(h \<mapsto> c')\<rparr>"
    by (simp add: t_def retarget_fields(2) [OF h])
  have run: "seq (refptr_set h p) (\<lambda>_. set_view h off n) s = (t, Returns ())"
    using refptr_set_retarget [OF s h p] run_set_view [OF cu, of off n]
    by (simp add: t_eq c'_def cow_update_all)
  have rt: "refs_ok t"
    unfolding t_eq using u cu by (rule refs_ok_same_blocks) (simp add: c'_def)
  have held: "map_option rcb_buffer (cow_blocks t a) = map_option rcb_buffer (cow_blocks s a)"
    if "k \<in> holders ?u a" for k a
    using that by (auto simp: t_def blocks_retarget [OF h] split: option.split)
  have pos: "0 < ref_count r'" if r': "cow_blocks ?u a = Some r'" for a r'
  proof (cases "holders ?u a = {}")
    case True
    with that have "cow_buffer c \<noteq> Some a" "p \<noteq> Some a"
      using holders_retarget [OF h, of p a] by (auto simp: blocks_retarget [OF h] split: option.splits if_splits)
    moreover from True this have "holders s a = {}"
      using holders_retarget [OF h, of p a] mem_holders [OF h, of a] by auto
    moreover obtain r where "cow_blocks s a = Some r"
      using r' by (auto simp: blocks_retarget [OF h] split: option.splits)
    ultimately show ?thesis
      using cow_blocks [of a] count_holders(1) [OF s h, of a] by auto
  next
    case False
    then show ?thesis
      using that finite_holders [OF u, of a]
      by (auto simp: blocks_retarget [OF h] card_gt_0_iff split: option.splits if_splits)
  qed
  have bt: "blocks_ok t"
    using pos cow_blocks unfolding blocks_ok_def
    by (auto simp: t_def blocks_retarget [OF h] split: option.splits if_splits)
  have "view_of t c' = view_of s c' \<and> (cow_ok t c' \<longleftrightarrow> cow_ok s c')"
    by (rule view_of_cong, rule held [of h]) (simp add: holders_retarget [OF h] c'_def)
  moreover have "roomy s \<longrightarrow> roomy t"
    by (auto simp: roomy_def t_def blocks_retarget [OF h] split: option.splits if_splits)
  moreover have "cows t = (cows s)(h \<mapsto> c')" by (simp add: t_def)
  moreover have "same_others h s t"
  proof (rule same_othersI)
    fix k ck a assume "k \<noteq> h" "cows s k = Some ck" "cow_buffer ck = Some a"
    then show "map_option rcb_buffer (cow_blocks t a) = map_option rcb_buffer (cow_blocks s a)"
      by (intro held [of k]) (simp add: holders_retarget [OF h] mem_holders)
  qed
  moreover have "\<forall>a. p = Some a \<longrightarrow> map_option rcb_buffer (cow_blocks t a) = map_option rcb_buffer (cow_blocks s a)"
    by (auto intro!: held [of h] simp: holders_retarget [OF h])
  ultimately show thesis
    using run rt bt ok by (intro that [of t]) simp_all
qed

text \<open>Rebinding a variable to an existing block, or to none.\<close>

lemma sets_rebind:
  assumes s: "cow_wf s" and h: "cows s h = Some c"
    and ok: "cow_ok s \<lparr>cow_buffer = p, cow_offset = off, cow_size = n\<rparr>"
  shows "sets Q (seq (refptr_set h p) (\<lambda>_. set_view h off n)) s h
           (view_of s \<lparr>cow_buffer = p, cow_offset = off, cow_size = n\<rparr>)"
proof -
  note wf = cow_wfD [OF s h]
  have b: "\<And>a r. cow_blocks s a = Some r \<Longrightarrow> buf_ok (rcb_buffer r) \<and> (0 < ref_count r \<or> p = Some a)"
    using wf(3) by (simp add: blocks_ok_def)
  obtain t where t: "seq (refptr_set h p) (\<lambda>_. set_view h off n) s = (t, Returns ())"
    "refs_ok t" "blocks_ok t" "cow_ok t \<lparr>cow_buffer = p, cow_offset = off, cow_size = n\<rparr>"
    "cows t = (cows s)(h \<mapsto> \<lparr>cow_buffer = p, cow_offset = off, cow_size = n\<rparr>)"
    "view_of t \<lparr>cow_buffer = p, cow_offset = off, cow_size = n\<rparr> =
     view_of s \<lparr>cow_buffer = p, cow_offset = off, cow_size = n\<rparr>" "roomy s \<longrightarrow> roomy t"
    "same_others h s t"
    using wf(2) h ok b by (rule refptr_set_view) blast+
  show ?thesis
    using t(1,7) cow_wf_change [OF s t(2-5,8)] t(6) by (intro setsI [of _ s t]) simp_all
qed

text \<open>Rebinding to a block just allocated.\<close>

lemma run_new:
  assumes s: "cow_wf s" and h: "cows s h = Some c"
    and b: "ob = Returns b" "buf_ok b" "off + n \<le> buf_size b"
  obtains t a where
    "seq (new_RefCountedBuffer ob) (\<lambda>a. seq (refptr_set h (Some a)) (\<lambda>_. set_view h off n)) s
     = (t, Returns ())"
    "cow_wf t" "cow_value t = (cow_value s)(h \<mapsto> take n (drop off (buf_contents b)))"
    "roomy s \<longrightarrow> 0 < buf_capacity b \<longrightarrow> roomy t"
    "cows t h = Some \<lparr>cow_buffer = Some a, cow_offset = off, cow_size = n\<rparr>"
    "cow_blocks t a = Some \<lparr>rcb_buffer = b, ref_count = 1\<rparr>"
proof -
  note wf = cow_wfD [OF s h]
  define a where "a = fresh s"
  define u where "u = s\<lparr>cow_blocks := (cow_blocks s)(a \<mapsto> \<lparr>rcb_buffer = b, ref_count = 0\<rparr>), fresh := Suc a\<rparr>"
  let ?c = "\<lparr>cow_buffer = Some a, cow_offset = off, cow_size = n\<rparr>"
  have none: "cow_blocks s a = None" using refs_ok_fresh [OF wf(2)] by (simp add: a_def)
  then have empty: "holders s a = {}"
    using wf(2) by (auto simp: refs_ok_def dest!: spec [of _ a])
  have run: "new_RefCountedBuffer ob s = (u, Returns a)"
    by (simp add: new_RefCountedBuffer_def b(1) run_seq u_def a_def)
  have hs: "holders u a' = holders s a'" for a' by (simp add: holders_def u_def)
  have ru: "refs_ok u"
    unfolding refs_ok_def hs
  proof (intro conjI allI)
    show "finite (dom (cows u))" using wf(2) by (simp add: u_def refs_ok_def)
    fix a' show "case cow_blocks u a' of None \<Rightarrow> holders s a' = {}
                 | Some r \<Rightarrow> a' < fresh u \<and> ref_count r = card (holders s a')"
      using wf(2) empty
      by (cases "a' = a"; cases "cow_blocks s a'")
        (auto simp: refs_ok_def u_def a_def less_Suc_eq dest!: spec [of _ a'])
  qed
  have hu: "cows u h = Some c" using h by (simp add: u_def)
  have ok: "cow_ok u ?c" using b(3) by (simp add: cow_ok_def u_def)
  have bl: "\<And>a' r. cow_blocks u a' = Some r \<Longrightarrow> buf_ok (rcb_buffer r) \<and> (0 < ref_count r \<or> Some a = Some a')"
    using wf(3) b(2) by (auto simp: blocks_ok_def u_def split: if_splits)
  obtain t where t: "seq (refptr_set h (Some a)) (\<lambda>_. set_view h off n) u = (t, Returns ())"
    "refs_ok t" "blocks_ok t" "cow_ok t ?c" "cows t = (cows u)(h \<mapsto> ?c)"
    "view_of t ?c = view_of u ?c" "roomy u \<longrightarrow> roomy t" "same_others h u t"
    "\<forall>a'. Some a = Some a' \<longrightarrow> map_option rcb_buffer (cow_blocks t a') = map_option rcb_buffer (cow_blocks u a')"
    using ru hu ok bl by (rule refptr_set_view)
  have cu: "cows u = cows s" by (simp add: u_def)
  have others: "same_others h s t"
  proof (rule same_othersI)
    fix k ck a' assume k: "k \<noteq> h" "cows s k = Some ck" "cow_buffer ck = Some a'"
    then have "a' \<noteq> a" using empty by (auto simp: holders_def)
    then show "map_option rcb_buffer (cow_blocks t a') = map_option rcb_buffer (cow_blocks s a')"
      using same_othersD [OF t(8), of k ck a'] k by (simp add: u_def)
  qed
  have v: "view_of t ?c = take n (drop off (buf_contents b))"
    unfolding t(6) by (simp add: view_of_def u_def)
  have wt: "cow_wf t" "cow_value t = (cow_value s)(h \<mapsto> take n (drop off (buf_contents b)))"
    using cow_wf_change [OF s t(2-4) t(5) [unfolded cu] others] v by simp_all
  have ht: "cows t h = Some ?c" using t(5) by simp
  have "holders t a = {h}"
    using empty t(5) by (auto simp: holders_def cu split: if_splits)
  moreover obtain r where r: "cow_blocks t a = Some r" "rcb_buffer r = b"
    using t(4,6) t(8) run t(9) by (auto simp: u_def split: option.splits)
  ultimately have "r = \<lparr>rcb_buffer = b, ref_count = 1\<rparr>"
    using count_holders(1) [OF t(2) ht, of a r] by (cases r) simp
  with r have bt: "cow_blocks t a = Some \<lparr>rcb_buffer = b, ref_count = 1\<rparr>" by simp
  have rm: "roomy s \<longrightarrow> 0 < buf_capacity b \<longrightarrow> roomy t"
  proof (intro impI)
    assume "roomy s" "0 < buf_capacity b"
    then have "roomy u" by (simp add: roomy_def u_def)
    with t(7) show "roomy t" by blast
  qed
  have "seq (new_RefCountedBuffer ob) (\<lambda>a. seq (refptr_set h (Some a)) (\<lambda>_. set_view h off n)) s
        = (t, Returns ())"
    using run t(1) by simp
  then show thesis using wt rm ht bt by (rule that)
qed

lemma sets_new:
  assumes "cow_wf s" "cows s h = Some c" "ob = Returns b" "buf_ok b" "off + n \<le> buf_size b"
  shows "sets (0 < buf_capacity b)
           (seq (new_RefCountedBuffer ob) (\<lambda>a. seq (refptr_set h (Some a)) (\<lambda>_. set_view h off n)))
           s h (take n (drop off (buf_contents b)))"
  by (rule run_new [OF assms]) (auto simp: sets_def)

text \<open>Changing in place the block of the only variable that holds it.\<close>

lemma sets_in_place:
  assumes s: "cow_wf s" and h: "cows s h = Some c" and a: "cow_buffer c = Some a"
    and r: "cow_blocks s a = Some r" "ref_count r = 1"
    and b: "buf_ok b" "off + n \<le> buf_size b" "buf_capacity (rcb_buffer r) \<le> buf_capacity b"
  shows "sets Q (seq (put_block a b) (\<lambda>_. set_view h off n)) s h (take n (drop off (buf_contents b)))"
proof -
  note wf = cow_wfD [OF s h]
  let ?c = "\<lparr>cow_buffer = Some a, cow_offset = off, cow_size = n\<rparr>"
  define t where "t = s\<lparr>cow_blocks := (cow_blocks s)(a \<mapsto> r\<lparr>rcb_buffer := b\<rparr>), cows := (cows s)(h \<mapsto> ?c)\<rparr>"
  have c: "c\<lparr>cow_offset := off, cow_size := n\<rparr> = ?c" using a by (cases c) simp
  have run: "seq (put_block a b) (\<lambda>_. set_view h off n) s = (t, Returns ())"
    using h r by (simp add: put_block_def the_block_def run_seq run_set_view [of _ _ c] c t_def)
  have "holders t = holders s" using h a by (auto simp: holders_def t_def fun_eq_iff)
  then have rt: "refs_ok t"
    using wf(2) r(1) by (auto simp: refs_ok_def t_def dest!: spec [of _ a] cong: option.case_cong)
  have bt: "blocks_ok t"
    using wf(3) r b(1) by (auto simp: blocks_ok_def t_def split: if_splits)
  have one: "holders s a = {h}"
    using count_holders(1) [OF wf(2) h r(1)] r(2) mem_holders [OF h, of a] a
    by (metis One_nat_def card_1_singletonE singletonD)
  have others: "same_others h s t"
    using one by (intro same_othersI) (auto simp: t_def holders_def)
  have "cow_ok t ?c" using b(2) by (simp add: cow_ok_def t_def)
  moreover have "view_of t ?c = take n (drop off (buf_contents b))"
    by (simp add: view_of_def t_def)
  moreover have "cows t = (cows s)(h \<mapsto> ?c)" by (simp add: t_def)
  moreover have "roomy t" if "roomy s"
    using that b(3) r by (fastforce simp: roomy_def t_def)
  ultimately show ?thesis
    using run cow_wf_change [OF s rt bt _ _ others] by (intro setsI [of _ s t]) simp_all
qed

section \<open>The operations\<close>

text \<open>What each operation does to the value of its variable.  First the calls that read.\<close>

definition cow_room :: "memory \<Rightarrow> cow \<Rightarrow> nat" where
  "cow_room s c =
     (case cow_buffer c of
        None \<Rightarrow> 0
      | Some a \<Rightarrow> (case cow_blocks s a of None \<Rightarrow> 0 | Some r \<Rightarrow> buf_capacity (rcb_buffer r) - cow_offset c))"

lemma run_the_cow: "cows s h = Some c \<Longrightarrow> the_cow h s = (s, Returns c)"
  by (simp add: the_cow_def)

lemma run_the_block: "cow_blocks s a = Some r \<Longrightarrow> the_block a s = (s, Returns r)"
  by (simp add: the_block_def)

lemma run_HasOneRef: "cow_blocks s a = Some r \<Longrightarrow> HasOneRef a s = (s, Returns (ref_count r = 1))"
  by (simp add: HasOneRef_def run_the_block)

lemma run_Release:
  "cow_blocks s a = Some r \<Longrightarrow>
   Release a s = (s\<lparr>cow_blocks := (cow_blocks s)(a := if ref_count r - 1 = 0 then None
                                          else Some (r\<lparr>ref_count := ref_count r - 1\<rparr>))\<rparr>, Returns ())"
  by (simp add: Release_def run_the_block)

lemma cow_block:
  assumes "cow_wf s" "cows s h = Some c" "cow_buffer c = Some a"
  obtains r where "cow_blocks s a = Some r" "buf_ok (rcb_buffer r)"
    "cow_offset c + cow_size c \<le> buf_size (rcb_buffer r)"
  using cow_wfD [OF assms(1,2)] assms(3)
  by (auto simp: cow_ok_def blocks_ok_def split: option.splits)

lemma run_cow_capacity:
  assumes "cow_wf s" "cows s h = Some c"
  shows "cow_capacity h s = (s, Returns (cow_room s c))"
proof (cases "cow_buffer c")
  case None
  with assms show ?thesis by (simp add: cow_capacity_def run_the_cow run_seq cow_room_def)
next
  case (Some a)
  with assms obtain r where "cow_blocks s a = Some r" by (rule cow_block)
  with Some assms show ?thesis
    by (simp add: cow_capacity_def run_the_cow run_the_block run_seq cow_room_def)
qed

lemma view_of_block:
  assumes "cow_wf s" "cows s h = Some c" "cow_buffer c = Some a" "cow_blocks s a = Some r"
  shows "take (cow_size c) (drop (cow_offset c) (buf_block (rcb_buffer r))) = view_of s c"
proof -
  obtain r' where "cow_blocks s a = Some r'" "cow_offset c + cow_size c \<le> buf_size (rcb_buffer r')"
    using assms(1-3) by (rule cow_block)
  with assms(3,4) show ?thesis
    by (auto simp: view_of_def buf_contents_def drop_take min_def)
qed

lemma run_cow_view:
  assumes "cow_wf s" "cows s h = Some c"
  shows "cow_view c s = (s, Returns (view_of s c))"
proof (cases "cow_buffer c")
  case None
  then show ?thesis by (simp add: cow_view_def view_of_def)
next
  case (Some a)
  with assms obtain r where "cow_blocks s a = Some r" by (rule cow_block)
  with Some assms show ?thesis
    by (simp add: cow_view_def run_the_block run_seq view_of_block)
qed

lemma run_cow_index:
  assumes "cow_wf s" "cows s h = Some c" "i < cow_size c"
  shows "cow_index h i s = (s, Returns (view_of s c ! i))"
proof (cases "cow_buffer c")
  case None
  with cow_wfD(1) [OF assms(1,2)] assms(3) show ?thesis by (simp add: cow_ok_def)
next
  case (Some a)
  with assms(1,2) obtain r where r: "cow_blocks s a = Some r" "buf_ok (rcb_buffer r)"
    "cow_offset c + cow_size c \<le> buf_size (rcb_buffer r)" by (rule cow_block)
  with Some assms show ?thesis
    by (simp add: cow_index_def run_the_cow run_the_block run_seq buf_index_ok view_of_def
        buf_ok_length)
qed

lemma run_cow_eq:
  assumes s: "cow_wf s" and h: "cows s h = Some c" "cows s k = Some d"
  shows "cow_eq h k s = (s, Returns (view_of s c = view_of s d))"
proof -
  have len: "length (view_of s c) = cow_size c" "length (view_of s d) = cow_size d"
    using cow_wfD [OF s h(1)] cow_wfD [OF s h(2)] by (auto intro: length_view_of)
  have "view_of s c = view_of s d"
    if "cow_buffer c = cow_buffer d" "cow_offset c = cow_offset d" "cow_size c = cow_size d"
    using that by (simp add: view_of_def cong: option.case_cong)
  with len h show ?thesis
    by (auto simp: cow_eq_def run_the_cow run_cow_view [OF s h(1)] run_cow_view [OF s h(2)] run_seq)
qed

lemma sets_weaken: "sets P m s h v \<Longrightarrow> (Q \<Longrightarrow> P) \<Longrightarrow> sets Q m s h v"
  by (auto simp: sets_def)

text \<open>After unsharing, the variable is the only holder of a block with the room asked for.\<close>

lemma run_unshare:
  assumes s: "cow_wf s" and h: "cows s h = Some c" and a: "cow_buffer c = Some a"
  obtains t c' a' r where "cow_UnshareAndEnsureCapacity g h n s = (t, Returns ())"
    "cow_wf t" "cow_value t = cow_value s" "roomy s \<longrightarrow> 0 < n \<or> 0 < cow_size c \<longrightarrow> roomy t"
    "cows t h = Some c'" "cow_size c' = cow_size c" "cow_buffer c' = Some a'"
    "cow_blocks t a' = Some r" "ref_count r = 1" "n \<le> buf_capacity (rcb_buffer r) - cow_offset c'"
proof -
  obtain r where r: "cow_blocks s a = Some r" "buf_ok (rcb_buffer r)"
    "cow_offset c + cow_size c \<le> buf_size (rcb_buffer r)"
    using s h a by (rule cow_block)
  have room: "cow_room s c = buf_capacity (rcb_buffer r) - cow_offset c"
    using a r by (simp add: cow_room_def)
  note run = cow_UnshareAndEnsureCapacity_def run_the_cow [OF h] run_HasOneRef [OF r(1)]
    run_cow_capacity [OF s h] run_cow_view [OF s h]
  show thesis
  proof (cases "ref_count r = 1 \<and> n \<le> cow_room s c")
    case True
    then show thesis
      using s h a r room by (intro that [of s c a r]) (simp_all add: run)
  next
    case False
    obtain b where b: "BufferT_from g (view_of s c) n = Returns b" "buf_ok b"
      "buf_size b = length (view_of s c)" "buf_capacity b = max (length (view_of s c)) n"
      "buf_contents b = view_of s c"
      by (rule buf_from_ok)
    have len: "length (view_of s c) = cow_size c"
      using cow_wfD [OF s h] by (intro length_view_of)
    have fit: "0 + cow_size c \<le> buf_size b" using b(3) len by simp
    obtain t a' where t: "seq (new_RefCountedBuffer (BufferT_from g (view_of s c) n))
          (\<lambda>a. seq (refptr_set h (Some a)) (\<lambda>_. set_view h 0 (cow_size c))) s = (t, Returns ())"
      "cow_wf t" "cow_value t = (cow_value s)(h \<mapsto> take (cow_size c) (drop 0 (buf_contents b)))"
      "roomy s \<longrightarrow> 0 < buf_capacity b \<longrightarrow> roomy t"
      "cows t h = Some \<lparr>cow_buffer = Some a', cow_offset = 0, cow_size = cow_size c\<rparr>"
      "cow_blocks t a' = Some \<lparr>rcb_buffer = b, ref_count = 1\<rparr>"
      using s h b(1,2) fit by (rule run_new)
    have "cow_value t = cow_value s"
      using t(3) b(5) len cow_value_Some [OF h] by (simp add: fun_eq_iff)
    moreover have "cow_UnshareAndEnsureCapacity g h n s = (t, Returns ())"
      using t(1) False a by (auto simp: run)
    ultimately show thesis
      using t b(4) len
      by (intro that [of t "\<lparr>cow_buffer = Some a', cow_offset = 0, cow_size = cow_size c\<rparr>" a'
            "\<lparr>rcb_buffer = b, ref_count = 1\<rparr>"]) auto
  qed
qed

lemma sets_SetData:
  assumes s: "cow_wf s" and h: "cows s h = Some c"
  shows "sets (0 < cow_room s c \<or> data \<noteq> []) (cow_SetData g h data) s h data"
proof -
  have new: "sets (0 < n \<or> data \<noteq> [])
      (seq (new_RefCountedBuffer (BufferT_from g data n)) (\<lambda>a. seq (refptr_set h (Some a))
        (\<lambda>_. set_view h 0 (length data)))) s h data" for n
  proof -
    obtain b where "BufferT_from g data n = Returns b" "buf_ok b" "buf_size b = length data"
      "buf_capacity b = max (length data) n" "buf_contents b = data"
      by (rule buf_from_ok)
    then have "sets (0 < max (length data) n)
        (seq (new_RefCountedBuffer (BufferT_from g data n)) (\<lambda>a. seq (refptr_set h (Some a))
          (\<lambda>_. set_view h 0 (length data)))) s h data"
      using sets_new [OF s h, of "BufferT_from g data n" b 0 "length data"] by simp
    then show ?thesis by (rule sets_weaken) (auto simp: less_max_iff_disj)
  qed
  note run = cow_SetData_def run_the_cow [OF h] run_cow_capacity [OF s h]
  show ?thesis
  proof (cases "cow_buffer c")
    case None
    have "sets True (seq (refptr_set h None) (\<lambda>_. set_view h 0 0)) s h []"
      using sets_rebind [OF s h, of None 0 0] by (simp add: cow_ok_def view_of_def)
    with None show ?thesis
      using new [of "length data"] by (auto simp: run seq_assoc sets_def)
  next
    case (Some a)
    with s h obtain r where r: "cow_blocks s a = Some r" "buf_ok (rcb_buffer r)" by (rule cow_block)
    obtain b where b: "buf_SetData g data (rcb_buffer r) = Returns b" "buf_ok b"
      "buf_contents b = data" "buf_capacity (rcb_buffer r) \<le> buf_capacity b"
      using r(2) by (rule buf_SetData_ok)
    then have "length data \<le> buf_size b" using buf_ok_length [OF b(2)] by simp
    then have "sets (0 < cow_room s c \<or> data \<noteq> []) (seq (put_block a b) (\<lambda>_. set_view h 0 (length data))) s h data"
      if "ref_count r = 1"
      using sets_in_place [OF s h Some r(1) that b(2), of 0 "length data"] b(3,4) by simp
    then show ?thesis
      using new [of "cow_room s c"] Some b(1)
      by (auto simp: run seq_assoc sets_def run_HasOneRef [OF r(1)] run_the_block [OF r(1)])
  qed
qed

lemma sets_AppendData:
  assumes s: "cow_wf s" and h: "cows s h = Some c"
  shows "sets (0 < cow_room s c \<or> data \<noteq> []) (cow_AppendData g h data) s h (view_of s c @ data)"
proof (cases "cow_buffer c")
  case None
  obtain b where b: "BufferT_from g data (length data) = Returns b" "buf_ok b" "buf_size b = length data"
    "buf_capacity b = max (length data) (length data)" "buf_contents b = data"
    by (rule buf_from_ok)
  then show ?thesis
    using sets_new [OF s h, of "BufferT_from g data (length data)" b 0 "length data"] None
    by (auto simp: cow_AppendData_def run_the_cow [OF h] sets_def view_of_def cow_room_def)
next
  case (Some a)
  let ?n = "max (cow_room s c) (cow_size c + length data)"
  obtain t c' a' r where t: "cow_UnshareAndEnsureCapacity g h ?n s = (t, Returns ())"
    "cow_wf t" "cow_value t = cow_value s" "roomy s \<longrightarrow> 0 < ?n \<or> 0 < cow_size c \<longrightarrow> roomy t"
    "cows t h = Some c'" "cow_size c' = cow_size c" "cow_buffer c' = Some a'"
    "cow_blocks t a' = Some r" "ref_count r = 1" "?n \<le> buf_capacity (rcb_buffer r) - cow_offset c'"
    using s h Some by (rule run_unshare)
  obtain r0 where r: "cow_blocks t a' = Some r0" "buf_ok (rcb_buffer r0)"
    "cow_offset c' + cow_size c' \<le> buf_size (rcb_buffer r0)"
    using t(2,5,7) by (rule cow_block)
  have xs: "view_of t c' = view_of s c"
    using t(3,5) h by (auto simp: cow_value_def fun_eq_iff dest!: spec [of _ h])
  let ?b = "(rcb_buffer r)\<lparr>buf_size := cow_offset c' + cow_size c'\<rparr>"
  have cut: "buf_SetSize g (cow_offset c' + cow_size c') (rcb_buffer r) = Returns ?b" "buf_ok ?b"
    "buf_contents ?b = take (cow_offset c' + cow_size c') (buf_contents (rcb_buffer r))"
    using r t(8) by (simp_all add: buf_SetSize_shrink buf_truncate)
  obtain b where b: "buf_AppendData g data ?b = Returns b" "buf_ok b"
    "buf_contents b = buf_contents ?b @ data" "buf_capacity ?b \<le> buf_capacity b"
    using cut(2) by (rule buf_AppendData_ok)
  have len: "length (buf_contents ?b) = cow_offset c' + cow_size c'"
    using buf_ok_length [OF cut(2)] by simp
  then have size: "cow_offset c' + (cow_size c' + length data) \<le> buf_size b"
    using buf_ok_length [OF b(2)] b(3) by simp
  have "drop (cow_offset c') (buf_contents ?b) = view_of t c'"
    using t(7,8) cut(3) by (simp add: view_of_def drop_take)
  then have v: "take (cow_size c' + length data) (drop (cow_offset c') (buf_contents b)) = view_of s c @ data"
    using xs len b(3) length_view_of [OF cow_wfD(1,3) [OF t(2,5)]] by simp
  have "sets True (seq (put_block a' b) (\<lambda>_. set_view h (cow_offset c') (cow_size c' + length data))) t h
          (view_of s c @ data)"
    using sets_in_place [OF t(2,5,7,8,9) b(2) size] b(4) by (simp add: v)
  then show ?thesis
    using t Some cut(1) b(1)
    by (auto simp: cow_AppendData_def run_the_cow [OF h] run_cow_capacity [OF s h] run_the_cow [OF t(5)]
        run_the_block [OF t(8)] sets_def)
qed

lemma sets_view:
  assumes s: "cow_wf s" and h: "cows s h = Some c"
    and ok: "cow_ok s \<lparr>cow_buffer = cow_buffer c, cow_offset = off, cow_size = n\<rparr>"
  shows "sets True (set_view h off n) s h
           (view_of s \<lparr>cow_buffer = cow_buffer c, cow_offset = off, cow_size = n\<rparr>)"
proof -
  note wf = cow_wfD [OF s h]
  let ?c = "\<lparr>cow_buffer = cow_buffer c, cow_offset = off, cow_size = n\<rparr>"
  let ?t = "s\<lparr>cows := (cows s)(h \<mapsto> ?c)\<rparr>"
  have c: "c\<lparr>cow_offset := off, cow_size := n\<rparr> = ?c" by (cases c) simp
  have run: "set_view h off n s = (?t, Returns ())"
    using run_set_view [OF h, of off n] c by simp
  have rt: "refs_ok ?t" using wf(2) h by (rule refs_ok_same_blocks) simp
  have "same_others h s ?t" by (rule same_othersI) simp
  moreover have "blocks_ok ?t" "cows ?t = (cows s)(h \<mapsto> ?c)" "cow_ok ?t ?c"
    using wf(3) ok by (simp_all add: blocks_ok_def)
  ultimately have "cow_wf ?t" "cow_value ?t = (cow_value s)(h \<mapsto> view_of ?t ?c)"
    using cow_wf_change [OF s rt] by blast+
  then show ?thesis
    using run by (intro setsI [of _ s ?t]) (simp_all add: roomy_def)
qed

lemma sets_shrink:
  assumes s: "cow_wf s" and h: "cows s h = Some c" and n: "n \<le> cow_size c - d" "d \<le> cow_size c"
    and a: "cow_buffer c = Some a"
  shows "sets True (set_view h (cow_offset c + d) n) s h (take n (drop d (view_of s c)))"
proof -
  let ?c = "\<lparr>cow_buffer = cow_buffer c, cow_offset = cow_offset c + d, cow_size = n\<rparr>"
  have "cow_ok s ?c" "view_of s ?c = take n (drop d (view_of s c))"
    using cow_wfD(1) [OF s h] n a
    by (auto simp: cow_ok_def view_of_def drop_take add.commute split: option.splits)
  with sets_view [OF s h, of "cow_offset c + d" n] show ?thesis by simp
qed

lemma sets_nothing:
  assumes s: "cow_wf s" and h: "cows s h = Some c"
  shows "sets True (set_view h 0 0) s h []"
proof -
  let ?c = "\<lparr>cow_buffer = cow_buffer c, cow_offset = 0, cow_size = 0\<rparr>"
  have "cow_ok s ?c" "view_of s ?c = []"
    using cow_wfD(1) [OF s h] by (auto simp: cow_ok_def view_of_def split: option.splits)
  with sets_view [OF s h, of 0 0] show ?thesis by simp
qed

text \<open>A larger size keeps the old bytes in front; what follows them is unspecified.\<close>

lemma sets_SetSize:
  assumes s: "cow_wf s" and h: "cows s h = Some c"
  shows "\<exists>ys. length ys = n - cow_size c \<and> sets True (cow_SetSize g h n) s h (take n (view_of s c) @ ys)"
proof (cases "cow_buffer c")
  case None
  then have c: "cow_size c = 0" "cow_offset c = 0" using cow_wfD(1) [OF s h] by (simp_all add: cow_ok_def)
  show ?thesis
  proof (cases "n = 0")
    case True
    then have "sets True (cow_SetSize g h n) s h []"
      using None s h by (intro setsI [of _ s s])
        (auto simp: cow_SetSize_def run_the_cow [OF h] cow_value_def view_of_def)
    with True show ?thesis by (intro exI [of _ "[]"]) simp
  next
    case False
    let ?b = "BufferT_sized g n n"
    have "sets (0 < buf_capacity ?b) (seq (new_RefCountedBuffer (Returns ?b))
            (\<lambda>a. seq (refptr_set h (Some a)) (\<lambda>_. set_view h 0 n))) s h (buf_contents ?b)"
      using sets_new [OF s h refl sized_ok, of 0 n g n n] buf_ok_length [OF sized_ok, of g n n] by simp
    then have "sets True (cow_SetSize g h n) s h (buf_contents ?b)"
      using None False by (auto simp: cow_SetSize_def run_the_cow [OF h] sets_def)
    with None c show ?thesis
      using buf_ok_length [OF sized_ok, of g n n]
      by (intro exI [of _ "buf_contents ?b"]) (simp add: view_of_def)
  qed
next
  case (Some a)
  show ?thesis
  proof (cases "n \<le> cow_size c")
    case True
    then have "sets True (cow_SetSize g h n) s h (take n (view_of s c))"
      using sets_shrink [OF s h, of n 0 a] Some by (simp add: cow_SetSize_def run_the_cow [OF h] sets_def)
    with True show ?thesis by (intro exI [of _ "[]"]) simp
  next
    case False
    let ?n = "max (cow_room s c) n"
    obtain t c' a' r where t: "cow_UnshareAndEnsureCapacity g h ?n s = (t, Returns ())"
      "cow_wf t" "cow_value t = cow_value s" "roomy s \<longrightarrow> 0 < ?n \<or> 0 < cow_size c \<longrightarrow> roomy t"
      "cows t h = Some c'" "cow_size c' = cow_size c" "cow_buffer c' = Some a'"
      "cow_blocks t a' = Some r" "ref_count r = 1" "?n \<le> buf_capacity (rcb_buffer r) - cow_offset c'"
      using s h Some by (rule run_unshare)
    obtain r0 where r: "cow_blocks t a' = Some r0" "buf_ok (rcb_buffer r0)"
      "cow_offset c' + cow_size c' \<le> buf_size (rcb_buffer r0)"
      using t(2,5,7) by (rule cow_block)
    have ok: "buf_ok (rcb_buffer r)" using r t(8) by simp
    obtain b where b: "buf_SetSize g (n + cow_offset c') (rcb_buffer r) = Returns b" "buf_ok b"
      "buf_size b = n + cow_offset c'"
      "take (buf_size (rcb_buffer r)) (buf_contents b) = take (n + cow_offset c') (buf_contents (rcb_buffer r))"
      "buf_capacity (rcb_buffer r) \<le> buf_capacity b"
      using ok by (rule buf_SetSize_ok)
    let ?v = "take n (drop (cow_offset c') (buf_contents b))"
    have "sets True (seq (put_block a' b) (\<lambda>_. set_view h (cow_offset c') n)) t h ?v"
      using sets_in_place [OF t(2,5,7,8,9) b(2), of "cow_offset c'" n] b(3,5) by simp
    then have "sets True (cow_SetSize g h n) s h ?v"
      using t Some b(1) False
      by (auto simp: cow_SetSize_def run_the_cow [OF h] run_cow_capacity [OF s h] run_the_cow [OF t(5)]
          run_the_block [OF t(8)] sets_def)
    moreover have "take (cow_size c) ?v = view_of s c"
    proof -
      have "view_of t c' = view_of s c"
        using t(3,5) h by (auto simp: cow_value_def fun_eq_iff dest!: spec [of _ h])
      moreover have "take (cow_offset c' + cow_size c) (buf_contents b)
          = take (cow_offset c' + cow_size c) (buf_contents (rcb_buffer r))"
        using arg_cong [OF b(4), of "take (cow_offset c' + cow_size c)"] r(1,3) t(6,8) False
        by (simp add: min_def)
      ultimately show ?thesis
        using t(6,7,8) False by (simp add: view_of_def take_drop min_def add.commute)
    qed
    moreover have "length ?v = n" using buf_ok_length [OF b(2)] b(3) by simp
    moreover have "take n (view_of s c) = view_of s c"
      using length_view_of [OF cow_wfD(1,3) [OF s h]] False by simp
    ultimately show ?thesis
      using False by (intro exI [of _ "drop (cow_size c) ?v"])
        (metis append_take_drop_id length_drop)
  qed
qed

lemma sets_same:
  assumes "cow_wf t" "cow_value t = cow_value s" "cows s h = Some c" "m s = (t, Returns ())"
    "roomy s \<Longrightarrow> Q \<Longrightarrow> roomy t"
  shows "sets Q m s h (view_of s c)"
  using assms by (intro setsI [of m s t]) (simp_all add: cow_value_def fun_upd_idem)

lemma sets_EnsureCapacity:
  assumes s: "cow_wf s" and h: "cows s h = Some c"
  shows "sets True (cow_EnsureCapacity g h n) s h (view_of s c)"
proof (cases "cow_buffer c")
  case None
  have "sets (0 < buf_capacity (BufferT_sized g 0 n)) (seq (new_RefCountedBuffer (Returns (BufferT_sized g 0 n)))
          (\<lambda>a. seq (refptr_set h (Some a)) (\<lambda>_. set_view h 0 0))) s h []"
    using sets_new [OF s h refl sized_ok, of 0 0 g 0 n] by simp
  moreover have "sets True (ret ()) s h []"
    using sets_same [OF s refl h, of "ret ()"] None by (simp add: view_of_def)
  ultimately show ?thesis
    using None by (auto simp: cow_EnsureCapacity_def run_the_cow [OF h] sets_def view_of_def)
next
  case (Some a)
  obtain t where t: "cow_UnshareAndEnsureCapacity g h n s = (t, Returns ())" "cow_wf t"
    "cow_value t = cow_value s" "roomy s \<longrightarrow> 0 < n \<or> 0 < cow_size c \<longrightarrow> roomy t"
    using s h Some by (rule run_unshare)
  have "sets True (ret ()) s h (view_of s c)" using sets_same [OF s refl h, of "ret ()"] by simp
  moreover have "sets (0 < n) (cow_UnshareAndEnsureCapacity g h n) s h (view_of s c)"
    using t(1,4) by (intro sets_same [OF t(2,3) h]) simp_all
  ultimately show ?thesis
    using Some by (auto simp: cow_EnsureCapacity_def run_the_cow [OF h] run_cow_capacity [OF s h] sets_def)
qed

lemma sets_Clear:
  assumes s: "cow_wf s" and h: "cows s h = Some c"
  shows "sets (0 < cow_room s c \<or> cow_buffer c = None) (cow_Clear g h) s h []"
proof (cases "cow_buffer c")
  case None
  have "sets True (ret ()) s h []"
    using sets_same [OF s refl h, of "ret ()"] None by (simp add: view_of_def)
  with None show ?thesis by (simp add: cow_Clear_def run_the_cow [OF h] sets_def)
next
  case (Some a)
  with s h obtain r where r: "cow_blocks s a = Some r" "buf_ok (rcb_buffer r)" by (rule cow_block)
  let ?b = "BufferT_sized g 0 (cow_room s c)"
  have "sets (0 < buf_capacity ?b) (seq (new_RefCountedBuffer (Returns ?b))
          (\<lambda>a. seq (refptr_set h (Some a)) (\<lambda>_. set_view h 0 0))) s h []"
    using sets_new [OF s h refl sized_ok, of 0 0 g 0 "cow_room s c"] by simp
  moreover have "sets True (seq (put_block a (buf_Clear (rcb_buffer r))) (\<lambda>_. set_view h 0 0)) s h []"
    if "ref_count r = 1"
    using sets_in_place [OF s h Some r(1) that buf_Clear_ok(1) [OF r(2)], of 0 0]
    by (simp add: buf_Clear_ok)
  ultimately show ?thesis
    using Some
    by (auto simp: cow_Clear_def run_the_cow [OF h] run_cow_capacity [OF s h] run_HasOneRef [OF r(1)]
        run_the_block [OF r(1)] seq_assoc sets_def)
qed

lemma sets_write:
  assumes s: "cow_wf s" and h: "cows s h = Some c" and i: "i < cow_size c"
  shows "sets True (cow_write g h i v) s h ((view_of s c)[i := v])"
proof -
  obtain a where a: "cow_buffer c = Some a"
    using cow_wfD(1) [OF s h] i by (cases "cow_buffer c") (auto simp: cow_ok_def)
  obtain t c' a' r where t: "cow_UnshareAndEnsureCapacity g h (cow_room s c) s = (t, Returns ())"
    "cow_wf t" "cow_value t = cow_value s" "roomy s \<longrightarrow> 0 < cow_room s c \<or> 0 < cow_size c \<longrightarrow> roomy t"
    "cows t h = Some c'" "cow_size c' = cow_size c" "cow_buffer c' = Some a'"
    "cow_blocks t a' = Some r" "ref_count r = 1" "cow_room s c \<le> buf_capacity (rcb_buffer r) - cow_offset c'"
    using s h a by (rule run_unshare)
  obtain r0 where r0: "cow_blocks t a' = Some r0" "buf_ok (rcb_buffer r0)"
    "cow_offset c' + cow_size c' \<le> buf_size (rcb_buffer r0)"
    using t(2,5,7) by (rule cow_block)
  then have r: "buf_ok (rcb_buffer r)" "cow_offset c' + cow_size c' \<le> buf_size (rcb_buffer r)"
    using t(8) by simp_all
  obtain d where d: "buf_data (rcb_buffer r) = Some d" "length d = buf_capacity (rcb_buffer r)"
    using r i t(6) by (auto simp: buf_ok_defs)
  have sz: "buf_size (rcb_buffer r) \<le> length d" using buf_ok_size [OF r(1)] d(2) by simp
  let ?b = "(rcb_buffer r)\<lparr>buf_data := Some (d[cow_offset c' + i := v])\<rparr>"
  have ok: "buf_ok ?b" using r d by (simp add: buf_ok_defs)
  have xs: "view_of t c' = view_of s c"
    using t(3,5) h by (auto simp: cow_value_def fun_eq_iff dest!: spec [of _ h])
  have val: "take (cow_size c') (drop (cow_offset c') (buf_contents ?b)) = (view_of s c)[i := v]"
    unfolding xs [symmetric] using t(6,7,8) d sz r(2) i
    by (simp add: view_of_def buf_contents_def buf_block_def take_update_swap drop_update_swap)
  have c': "c'\<lparr>cow_offset := cow_offset c', cow_size := cow_size c'\<rparr> = c'" by simp
  have "(cows t)(h \<mapsto> c') = cows t" using t(5) by (simp add: fun_upd_idem)
  then have same: "set_view h (cow_offset c') (cow_size c') u = (u, Returns ())"
    if "cows u = cows t" for u
    using run_set_view [of u h c' "cow_offset c'" "cow_size c'"] that t(5) by simp
  have "sets True (seq (put_block a' ?b) (\<lambda>_. set_view h (cow_offset c') (cow_size c'))) t h
          ((view_of s c)[i := v])"
    using sets_in_place [OF t(2,5,7,8,9) ok, of "cow_offset c'" "cow_size c'"] r(2) by (simp add: val)
  moreover have "seq (put_block a' ?b) (\<lambda>_. set_view h (cow_offset c') (cow_size c')) t = put_block a' ?b t"
    using t(8) by (simp add: put_block_def run_the_block same)
  ultimately have "sets True (put_block a' ?b) t h ((view_of s c)[i := v])"
    by (simp add: sets_def)
  moreover have "cow_MutableData g h s = (t, Returns (Some (a', cow_offset c')))"
    using a t(1,5,7) by (simp add: cow_MutableData_def run_the_cow [OF h] run_cow_capacity [OF s h] run_the_cow)
  moreover have "poke a' (cow_offset c' + i) v t = put_block a' ?b t"
    using d sz r(2) i t(6,8) by (simp add: poke_def run_the_block)
  ultimately show ?thesis
    using t(3,4) i by (auto simp: cow_write_def sets_def)
qed

text \<open>Declaring a variable.\<close>

lemma sets_create:
  assumes s: "cow_wf s" and h: "cows s h = None"
  shows "sets True (put_cow h cow_null) s h []"
proof -
  let ?t = "s\<lparr>cows := (cows s)(h \<mapsto> cow_null)\<rparr>"
  have hs: "holders ?t a = holders s a" for a using h by (auto simp: holders_def cow_null_def)
  have "refs_ok ?t" using s by (simp add: cow_wf_def refs_ok_def hs cong: option.case_cong)
  moreover have "blocks_ok ?t" using s by (simp add: cow_wf_def blocks_ok_def)
  moreover have "cow_ok ?t cow_null" "view_of ?t cow_null = []"
    by (simp_all add: cow_ok_def view_of_def cow_null_def)
  moreover have "same_others h s ?t" by (rule same_othersI) simp
  ultimately have "cow_wf ?t" "cow_value ?t = (cow_value s)(h \<mapsto> [])"
    using cow_wf_change [OF s, of ?t cow_null h] by simp_all
  then show ?thesis
    by (intro setsI [of _ s ?t]) (simp_all add: put_cow_def roomy_def)
qed

text \<open>A copy, or a slice, of another variable.\<close>

lemma sets_copy_view:
  assumes s: "cow_wf s" and h: "cows s h = None" and k: "cows s k = Some d"
  shows "sets True (cow_copy h k) s h (view_of s d)"
proof -
  obtain t where t: "put_cow h cow_null s = (t, Returns ())" "cow_wf t"
    "cow_value t = (cow_value s)(h \<mapsto> [])" "roomy s \<and> True \<longrightarrow> roomy t"
    using sets_create [OF s h] by (rule setsE)
  have t_eq: "t = s\<lparr>cows := (cows s)(h \<mapsto> cow_null)\<rparr>" using t(1) by (simp add: put_cow_def)
  note d = cow_eta [of d]
  have "cow_ok t d" "view_of t d = view_of s d"
    using cow_wfD(1) [OF s k] by (simp_all add: t_eq)
  then have "sets True (seq (refptr_set h (cow_buffer d)) (\<lambda>_. set_view h (cow_offset d) (cow_size d))) t h
          (view_of s d)"
    using sets_rebind [OF t(2), of h cow_null "cow_buffer d" "cow_offset d" "cow_size d"] d
    by (simp add: t_eq)
  then show ?thesis
    using t by (auto simp: cow_copy_def run_the_cow [OF k] sets_def)
qed

lemma sets_assign:
  assumes s: "cow_wf s" and h: "cows s h = Some c" and k: "cows s k = Some d"
  shows "sets True (cow_assign h k) s h (view_of s d)"
proof (cases "k = h")
  case True
  then show ?thesis using sets_same [OF s refl h, of "ret ()"] h k by (simp add: cow_assign_def)
next
  case False
  note d = cow_eta [of d]
  show ?thesis
    using sets_rebind [OF s h, of "cow_buffer d" "cow_offset d" "cow_size d" True]
      cow_wfD(1) [OF s k] d False
    by (simp add: cow_assign_def run_the_cow [OF k] sets_def)
qed

lemma sets_Slice:
  assumes s: "cow_wf s" and h: "cows s h = None" and k: "cows s k = Some d"
    and n: "off + len \<le> cow_size d"
  shows "sets True (cow_Slice h k off len) s h (take len (drop off (view_of s d)))"
proof -
  obtain t where t: "cow_copy h k s = (t, Returns ())" "cow_wf t"
    "cow_value t = (cow_value s)(h \<mapsto> view_of s d)" "roomy s \<and> True \<longrightarrow> roomy t"
    using sets_copy_view [OF s h k] by (rule setsE)
  then obtain c where c: "cows t h = Some c" "view_of t c = view_of s d"
    by (auto simp: cow_value_def fun_eq_iff dest!: spec [of _ h])
  have size: "cow_size c = cow_size d"
    using length_view_of [OF cow_wfD(1,3) [OF t(2) c(1)]] length_view_of [OF cow_wfD(1,3) [OF s k]] c(2)
    by simp
  have "sets True (set_view h (cow_offset c + off) len) t h (take len (drop off (view_of s d)))"
  proof (cases "cow_buffer c")
    case None
    with cow_wfD(1) [OF t(2) c(1)] n size
    have z: "cow_offset c = 0" "cow_size c = 0" "off = 0" "len = 0" by (simp_all add: cow_ok_def)
    have "c\<lparr>cow_offset := 0, cow_size := 0\<rparr> = c" using z None by (cases c) simp
    then have "set_view h (cow_offset c + off) len t = (t, Returns ())"
      using run_set_view [OF c(1), of 0 0] z c(1) by (simp add: fun_upd_idem)
    then show ?thesis
      using t z c(2) None by (intro setsI [of _ t t]) (auto simp: cow_value_def c(1) view_of_def)
  next
    case (Some a)
    then show ?thesis
      using sets_shrink [OF t(2) c(1), of len off a] n size c(2) by simp
  qed
  then show ?thesis
    using t by (auto simp: cow_Slice_def run_the_cow [OF c(1)] sets_def)
qed

lemma run_sized:
  assumes s: "cow_wf s" and h: "cows s h = None"
  obtains t where "cow_sized g h n cap s = (t, Returns ())" "cow_wf t"
    "cow_value t = (cow_value s)(h \<mapsto> buf_contents (BufferT_sized g n cap))" "roomy s \<longrightarrow> roomy t"
    "if n = 0 \<and> cap = 0 then cows t h = Some cow_null
     else \<exists>a. cows t h = Some \<lparr>cow_buffer = Some a, cow_offset = 0, cow_size = n\<rparr> \<and>
              cow_blocks t a = Some \<lparr>rcb_buffer = BufferT_sized g n cap, ref_count = 1\<rparr>"
proof -
  obtain u where u: "put_cow h cow_null s = (u, Returns ())" "cow_wf u"
    "cow_value u = (cow_value s)(h \<mapsto> [])" "roomy s \<and> True \<longrightarrow> roomy u"
    using sets_create [OF s h] by (rule setsE)
  have uh: "cows u h = Some cow_null" using u(1) by (auto simp: put_cow_def)
  let ?b = "BufferT_sized g n cap"
  show thesis
  proof (cases "n = 0 \<and> cap = 0")
    case True
    then have "set_view h 0 n u = (u, Returns ())"
      using run_set_view [OF uh, of 0 n] uh by (simp add: cow_null_def fun_upd_idem)
    then show thesis
      using u uh True by (intro that [of u]) (simp_all add: cow_sized_def buf_contents_def)
  next
    case False
    have fit: "0 + n \<le> buf_size ?b" by simp
    obtain t a where t: "seq (new_RefCountedBuffer (Returns ?b))
          (\<lambda>a. seq (refptr_set h (Some a)) (\<lambda>_. set_view h 0 n)) u = (t, Returns ())"
      "cow_wf t" "cow_value t = (cow_value u)(h \<mapsto> take n (drop 0 (buf_contents ?b)))"
      "roomy u \<longrightarrow> 0 < buf_capacity ?b \<longrightarrow> roomy t"
      "cows t h = Some \<lparr>cow_buffer = Some a, cow_offset = 0, cow_size = n\<rparr>"
      "cow_blocks t a = Some \<lparr>rcb_buffer = ?b, ref_count = 1\<rparr>"
      using u(2) uh refl sized_ok fit by (rule run_new)
    have "take n (buf_contents ?b) = buf_contents ?b"
      using buf_ok_length [OF sized_ok, of g n cap] by simp
    then show thesis
      using t u False
      by (intro that [of t]) (auto simp: cow_sized_def seq_assoc less_max_iff_disj)
  qed
qed

lemma sets_sized:
  assumes "cow_wf s" "cows s h = None"
  shows "sets True (cow_sized g h n cap) s h (buf_contents (BufferT_sized g n cap))"
  by (rule run_sized [OF assms]) (rule setsI, auto)

lemma sets_from:
  assumes s: "cow_wf s" and h: "cows s h = None"
  shows "sets True (cow_from g h data cap) s h data"
proof -
  let ?b = "BufferT_sized g (length data) cap"
  obtain t where t: "cow_sized g h (length data) cap s = (t, Returns ())" "cow_wf t"
    "cow_value t = (cow_value s)(h \<mapsto> buf_contents ?b)" "roomy s \<longrightarrow> roomy t"
    "if length data = 0 \<and> cap = 0 then cows t h = Some cow_null
     else \<exists>a. cows t h = Some \<lparr>cow_buffer = Some a, cow_offset = 0, cow_size = length data\<rparr> \<and>
              cow_blocks t a = Some \<lparr>rcb_buffer = ?b, ref_count = 1\<rparr>"
    using s h by (rule run_sized)
  show ?thesis
  proof (cases "length data = 0 \<and> cap = 0")
    case True
    with t show ?thesis
      by (intro setsI [of _ s t]) (simp_all add: cow_from_def run_the_cow cow_null_def buf_contents_def)
  next
    case False
    with t(5) obtain a where c: "cows t h = Some \<lparr>cow_buffer = Some a, cow_offset = 0, cow_size = length data\<rparr>"
      "cow_blocks t a = Some \<lparr>rcb_buffer = ?b, ref_count = 1\<rparr>" by auto
    obtain b where b: "(if data = [] then Returns ?b else buf_memcpy ?b 0 data) = Returns b" "buf_ok b"
      "buf_size b = length data" "buf_capacity b = buf_capacity ?b" "buf_contents b = data"
      by (rule buf_from_ok [of g data cap]) (simp add: BufferT_from_def Let_def split: if_splits)
    have "sets True (seq (put_block a b) (\<lambda>_. set_view h 0 (length data))) t h data"
      using sets_in_place [OF t(2) c(1) _ c(2) _ b(2), of 0 "length data"] b(3,4,5) by simp
    with t(1,3,4) b(1) show ?thesis
      by (auto simp: cow_from_def run_the_cow [OF c(1)] run_the_block [OF c(2)] sets_def)
  qed
qed

text \<open>Exchanging two variables permutes the holders.\<close>

lemma run_swap:
  assumes s: "cow_wf s" and h: "cows s h = Some c" and k: "cows s k = Some d"
  obtains t where "cow_swap h k s = (t, Returns ())" "cow_wf t"
    "cow_value t = (cow_value s)(h \<mapsto> view_of s d, k \<mapsto> view_of s c)" "roomy s \<longrightarrow> roomy t"
    "t = s\<lparr>cows := (cows s)(h \<mapsto> d, k \<mapsto> c)\<rparr>"
proof -
  let ?t = "s\<lparr>cows := (cows s)(h \<mapsto> d, k \<mapsto> c)\<rparr>"
  let ?f = "id(h := k, k := h)"
  have inj: "inj_on ?f A" for A by (auto simp: inj_on_def)
  have "holders ?t a = ?f ` holders s a" for a
    using h k by (auto simp: holders_def image_iff split: if_splits)
  then have "card (holders ?t a) = card (holders s a)" "holders ?t a = {} \<longleftrightarrow> holders s a = {}" for a
    using card_image [OF inj] by auto
  then have "refs_ok ?t"
    using s by (simp add: cow_wf_def refs_ok_def cong: option.case_cong)
  then have "cow_wf ?t"
    using s h k by (auto simp: cow_wf_def blocks_ok_def)
  moreover have "cow_value ?t = (cow_value s)(h \<mapsto> view_of s d, k \<mapsto> view_of s c)"
    by (simp add: cow_value_def fun_eq_iff)
  ultimately show thesis
    using h k by (intro that [of ?t]) (simp_all add: cow_swap_def run_the_cow put_cow_def roomy_def)
qed

lemma run_move:
  assumes s: "cow_wf s" and h: "cows s h = None" and k: "cows s k = Some d"
  obtains t where "cow_move h k s = (t, Returns ())" "cow_wf t"
    "cow_value t = (cow_value s)(h \<mapsto> view_of s d, k \<mapsto> [])" "roomy s \<longrightarrow> roomy t"
proof -
  obtain u where u: "put_cow h cow_null s = (u, Returns ())" "cow_wf u"
    "cow_value u = (cow_value s)(h \<mapsto> [])" "roomy s \<and> True \<longrightarrow> roomy u"
    using sets_create [OF s h] by (rule setsE)
  have u_eq: "u = s\<lparr>cows := (cows s)(h \<mapsto> cow_null)\<rparr>" using u(1) by (simp add: put_cow_def)
  have uh: "cows u h = Some cow_null" "cows u k = Some d" using h k by (auto simp: u_eq)
  obtain t where t: "cow_swap h k u = (t, Returns ())" "cow_wf t"
    "cow_value t = (cow_value u)(h \<mapsto> view_of u d, k \<mapsto> view_of u cow_null)" "roomy u \<longrightarrow> roomy t"
    "t = u\<lparr>cows := (cows u)(h \<mapsto> d, k \<mapsto> cow_null)\<rparr>"
    using u(2) uh by (rule run_swap)
  have "cow_move h k s = (t, Returns ())"
    using t(5) by (simp add: cow_move_def run_the_cow [OF k] put_cow_def u_eq)
  then show thesis
    using t u by (intro that [of t]) (simp_all add: u_eq)
qed

text \<open>Dropping the reference of a variable.\<close>

lemma run_drop:
  assumes s: "cow_wf s" and h: "cows s h = Some c"
  obtains t where "seq (refptr_set h None) (\<lambda>_. set_view h 0 0) s = (t, Returns ())" "cow_wf t"
    "cow_value t = (cow_value s)(h \<mapsto> [])" "roomy s \<longrightarrow> roomy t"
    "t = (retarget s h None)\<lparr>cows := (cows s)(h \<mapsto> cow_null)\<rparr>"
proof -
  have "sets True (seq (refptr_set h None) (\<lambda>_. set_view h 0 0)) s h []"
    using sets_rebind [OF s h, of None 0 0] by (simp add: cow_ok_def view_of_def)
  then obtain t where t: "seq (refptr_set h None) (\<lambda>_. set_view h 0 0) s = (t, Returns ())" "cow_wf t"
    "cow_value t = (cow_value s)(h \<mapsto> [])" "roomy s \<and> True \<longrightarrow> roomy t"
    by (rule setsE)
  moreover have "refptr_set h None s = (retarget s h None, Returns ())"
    using cow_wfD(2) [OF s h] h by (rule refptr_set_retarget) simp
  moreover have "set_view h 0 0 (retarget s h None)
      = ((retarget s h None)\<lparr>cows := (cows s)(h \<mapsto> cow_null)\<rparr>, Returns ())"
    using run_set_view [of "retarget s h None" h "c\<lparr>cow_buffer := None\<rparr>" 0 0]
    by (simp add: retarget_fields(2) [OF h] cow_update_all cow_null_def)
  ultimately show thesis by (intro that [of t]) simp_all
qed

lemma run_destroy:
  assumes s: "cow_wf s" and h: "cows s h = Some c"
  obtains t where "cow_destroy h s = (t, Returns ())" "cow_wf t"
    "cow_value t = (cow_value s)(h := None)" "roomy s \<longrightarrow> roomy t"
proof -
  obtain u where u: "seq (refptr_set h None) (\<lambda>_. set_view h 0 0) s = (u, Returns ())" "cow_wf u"
    "cow_value u = (cow_value s)(h \<mapsto> [])" "roomy s \<longrightarrow> roomy u"
    "u = (retarget s h None)\<lparr>cows := (cows s)(h \<mapsto> cow_null)\<rparr>"
    using s h by (rule run_drop)
  let ?t = "u\<lparr>cows := (cows u)(h := None)\<rparr>"
  have "refptr_set h None s = (retarget s h None, Returns ())"
    using cow_wfD(2) [OF s h] h by (rule refptr_set_retarget) simp
  then have run: "cow_destroy h s = (?t, Returns ())"
    by (simp add: cow_destroy_def u(5) retarget_fields(2) [OF h])
  have "cows u h = Some cow_null" by (simp add: u(5))
  then have hs: "holders ?t a = holders u a" for a by (auto simp: holders_def cow_null_def)
  have "refs_ok ?t"
    using u(2) finite_subset [of "dom (cows ?t)" "dom (cows u)"]
    by (auto simp: cow_wf_def refs_ok_def hs cong: option.case_cong split: if_splits)
  then have "cow_wf ?t" using u(2) by (auto simp: cow_wf_def blocks_ok_def split: if_splits)
  moreover have "cow_value ?t = (cow_value s)(h := None)"
    using u(3) by (auto simp: cow_value_def fun_eq_iff)
  ultimately show thesis
    using run u(4) by (intro that [of ?t]) (simp_all add: roomy_def)
qed

lemma run_move_assign:
  assumes s: "cow_wf s" and h: "cows s h = Some c" and k: "cows s k = Some d"
  obtains t where "cow_move_assign h k s = (t, Returns ())" "cow_wf t"
    "cow_value t = (cow_value s)(h \<mapsto> view_of s d, k \<mapsto> [])" "roomy s \<longrightarrow> roomy t"
proof (cases "h = k")
  case True
  then have dc: "d = c" using h k by simp
  have "cow_move_assign h h s = set_view h 0 0 s"
    using h
    by (cases c) (simp add: cow_move_assign_def run_the_cow put_cow_def run_set_view set_view_def
        split: option.split)
  moreover obtain t where t: "set_view h 0 0 s = (t, Returns ())" "cow_wf t"
    "cow_value t = (cow_value s)(h \<mapsto> [])" "roomy s \<and> True \<longrightarrow> roomy t"
    using sets_nothing [OF s h] by (rule setsE)
  ultimately show thesis using True by (intro that [of t]) simp_all
next
  case False
  obtain u where u: "cow_swap h k s = (u, Returns ())" "cow_wf u"
    "cow_value u = (cow_value s)(h \<mapsto> view_of s d, k \<mapsto> view_of s c)" "roomy s \<longrightarrow> roomy u"
    "u = s\<lparr>cows := (cows s)(h \<mapsto> d, k \<mapsto> c)\<rparr>"
    using s h k by (rule run_swap)
  have uk: "cows u k = Some c" using u(5) by simp
  obtain t where t: "seq (refptr_set k None) (\<lambda>_. set_view k 0 0) u = (t, Returns ())" "cow_wf t"
    "cow_value t = (cow_value u)(k \<mapsto> [])" "roomy u \<longrightarrow> roomy t"
    using u(2) uk by (rule run_drop)
  have "cow_move_assign h k s = seq (refptr_set k None) (\<lambda>_. set_view k 0 0) u"
  proof (cases "cow_buffer c")
    case None
    then show ?thesis
      using False h k
      by (simp add: cow_move_assign_def refptr_set_def run_the_cow put_cow_def run_set_view u(5)
          fun_upd_twist cow_update_all cow_eta)
  next
    case (Some a)
    with s h obtain r where "cow_blocks s a = Some r" by (rule cow_block)
    with Some show ?thesis
      using False h k
      by (simp add: cow_move_assign_def refptr_set_def run_the_cow put_cow_def run_set_view u(5)
          fun_upd_twist cow_update_all cow_eta run_Release seq_assoc)
  qed
  then have "cow_move_assign h k s = (t, Returns ())" using t(1) by simp
  then show thesis using t u by (intro that [of t]) simp_all
qed

section \<open>Value semantics\<close>

text \<open>
  The abstract machine: variables hold byte lists and nothing is shared.  A step says what a
  command needs and what it leaves; the bytes of a grown buffer are unspecified.
\<close>

datatype cow_cmd =
    Create nat
  | Sized nat nat nat
  | From nat bytes nat
  | Copy nat nat
  | Slice nat nat nat nat
  | Move nat nat
  | Destroy nat
  | Assign nat nat
  | MoveAssign nat nat
  | Swap nat nat
  | SetData nat bytes
  | AppendData nat bytes
  | SetSize nat nat
  | EnsureCapacity nat nat
  | Clear nat
  | Write nat nat u8

fun cow_exec :: "garbage \<Rightarrow> cow_cmd \<Rightarrow> (memory, unit) act" where
  "cow_exec g (Create h) = cow_create h"
| "cow_exec g (Sized h n cap) = cow_sized g h n cap"
| "cow_exec g (From h xs cap) = cow_from g h xs cap"
| "cow_exec g (Copy h k) = cow_copy h k"
| "cow_exec g (Slice h k off len) = cow_Slice h k off len"
| "cow_exec g (Move h k) = cow_move h k"
| "cow_exec g (Destroy h) = cow_destroy h"
| "cow_exec g (Assign h k) = cow_assign h k"
| "cow_exec g (MoveAssign h k) = cow_move_assign h k"
| "cow_exec g (Swap h k) = cow_swap h k"
| "cow_exec g (SetData h xs) = cow_SetData g h xs"
| "cow_exec g (AppendData h xs) = cow_AppendData g h xs"
| "cow_exec g (SetSize h n) = cow_SetSize g h n"
| "cow_exec g (EnsureCapacity h n) = cow_EnsureCapacity g h n"
| "cow_exec g (Clear h) = cow_Clear g h"
| "cow_exec g (Write h i v) = cow_write g h i v"

inductive value_step :: "cow_cmd \<Rightarrow> (nat \<rightharpoonup> bytes) \<Rightarrow> (nat \<rightharpoonup> bytes) \<Rightarrow> bool" where
  v_create: "v h = None \<Longrightarrow> value_step (Create h) v (v(h \<mapsto> []))"
| v_sized: "v h = None \<Longrightarrow> length ys = n \<Longrightarrow> value_step (Sized h n cap) v (v(h \<mapsto> ys))"
| v_from: "v h = None \<Longrightarrow> value_step (From h xs cap) v (v(h \<mapsto> xs))"
| v_copy: "v h = None \<Longrightarrow> v k = Some xs \<Longrightarrow> value_step (Copy h k) v (v(h \<mapsto> xs))"
| v_slice: "v h = None \<Longrightarrow> v k = Some xs \<Longrightarrow> off + len \<le> length xs \<Longrightarrow>
    value_step (Slice h k off len) v (v(h \<mapsto> take len (drop off xs)))"
| v_move: "v h = None \<Longrightarrow> v k = Some xs \<Longrightarrow> value_step (Move h k) v (v(h \<mapsto> xs, k \<mapsto> []))"
| v_destroy: "v h = Some xs \<Longrightarrow> value_step (Destroy h) v (v(h := None))"
| v_assign: "v h = Some xs \<Longrightarrow> v k = Some ys \<Longrightarrow> value_step (Assign h k) v (v(h \<mapsto> ys))"
| v_move_assign: "v h = Some xs \<Longrightarrow> v k = Some ys \<Longrightarrow>
    value_step (MoveAssign h k) v (v(h \<mapsto> ys, k \<mapsto> []))"
| v_swap: "v h = Some xs \<Longrightarrow> v k = Some ys \<Longrightarrow> value_step (Swap h k) v (v(h \<mapsto> ys, k \<mapsto> xs))"
| v_set: "v h = Some ys \<Longrightarrow> value_step (SetData h xs) v (v(h \<mapsto> xs))"
| v_append: "v h = Some ys \<Longrightarrow> value_step (AppendData h xs) v (v(h \<mapsto> ys @ xs))"
| v_size: "v h = Some xs \<Longrightarrow> length ys = n - length xs \<Longrightarrow>
    value_step (SetSize h n) v (v(h \<mapsto> take n xs @ ys))"
| v_ensure: "v h = Some xs \<Longrightarrow> value_step (EnsureCapacity h n) v v"
| v_clear: "v h = Some xs \<Longrightarrow> value_step (Clear h) v (v(h \<mapsto> []))"
| v_write: "v h = Some xs \<Longrightarrow> i < length xs \<Longrightarrow> value_step (Write h i b) v (v(h \<mapsto> xs[i := b]))"

inductive_cases value_step_cases:
  "value_step (Create h) v v'" "value_step (Sized h n cap) v v'" "value_step (From h xs cap) v v'"
  "value_step (Copy h k) v v'" "value_step (Slice h k off len) v v'" "value_step (Move h k) v v'"
  "value_step (Destroy h) v v'" "value_step (Assign h k) v v'" "value_step (MoveAssign h k) v v'"
  "value_step (Swap h k) v v'" "value_step (SetData h xs) v v'" "value_step (AppendData h xs) v v'"
  "value_step (SetSize h n) v v'" "value_step (EnsureCapacity h n) v v'" "value_step (Clear h) v v'"
  "value_step (Write h i b) v v'"

text \<open>A command asks something of a zero-length view at the end of a full block.\<close>

fun no_room :: "memory \<Rightarrow> cow_cmd \<Rightarrow> bool" where
  "no_room s (SetData h xs) \<longleftrightarrow> cow_room s (the (cows s h)) = 0 \<and> xs = []"
| "no_room s (AppendData h xs) \<longleftrightarrow> cow_room s (the (cows s h)) = 0 \<and> xs = []"
| "no_room s (Clear h) \<longleftrightarrow> cow_room s (the (cows s h)) = 0 \<and> cow_buffer (the (cows s h)) \<noteq> None"
| "no_room s _ \<longleftrightarrow> False"

lemma cow_value_eq:
  "cow_value s h = None \<longleftrightarrow> cows s h = None"
  "cow_value s h = Some xs \<longleftrightarrow> (\<exists>c. cows s h = Some c \<and> view_of s c = xs)"
  by (auto simp: cow_value_def)

text \<open>One step of the abstract machine, matched by the call.\<close>

definition simulates :: "garbage \<Rightarrow> cow_cmd \<Rightarrow> memory \<Rightarrow> bool" where
  "simulates g cmd s \<longleftrightarrow>
     (\<exists>t. cow_exec g cmd s = (t, Returns ()) \<and> cow_wf t \<and>
          value_step cmd (cow_value s) (cow_value t) \<and> (roomy s \<and> \<not> no_room s cmd \<longrightarrow> roomy t))"

lemma simulatesI:
  "cow_exec g cmd s = (t, Returns ()) \<Longrightarrow> cow_wf t \<Longrightarrow> cow_value t = v \<Longrightarrow>
   value_step cmd (cow_value s) v \<Longrightarrow> roomy s \<longrightarrow> roomy t \<Longrightarrow> simulates g cmd s"
  by (auto simp: simulates_def)

lemma sets_simulates:
  "sets Q (cow_exec g cmd) s h w \<Longrightarrow> (\<not> no_room s cmd \<Longrightarrow> Q) \<Longrightarrow>
   value_step cmd (cow_value s) ((cow_value s)(h \<mapsto> w)) \<Longrightarrow> simulates g cmd s"
  by (auto simp: sets_def simulates_def)

text \<open>The commands, by how many variables they name.\<close>

lemma cow_valueE:
  assumes "cow_wf s" "cow_value s h = Some xs"
  obtains c where "cows s h = Some c" "view_of s c = xs" "cow_size c = length xs"
  using assms cow_wfD [OF assms(1)] by (auto simp: cow_value_eq length_view_of)

lemma simulates_construct:
  assumes s: "cow_wf s" and h: "cow_value s h = None"
  shows "simulates g (Create h) s" "simulates g (Sized h n cap) s" "simulates g (From h xs cap) s"
proof -
  have n: "cows s h = None" using h by (simp add: cow_value_eq)
  show "simulates g (Create h) s"
    using sets_create [OF s n] v_create [of "cow_value s", OF h] by (intro sets_simulates) (simp_all add: cow_create_def)
  show "simulates g (Sized h n cap) s"
    using sets_sized [OF s n, of g n cap] v_sized [of "cow_value s", OF h, of "buf_contents (BufferT_sized g n cap)" n cap]
    by (intro sets_simulates) (simp_all add: buf_ok_length)
  show "simulates g (From h xs cap) s"
    using sets_from [OF s n, of g xs cap] v_from [of "cow_value s", OF h] by (intro sets_simulates) simp_all
qed

lemma simulates_construct_from:
  assumes s: "cow_wf s" and h: "cow_value s h = None" and k: "cow_value s k = Some xs"
  shows "simulates g (Copy h k) s" "simulates g (Move h k) s"
    "off + len \<le> length xs \<Longrightarrow> simulates g (Slice h k off len) s"
proof -
  have n: "cows s h = None" using h by (simp add: cow_value_eq)
  obtain d where d: "cows s k = Some d" "view_of s d = xs" "cow_size d = length xs"
    using s k by (rule cow_valueE)
  show "simulates g (Copy h k) s"
    using sets_copy_view [OF s n d(1)] v_copy [of "cow_value s", OF h k] d by (intro sets_simulates) simp_all
  show "simulates g (Move h k) s"
    by (rule run_move [OF s n d(1)], rule simulatesI) (use v_move [of "cow_value s", OF h k] d in simp_all)
  show "simulates g (Slice h k off len) s" if "off + len \<le> length xs"
    using sets_Slice [OF s n d(1), of off len] v_slice [of "cow_value s", OF h k that] d that
    by (intro sets_simulates) simp_all
qed

lemma simulates_two:
  assumes s: "cow_wf s" and h: "cow_value s h = Some xs" and k: "cow_value s k = Some ys"
  shows "simulates g (Assign h k) s" "simulates g (MoveAssign h k) s" "simulates g (Swap h k) s"
proof -
  obtain c where c: "cows s h = Some c" "view_of s c = xs" using s h by (rule cow_valueE)
  obtain d where d: "cows s k = Some d" "view_of s d = ys" using s k by (rule cow_valueE)
  show "simulates g (Assign h k) s"
    using sets_assign [OF s c(1) d(1)] v_assign [of "cow_value s", OF h k] d by (intro sets_simulates) simp_all
  show "simulates g (MoveAssign h k) s"
    by (rule run_move_assign [OF s c(1) d(1)], rule simulatesI) (use v_move_assign [of "cow_value s", OF h k] d in simp_all)
  show "simulates g (Swap h k) s"
    by (rule run_swap [OF s c(1) d(1)], rule simulatesI [OF _ _ refl])
      (use v_swap [of "cow_value s", OF h k] c d in simp_all)
qed

lemma simulates_one:
  assumes s: "cow_wf s" and h: "cow_value s h = Some xs"
  shows "simulates g (Destroy h) s" "simulates g (SetData h ys) s" "simulates g (AppendData h ys) s"
    "simulates g (SetSize h n) s" "simulates g (EnsureCapacity h n) s" "simulates g (Clear h) s"
    "i < length xs \<Longrightarrow> simulates g (Write h i b) s"
proof -
  obtain c where c: "cows s h = Some c" "view_of s c = xs" "cow_size c = length xs"
    using s h by (rule cow_valueE)
  show "simulates g (Destroy h) s"
    by (rule run_destroy [OF s c(1)], rule simulatesI) (use v_destroy [of "cow_value s", OF h] in simp_all)
  show "simulates g (SetData h ys) s"
    by (rule sets_simulates [where Q = "0 < cow_room s c \<or> ys \<noteq> []", of g _ s h])
      (use sets_SetData [OF s c(1), of ys g] v_set [of "cow_value s", OF h] c in auto)
  show "simulates g (AppendData h ys) s"
    by (rule sets_simulates [where Q = "0 < cow_room s c \<or> ys \<noteq> []", of g _ s h])
      (use sets_AppendData [OF s c(1), of ys g] v_append [of "cow_value s", OF h] c in auto)
  obtain zs where zs: "length zs = n - length xs" "sets True (cow_SetSize g h n) s h (take n xs @ zs)"
    using sets_SetSize [OF s c(1), of n g] c by auto
  show "simulates g (SetSize h n) s"
    using zs v_size [of "cow_value s", OF h zs(1)] by (intro sets_simulates) simp_all
  have same: "(cow_value s)(h \<mapsto> xs) = cow_value s" using h by (simp add: fun_upd_idem)
  show "simulates g (EnsureCapacity h n) s"
    using sets_EnsureCapacity [OF s c(1), of g n] v_ensure [of "cow_value s", OF h, of n] c
    by (intro sets_simulates [of True g _ s h xs]) (simp_all add: same)
  show "simulates g (Clear h) s"
    by (rule sets_simulates [where Q = "0 < cow_room s c \<or> cow_buffer c = None", of g _ s h])
      (use sets_Clear [OF s c(1), of g] v_clear [of "cow_value s", OF h] c in auto)
  show "simulates g (Write h i b) s" if "i < length xs"
    using sets_write [OF s c(1), of i g b] v_write [of "cow_value s", OF h that] c that by (intro sets_simulates) simp_all
qed

lemma cow_simulation:
  assumes s: "cow_wf s" and v: "value_step cmd (cow_value s) v"
  shows "simulates g cmd s"
  using v by cases
    (simp_all add: simulates_construct [OF s] simulates_construct_from [OF s] simulates_two [OF s]
      simulates_one [OF s])

section \<open>Histories of a memory\<close>

text \<open>Steps take a command the abstract machine allows and run it.\<close>

definition no_memory :: memory where
  "no_memory = \<lparr>cow_blocks = (\<lambda>_. None), fresh = 0, cows = (\<lambda>_. None)\<rparr>"

inductive cow_step :: "memory \<Rightarrow> memory \<Rightarrow> bool" where
  cow_stepI: "value_step cmd (cow_value s) v \<Longrightarrow> t = fst (cow_exec g cmd s) \<Longrightarrow> cow_step s t"

lemma cow_wf_no_memory: "cow_wf no_memory"
  by (simp add: cow_wf_def no_memory_def refs_ok_def blocks_ok_def holders_def)

interpretation cow_inv: step_invariant cow_step cow_wf
proof
  fix s t assume "cow_step s t" "cow_wf s"
  then show "cow_wf t"
  proof cases
    case (cow_stepI cmd v g)
    with \<open>cow_wf s\<close> have "simulates g cmd s" by (intro cow_simulation)
    with cow_stepI show ?thesis by (auto simp: simulates_def)
  qed
qed

abbreviation cow_reach :: "memory \<Rightarrow> bool" where
  "cow_reach \<equiv> cow_step\<^sup>*\<^sup>* no_memory"

lemma cow_reach_wf: "cow_reach s \<Longrightarrow> cow_wf s"
  using cow_inv.reach_inv cow_wf_no_memory by blast

text \<open>In a well-formed memory, \<open>IsConsistent\<close> fails only for a block of capacity zero.\<close>

lemma cow_IsConsistent_iff:
  assumes s: "cow_wf s" and h: "cows s h = Some c"
  shows "cow_IsConsistent h s =
    (s, Returns (\<forall>a r. cow_buffer c = Some a \<longrightarrow> cow_blocks s a = Some r \<longrightarrow> 0 < buf_capacity (rcb_buffer r)))"
proof (cases "cow_buffer c")
  case None
  with cow_wfD(1) [OF s h] show ?thesis
    by (simp add: cow_IsConsistent_def run_the_cow [OF h] cow_ok_def)
next
  case (Some a)
  with s h obtain r where "cow_blocks s a = Some r" "cow_offset c + cow_size c \<le> buf_size (rcb_buffer r)"
    by (rule cow_block)
  with Some show ?thesis
    by (simp add: cow_IsConsistent_def run_the_cow [OF h] run_the_block)
qed

lemma roomy_IsConsistent:
  "cow_wf s \<Longrightarrow> roomy s \<Longrightarrow> cows s h = Some c \<Longrightarrow> cow_IsConsistent h s = (s, Returns True)"
  by (simp add: cow_IsConsistent_iff roomy_def)

end
