(* ===== verification/Channel_Base.thy ===== *)
theory Channel_Base
  imports Sctp_Utils Net_Env
begin

text \<open>
  The vocabulary of the data channels: errors (\<open>api/rtc_error.h\<close>), buffers and send parameters
  (\<open>api/data_channel_interface.h\<close>, \<open>api/transport/data_channel_transport_interface.h\<close>), the packet
  queue (\<open>pc/data_channel_utils.cc\<close>), the configuration of a channel and the allocator of stream ids
  (\<open>pc/sctp_data_channel.cc\<close>).
\<close>

section \<open>Data\<close>

datatype RTCErrorType =
    NONE | UNSUPPORTED_OPERATION | UNSUPPORTED_PARAMETER | INVALID_PARAMETER | INVALID_RANGE
  | SYNTAX_ERROR | INVALID_STATE | INVALID_MODIFICATION | NETWORK_ERROR | RESOURCE_EXHAUSTED
  | INTERNAL_ERROR | OPERATION_ERROR_WITH_DATA

datatype RTCErrorDetailType =
    NO_DETAIL | DATA_CHANNEL_FAILURE | DTLS_FAILURE | FINGERPRINT_FAILURE | SCTP_FAILURE
  | SDP_SYNTAX_ERROR | HARDWARE_ENCODER_NOT_AVAILABLE | HARDWARE_ENCODER_ERROR

record RTCError =
  err_type :: RTCErrorType
  err_message :: string
  err_detail :: RTCErrorDetailType
  err_sctp_cause :: "u16 option"

definition RTCError_of :: "RTCErrorType \<Rightarrow> string \<Rightarrow> RTCError" where
  "RTCError_of t m = \<lparr>err_type = t, err_message = m, err_detail = NO_DETAIL, err_sctp_cause = None\<rparr>"

definition RTCError_OK :: RTCError where
  "RTCError_OK = RTCError_of NONE []"

definition RTCError_ok :: "RTCError \<Rightarrow> bool" where
  "RTCError_ok e \<longleftrightarrow> err_type e = NONE"

record DataBuffer =
  db_data :: bytes
  db_binary :: bool

definition db_size :: "DataBuffer \<Rightarrow> nat" where
  "db_size b = length (db_data b)"

datatype DataMessageType = kText | kBinary | kControl

record SendDataParams =
  sdp_type :: DataMessageType
  sdp_ordered :: bool
  sdp_max_rtx_count :: "int option"
  sdp_max_rtx_ms :: "int option"

definition SendDataParams_default :: SendDataParams where
  "SendDataParams_default =
     \<lparr>sdp_type = kText, sdp_ordered = False, sdp_max_rtx_count = None, sdp_max_rtx_ms = None\<rparr>"

section \<open>The packet queue\<close>

record PacketQueue =
  pq_packets :: "DataBuffer list"
  pq_byte_count :: nat

definition pq_empty :: PacketQueue where
  "pq_empty = \<lparr>pq_packets = [], pq_byte_count = 0\<rparr>"

definition pq_Empty :: "PacketQueue \<Rightarrow> bool" where
  "pq_Empty q \<longleftrightarrow> pq_packets q = []"

text \<open>\<open>PopFront\<close> dereferences the front element, which must exist.\<close>

definition pq_PopFront :: "PacketQueue \<Rightarrow> (DataBuffer \<times> PacketQueue) outcome" where
  "pq_PopFront q =
     (case pq_packets q of
        [] \<Rightarrow> Faults OutOfBounds
      | p # ps \<Rightarrow> Returns (p, q\<lparr>pq_byte_count := pq_byte_count q - db_size p, pq_packets := ps\<rparr>))"

definition pq_PushFront :: "DataBuffer \<Rightarrow> PacketQueue \<Rightarrow> PacketQueue" where
  "pq_PushFront p q = q\<lparr>pq_byte_count := pq_byte_count q + db_size p, pq_packets := p # pq_packets q\<rparr>"

definition pq_PushBack :: "DataBuffer \<Rightarrow> PacketQueue \<Rightarrow> PacketQueue" where
  "pq_PushBack p q = q\<lparr>pq_byte_count := pq_byte_count q + db_size p, pq_packets := pq_packets q @ [p]\<rparr>"

definition pq_Clear :: "PacketQueue \<Rightarrow> PacketQueue" where
  "pq_Clear q = q\<lparr>pq_packets := [], pq_byte_count := 0\<rparr>"

definition pq_Swap :: "PacketQueue \<Rightarrow> PacketQueue \<Rightarrow> PacketQueue \<times> PacketQueue" where
  "pq_Swap this other =
     (let other_byte_count = pq_byte_count other;
          other = other\<lparr>pq_byte_count := pq_byte_count this\<rparr>;
          this = this\<lparr>pq_byte_count := other_byte_count\<rparr>
      in (this\<lparr>pq_packets := pq_packets other\<rparr>, other\<lparr>pq_packets := pq_packets this\<rparr>))"

section \<open>Configuration\<close>

datatype OpenHandshakeRole = kOpener | kAcker | kNone_role

datatype SSLRole = SSL_CLIENT | SSL_SERVER

record InternalDataChannelInit = DataChannelInit +
  open_handshake_role :: OpenHandshakeRole
  fallback_ssl_role :: "SSLRole option"

text \<open>A retransmission limit: negative ones are dropped and large ones clamped to 16 bits.\<close>

definition clamp_limit :: "int option \<Rightarrow> int option" where
  "clamp_limit v =
     (case v of
        None \<Rightarrow> None
      | Some n \<Rightarrow> (if n < 0 then None else if n > 65535 then Some 65535 else Some n))"

definition InternalDataChannelInit_of :: "DataChannelInit \<Rightarrow> InternalDataChannelInit" where
  "InternalDataChannelInit_of base =
     (let this = DataChannelInit.extend base
            (InternalDataChannelInit.fields kOpener None);
          this = (if dci_negotiated base then this\<lparr>open_handshake_role := kNone_role\<rparr>
                  else this\<lparr>dci_id := -1\<rparr>)
      in this\<lparr>dci_maxRetransmits := clamp_limit (dci_maxRetransmits this),
              dci_maxRetransmitTime := clamp_limit (dci_maxRetransmitTime this)\<rparr>)"

definition IsValid :: "InternalDataChannelInit \<Rightarrow> bool" where
  "IsValid c =
     (if dci_id c < -1 then False
      else if (case dci_maxRetransmits c of Some n \<Rightarrow> n < 0 | None \<Rightarrow> False) then False
      else if (case dci_maxRetransmitTime c of Some n \<Rightarrow> n < 0 | None \<Rightarrow> False) then False
      else if dci_maxRetransmits c \<noteq> None \<and> dci_maxRetransmitTime c \<noteq> None then False
      else True)"

section \<open>Stream ids\<close>

text \<open>Stream ids are 16-bit numbers; the allocator hands out those up to \<open>kMaxSctpSid\<close>.\<close>

definition kMaxSctpStreams :: nat where "kMaxSctpStreams = 1024"
definition kMaxSctpSid :: nat where "kMaxSctpSid = kMaxSctpStreams - 1"

lemmas sid_limits = kMaxSctpStreams_def kMaxSctpSid_def

function allocate_from :: "nat \<Rightarrow> nat set \<Rightarrow> nat option \<times> nat set" where
  "allocate_from potential_sid used =
     (if potential_sid \<le> kMaxSctpSid
      then if potential_sid \<notin> used then (Some potential_sid, insert potential_sid used)
           else allocate_from (potential_sid + 2) used
      else (None, used))"
  by pat_completeness auto
termination allocate_from
  by (relation "measure (\<lambda>(sid, used). Suc kMaxSctpSid - sid)") auto

declare allocate_from.simps [simp del]

definition AllocateSid :: "SSLRole \<Rightarrow> nat set \<Rightarrow> nat option \<times> nat set" where
  "AllocateSid role used = allocate_from (if role = SSL_CLIENT then 0 else 1) used"

definition ReserveSid :: "nat \<Rightarrow> nat set \<Rightarrow> bool \<times> nat set" where
  "ReserveSid sid used = (sid \<notin> used, insert sid used)"

definition ReleaseSid :: "nat \<Rightarrow> nat set \<Rightarrow> nat set" where
  "ReleaseSid sid used = used - {sid}"

section \<open>The queue counts its bytes\<close>

definition pq_ok :: "PacketQueue \<Rightarrow> bool" where
  "pq_ok q \<longleftrightarrow> pq_byte_count q = sum_list (map db_size (pq_packets q))"

lemma pq_ok_ops:
  "pq_ok pq_empty" "pq_ok (pq_Clear q)"
  "pq_ok q \<Longrightarrow> pq_ok (pq_PushBack p q)" "pq_ok q \<Longrightarrow> pq_ok (pq_PushFront p q)"
  "pq_ok q \<Longrightarrow> pq_PopFront q = Returns (p, q') \<Longrightarrow> pq_ok q'"
  by (auto simp: pq_ok_def pq_empty_def pq_Clear_def pq_PushBack_def pq_PushFront_def pq_PopFront_def
      split: list.splits)

lemma pq_Swap_swaps: "pq_Swap a b = (b, a)"
  by (simp add: pq_Swap_def)

section \<open>Configurations\<close>

text \<open>Whatever is asked for, the constructor gives a configuration in range; only asking for both
  limits can still make it invalid.\<close>

lemma clamp_limit_range: "clamp_limit v = Some n \<Longrightarrow> 0 \<le> n \<and> n \<le> 65535"
  by (auto simp: clamp_limit_def split: option.splits if_splits)

lemma IsValid_constructed:
  "IsValid (InternalDataChannelInit_of base) \<longleftrightarrow>
   (dci_negotiated base \<longrightarrow> dci_id base \<ge> -1) \<and>
   (clamp_limit (dci_maxRetransmits base) = None \<or> clamp_limit (dci_maxRetransmitTime base) = None)"
proof -
  let ?c = "InternalDataChannelInit_of base"
  have fields: "dci_maxRetransmits ?c = clamp_limit (dci_maxRetransmits base)"
    "dci_maxRetransmitTime ?c = clamp_limit (dci_maxRetransmitTime base)"
    "dci_id ?c = (if dci_negotiated base then dci_id base else -1)"
    by (simp_all add: InternalDataChannelInit_of_def Let_def DataChannelInit.defs)
  have "\<not> (case clamp_limit v of Some n \<Rightarrow> n < 0 | None \<Rightarrow> False)" for v
    using clamp_limit_range [of v] by (auto split: option.split)
  then show ?thesis unfolding IsValid_def fields by auto
qed

section \<open>The allocator\<close>

text \<open>The first unused id of the caller's parity, if there is one up to \<open>kMaxSctpSid\<close>.\<close>

definition allocation_ok :: "nat \<Rightarrow> nat set \<Rightarrow> nat option \<times> nat set \<Rightarrow> bool" where
  "allocation_ok p used res =
     (case fst res of
        Some sid \<Rightarrow> p \<le> sid \<and> sid \<le> kMaxSctpSid \<and> sid \<notin> used \<and> snd res = insert sid used \<and>
                    even (sid - p) \<and> (\<forall>q. p \<le> q \<and> q < sid \<and> even (q - p) \<longrightarrow> q \<in> used)
      | None \<Rightarrow> snd res = used \<and> (\<forall>q. p \<le> q \<and> q \<le> kMaxSctpSid \<and> even (q - p) \<longrightarrow> q \<in> used))"

lemma next_of_parity: "(p :: nat) \<le> q \<Longrightarrow> even (q - p) \<Longrightarrow> q = p \<or> p + 2 \<le> q \<and> even (q - (p + 2))"
  by presburger

lemma odd_from_1: "odd (q :: nat) \<longleftrightarrow> 1 \<le> q \<and> even (q - 1)"
  by presburger

lemma allocate_from_ok: "allocation_ok p used (allocate_from p used)"
proof (induction p used rule: allocate_from.induct)
  case (1 p used)
  show ?case
  proof (cases "p \<le> kMaxSctpSid \<and> p \<in> used")
    case True
    then have rec: "allocate_from p used = allocate_from (p + 2) used"
      by (simp add: allocate_from.simps [of p])
    have IH: "allocation_ok (p + 2) used (allocate_from (p + 2) used)" using 1 True by simp
    have p: "p \<in> used" using True by simp
    have par: "even (sid - p)" if "p + 2 \<le> sid" "even (sid - (p + 2))" for sid :: nat
      using that by presburger
    obtain r u where r: "allocate_from (p + 2) used = (r, u)" by (cases "allocate_from (p + 2) used")
    show ?thesis
    proof (cases r)
      case None
      with IH show ?thesis
        unfolding rec r allocation_ok_def fst_conv snd_conv None option.case
        using next_of_parity p by blast
    next
      case (Some sid)
      from IH show ?thesis
        unfolding rec r allocation_ok_def fst_conv snd_conv Some option.case
        using next_of_parity p par [of sid] by (metis add_leD1)
    qed
  qed (auto simp: allocation_ok_def allocate_from.simps [of p])
qed

lemma AllocateSid_ok:
  "allocation_ok (if role = SSL_CLIENT then 0 else 1) used (AllocateSid role used)"
  by (simp add: AllocateSid_def allocate_from_ok)

text \<open>The parity of the first candidate is the parity of them all.\<close>

lemma role_parity:
  fixes role q
  defines "p \<equiv> (if role = SSL_CLIENT then 0 else 1 :: nat)"
  shows "p \<le> q \<and> even (q - p) \<longleftrightarrow> (even q \<longleftrightarrow> role = SSL_CLIENT)"
  unfolding p_def using odd_from_1 [of q] by (cases role) auto

lemma AllocateSid_Some:
  assumes "AllocateSid role used = (Some sid, used')"
  shows "sid \<le> kMaxSctpSid" "sid \<notin> used" "used' = insert sid used"
    "even sid \<longleftrightarrow> role = SSL_CLIENT"
    "q < sid \<Longrightarrow> even q = even sid \<Longrightarrow> q \<in> used"
proof -
  let ?p = "if role = SSL_CLIENT then 0 else 1 :: nat"
  have "?p \<le> sid \<and> sid \<le> kMaxSctpSid \<and> sid \<notin> used \<and> used' = insert sid used \<and>
    even (sid - ?p) \<and> (\<forall>q. ?p \<le> q \<and> q < sid \<and> even (q - ?p) \<longrightarrow> q \<in> used)"
    using AllocateSid_ok [of role used] unfolding assms allocation_ok_def fst_conv snd_conv option.case .
  then show "sid \<le> kMaxSctpSid" "sid \<notin> used" "used' = insert sid used"
    and par: "even sid \<longleftrightarrow> role = SSL_CLIENT"
    and "q < sid \<Longrightarrow> even q = even sid \<Longrightarrow> q \<in> used"
    using role_parity [of role sid] role_parity [of role q] by blast+
qed

lemma AllocateSid_None:
  assumes "AllocateSid role used = (None, used')"
  shows "used' = used" "q \<le> kMaxSctpSid \<Longrightarrow> even q = (role = SSL_CLIENT) \<Longrightarrow> q \<in> used"
proof -
  let ?p = "if role = SSL_CLIENT then 0 else 1 :: nat"
  have "used' = used \<and> (\<forall>q. ?p \<le> q \<and> q \<le> kMaxSctpSid \<and> even (q - ?p) \<longrightarrow> q \<in> used)"
    using AllocateSid_ok [of role used] unfolding assms allocation_ok_def fst_conv snd_conv option.case .
  then show "used' = used" "q \<le> kMaxSctpSid \<Longrightarrow> even q = (role = SSL_CLIENT) \<Longrightarrow> q \<in> used"
    using role_parity [of role q] by blast+
qed

end
