(* ===== verification/Data_Channel.thy ===== *)
theory Data_Channel
  imports Channel_Base
begin

text \<open>
  \<open>SctpDataChannel\<close> (\<open>pc/sctp_data_channel.cc\<close>), the object behind the \<open>DataChannelInterface\<close> that
  a session sends on, with its observer adapter.  The handlers run on the network thread, one at a
  time, and change the channel's record.  The answers of the controller are an argument
  (\<open>controller\<close>); what the channel tells its observer and its controller is logged in order; a task
  posted to a thread waits in a list until a step of that thread runs it.
\<close>

section \<open>State\<close>

datatype HandshakeState =
    kHandshakeInit | kHandshakeShouldSendOpen | kHandshakeShouldSendAck | kHandshakeWaitingForAck
  | kHandshakeReady

text \<open>What an observer is told, and what the channel does to the outside.\<close>

datatype callback = OnStateChange | OnMessage DataBuffer | OnBufferedAmountChange u64

datatype dc_event =
    Told callback                      \<comment> \<open>an observer is called directly\<close>
  | Posted callback                    \<comment> \<open>the adapter is called, and posts a task\<close>
  | Delegated nat callback DataState   \<comment> \<open>the adapter's task calls the delegate, with the state it sees\<close>
  | ChannelStateChanged DataState
  | Sent nat SendDataParams bytes
  | StreamRemoved nat
  | LowThreshold nat u64
  | SendCompleted nat RTCError

text \<open>An observer is called on the network thread, or through the channel's adapter.\<close>

datatype observer = Direct nat | ViaAdapter

record adapter_task =
  at_flag :: nat
  at_callback :: callback
  at_state :: DataState
  at_error :: RTCError

record ObserverAdapter =
  oa_delegate :: "nat option"
  oa_flag :: nat
  oa_signaling_safety :: bool
  oa_tasks :: "adapter_task list"

record SctpDataChannel =
  dc_id_n :: "nat option"
  dc_internal_id :: int
  dc_label :: bytes
  dc_protocol :: bytes
  dc_max_retransmit_time :: "int option"
  dc_max_retransmits :: "int option"
  dc_priority :: "u16 option"
  dc_negotiated :: bool
  dc_ordered :: bool
  dc_expected_buffer_amount :: u64
  dc_observer :: "observer option"
  dc_adapter :: "ObserverAdapter option"
  dc_state :: DataState
  dc_error :: RTCError
  dc_messages_sent :: u32
  dc_bytes_sent :: u64
  dc_messages_received :: u32
  dc_bytes_received :: u64
  dc_controller :: bool                    \<comment> \<open>the weak pointer is not null\<close>
  dc_handshake_state :: HandshakeState
  dc_started_closing_procedure :: bool
  dc_queued_received_data :: PacketQueue
  dc_network_safety :: bool
  dc_network_tasks :: "(DataBuffer \<times> nat option) list"
  dc_log :: "dc_event list"

type_synonym 'a dc_act = "(SctpDataChannel, 'a) act"

text \<open>The controller's answers to the calls of one handler.\<close>

record controller =
  ctl_SendData :: "nat \<Rightarrow> SendDataParams \<Rightarrow> bytes \<Rightarrow> RTCError"
  ctl_buffered_amount :: "nat \<Rightarrow> u64"

definition kMaxQueuedReceivedDataBytes :: nat where
  "kMaxQueuedReceivedDataBytes = 16 * 1024 * 1024"

definition handshake_of_role :: "OpenHandshakeRole \<Rightarrow> HandshakeState" where
  "handshake_of_role role =
     (case role of kNone_role \<Rightarrow> kHandshakeReady | kOpener \<Rightarrow> kHandshakeShouldSendOpen
      | kAcker \<Rightarrow> kHandshakeShouldSendAck)"

definition SctpDataChannel_create ::
  "InternalDataChannelInit \<Rightarrow> bool \<Rightarrow> bytes \<Rightarrow> bool \<Rightarrow> int \<Rightarrow> SctpDataChannel" where
  "SctpDataChannel_create config controller label connected_to_transport unique_id =
     \<lparr>dc_id_n = (if dci_id config = -1 then None else Some (nat (dci_id config mod 65536))),
      dc_internal_id = unique_id, dc_label = label, dc_protocol = dci_protocol config,
      dc_max_retransmit_time = dci_maxRetransmitTime config,
      dc_max_retransmits = dci_maxRetransmits config, dc_priority = dci_priority config,
      dc_negotiated = dci_negotiated config, dc_ordered = dci_ordered config,
      dc_expected_buffer_amount = 0, dc_observer = None, dc_adapter = None, dc_state = kConnecting,
      dc_error = RTCError_OK, dc_messages_sent = 0, dc_bytes_sent = 0, dc_messages_received = 0,
      dc_bytes_received = 0, dc_controller = controller,
      dc_handshake_state = handshake_of_role (open_handshake_role config),
      dc_started_closing_procedure = False, dc_queued_received_data = pq_empty,
      dc_network_safety = connected_to_transport, dc_network_tasks = [], dc_log = []\<rparr>"

section \<open>The observer adapter\<close>

text \<open>
  \<open>SetDelegate\<close> gives the adapter a new safety flag, so the tasks posted for the old delegate are
  dropped when they come up.
\<close>

definition oa_SetDelegate :: "nat option \<Rightarrow> ObserverAdapter \<Rightarrow> ObserverAdapter" where
  "oa_SetDelegate delegate a = a\<lparr>oa_delegate := delegate, oa_flag := Suc (oa_flag a)\<rparr>"

definition oa_post :: "callback \<Rightarrow> DataState \<Rightarrow> RTCError \<Rightarrow> ObserverAdapter \<Rightarrow> ObserverAdapter" where
  "oa_post cb state error a =
     a\<lparr>oa_tasks := oa_tasks a @ [\<lparr>at_flag = oa_flag a, at_callback = cb, at_state = state, at_error = error\<rparr>]\<rparr>"

text \<open>\<open>PrepareForCallback\<close>: whether the task may call the delegate, and which one.\<close>

definition oa_PrepareForCallback :: "adapter_task \<Rightarrow> ObserverAdapter \<Rightarrow> nat option" where
  "oa_PrepareForCallback t a =
     (if at_flag t = oa_flag a \<and> oa_signaling_safety a then oa_delegate a else None)"

section \<open>Telling\<close>

definition note_event :: "dc_event \<Rightarrow> unit dc_act" where
  "note_event e = update (\<lambda>c. c\<lparr>dc_log := dc_log c @ [e]\<rparr>)"

text \<open>A call of \<open>observer_\<close>, once the code has checked that it is not null.\<close>

definition tell :: "callback \<Rightarrow> unit dc_act" where
  "tell cb =
     seq (look dc_observer) (\<lambda>obs.
     if obs = Some ViaAdapter
     then seq (note_event (Posted cb)) (\<lambda>_.
          update (\<lambda>c. c\<lparr>dc_adapter := map_option (oa_post cb (dc_state c) (dc_error c)) (dc_adapter c)\<rparr>))
     else note_event (Told cb))"

definition the_sid :: "nat dc_act" where
  "the_sid = seq (look dc_id_n) (\<lambda>v. case v of None \<Rightarrow> fail BadAccess | Some sid \<Rightarrow> ret sid)"

definition SetState :: "DataState \<Rightarrow> unit dc_act" where
  "SetState state =
     seq (look dc_state) (\<lambda>old.
     if old = state then ret ()
     else seq (update (\<lambda>c. c\<lparr>dc_state := state\<rparr>)) (\<lambda>_.
          seq (look dc_observer) (\<lambda>obs.
          seq (onlyif (obs \<noteq> None) (tell OnStateChange)) (\<lambda>_.
          seq (look dc_controller) (\<lambda>k.
          onlyif k (note_event (ChannelStateChanged state)))))))"

section \<open>Receiving\<close>

text \<open>One round of the delivery loop, and the loop; the queue's length bounds its rounds.\<close>

definition deliver_front :: "unit dc_act" where
  "deliver_front =
     seq (look dc_queued_received_data) (\<lambda>q.
     seq (lift (pq_PopFront q)) (\<lambda>(buffer, q).
     seq (update (\<lambda>c. c\<lparr>dc_queued_received_data := q,
                        dc_messages_received := dc_messages_received c + 1,
                        dc_bytes_received := dc_bytes_received c + word_of_nat (db_size buffer)\<rparr>)) (\<lambda>_.
     tell (OnMessage buffer))))"

fun deliver_loop :: "nat \<Rightarrow> unit dc_act" where
  "deliver_loop 0 = ret ()"
| "deliver_loop (Suc n) =
     seq (look dc_queued_received_data) (\<lambda>q.
     if pq_Empty q then ret () else seq deliver_front (\<lambda>_. deliver_loop n))"

definition DeliverQueuedReceivedData :: "unit dc_act" where
  "DeliverQueuedReceivedData =
     seq (look (\<lambda>c. dc_observer c = None \<or> dc_state c \<noteq> kOpen)) (\<lambda>stop.
     if stop then ret ()
     else seq (look (\<lambda>c. length (pq_packets (dc_queued_received_data c)))) deliver_loop)"

section \<open>Observers\<close>

text \<open>
  \<open>RegisterObserver\<close>, for an observer that may or may not be called on the network thread.  Without
  an adapter the pointer handed to the channel is null.
\<close>

definition RegisterObserver :: "nat \<Rightarrow> bool \<Rightarrow> unit dc_act" where
  "RegisterObserver obs IsOkToCallOnTheNetworkThread =
     seq (if \<not> IsOkToCallOnTheNetworkThread
          then seq (look dc_adapter) (\<lambda>a.
               case a of
                 None \<Rightarrow> fail NullDeref
               | Some a \<Rightarrow> seq (update (\<lambda>c. c\<lparr>dc_adapter := Some (oa_SetDelegate (Some obs) a)\<rparr>)) (\<lambda>_.
                           ret ViaAdapter))
          else ret (Direct obs)) (\<lambda>obs.
     seq (update (\<lambda>c. c\<lparr>dc_observer := Some obs\<rparr>)) (\<lambda>_.
     DeliverQueuedReceivedData))"

definition UnregisterObserver :: "unit dc_act" where
  "UnregisterObserver =
     seq (update (\<lambda>c. c\<lparr>dc_observer := None\<rparr>)) (\<lambda>_.
     update (\<lambda>c. c\<lparr>dc_adapter := map_option (oa_SetDelegate None) (dc_adapter c)\<rparr>))"

definition CreateProxy :: "bool \<Rightarrow> unit dc_act" where
  "CreateProxy signaling_safety =
     update (\<lambda>c. c\<lparr>dc_adapter := Some \<lparr>oa_delegate = None, oa_flag = 0,
                     oa_signaling_safety = signaling_safety, oa_tasks = []\<rparr>\<rparr>)"

text \<open>The signalling thread runs the adapter's next task.\<close>

definition run_signaling_task :: "unit dc_act" where
  "run_signaling_task =
     seq (look dc_adapter) (\<lambda>a.
     case a of
       None \<Rightarrow> ret ()
     | Some a \<Rightarrow>
         (case oa_tasks a of
            [] \<Rightarrow> ret ()
          | t # ts \<Rightarrow>
              seq (update (\<lambda>c. c\<lparr>dc_adapter := Some (a\<lparr>oa_tasks := ts\<rparr>)\<rparr>)) (\<lambda>_.
              (case oa_PrepareForCallback t a of
                 None \<Rightarrow> ret ()
               | Some d \<Rightarrow> note_event (Delegated d (at_callback t) (at_state t))))))"

section \<open>Closing\<close>

definition CloseAbruptlyWithError :: "RTCError \<Rightarrow> unit dc_act" where
  "CloseAbruptlyWithError error =
     seq (look dc_state) (\<lambda>state.
     if state = kClosed then ret ()
     else seq (update (\<lambda>c. c\<lparr>dc_network_safety := False\<rparr>)) (\<lambda>_.
          seq (SetState kClosing) (\<lambda>_.
          seq (update (\<lambda>c. c\<lparr>dc_error := error\<rparr>)) (\<lambda>_.
          SetState kClosed))))"

definition CloseAbruptlyWithDataChannelFailure :: "string \<Rightarrow> unit dc_act" where
  "CloseAbruptlyWithDataChannelFailure message =
     CloseAbruptlyWithError ((RTCError_of OPERATION_ERROR_WITH_DATA message)\<lparr>err_detail := DATA_CHANNEL_FAILURE\<rparr>)"

definition dc_buffered_amount :: "controller \<Rightarrow> SctpDataChannel \<Rightarrow> u64" where
  "dc_buffered_amount k c =
     (case dc_id_n c of
        Some sid \<Rightarrow> (if dc_controller c then ctl_buffered_amount k sid else 0)
      | None \<Rightarrow> 0)"

section \<open>Sending\<close>

definition kMinBufferedAmountDiffToTriggerCallback :: u64 where
  "kMinBufferedAmountDiffToTriggerCallback = 100 * 1024"

definition MaybeSendOnBufferedAmountChanged :: "controller \<Rightarrow> unit dc_act" where
  "MaybeSendOnBufferedAmountChanged k =
     seq (look id) (\<lambda>c.
     if \<not> dc_controller c \<or> dc_id_n c = None \<or> dc_observer c = None then ret ()
     else seq the_sid (\<lambda>sid.
       let actual_buffer_amount = ctl_buffered_amount k sid; expected = dc_expected_buffer_amount c
       in if actual_buffer_amount > expected then ret ()
          else seq (if actual_buffer_amount = 0 \<and> expected \<noteq> 0 \<or>
                       expected - actual_buffer_amount > kMinBufferedAmountDiffToTriggerCallback
                    then seq (update (\<lambda>c. c\<lparr>dc_expected_buffer_amount := actual_buffer_amount\<rparr>)) (\<lambda>_.
                         tell (OnBufferedAmountChange (expected - actual_buffer_amount)))
                    else ret ()) (\<lambda>_.
               note_event (LowThreshold sid
                 (if actual_buffer_amount > kMinBufferedAmountDiffToTriggerCallback
                  then actual_buffer_amount - kMinBufferedAmountDiffToTriggerCallback else 0)))))"

definition ctl_send :: "controller \<Rightarrow> nat \<Rightarrow> SendDataParams \<Rightarrow> bytes \<Rightarrow> RTCError dc_act" where
  "ctl_send k sid params payload =
     seq (note_event (Sent sid params payload)) (\<lambda>_. ret (ctl_SendData k sid params payload))"

definition data_params :: "SctpDataChannel \<Rightarrow> DataBuffer \<Rightarrow> SendDataParams" where
  "data_params c buffer =
     (let send_params = SendDataParams_default\<lparr>sdp_ordered := dc_ordered c\<rparr>;
          send_params = (if dc_handshake_state c \<noteq> kHandshakeReady \<and> \<not> dc_ordered c
                         then send_params\<lparr>sdp_ordered := True\<rparr> else send_params)
      in send_params\<lparr>sdp_max_rtx_count := dc_max_retransmits c, sdp_max_rtx_ms := dc_max_retransmit_time c,
           sdp_type := (if db_binary buffer then kBinary else kText)\<rparr>)"

definition SendDataMessage :: "controller \<Rightarrow> DataBuffer \<Rightarrow> bool \<Rightarrow> RTCError dc_act" where
  "SendDataMessage k buffer queue_if_blocked =
     seq (look id) (\<lambda>c.
     if \<not> dc_controller c \<or> dc_id_n c = None
     then seq (update (\<lambda>c. c\<lparr>dc_error := RTCError_of INVALID_STATE []\<rparr>)) (\<lambda>_. look dc_error)
     else
       let send_params = data_params c buffer
       in seq the_sid (\<lambda>sid.
          seq (ctl_send k sid send_params (db_data buffer)) (\<lambda>err.
          seq (update (\<lambda>c. c\<lparr>dc_error := err\<rparr>)) (\<lambda>_.
          seq (MaybeSendOnBufferedAmountChanged k) (\<lambda>_.
          seq (look dc_error) (\<lambda>err.
          if RTCError_ok err
          then seq (update (\<lambda>c. c\<lparr>dc_messages_sent := dc_messages_sent c + 1,
                                   dc_bytes_sent := dc_bytes_sent c + word_of_nat (db_size buffer)\<rparr>)) (\<lambda>_.
               look dc_error)
          else seq (CloseAbruptlyWithError (RTCError_of NETWORK_ERROR ''Failure to send data'')) (\<lambda>_.
               look dc_error)))))))"

definition SendImpl :: "controller \<Rightarrow> DataBuffer \<Rightarrow> RTCError dc_act" where
  "SendImpl k buffer =
     seq (update (\<lambda>c. c\<lparr>dc_expected_buffer_amount := dc_expected_buffer_amount c + word_of_nat (db_size buffer)\<rparr>)) (\<lambda>_.
     seq (look dc_state) (\<lambda>state.
     if state \<noteq> kOpen
     then seq (update (\<lambda>c. c\<lparr>dc_error := RTCError_of INVALID_STATE []\<rparr>)) (\<lambda>_. look dc_error)
     else SendDataMessage k buffer True))"

definition dc_Send :: "controller \<Rightarrow> DataBuffer \<Rightarrow> bool dc_act" where
  "dc_Send k buffer =
     seq (SendImpl k buffer) (\<lambda>err.
     if err_type err = INVALID_STATE \<or> err_type err = RESOURCE_EXHAUSTED then ret False else ret True)"

text \<open>\<open>SendAsync\<close> posts the send; a task whose safety flag is not alive is dropped.\<close>

definition SendAsync :: "DataBuffer \<Rightarrow> nat option \<Rightarrow> unit dc_act" where
  "SendAsync buffer on_complete =
     update (\<lambda>c. c\<lparr>dc_network_tasks := dc_network_tasks c @ [(buffer, on_complete)]\<rparr>)"

definition run_network_task :: "controller \<Rightarrow> unit dc_act" where
  "run_network_task k =
     seq (look dc_network_tasks) (\<lambda>ts.
     case ts of
       [] \<Rightarrow> ret ()
     | (buffer, on_complete) # ts \<Rightarrow>
         seq (update (\<lambda>c. c\<lparr>dc_network_tasks := ts\<rparr>)) (\<lambda>_.
         seq (look dc_network_safety) (\<lambda>alive.
         onlyif alive
           (seq (SendImpl k buffer) (\<lambda>err.
            case on_complete of None \<Rightarrow> ret () | Some f \<Rightarrow> note_event (SendCompleted f err))))))"

definition SendControlMessage :: "controller \<Rightarrow> bytes \<Rightarrow> bool dc_act" where
  "SendControlMessage k buffer =
     seq (look id) (\<lambda>c.
     let is_open_message = (dc_handshake_state c = kHandshakeShouldSendOpen);
         send_params = SendDataParams_default\<lparr>sdp_ordered := dc_ordered c \<or> is_open_message, sdp_type := kControl\<rparr>
     in seq the_sid (\<lambda>sid.
        seq (ctl_send k sid send_params buffer) (\<lambda>err.
        seq (if RTCError_ok err
             then (if dc_handshake_state c = kHandshakeShouldSendAck
                   then update (\<lambda>c. c\<lparr>dc_handshake_state := kHandshakeReady\<rparr>)
                   else onlyif (dc_handshake_state c = kHandshakeShouldSendOpen)
                          (update (\<lambda>c. c\<lparr>dc_handshake_state := kHandshakeWaitingForAck\<rparr>)))
             else CloseAbruptlyWithError (err\<lparr>err_message := ''Failed to send a CONTROL message''\<rparr>)) (\<lambda>_.
        ret (RTCError_ok err)))))"

section \<open>The state machine\<close>

definition StartClosing :: "unit dc_act" where
  "StartClosing =
     seq (update (\<lambda>c. c\<lparr>dc_started_closing_procedure := True\<rparr>)) (\<lambda>_.
     seq (look dc_controller) (\<lambda>k.
     if \<not> k then fail NullDeref
     else seq the_sid (\<lambda>sid. note_event (StreamRemoved sid))))"

definition send_handshake :: "garbage \<Rightarrow> controller \<Rightarrow> unit dc_act" where
  "send_handshake g k =
     seq (look id) (\<lambda>c.
     if dc_handshake_state c = kHandshakeShouldSendOpen
     then seq (lift (WriteDataChannelOpenMessage g (dc_label c) (dc_protocol c) (dc_priority c)
                       (dc_ordered c) (dc_max_retransmits c) (dc_max_retransmit_time c))) (\<lambda>payload.
          seq (SendControlMessage k payload) (\<lambda>_. ret ()))
     else onlyif (dc_handshake_state c = kHandshakeShouldSendAck)
            (seq (SendControlMessage k WriteDataChannelOpenAckMessage) (\<lambda>_. ret ())))"

definition UpdateState_connecting :: "garbage \<Rightarrow> controller \<Rightarrow> unit dc_act" where
  "UpdateState_connecting g k =
     seq (look (\<lambda>c. dc_network_safety c \<and> dc_controller c)) (\<lambda>connected.
     onlyif connected
       (seq (send_handshake g k) (\<lambda>_.
        seq (look dc_handshake_state) (\<lambda>h.
        onlyif (h = kHandshakeReady \<or> h = kHandshakeWaitingForAck)
          (seq (SetState kOpen) (\<lambda>_. DeliverQueuedReceivedData))))))"

definition UpdateState_closing :: "controller \<Rightarrow> unit dc_act" where
  "UpdateState_closing k =
     seq (look id) (\<lambda>c.
     if dc_network_safety c \<and> dc_controller c \<and> dc_id_n c \<noteq> None
     then onlyif (dc_buffered_amount k c = 0)
            (onlyif (\<not> dc_started_closing_procedure c \<and> dc_id_n c \<noteq> None) StartClosing)
     else SetState kClosed)"

definition UpdateState :: "garbage \<Rightarrow> controller \<Rightarrow> unit dc_act" where
  "UpdateState g k =
     seq (look dc_state) (\<lambda>state.
     case state of
       kConnecting \<Rightarrow> UpdateState_connecting g k
     | kOpen \<Rightarrow> ret ()
     | kClosing \<Rightarrow> UpdateState_closing k
     | kClosed \<Rightarrow> ret ())"

definition dc_Close :: "garbage \<Rightarrow> controller \<Rightarrow> unit dc_act" where
  "dc_Close g k =
     seq (look dc_state) (\<lambda>state.
     if state = kClosing \<or> state = kClosed then ret ()
     else seq (SetState kClosing) (\<lambda>_. UpdateState g k))"

definition SetSctpSid_n :: "nat \<Rightarrow> unit dc_act" where
  "SetSctpSid_n sid = update (\<lambda>c. c\<lparr>dc_id_n := Some sid\<rparr>)"

definition OnClosingProcedureStartedRemotely :: "unit dc_act" where
  "OnClosingProcedureStartedRemotely =
     seq (look dc_state) (\<lambda>state.
     onlyif (state \<noteq> kClosing \<and> state \<noteq> kClosed)
       (seq (update (\<lambda>c. c\<lparr>dc_started_closing_procedure := True\<rparr>)) (\<lambda>_. SetState kClosing)))"

definition OnClosingProcedureComplete :: "unit dc_act" where
  "OnClosingProcedureComplete = SetState kClosed"

definition OnTransportChannelCreated :: "unit dc_act" where
  "OnTransportChannelCreated = update (\<lambda>c. c\<lparr>dc_network_safety := True\<rparr>)"

definition OnTransportChannelClosed :: "RTCError \<Rightarrow> unit dc_act" where
  "OnTransportChannelClosed error = CloseAbruptlyWithError error"

definition OnBufferedAmountLow :: "controller \<Rightarrow> unit dc_act" where
  "OnBufferedAmountLow k =
     seq (MaybeSendOnBufferedAmountChanged k) (\<lambda>_.
     seq (look id) (\<lambda>c.
     onlyif (dc_state c = kClosing \<and> \<not> dc_started_closing_procedure c \<and> dc_id_n c \<noteq> None \<and>
             dc_buffered_amount k c = 0) StartClosing))"

text \<open>A data message: given to the observer of an open channel, queued otherwise.\<close>

definition receive_buffer :: "DataBuffer \<Rightarrow> unit dc_act" where
  "receive_buffer buffer =
     seq (look id) (\<lambda>c.
     if dc_state c = kOpen \<and> dc_observer c \<noteq> None
     then seq (update (\<lambda>c. c\<lparr>dc_messages_received := dc_messages_received c + 1,
                              dc_bytes_received := dc_bytes_received c + word_of_nat (db_size buffer)\<rparr>)) (\<lambda>_.
          tell (OnMessage buffer))
     else if pq_byte_count (dc_queued_received_data c) + db_size buffer > kMaxQueuedReceivedDataBytes
     then seq (update (\<lambda>c. c\<lparr>dc_queued_received_data := pq_Clear (dc_queued_received_data c)\<rparr>)) (\<lambda>_.
          CloseAbruptlyWithError (RTCError_of RESOURCE_EXHAUSTED
            ''Queued received data exceeds the max buffer size.''))
     else update (\<lambda>c. c\<lparr>dc_queued_received_data := pq_PushBack buffer (dc_queued_received_data c)\<rparr>))"

definition OnDataReceived :: "DataMessageType \<Rightarrow> bytes \<Rightarrow> unit dc_act" where
  "OnDataReceived type payload =
     seq (look dc_handshake_state) (\<lambda>h.
     if type = kControl
     then (if h \<noteq> kHandshakeWaitingForAck then ret ()
           else onlyif (ParseDataChannelOpenAckMessage payload)
                  (update (\<lambda>c. c\<lparr>dc_handshake_state := kHandshakeReady\<rparr>)))
     else seq (onlyif (h = kHandshakeWaitingForAck)
                 (update (\<lambda>c. c\<lparr>dc_handshake_state := kHandshakeReady\<rparr>))) (\<lambda>_.
          receive_buffer \<lparr>db_data = payload, db_binary = (type = kBinary)\<rparr>))"

definition OnTransportReady :: "garbage \<Rightarrow> controller \<Rightarrow> unit dc_act" where
  "OnTransportReady g k = UpdateState g k"

section \<open>Getters\<close>

definition reliable :: "SctpDataChannel \<Rightarrow> bool" where
  "reliable c \<longleftrightarrow> dc_max_retransmits c = None \<and> dc_max_retransmit_time c = None"

definition maxRetransmitTime :: "SctpDataChannel \<Rightarrow> u16" where
  "maxRetransmitTime c = (case dc_max_retransmit_time c of Some t \<Rightarrow> word_of_int t | None \<Rightarrow> -1)"

definition maxRetransmits :: "SctpDataChannel \<Rightarrow> u16" where
  "maxRetransmits c = (case dc_max_retransmits c of Some n \<Rightarrow> word_of_int n | None \<Rightarrow> -1)"

definition dc_id :: "SctpDataChannel \<Rightarrow> int" where
  "dc_id c = (case dc_id_n c of Some sid \<Rightarrow> int sid | None \<Rightarrow> -1)"

definition channel_priority :: "SctpDataChannel \<Rightarrow> u16" where
  "channel_priority c = (case dc_priority c of Some p \<Rightarrow> p | None \<Rightarrow> PriorityValue pLow)"

record DataChannelStats =
  dcs_internal_id :: int
  dcs_id :: int
  dcs_label :: bytes
  dcs_protocol :: bytes
  dcs_state :: DataState
  dcs_messages_sent :: u32
  dcs_messages_received :: u32
  dcs_bytes_sent :: u64
  dcs_bytes_received :: u64

definition GetStats :: "SctpDataChannel \<Rightarrow> DataChannelStats" where
  "GetStats c =
     \<lparr>dcs_internal_id = dc_internal_id c, dcs_id = dc_id c, dcs_label = dc_label c,
      dcs_protocol = dc_protocol c, dcs_state = dc_state c, dcs_messages_sent = dc_messages_sent c,
      dcs_messages_received = dc_messages_received c, dcs_bytes_sent = dc_bytes_sent c,
      dcs_bytes_received = dc_bytes_received c\<rparr>"

section \<open>The order of states\<close>

instantiation DataState :: linorder
begin

definition state_rank :: "DataState \<Rightarrow> nat" where
  "state_rank s = (case s of kConnecting \<Rightarrow> 0 | kOpen \<Rightarrow> 1 | kClosing \<Rightarrow> 2 | kClosed \<Rightarrow> 3)"

definition less_eq_DataState :: "DataState \<Rightarrow> DataState \<Rightarrow> bool" where
  "less_eq_DataState s t \<longleftrightarrow> state_rank s \<le> state_rank t"

definition less_DataState :: "DataState \<Rightarrow> DataState \<Rightarrow> bool" where
  "less_DataState s t \<longleftrightarrow> state_rank s < state_rank t"

instance
proof
  fix s t :: DataState
  assume "s \<le> t" "t \<le> s"
  then show "s = t"
    by (cases s; cases t) (simp_all add: less_eq_DataState_def state_rank_def)
qed (auto simp: less_eq_DataState_def less_DataState_def)

end

lemma state_order [simp]:
  "kConnecting \<le> s" "s \<le> kClosed" "kOpen \<le> kClosing" "s \<le> kClosing \<longleftrightarrow> s \<noteq> kClosed"
  "s \<le> kOpen \<longleftrightarrow> s = kConnecting \<or> s = kOpen" "kClosed \<le> s \<longleftrightarrow> s = kClosed"
  by (cases s; simp add: less_eq_DataState_def state_rank_def)+

section \<open>Frames\<close>

text \<open>The helpers that only tell or log.\<close>

lemma run_note_event [simp]: "note_event e c = (c\<lparr>dc_log := dc_log c @ [e]\<rparr>, Returns ())"
  by (simp add: note_event_def)

lemma run_tell:
  "tell cb c =
    (c\<lparr>dc_log := dc_log c @ [if dc_observer c = Some ViaAdapter then Posted cb else Told cb],
       dc_adapter := (if dc_observer c = Some ViaAdapter
                      then map_option (oa_post cb (dc_state c) (dc_error c)) (dc_adapter c)
                      else dc_adapter c)\<rparr>, Returns ())"
  by (simp add: tell_def)

lemma run_the_sid: "dc_id_n c = Some sid \<Longrightarrow> the_sid c = (c, Returns sid)"
  by (simp add: the_sid_def)

lemma run_the_sid_None: "dc_id_n c = None \<Longrightarrow> the_sid c = (c, Faults BadAccess)"
  by (simp add: the_sid_def run_seq)

text \<open>What a call of the observer, or a change of state, leaves alone.\<close>

lemma preserves_tell: "(\<And>c l a. f (c\<lparr>dc_log := l, dc_adapter := a\<rparr>) = f c) \<Longrightarrow> preserves f (tell cb)"
  by (simp add: preserves_def run_tell)

lemma preserves_note: "(\<And>c l. f (c\<lparr>dc_log := l\<rparr>) = f c) \<Longrightarrow> preserves f (note_event e)"
  by (simp add: preserves_def)

lemma preserves_the_sid: "preserves f the_sid"
  unfolding the_sid_def by (intro act_rules)

lemma preserves_list:
  "(x = [] \<Longrightarrow> preserves f m) \<Longrightarrow> (\<And>y ys. x = y # ys \<Longrightarrow> preserves f (g y ys)) \<Longrightarrow>
   preserves f (case x of [] \<Rightarrow> m | y # ys \<Rightarrow> g y ys)"
  by (cases x) simp_all

lemmas dc_rules = act_rules preserves_tell preserves_note preserves_the_sid

lemma SetState_preserves:
  assumes "\<And>c s l a. f (c\<lparr>dc_state := s\<rparr>) = f c" "\<And>c l a. f (c\<lparr>dc_log := l, dc_adapter := a\<rparr>) = f c"
    "\<And>c l. f (c\<lparr>dc_log := l\<rparr>) = f c"
  shows "preserves f (SetState s)"
  unfolding SetState_def by (intro dc_rules; simp add: assms)

lemma run_SetState:
  obtains c' where "SetState s c = (c', Returns ())" "dc_state c' = s"
proof -
  have "\<exists>c'. SetState s c = (c', Returns ()) \<and> dc_state c' = s"
    by (cases "dc_state c = s"; cases "dc_observer c"; cases "dc_controller c")
      (simp_all add: SetState_def run_seq run_tell)
  then show thesis using that by blast
qed

lemma SetState_state [simp]: "dc_state (fst (SetState s c)) = s"
  by (rule run_SetState [of s c]) simp

lemma SetState_returns [simp]: "snd (SetState s c) = Returns ()"
  by (rule run_SetState [of s c]) simp

lemma seq_SetState: "seq (SetState s) f c = f () (fst (SetState s c))"
  by (rule run_SetState [of s c]) simp

text \<open>
  A control message that goes out moves the handshake on and leaves the state; one that fails closes
  the channel and leaves the handshake.
\<close>

lemma CloseAbruptly_handshake: "preserves dc_handshake_state (CloseAbruptlyWithError e)"
  unfolding CloseAbruptlyWithError_def by (intro dc_rules SetState_preserves; simp)

lemma SendControlMessage_cases:
  assumes "SendControlMessage k bs c = (c', Returns ok)"
  shows "if ok then dc_state c' = dc_state c
         else dc_handshake_state c' = dc_handshake_state c"
proof -
  obtain sid where sid: "dc_id_n c = Some sid"
    using assms by (cases "dc_id_n c") (auto simp: SendControlMessage_def Let_def run_the_sid_None run_seq)
  let ?ps = "SendDataParams_default\<lparr>sdp_ordered := dc_ordered c \<or> dc_handshake_state c = kHandshakeShouldSendOpen,
               sdp_type := kControl\<rparr>"
  let ?err = "ctl_SendData k sid ?ps bs"
  let ?c = "c\<lparr>dc_log := dc_log c @ [Sent sid ?ps bs]\<rparr>"
  have send: "ctl_send k sid ?ps bs c = (?c, Returns ?err)" by (simp add: ctl_send_def)
  show ?thesis
  proof (cases "RTCError_ok ?err")
    case True
    with assms show ?thesis
      by (auto simp: SendControlMessage_def Let_def run_the_sid [OF sid] send run_seq split: if_splits)
  next
    case False
    obtain c1 r where close: "CloseAbruptlyWithError (?err\<lparr>err_message := ''Failed to send a CONTROL message''\<rparr>) ?c
        = (c1, r)" by fastforce
    have "dc_handshake_state c1 = dc_handshake_state ?c"
      using preserves_run [OF CloseAbruptly_handshake close] .
    with False assms close show ?thesis
      by (cases r) (auto simp: SendControlMessage_def Let_def run_the_sid [OF sid] send run_seq)
  qed
qed

text \<open>After the attempt to send, a handshake that allows opening means the state did not move.\<close>

definition open_only_from_connecting :: "SctpDataChannel \<Rightarrow> bool" where
  "open_only_from_connecting c \<longleftrightarrow>
     dc_handshake_state c \<in> {kHandshakeReady, kHandshakeWaitingForAck} \<longrightarrow> dc_state c = kConnecting"

lemma SendControlMessage_open:
  assumes "dc_state c = kConnecting" "dc_handshake_state c \<in> {kHandshakeShouldSendOpen, kHandshakeShouldSendAck}"
    and "SendControlMessage k bs c = (c', Returns ok)"
  shows "open_only_from_connecting c'"
  using SendControlMessage_cases [OF assms(3)] assms(1,2)
  by (auto simp: open_only_from_connecting_def split: if_splits)

lemma send_handshake_open:
  assumes c: "dc_state c = kConnecting" and run: "send_handshake g k c = (t, Returns x)"
  shows "open_only_from_connecting t"
proof (cases "dc_handshake_state c \<in> {kHandshakeShouldSendOpen, kHandshakeShouldSendAck}")
  case True
  obtain bs ok where "SendControlMessage k bs c = (t, Returns ok)"
    using run True by (auto simp: send_handshake_def run_seq split: prod.splits outcome.splits)
  with c True show ?thesis by (rule SendControlMessage_open)
next
  case False
  with run c show ?thesis by (auto simp: send_handshake_def open_only_from_connecting_def)
qed

section \<open>Histories of a channel\<close>

text \<open>The calls a channel can get, from the application, its controller and its threads.\<close>

datatype dc_call =
    C_RegisterObserver nat bool
  | C_UnregisterObserver
  | C_CreateProxy bool
  | C_Close garbage
  | C_Send DataBuffer
  | C_SendAsync DataBuffer "nat option"
  | C_network_task
  | C_signaling_task
  | C_SetSctpSid nat
  | C_OnClosingProcedureStartedRemotely
  | C_OnClosingProcedureComplete
  | C_OnTransportChannelCreated
  | C_OnTransportChannelClosed RTCError
  | C_CloseAbruptlyWithDataChannelFailure string
  | C_OnBufferedAmountLow
  | C_OnDataReceived DataMessageType bytes
  | C_OnTransportReady garbage

fun dc_handle :: "controller \<Rightarrow> dc_call \<Rightarrow> unit dc_act" where
  "dc_handle k (C_RegisterObserver obs net) = RegisterObserver obs net"
| "dc_handle k C_UnregisterObserver = UnregisterObserver"
| "dc_handle k (C_CreateProxy safety) = CreateProxy safety"
| "dc_handle k (C_Close g) = dc_Close g k"
| "dc_handle k (C_Send b) = seq (dc_Send k b) (\<lambda>_. ret ())"
| "dc_handle k (C_SendAsync b f) = SendAsync b f"
| "dc_handle k C_network_task = run_network_task k"
| "dc_handle k C_signaling_task = run_signaling_task"
| "dc_handle k (C_SetSctpSid sid) = SetSctpSid_n sid"
| "dc_handle k C_OnClosingProcedureStartedRemotely = OnClosingProcedureStartedRemotely"
| "dc_handle k C_OnClosingProcedureComplete = OnClosingProcedureComplete"
| "dc_handle k C_OnTransportChannelCreated = OnTransportChannelCreated"
| "dc_handle k (C_OnTransportChannelClosed e) = OnTransportChannelClosed e"
| "dc_handle k (C_CloseAbruptlyWithDataChannelFailure m) = CloseAbruptlyWithDataChannelFailure m"
| "dc_handle k C_OnBufferedAmountLow = OnBufferedAmountLow k"
| "dc_handle k (C_OnDataReceived t bs) = OnDataReceived t bs"
| "dc_handle k (C_OnTransportReady g) = OnTransportReady g k"

inductive dc_step :: "SctpDataChannel \<Rightarrow> SctpDataChannel \<Rightarrow> bool" where
  dc_stepI: "c' = fst (dc_handle k call c) \<Longrightarrow> dc_step c c'"

section \<open>A contract every call keeps\<close>

text \<open>
  Most of what a handler does is quiet: it leaves the state, the observer, the queue and the wiring
  of the channel alone and reports no change of state.  A relation that holds of quiet steps, of
  closing, of unregistering and of the three operations that deliver messages holds of every call.
\<close>

definition announcement :: "dc_event \<Rightarrow> bool" where
  "announcement e = (case e of ChannelStateChanged _ \<Rightarrow> True | _ \<Rightarrow> False)"

definition dc_quiet :: "SctpDataChannel \<Rightarrow> SctpDataChannel \<Rightarrow> bool" where
  "dc_quiet c c' \<longleftrightarrow> dc_state c' = dc_state c \<and> dc_observer c' = dc_observer c \<and>
     dc_queued_received_data c' = dc_queued_received_data c \<and> dc_id_n c' = dc_id_n c \<and>
     dc_controller c' = dc_controller c \<and>
     (\<exists>es. dc_log c' = dc_log c @ es \<and> (\<forall>e \<in> set es. \<not> announcement e))"

interpretation quiet: progress dc_quiet
proof
  show "dc_quiet c c" for c by (auto simp: dc_quiet_def)
  fix c d e
  assume "dc_quiet c d" "dc_quiet d e"
  then show "dc_quiet c e" by (fastforce simp: dc_quiet_def)
qed

lemma quiet_note: "\<not> announcement e \<Longrightarrow> goes dc_quiet (note_event e) c"
  by (simp add: goes_def dc_quiet_def)

lemma quiet_tell_cb: "goes dc_quiet (tell cb) c"
  by (simp add: goes_def dc_quiet_def run_tell announcement_def)

lemma quiet_sid: "goes dc_quiet the_sid c"
  unfolding the_sid_def by (intro quiet.goes_look quiet.goes_option quiet.goes_pure)

lemma quiet_change:
  "dc_state (f c) = dc_state c \<Longrightarrow> dc_observer (f c) = dc_observer c \<Longrightarrow>
   dc_queued_received_data (f c) = dc_queued_received_data c \<Longrightarrow> dc_id_n (f c) = dc_id_n c \<Longrightarrow>
   dc_controller (f c) = dc_controller c \<Longrightarrow> dc_log (f c) = dc_log c \<Longrightarrow> goes dc_quiet (update f) c"
  by (simp add: goes_def dc_quiet_def)

lemmas quiet_steps = quiet.goes_rules quiet.goes_seq quiet_note quiet_tell_cb quiet_sid quiet_change

lemma quiet_helpers:
  "goes dc_quiet (MaybeSendOnBufferedAmountChanged k) c" "goes dc_quiet StartClosing c"
  "goes dc_quiet (ctl_send k sid ps bs) c" "goes dc_quiet (CreateProxy s) c"
  "goes dc_quiet (SendAsync b f) c"
  "goes dc_quiet OnTransportChannelCreated c" "goes dc_quiet (OnDataReceived kControl bs) c"
  unfolding MaybeSendOnBufferedAmountChanged_def StartClosing_def ctl_send_def CreateProxy_def
    SendAsync_def OnTransportChannelCreated_def OnDataReceived_def Let_def if_P [OF refl]
  by (intro quiet_steps; simp add: announcement_def)+

lemma quiet_signaling_task: "goes dc_quiet run_signaling_task c"
  unfolding run_signaling_task_def
  by (rule quiet.goes_look)
    (auto split: option.split list.split intro!: quiet_steps simp: announcement_def)

lemma SetState_core:
  "dc_observer (fst (SetState s c)) = dc_observer c"
  "dc_queued_received_data (fst (SetState s c)) = dc_queued_received_data c"
  by (rule preservesD, rule SetState_preserves; simp)+

locale channel_contract = progress R for R :: "SctpDataChannel \<Rightarrow> SctpDataChannel \<Rightarrow> bool" +
  assumes R_quiet: "dc_quiet c c' \<Longrightarrow> R c c'"
    and R_closing: "dc_state c \<le> s \<Longrightarrow> kClosing \<le> s \<Longrightarrow> goes R (SetState s) c"
    and R_unregister: "goes R UnregisterObserver c"
    and R_register: "goes R (RegisterObserver obs net) c"
    and R_open: "dc_state c = kConnecting \<Longrightarrow> goes R (seq (SetState kOpen) (\<lambda>_. DeliverQueuedReceivedData)) c"
    and R_receive: "goes R (receive_buffer b) c"
begin

lemma goes_quiet: "goes dc_quiet m c \<Longrightarrow> goes R m c"
  by (simp add: goes_def R_quiet)

lemmas quiet = quiet_note [THEN goes_quiet] quiet_tell_cb [THEN goes_quiet] quiet_sid [THEN goes_quiet]
  quiet_helpers [THEN goes_quiet] quiet_signaling_task [THEN goes_quiet]

lemmas goes_quiet_update = quiet_change [THEN goes_quiet]

lemmas contract_rules = goes_rules goes_seq quiet R_closing

lemma goes_CloseAbruptly: "goes R (CloseAbruptlyWithError e) c"
  unfolding CloseAbruptlyWithError_def
  by (intro contract_rules goes_quiet_update; auto simp: announcement_def)

lemma goes_SendImpl: "goes R (SendImpl k b) c"
  unfolding SendImpl_def SendDataMessage_def Let_def
  by (intro contract_rules goes_quiet_update goes_CloseAbruptly; simp add: announcement_def)

lemma goes_SendControlMessage: "goes R (SendControlMessage k bs) c"
  unfolding SendControlMessage_def Let_def
  by (intro contract_rules goes_quiet_update goes_CloseAbruptly; simp add: announcement_def)

lemma goes_send_handshake: "goes R (send_handshake g k) c"
  unfolding send_handshake_def by (intro contract_rules goes_SendControlMessage)

lemma goes_UpdateState_connecting:
  assumes "dc_state c = kConnecting"
  shows "goes R (UpdateState_connecting g k) c"
  unfolding UpdateState_connecting_def
proof (intro goes_look goes_onlyif goes_seq [OF goes_send_handshake] R_open)
  fix t x
  assume "send_handshake g k c = (t, Returns x)"
    "dc_handshake_state t = kHandshakeReady \<or> dc_handshake_state t = kHandshakeWaitingForAck"
  with assms show "dc_state t = kConnecting"
    using send_handshake_open [of c g k t x] by (auto simp: open_only_from_connecting_def)
qed

lemma goes_UpdateState: "goes R (UpdateState g k) c"
  unfolding UpdateState_def UpdateState_closing_def
  by (intro goes_look; cases "dc_state c")
    (auto intro!: goes_UpdateState_connecting contract_rules)

lemma goes_Close: "goes R (dc_Close g k) c"
  unfolding dc_Close_def by (intro contract_rules goes_UpdateState; simp)

lemma goes_network_task: "goes R (run_network_task k) c"
  unfolding run_network_task_def
  by (rule goes_look)
    (auto split: list.split intro!: contract_rules goes_quiet_update goes_SendImpl simp: announcement_def)

lemma goes_closing_calls:
  "goes R OnClosingProcedureStartedRemotely c" "goes R OnClosingProcedureComplete c"
  "goes R (OnTransportChannelClosed e) c" "goes R (CloseAbruptlyWithDataChannelFailure m) c"
  "goes R (OnBufferedAmountLow k) c"
  unfolding OnClosingProcedureStartedRemotely_def OnClosingProcedureComplete_def
    OnTransportChannelClosed_def CloseAbruptlyWithDataChannelFailure_def OnBufferedAmountLow_def
  by (auto intro!: contract_rules goes_quiet_update goes_CloseAbruptly simp: announcement_def)

lemma goes_OnDataReceived: "goes R (OnDataReceived t bs) c"
  unfolding OnDataReceived_def
  by (intro contract_rules goes_quiet_update R_receive; simp add: announcement_def)

lemma goes_call: "(\<And>sid. call \<noteq> C_SetSctpSid sid) \<Longrightarrow> goes R (dc_handle k call) c"
  by (cases call)
    (auto simp: OnTransportReady_def dc_Send_def intro!: quiet R_register R_unregister goes_Close
      goes_network_task goes_closing_calls goes_OnDataReceived goes_UpdateState goes_seq goes_SendImpl
      goes_rules)

lemma goes_step:
  assumes sid: "\<And>sid c. goes R (SetSctpSid_n sid) c" and step: "dc_step c c'"
  shows "R c c'"
proof -
  from step obtain k call where c': "c' = fst (dc_handle k call c)" by (auto elim!: dc_step.cases)
  show ?thesis
  proof (cases "\<exists>sid. call = C_SetSctpSid sid")
    case True
    with sid c' show ?thesis by (auto simp: goes_def)
  next
    case False
    with goes_call [of call k c] c' show ?thesis by (simp add: goes_def)
  qed
qed

end

section \<open>Delivery\<close>

text \<open>The delivery loop empties the queue in order, and leaves the rest of the core alone.\<close>

lemma deliver_front_effect:
  assumes "pq_packets (dc_queued_received_data c) = b # bs"
  obtains c' where "deliver_front c = (c', Returns ())" "dc_state c' = dc_state c"
    "dc_observer c' = dc_observer c" "pq_packets (dc_queued_received_data c') = bs"
    "pq_ok (dc_queued_received_data c) \<longrightarrow> pq_ok (dc_queued_received_data c')"
    "pq_byte_count (dc_queued_received_data c') = pq_byte_count (dc_queued_received_data c) - db_size b"
proof -
  let ?q = "dc_queued_received_data c"
  let ?q' = "\<lparr>pq_packets = bs, pq_byte_count = pq_byte_count ?q - db_size b\<rparr>"
  obtain q' where q': "pq_PopFront ?q = Returns (b, q')" "pq_packets q' = bs"
    "pq_byte_count q' = pq_byte_count ?q - db_size b"
    by (rule that [of ?q']) (use assms in \<open>simp_all add: pq_PopFront_def\<close>)
  moreover have "pq_ok ?q \<longrightarrow> pq_ok q'" using q'(1) pq_ok_ops(5) by blast
  ultimately show thesis
    using that by (simp add: deliver_front_def run_tell)
qed

lemma deliver_loop_effect:
  assumes "length (pq_packets (dc_queued_received_data c)) = n"
  obtains c' where "deliver_loop n c = (c', Returns ())" "dc_state c' = dc_state c"
    "dc_observer c' = dc_observer c" "pq_packets (dc_queued_received_data c') = []"
    "pq_ok (dc_queued_received_data c) \<longrightarrow> pq_ok (dc_queued_received_data c')"
    "pq_byte_count (dc_queued_received_data c') \<le> pq_byte_count (dc_queued_received_data c)"
  using assms
proof (induction n arbitrary: c thesis)
  case (Suc n)
  then obtain b bs where bs: "pq_packets (dc_queued_received_data c) = b # bs"
    by (auto simp: length_Suc_conv)
  obtain c1 where c1: "deliver_front c = (c1, Returns ())" "dc_state c1 = dc_state c"
    "dc_observer c1 = dc_observer c" "pq_packets (dc_queued_received_data c1) = bs"
    "pq_ok (dc_queued_received_data c) \<longrightarrow> pq_ok (dc_queued_received_data c1)"
    "pq_byte_count (dc_queued_received_data c1) = pq_byte_count (dc_queued_received_data c) - db_size b"
    using bs by (rule deliver_front_effect)
  have "length (pq_packets (dc_queued_received_data c1)) = n" using Suc.prems(2) bs c1(4) by simp
  from Suc.IH [OF _ this] obtain c2 where c2: "deliver_loop n c1 = (c2, Returns ())" "dc_state c2 = dc_state c1"
    "dc_observer c2 = dc_observer c1" "pq_packets (dc_queued_received_data c2) = []"
    "pq_ok (dc_queued_received_data c1) \<longrightarrow> pq_ok (dc_queued_received_data c2)"
    "pq_byte_count (dc_queued_received_data c2) \<le> pq_byte_count (dc_queued_received_data c1)"
    by blast
  show ?case
    by (rule Suc.prems(1) [of c2]) (use bs c1 c2 in \<open>simp_all add: pq_Empty_def\<close>)
qed simp

lemma DeliverQueuedReceivedData_effect:
  obtains c' where "DeliverQueuedReceivedData c = (c', Returns ())" "dc_state c' = dc_state c"
    "dc_observer c' = dc_observer c"
    "dc_observer c \<noteq> None \<and> dc_state c = kOpen \<longrightarrow> pq_packets (dc_queued_received_data c') = []"
    "pq_ok (dc_queued_received_data c) \<longrightarrow> pq_ok (dc_queued_received_data c')"
    "pq_byte_count (dc_queued_received_data c') \<le> pq_byte_count (dc_queued_received_data c)"
proof (cases "dc_observer c = None \<or> dc_state c \<noteq> kOpen")
  case True
  have "DeliverQueuedReceivedData c = (c, Returns ())"
    unfolding DeliverQueuedReceivedData_def by (simp only: run_seq_Returns [OF run_look] True if_True run_ret)
  then show thesis by (rule that) (use True in auto)
next
  case False
  then have "DeliverQueuedReceivedData c = deliver_loop (length (pq_packets (dc_queued_received_data c))) c"
    unfolding DeliverQueuedReceivedData_def by (simp only: run_seq_Returns [OF run_look] False if_False)
  then show thesis using deliver_loop_effect [OF refl, of c] that by metis
qed

section \<open>States only move forward\<close>

definition forward :: "SctpDataChannel \<Rightarrow> SctpDataChannel \<Rightarrow> bool" where
  "forward c c' \<longleftrightarrow> dc_state c \<le> dc_state c'"

lemma run_RegisterObserver:
  "RegisterObserver obs net c =
     (if net then DeliverQueuedReceivedData (c\<lparr>dc_observer := Some (Direct obs)\<rparr>)
      else case dc_adapter c of
        None \<Rightarrow> (c, Faults NullDeref)
      | Some a \<Rightarrow> DeliverQueuedReceivedData
          (c\<lparr>dc_adapter := Some (oa_SetDelegate (Some obs) a), dc_observer := Some ViaAdapter\<rparr>))"
  by (simp add: RegisterObserver_def run_seq split: option.split)

lemma forward_Deliver: "dc_state (fst (DeliverQueuedReceivedData c)) = dc_state c"
  by (rule DeliverQueuedReceivedData_effect [of c]) simp

lemma CloseAbruptly_state: "dc_state (fst (CloseAbruptlyWithError e c)) = kClosed"
proof (cases "dc_state c = kClosed")
  case False
  obtain c' where "SetState kClosing (c\<lparr>dc_network_safety := False\<rparr>) = (c', Returns ())"
    by (rule run_SetState)
  with False show ?thesis by (simp add: CloseAbruptlyWithError_def)
qed (simp add: CloseAbruptlyWithError_def)

lemma CloseAbruptly_queue:
  "dc_queued_received_data (fst (CloseAbruptlyWithError e c)) = dc_queued_received_data c"
  by (rule preservesD, unfold CloseAbruptlyWithError_def, intro dc_rules SetState_preserves; simp)

lemma run_receive_buffer:
  "receive_buffer b c =
     (if dc_state c = kOpen \<and> dc_observer c \<noteq> None
      then tell (OnMessage b) (c\<lparr>dc_messages_received := dc_messages_received c + 1,
             dc_bytes_received := dc_bytes_received c + word_of_nat (db_size b)\<rparr>)
      else if pq_byte_count (dc_queued_received_data c) + db_size b > kMaxQueuedReceivedDataBytes
      then CloseAbruptlyWithError
             (RTCError_of RESOURCE_EXHAUSTED ''Queued received data exceeds the max buffer size.'')
             (c\<lparr>dc_queued_received_data := pq_Clear (dc_queued_received_data c)\<rparr>)
      else (c\<lparr>dc_queued_received_data := pq_PushBack b (dc_queued_received_data c)\<rparr>, Returns ()))"
  unfolding receive_buffer_def
  by (simp only: run_seq_Returns [OF run_look] run_seq_Returns [OF run_update] id_apply run_update if_distribR
      split: if_split)

lemma receive_buffer_state:
  "dc_state (fst (receive_buffer b c)) = dc_state c \<or> dc_state (fst (receive_buffer b c)) = kClosed"
  by (simp add: receive_buffer_def run_tell CloseAbruptly_state)

interpretation fwd: channel_contract forward
proof
  fix c :: SctpDataChannel and s
  assume "dc_state c \<le> s"
  then show "goes forward (SetState s) c" by (simp add: goes_def forward_def)
next
  fix c obs net
  show "goes forward (RegisterObserver obs net) c"
    by (simp add: goes_def forward_def run_RegisterObserver forward_Deliver split: option.split)
next
  fix c :: SctpDataChannel
  assume "dc_state c = kConnecting"
  then show "goes forward (seq (SetState kOpen) (\<lambda>_. DeliverQueuedReceivedData)) c"
    by (simp add: goes_def forward_def seq_SetState forward_Deliver)
next
  fix b c
  show "goes forward (receive_buffer b) c"
    using receive_buffer_state [of b c] by (auto simp: goes_def forward_def)
qed (auto simp: goes_def forward_def dc_quiet_def UnregisterObserver_def)

interpretation dc_from: step_invariant dc_step "\<lambda>c. s \<le> dc_state c" for s
  using fwd.goes_step
  by unfold_locales (auto simp: goes_def forward_def SetSctpSid_n_def intro: order_trans)

section \<open>The received queue\<close>

text \<open>
  The queue knows its size and never holds more than sixteen megabytes, and an open channel with an
  observer has nothing waiting.
\<close>

definition queue_ok :: "SctpDataChannel \<Rightarrow> bool" where
  "queue_ok c \<longleftrightarrow> pq_ok (dc_queued_received_data c) \<and>
     pq_byte_count (dc_queued_received_data c) \<le> kMaxQueuedReceivedDataBytes \<and>
     (dc_observer c \<noteq> None \<and> dc_state c = kOpen \<longrightarrow> pq_packets (dc_queued_received_data c) = [])"

lemma queue_ok_create: "queue_ok (SctpDataChannel_create config k label connected uid)"
  by (simp add: queue_ok_def SctpDataChannel_create_def pq_ok_ops(1)) (simp add: pq_empty_def)

lemma queue_ok_Deliver:
  assumes "pq_ok (dc_queued_received_data c)"
    "pq_byte_count (dc_queued_received_data c) \<le> kMaxQueuedReceivedDataBytes"
  shows "queue_ok (fst (DeliverQueuedReceivedData c))"
  by (rule DeliverQueuedReceivedData_effect [of c]) (use assms in \<open>auto simp: queue_ok_def\<close>)

lemma queue_ok_receive:
  assumes "queue_ok c"
  shows "queue_ok (fst (receive_buffer b c))"
proof -
  let ?q = "dc_queued_received_data c" and ?big = "pq_byte_count (dc_queued_received_data c) + db_size b > kMaxQueuedReceivedDataBytes"
  consider (now) "dc_state c = kOpen \<and> dc_observer c \<noteq> None"
    | (full) "\<not> (dc_state c = kOpen \<and> dc_observer c \<noteq> None)" ?big
    | (queued) "\<not> (dc_state c = kOpen \<and> dc_observer c \<noteq> None)" "\<not> ?big" by blast
  then show ?thesis
  proof cases
    case now
    with assms show ?thesis by (auto simp: receive_buffer_def run_tell queue_ok_def)
  next
    case full
    then have "receive_buffer b c = CloseAbruptlyWithError
        (RTCError_of RESOURCE_EXHAUSTED ''Queued received data exceeds the max buffer size.'')
        (c\<lparr>dc_queued_received_data := pq_Clear ?q\<rparr>)"
      unfolding run_receive_buffer by argo
    then show ?thesis
      by (simp add: queue_ok_def CloseAbruptly_state CloseAbruptly_queue pq_ok_ops(2)) (simp add: pq_Clear_def)
  next
    case queued
    with assms show ?thesis
      by (auto simp: receive_buffer_def queue_ok_def pq_ok_ops(3)) (simp_all add: pq_PushBack_def)
  qed
qed

interpretation queue: channel_contract "\<lambda>c c'. queue_ok c \<longrightarrow> queue_ok c'"
proof
  fix c obs net
  show "goes (\<lambda>c c'. queue_ok c \<longrightarrow> queue_ok c') (RegisterObserver obs net) c"
    using queue_ok_Deliver
    by (auto simp: goes_def run_RegisterObserver queue_ok_def [of c] split: option.split)
next
  fix c
  show "goes (\<lambda>c c'. queue_ok c \<longrightarrow> queue_ok c') (seq (SetState kOpen) (\<lambda>_. DeliverQueuedReceivedData)) c"
    using queue_ok_Deliver [of "fst (SetState kOpen c)"]
    by (simp add: goes_def seq_SetState queue_ok_def [of c] SetState_core)
next
  fix b c
  show "goes (\<lambda>c c'. queue_ok c \<longrightarrow> queue_ok c') (receive_buffer b) c"
    by (simp add: goes_def queue_ok_receive)
qed (auto simp: goes_def queue_ok_def dc_quiet_def UnregisterObserver_def SetState_core)

interpretation dc_queue: step_invariant dc_step queue_ok
  using queue.goes_step by unfold_locales (auto simp: goes_def queue_ok_def SetSctpSid_n_def)

end
