(* ===== verification/Channel_Ledger.thy ===== *)
theory Channel_Ledger
  imports Data_Channel "HOL-Library.Sublist"
begin

text \<open>
  What the observer of a data channel sees over a whole history (\<open>pc/sctp_data_channel.cc\<close>,
  \<open>OnDataReceived\<close>, \<open>DeliverQueuedReceivedData\<close>, \<open>MaybeSendOnBufferedAmountChanged\<close> and the
  \<open>ObserverAdapter\<close>).  The channel announces a callback by calling \<open>observer_\<close>; a direct observer is
  given it at once, the adapter posts a task that gives it to the delegate later, unless the delegate
  was changed in between, which drops the tasks posted so far.
\<close>

section \<open>Ledgers\<close>

text \<open>
  From the log: the callbacks that the channel announced, those that it posted through the adapter, those
  that the adapter's delegates were given, and all that observers were given; \<open>pending\<close> are the ones whose
  task has not run.
\<close>

fun announced_callback :: "dc_event \<Rightarrow> callback list" where
  "announced_callback (Told cb) = [cb]"
| "announced_callback (Posted cb) = [cb]"
| "announced_callback _ = []"

fun posted_callback :: "dc_event \<Rightarrow> callback list" where
  "posted_callback (Posted cb) = [cb]"
| "posted_callback _ = []"

fun delegated_callback :: "dc_event \<Rightarrow> callback list" where
  "delegated_callback (Delegated d cb s) = [cb]"
| "delegated_callback _ = []"

fun given_callback :: "dc_event \<Rightarrow> callback list" where
  "given_callback (Told cb) = [cb]"
| "given_callback (Delegated d cb s) = [cb]"
| "given_callback _ = []"

definition announced :: "SctpDataChannel \<Rightarrow> callback list" where
  "announced c = concat (map announced_callback (dc_log c))"

definition posted :: "SctpDataChannel \<Rightarrow> callback list" where
  "posted c = concat (map posted_callback (dc_log c))"

definition delegated :: "SctpDataChannel \<Rightarrow> callback list" where
  "delegated c = concat (map delegated_callback (dc_log c))"

definition given :: "SctpDataChannel \<Rightarrow> callback list" where
  "given c = concat (map given_callback (dc_log c))"

definition pending :: "SctpDataChannel \<Rightarrow> callback list" where
  "pending c = (case dc_adapter c of None \<Rightarrow> [] | Some a \<Rightarrow> map at_callback (oa_tasks a))"

text \<open>The messages among callbacks, and the sum of the amounts they report.\<close>

fun message_of :: "callback \<Rightarrow> DataBuffer list" where
  "message_of (OnMessage b) = [b]"
| "message_of _ = []"

fun amount_of :: "callback \<Rightarrow> nat" where
  "amount_of (OnBufferedAmountChange n) = unat n"
| "amount_of _ = 0"

definition messages :: "callback list \<Rightarrow> DataBuffer list" where
  "messages cbs = concat (map message_of cbs)"

definition amounts :: "callback list \<Rightarrow> nat" where
  "amounts cbs = sum_list (map amount_of cbs)"

lemma messages_simps [simp]:
  "messages [] = []" "messages (cb # cbs) = message_of cb @ messages cbs" "messages (xs @ ys) = messages xs @ messages ys"
  by (simp_all add: messages_def)

lemma amounts_simps [simp]:
  "amounts [] = 0" "amounts (cb # cbs) = amount_of cb + amounts cbs" "amounts (xs @ ys) = amounts xs + amounts ys"
  by (simp_all add: amounts_def)

abbreviation announced_messages :: "SctpDataChannel \<Rightarrow> DataBuffer list" where
  "announced_messages c \<equiv> messages (announced c)"

abbreviation reported :: "SctpDataChannel \<Rightarrow> nat" where
  "reported c \<equiv> amounts (announced c)"

lemmas ledger_defs = announced_def

text \<open>
  A measure is a function of the received queue, the expected amount and these two.  Most handlers
  leave every measure alone.
\<close>

locale channel_measure =
  fixes f :: "SctpDataChannel \<Rightarrow> 'b"
  assumes f_cong: "dc_queued_received_data c' = dc_queued_received_data c \<Longrightarrow>
    dc_expected_buffer_amount c' = dc_expected_buffer_amount c \<Longrightarrow>
    announced_messages c' = announced_messages c \<Longrightarrow> reported c' = reported c \<Longrightarrow> f c' = f c"
begin

lemma quiet_event: "announced_callback e = [] \<Longrightarrow> preserves f (note_event e)"
  unfolding preserves_def by (intro allI f_cong) (simp_all add: ledger_defs)

lemma quiet_tell: "preserves f (tell OnStateChange)"
  unfolding preserves_def by (intro allI f_cong) (simp_all add: ledger_defs run_tell)

lemma quiet_update:
  "(\<And>c. dc_queued_received_data (g c) = dc_queued_received_data c) \<Longrightarrow>
   (\<And>c. dc_expected_buffer_amount (g c) = dc_expected_buffer_amount c) \<Longrightarrow>
   (\<And>c. dc_log (g c) = dc_log c) \<Longrightarrow> preserves f (update g)"
  by (rule preserves_update) (rule f_cong; simp add: ledger_defs)

lemmas quiet_rules = preserves_ret preserves_fail preserves_look preserves_lift preserves_seq
  preserves_if preserves_onlyif preserves_option preserves_list preserves_the_sid
  quiet_event quiet_tell quiet_update

lemma quiet_SetState: "preserves f (SetState s)"
  unfolding SetState_def by (intro quiet_rules; simp)

lemma quiet_CloseAbruptly: "preserves f (CloseAbruptlyWithError e)"
  unfolding CloseAbruptlyWithError_def by (intro quiet_rules quiet_SetState; simp)

lemma quiet_SendControlMessage: "preserves f (SendControlMessage k bs)"
  unfolding SendControlMessage_def Let_def ctl_send_def
  by (intro quiet_rules quiet_CloseAbruptly; simp)

lemma quiet_send_handshake: "preserves f (send_handshake g k)"
  unfolding send_handshake_def by (intro quiet_rules quiet_SendControlMessage; simp)

lemma quiet_StartClosing: "preserves f StartClosing"
  unfolding StartClosing_def by (intro quiet_rules; simp)

lemma quiet_UpdateState_closing: "preserves f (UpdateState_closing k)"
  unfolding UpdateState_closing_def by (intro quiet_rules quiet_StartClosing quiet_SetState; simp)

lemma quiet_handlers:
  "preserves f UnregisterObserver" "preserves f (CreateProxy safety)" "preserves f (SendAsync b cb)"
  "preserves f run_signaling_task" "preserves f (SetSctpSid_n sid)"
  "preserves f OnClosingProcedureStartedRemotely" "preserves f OnClosingProcedureComplete"
  "preserves f OnTransportChannelCreated" "preserves f (OnTransportChannelClosed e)"
  "preserves f (CloseAbruptlyWithDataChannelFailure m)"
  unfolding UnregisterObserver_def CreateProxy_def SendAsync_def run_signaling_task_def SetSctpSid_n_def
    OnClosingProcedureStartedRemotely_def OnClosingProcedureComplete_def OnTransportChannelCreated_def
    OnTransportChannelClosed_def CloseAbruptlyWithDataChannelFailure_def
  by (intro quiet_rules quiet_SetState quiet_CloseAbruptly; simp)+

lemma quiet_control: "preserves f (OnDataReceived kControl bs)"
  unfolding OnDataReceived_def by (simp only: simp_thms if_True) (intro quiet_rules; simp)

end

text \<open>A measure that the reports of the buffered amount leave alone.\<close>

locale channel_measure_report = channel_measure +
  assumes quiet_report: "preserves f (MaybeSendOnBufferedAmountChanged k)"
begin

lemma quiet_SendDataMessage: "preserves f (SendDataMessage k b q)"
  unfolding SendDataMessage_def Let_def ctl_send_def
  by (intro quiet_rules quiet_report quiet_CloseAbruptly; simp)

lemma quiet_BufferedAmountLow: "preserves f (OnBufferedAmountLow k)"
  unfolding OnBufferedAmountLow_def by (intro quiet_rules quiet_report quiet_StartClosing; simp)

end

text \<open>A measure that handing a queued message to the observer leaves alone.\<close>

locale channel_measure_deliver = channel_measure +
  assumes quiet_deliver: "preserves f deliver_front"
begin

lemma quiet_deliver_loop: "preserves f (deliver_loop n)"
proof (induction n)
  case (Suc n)
  then show ?case unfolding deliver_loop.simps by (intro quiet_rules quiet_deliver)
qed (simp only: deliver_loop.simps preserves_ret)

lemma quiet_Deliver: "preserves f DeliverQueuedReceivedData"
  unfolding DeliverQueuedReceivedData_def by (intro quiet_rules quiet_deliver_loop)

lemma quiet_RegisterObserver: "preserves f (RegisterObserver obs net)"
  unfolding RegisterObserver_def by (intro quiet_rules quiet_Deliver; simp)

lemma quiet_UpdateState: "preserves f (UpdateState g k)"
  unfolding UpdateState_def
proof (rule preserves_look_then)
  fix c
  have "preserves f (UpdateState_connecting g k)"
    unfolding UpdateState_connecting_def
    by (intro quiet_rules quiet_send_handshake quiet_SetState quiet_Deliver)
  then show "f (fst ((case dc_state c of kConnecting \<Rightarrow> UpdateState_connecting g k | kOpen \<Rightarrow> ret ()
      | kClosing \<Rightarrow> UpdateState_closing k | kClosed \<Rightarrow> ret ()) c)) = f c"
    by (cases "dc_state c") (simp_all add: preservesD quiet_UpdateState_closing)
qed

lemma quiet_Close: "preserves f (dc_Close g k)"
  unfolding dc_Close_def by (intro quiet_rules quiet_SetState quiet_UpdateState)

end

section \<open>Messages arrive once and in order\<close>

text \<open>Everything given to the observer, followed by what still waits, is everything accepted.\<close>

definition accepted :: "SctpDataChannel \<Rightarrow> DataBuffer list" where
  "accepted c = announced_messages c @ pq_packets (dc_queued_received_data c)"

lemma MaybeSend_effect:
  "dc_queued_received_data (fst (MaybeSendOnBufferedAmountChanged k c)) = dc_queued_received_data c"
  "announced_messages (fst (MaybeSendOnBufferedAmountChanged k c)) = announced_messages c"
  "reported (fst (MaybeSendOnBufferedAmountChanged k c)) + unat (dc_expected_buffer_amount (fst (MaybeSendOnBufferedAmountChanged k c)))
   = reported c + unat (dc_expected_buffer_amount c)"
  by (auto simp: MaybeSendOnBufferedAmountChanged_def Let_def run_seq the_sid_def run_tell ledger_defs
      not_less unat_sub word_le_nat_alt split: option.split)

interpretation acc: channel_measure accepted
  by unfold_locales (simp add: accepted_def)

interpretation acc: channel_measure_report accepted
  by unfold_locales (simp add: preserves_def accepted_def MaybeSend_effect)

interpretation acc: channel_measure_deliver accepted
  by unfold_locales
    (auto simp: preserves_def deliver_front_def run_seq accepted_def pq_PopFront_def run_tell ledger_defs
      split: list.split)

text \<open>The three ways a data message goes: to the observer, over the limit, or to the queue.\<close>

definition too_much :: "SctpDataChannel \<Rightarrow> DataBuffer \<Rightarrow> bool" where
  "too_much c b \<longleftrightarrow> \<not> (dc_state c = kOpen \<and> dc_observer c \<noteq> None) \<and>
     pq_byte_count (dc_queued_received_data c) + db_size b > kMaxQueuedReceivedDataBytes"

text \<open>What a call brings in, and when the queue overflows instead.\<close>

definition arriving :: "dc_call \<Rightarrow> DataBuffer list" where
  "arriving call =
     (case call of
        C_OnDataReceived t bs \<Rightarrow> (if t = kControl then [] else [\<lparr>db_data = bs, db_binary = (t = kBinary)\<rparr>])
      | _ \<Rightarrow> [])"

definition overflows :: "SctpDataChannel \<Rightarrow> dc_call \<Rightarrow> bool" where
  "overflows c call \<longleftrightarrow> (\<exists>b \<in> set (arriving call). too_much c b)"

lemma quiet_SendImpl:
  "preserves accepted (SendImpl k b)" "preserves dc_queued_received_data (SendImpl k b)"
proof -
  have q: "channel_measure_report dc_queued_received_data"
    by unfold_locales (simp_all add: preserves_def MaybeSend_effect)
  note rules = act_rules channel_measure_report.quiet_SendDataMessage [OF q]
  show "preserves accepted (SendImpl k b)"
    unfolding SendImpl_def
    by (intro act_rules acc.quiet_SendDataMessage) (simp_all add: accepted_def ledger_defs)
  show "preserves dc_queued_received_data (SendImpl k b)"
    unfolding SendImpl_def by (intro rules) simp_all
qed

lemma receive_buffer_accepted:
  assumes "queue_ok c" "\<not> too_much c b"
  shows "accepted (fst (receive_buffer b c)) = accepted c @ [b]"
proof (cases "dc_state c = kOpen \<and> dc_observer c \<noteq> None")
  case True
  with assms have "pq_packets (dc_queued_received_data c) = []"
    by (simp add: queue_ok_def)
  with True show ?thesis
    by (simp add: receive_buffer_def accepted_def ledger_defs run_tell)
next
  case False
  with assms(2) have "receive_buffer b c =
      (c\<lparr>dc_queued_received_data := pq_PushBack b (dc_queued_received_data c)\<rparr>, Returns ())"
    unfolding too_much_def run_receive_buffer by argo
  then show ?thesis by (simp add: accepted_def ledger_defs pq_PushBack_def)
qed

lemma accepted_data:
  assumes "queue_ok c" "t \<noteq> kControl" "\<not> too_much c \<lparr>db_data = bs, db_binary = (t = kBinary)\<rparr>"
  shows "accepted (fst (OnDataReceived t bs c)) = accepted c @ [\<lparr>db_data = bs, db_binary = (t = kBinary)\<rparr>]"
proof -
  obtain h where "OnDataReceived t bs c =
      receive_buffer \<lparr>db_data = bs, db_binary = (t = kBinary)\<rparr> (c\<lparr>dc_handshake_state := h\<rparr>)"
  proof (cases "dc_handshake_state c = kHandshakeWaitingForAck")
    case True
    with assms(2) show thesis using that [of kHandshakeReady] by (simp add: OnDataReceived_def)
  next
    case False
    with assms(2) show thesis using that [of "dc_handshake_state c"] by (simp add: OnDataReceived_def)
  qed
  with assms(1,3) show ?thesis
    by (simp add: receive_buffer_accepted queue_ok_def too_much_def) (simp add: accepted_def ledger_defs)
qed

lemma network_task_preserves:
  assumes "\<And>c ts. f (c\<lparr>dc_network_tasks := ts\<rparr>) = f c" "\<And>b. preserves f (SendImpl k b)"
    "\<And>d e. preserves f (note_event (SendCompleted d e))"
  shows "preserves f (run_network_task k)"
  unfolding run_network_task_def by (intro act_rules preserves_list assms)

lemma accepted_network_task: "preserves accepted (run_network_task k)"
  by (intro network_task_preserves quiet_SendImpl acc.quiet_event) (simp_all add: accepted_def ledger_defs)

lemma accepted_others:
  "(\<And>t bs. call \<noteq> C_OnDataReceived t bs) \<Longrightarrow> preserves accepted (dc_handle k call)"
  by (cases call)
    (auto simp: OnTransportReady_def dc_Send_def intro!: acc.quiet_handlers acc.quiet_RegisterObserver
      acc.quiet_Close acc.quiet_UpdateState acc.quiet_BufferedAmountLow preserves_seq preserves_ret
      preserves_if quiet_SendImpl accepted_network_task)

lemma dc_handle_accepted:
  assumes "queue_ok c" "\<not> overflows c call"
  shows "accepted (fst (dc_handle k call c)) = accepted c @ arriving call"
proof (cases "\<exists>t bs. call = C_OnDataReceived t bs")
  case True
  then obtain t bs where call: "call = C_OnDataReceived t bs" by blast
  show ?thesis
  proof (cases "t = kControl")
    case True
    then show ?thesis using preservesD [OF acc.quiet_control] by (simp add: call arriving_def)
  next
    case False
    then show ?thesis using accepted_data [OF assms(1)] assms(2) by (simp add: call overflows_def arriving_def)
  qed
next
  case False
  then have "arriving call = []" by (auto simp: arriving_def split: dc_call.split)
  with False show ?thesis using preservesD [OF accepted_others, of call k c] by auto
qed

section \<open>The buffered amount\<close>

text \<open>
  What was announced, plus what is still expected.  \<open>expected_buffer_amount_\<close> is a \<open>size_t\<close>: it wraps around,
  and the account then falls short by a multiple of 2^64.
\<close>

definition wraps_to :: "nat \<Rightarrow> nat \<Rightarrow> bool" where
  "wraps_to m n \<longleftrightarrow> m \<le> n \<and> m mod 2 ^ 64 = n mod 2 ^ 64"

lemma wraps_to_refl [simp]: "wraps_to n n"
  by (simp add: wraps_to_def)

lemma wraps_to_add: "wraps_to m n \<Longrightarrow> wraps_to (m + a) (n + a)"
  by (auto simp: wraps_to_def intro: mod_add_cong)

lemma wraps_to_trans: "wraps_to l m \<Longrightarrow> wraps_to m n \<Longrightarrow> wraps_to l n"
  by (simp add: wraps_to_def)

lemma wraps_to_exact: "wraps_to m n \<Longrightarrow> n < 2 ^ 64 \<Longrightarrow> m = n"
  by (auto simp: wraps_to_def)

lemma wraps_to_word: "wraps_to (unat (w + word_of_nat n :: u64)) (unat w + n)"
  by (simp add: wraps_to_def unat_word_ariths unsigned_of_nat take_bit_eq_mod mod_simps)

definition account :: "SctpDataChannel \<Rightarrow> nat" where
  "account c = reported c + unat (dc_expected_buffer_amount c)"

interpretation amount: channel_measure account
  by unfold_locales (simp add: account_def)

interpretation amount: channel_measure_report account
  by unfold_locales (simp add: preserves_def account_def MaybeSend_effect)

interpretation amount: channel_measure_deliver account
  by unfold_locales
    (auto simp: preserves_def deliver_front_def run_seq account_def pq_PopFront_def run_tell ledger_defs
      split: list.split)

text \<open>What a call hands to \<open>SendImpl\<close>.\<close>

definition handed :: "dc_call \<Rightarrow> SctpDataChannel \<Rightarrow> nat" where
  "handed call c =
     (case call of
        C_Send b \<Rightarrow> db_size b
      | C_network_task \<Rightarrow>
          (case dc_network_tasks c of
             [] \<Rightarrow> 0
           | (b, f) # ts \<Rightarrow> (if dc_network_safety c then db_size b else 0))
      | _ \<Rightarrow> 0)"

lemma account_SendImpl: "wraps_to (account (fst (SendImpl k b c))) (account c + db_size b)"
proof -
  let ?c = "c\<lparr>dc_expected_buffer_amount := dc_expected_buffer_amount c + word_of_nat (db_size b)\<rparr>"
  have "wraps_to (account ?c) (account c + db_size b)"
    using wraps_to_add [OF wraps_to_word, of "dc_expected_buffer_amount c" "db_size b" "reported c"]
    by (simp add: account_def ledger_defs ac_simps)
  moreover have "account (fst (SendDataMessage k b True ?c)) = account ?c"
    by (rule preservesD [OF amount.quiet_SendDataMessage])
  moreover have "account (x\<lparr>dc_error := e\<rparr>) = account x" for x :: SctpDataChannel and e
    by (simp add: account_def ledger_defs)
  ultimately show ?thesis by (simp add: SendImpl_def)
qed

lemma account_network_task: "wraps_to (account (fst (run_network_task k c))) (account c + handed C_network_task c)"
proof (cases "dc_network_tasks c")
  case Nil
  then show ?thesis by (simp add: run_network_task_def handed_def)
next
  case (Cons t ts)
  obtain b f where t: "t = (b, f)" by fastforce
  let ?c = "c\<lparr>dc_network_tasks := ts\<rparr>"
  have same: "account ?c = account c" by (simp add: account_def ledger_defs)
  let ?done = "\<lambda>err. case f of None \<Rightarrow> ret () | Some f \<Rightarrow> note_event (SendCompleted f err)"
  have "preserves account (?done err)" for err
    by (intro act_rules amount.quiet_event) simp_all
  then have "account (fst (seq (SendImpl k b) ?done ?c)) = account (fst (SendImpl k b ?c))"
    by (auto simp: run_seq preserves_def split: prod.split outcome.split)
  with same account_SendImpl [of k b ?c] show ?thesis by (simp add: run_network_task_def handed_def Cons t)
qed

lemma account_data: "preserves account (OnDataReceived t bs)"
proof -
  have upd: "account (c\<lparr>dc_queued_received_data := q\<rparr>) = account c"
    "account (c\<lparr>dc_handshake_state := h\<rparr>) = account c"
    "account (c\<lparr>dc_messages_received := m, dc_bytes_received := n\<rparr>) = account c"
    for c :: SctpDataChannel and q h m n by (simp_all add: account_def ledger_defs)
  have "preserves account (tell (OnMessage b))" for b
    by (simp add: preserves_def run_tell account_def ledger_defs)
  then have "preserves account (receive_buffer b)" for b
    unfolding receive_buffer_def
    by (intro act_rules amount.quiet_CloseAbruptly) (simp_all add: upd)
  then show ?thesis
    unfolding OnDataReceived_def by (intro act_rules) (simp_all add: upd)
qed

lemma account_handle: "wraps_to (account (fst (dc_handle k call c))) (account c + handed call c)"
proof (cases call)
  case (C_Send b)
  then show ?thesis
    using account_SendImpl [of k b c]
    by (cases "SendImpl k b c") (auto simp: dc_Send_def handed_def run_seq split: outcome.split)
next
  case C_network_task
  then show ?thesis by (simp add: account_network_task)
qed (simp_all add: handed_def OnTransportReady_def preservesD amount.quiet_handlers amount.quiet_RegisterObserver
  amount.quiet_Close amount.quiet_UpdateState amount.quiet_BufferedAmountLow account_data)

section \<open>Runs\<close>

text \<open>A sequence of calls, each with what the controller answers during it.\<close>

fun dc_run :: "(controller \<times> dc_call) list \<Rightarrow> SctpDataChannel \<Rightarrow> SctpDataChannel" where
  "dc_run [] c = c"
| "dc_run ((k, call) # calls) c = dc_run calls (fst (dc_handle k call c))"

fun no_overflow :: "(controller \<times> dc_call) list \<Rightarrow> SctpDataChannel \<Rightarrow> bool" where
  "no_overflow [] c \<longleftrightarrow> True"
| "no_overflow ((k, call) # calls) c \<longleftrightarrow> \<not> overflows c call \<and> no_overflow calls (fst (dc_handle k call c))"

fun handed_in_run :: "(controller \<times> dc_call) list \<Rightarrow> SctpDataChannel \<Rightarrow> nat" where
  "handed_in_run [] c = 0"
| "handed_in_run ((k, call) # calls) c = handed call c + handed_in_run calls (fst (dc_handle k call c))"

lemma queue_ok_handle: "queue_ok c \<Longrightarrow> queue_ok (fst (dc_handle k call c))"
  by (rule dc_queue.step_inv [OF dc_stepI [OF refl]])

lemma queue_ok_run: "queue_ok c \<Longrightarrow> queue_ok (dc_run calls c)"
  by (induction calls c rule: dc_run.induct) (simp_all add: queue_ok_handle)

lemma accepted_run:
  "queue_ok c \<Longrightarrow> no_overflow calls c \<Longrightarrow>
   accepted (dc_run calls c) = accepted c @ concat (map (\<lambda>(k, call). arriving call) calls)"
  by (induction calls c rule: dc_run.induct) (simp_all add: queue_ok_handle dc_handle_accepted)

lemma account_run: "wraps_to (account (dc_run calls c)) (account c + handed_in_run calls c)"
proof (induction calls c rule: dc_run.induct)
  case (2 k call calls c)
  then show ?case
    using wraps_to_trans [OF "2.IH" wraps_to_add [OF account_handle]] by (simp add: ac_simps)
qed simp

section \<open>From the announcement to the observer\<close>

lemma keeps_list:
  "(x = [] \<Longrightarrow> keeps I m) \<Longrightarrow> (\<And>y ys. x = y # ys \<Longrightarrow> keeps I (f y ys)) \<Longrightarrow>
   keeps I (case x of [] \<Rightarrow> m | y # ys \<Rightarrow> f y ys)"
  by (cases x) simp_all

definition silent :: "dc_event \<Rightarrow> bool" where
  "silent e \<longleftrightarrow> announced_callback e = [] \<and> given_callback e = []"

lemma silent_events [simp]:
  "silent (ChannelStateChanged s)" "silent (Sent sid ps bs)" "silent (StreamRemoved sid)"
  "silent (LowThreshold sid n)" "silent (SendCompleted f r)"
  by (simp_all add: silent_def)

text \<open>The calls that change the observer or the adapter.\<close>

fun changes_observer :: "dc_call \<Rightarrow> bool" where
  "changes_observer (C_RegisterObserver obs net) = True"
| "changes_observer C_UnregisterObserver = True"
| "changes_observer (C_CreateProxy safety) = True"
| "changes_observer _ = False"

text \<open>
  A contract about what happens to callbacks: it holds of every call but those that change the observer
  as soon as announcing a callback and running a posted task keep it.
\<close>

locale callback_contract =
  fixes I :: "SctpDataChannel \<Rightarrow> bool"
  assumes I_tell: "keeps I (tell cb)"
    and I_task: "keeps I run_signaling_task"
    and I_silent: "silent e \<Longrightarrow> keeps I (note_event e)"
    and I_cong: "dc_observer c' = dc_observer c \<Longrightarrow> dc_adapter c' = dc_adapter c \<Longrightarrow> dc_log c' = dc_log c \<Longrightarrow>
      I c \<Longrightarrow> I c'"
begin

lemma I_update:
  "(\<And>c. dc_observer (g c) = dc_observer c) \<Longrightarrow> (\<And>c. dc_adapter (g c) = dc_adapter c) \<Longrightarrow>
   (\<And>c. dc_log (g c) = dc_log c) \<Longrightarrow> keeps I (update g)"
  by (rule keeps_update) (rule I_cong)

lemma I_the_sid: "keeps I the_sid"
  unfolding the_sid_def by (intro act_rules)

lemmas callback_rules = keeps_ret keeps_fail keeps_look keeps_lift keeps_seq keeps_if keeps_onlyif
  keeps_option keeps_prod keeps_list I_tell I_silent I_update I_the_sid

lemma I_SetState: "keeps I (SetState s)"
  unfolding SetState_def by (intro callback_rules; simp)

lemma I_CloseAbruptly: "keeps I (CloseAbruptlyWithError e)"
  unfolding CloseAbruptlyWithError_def by (intro callback_rules I_SetState; simp)

lemma I_report: "keeps I (MaybeSendOnBufferedAmountChanged k)"
  unfolding MaybeSendOnBufferedAmountChanged_def Let_def by (intro callback_rules; simp)

lemma I_SendDataMessage: "keeps I (SendDataMessage k b q)"
  unfolding SendDataMessage_def Let_def ctl_send_def
  by (intro callback_rules I_report I_CloseAbruptly; simp)

lemma I_SendImpl: "keeps I (SendImpl k b)"
  unfolding SendImpl_def by (intro callback_rules I_SendDataMessage; simp)

lemma I_StartClosing: "keeps I StartClosing"
  unfolding StartClosing_def by (intro callback_rules; simp)

lemma I_deliver_loop: "keeps I (deliver_loop n)"
proof (induction n)
  case (Suc n)
  have "keeps I deliver_front" unfolding deliver_front_def by (intro callback_rules; simp)
  with Suc show ?case unfolding deliver_loop.simps by (intro callback_rules)
qed (simp only: deliver_loop.simps keeps_ret)

lemma I_Deliver: "keeps I DeliverQueuedReceivedData"
  unfolding DeliverQueuedReceivedData_def by (intro callback_rules I_deliver_loop)

lemma I_send_handshake: "keeps I (send_handshake g k)"
  unfolding send_handshake_def SendControlMessage_def Let_def ctl_send_def
  by (intro callback_rules I_CloseAbruptly; simp)

lemma I_UpdateState: "keeps I (UpdateState g k)"
  unfolding UpdateState_def
proof (rule keeps_look_then)
  fix c assume "I c"
  moreover have "keeps I (UpdateState_connecting g k)" "keeps I (UpdateState_closing k)"
    unfolding UpdateState_connecting_def UpdateState_closing_def
    by (intro callback_rules I_send_handshake I_SetState I_Deliver I_StartClosing)+
  ultimately show "I (fst ((case dc_state c of kConnecting \<Rightarrow> UpdateState_connecting g k | kOpen \<Rightarrow> ret ()
      | kClosing \<Rightarrow> UpdateState_closing k | kClosed \<Rightarrow> ret ()) c))"
    by (cases "dc_state c") (simp_all add: keepsD)
qed

lemma I_receive: "keeps I (OnDataReceived t bs)"
  unfolding OnDataReceived_def receive_buffer_def by (intro callback_rules I_CloseAbruptly; simp)

lemma I_handlers:
  "keeps I (dc_Close g k)" "keeps I (dc_Send k b)" "keeps I (SendAsync b f)" "keeps I (run_network_task k)"
  "keeps I (SetSctpSid_n sid)" "keeps I OnClosingProcedureStartedRemotely" "keeps I OnClosingProcedureComplete"
  "keeps I OnTransportChannelCreated" "keeps I (OnTransportChannelClosed e)"
  "keeps I (CloseAbruptlyWithDataChannelFailure m)" "keeps I (OnBufferedAmountLow k)"
  unfolding dc_Close_def dc_Send_def SendAsync_def run_network_task_def SetSctpSid_n_def
    OnClosingProcedureStartedRemotely_def OnClosingProcedureComplete_def OnTransportChannelCreated_def
    OnTransportChannelClosed_def CloseAbruptlyWithDataChannelFailure_def OnBufferedAmountLow_def
  by (intro callback_rules I_SetState I_CloseAbruptly I_UpdateState I_SendImpl I_report I_StartClosing; simp)+

lemma I_others: "\<not> changes_observer call \<Longrightarrow> keeps I (dc_handle k call)"
  by (cases call) (auto simp: OnTransportReady_def intro: I_handlers I_task I_UpdateState I_receive keeps_seq keeps_ret)

end

lemmas callback_ledgers = announced_def posted_def delegated_def given_def pending_def silent_def

text \<open>
  In every history: what the delegates were given through the adapter, followed by what is still posted,
  is a part, in order, of what was posted.
\<close>

definition adapter_in_order :: "SctpDataChannel \<Rightarrow> bool" where
  "adapter_in_order c \<longleftrightarrow> subseq (delegated c @ pending c) (posted c)"

lemma adapter_in_order_task: "keeps adapter_in_order run_signaling_task"
proof (unfold keeps_def, intro allI impI)
  fix c assume c: "adapter_in_order c"
  show "adapter_in_order (fst (run_signaling_task c))"
  proof (cases "dc_adapter c")
    case (Some a)
    show ?thesis
    proof (cases "oa_tasks a")
      case (Cons t ts)
      let ?c = "fst (run_signaling_task c)"
      have run: "delegated ?c @ pending ?c = delegated c @ map at_callback (t # ts) \<or>
          delegated ?c @ pending ?c = delegated c @ map at_callback ts" and posted: "posted ?c = posted c"
        by (auto simp: run_signaling_task_def run_seq Some Cons callback_ledgers split: option.split)
      have all: "subseq (delegated c @ map at_callback (t # ts)) (posted c)"
        using c by (simp add: adapter_in_order_def pending_def Some Cons)
      have "subseq (delegated c @ map at_callback ts) (delegated c @ map at_callback (t # ts))"
        by (intro list_emb_append_mono) auto
      then have "subseq (delegated c @ map at_callback ts) (posted c)"
        using all by (rule subseq_order.trans)
      with all run show ?thesis by (auto simp: adapter_in_order_def posted)
    qed (use c in \<open>simp add: run_signaling_task_def run_seq Some\<close>)
  qed (use c in \<open>simp add: run_signaling_task_def run_seq\<close>)
qed

lemma adapter_in_order_tell: "keeps adapter_in_order (tell cb)"
proof (unfold keeps_def, intro allI impI)
  fix c assume c: "adapter_in_order c"
  have "subseq ((delegated c @ pending c) @ [cb]) (posted c @ [cb])"
    using c by (intro list_emb_append_mono) (auto simp: adapter_in_order_def)
  moreover have "subseq (delegated c @ pending c) (posted c @ [cb])"
    using c by (auto simp: adapter_in_order_def)
  ultimately show "adapter_in_order (fst (tell cb c))"
    using c by (cases "dc_adapter c") (auto simp: adapter_in_order_def run_tell callback_ledgers oa_post_def)
qed

interpretation ordered: callback_contract adapter_in_order
proof
  show "keeps adapter_in_order (tell cb)" for cb by (rule adapter_in_order_tell)
  show "keeps adapter_in_order run_signaling_task" by (rule adapter_in_order_task)
  show "silent e \<Longrightarrow> keeps adapter_in_order (note_event e)" for e
    by (cases e) (auto simp: keeps_def adapter_in_order_def callback_ledgers)
  show "adapter_in_order c'"
    if "dc_observer c' = dc_observer c" "dc_adapter c' = dc_adapter c" "dc_log c' = dc_log c" "adapter_in_order c"
    for c c' using that by (simp add: adapter_in_order_def callback_ledgers)
qed

lemma adapter_in_order_observer:
  "keeps adapter_in_order (RegisterObserver obs net)" "keeps adapter_in_order UnregisterObserver"
  "keeps adapter_in_order (CreateProxy safety)"
proof -
  have same: "adapter_in_order (c\<lparr>dc_observer := obs\<rparr>) = adapter_in_order c" for c :: SctpDataChannel and obs
    by (simp add: adapter_in_order_def callback_ledgers)
  have delegate: "adapter_in_order (c\<lparr>dc_adapter := Some (oa_SetDelegate d a)\<rparr>) = adapter_in_order c"
    if "dc_adapter c = Some a" for c a d
    using that by (simp add: adapter_in_order_def callback_ledgers oa_SetDelegate_def)
  show "keeps adapter_in_order (RegisterObserver obs net)"
    by (auto simp: keeps_def run_RegisterObserver split: option.split
        intro!: keepsD [OF ordered.I_Deliver] simp: same delegate)
  show "keeps adapter_in_order UnregisterObserver"
    unfolding keeps_def
  proof (intro allI impI)
    fix c assume "adapter_in_order c"
    then show "adapter_in_order (fst (UnregisterObserver c))"
      by (cases "dc_adapter c") (simp_all add: UnregisterObserver_def same delegate adapter_in_order_def callback_ledgers
          oa_SetDelegate_def)
  qed
  show "keeps adapter_in_order (CreateProxy safety)"
    unfolding keeps_def
  proof (intro allI impI)
    fix c assume "adapter_in_order c"
    moreover have "subseq (delegated c) (delegated c @ pending c)"
      by (rule prefix_imp_subseq) simp
    ultimately have "subseq (delegated c) (posted c)"
      unfolding adapter_in_order_def by (rule subseq_order.trans [rotated])
    then show "adapter_in_order (fst (CreateProxy safety c))"
      by (simp add: CreateProxy_def adapter_in_order_def callback_ledgers)
  qed
qed

lemma adapter_in_order_handle: "keeps adapter_in_order (dc_handle k call)"
proof (cases "changes_observer call")
  case True
  then show ?thesis by (cases call) (simp_all add: adapter_in_order_observer)
qed (rule ordered.I_others)

lemma adapter_in_order_run: "adapter_in_order c \<Longrightarrow> adapter_in_order (dc_run calls c)"
  by (induction calls c rule: dc_run.induct) (simp_all add: keepsD [OF adapter_in_order_handle])

text \<open>
  When the observer is changed only while no posted task is outstanding, and the proxy is made once,
  before the adapter is used, nothing is lost on the way: what was given, followed by what is still
  posted, is all that was announced.
\<close>

definition adapter_tasks :: "SctpDataChannel \<Rightarrow> adapter_task list" where
  "adapter_tasks c = (case dc_adapter c of None \<Rightarrow> [] | Some a \<Rightarrow> oa_tasks a)"

fun orderly :: "dc_call \<Rightarrow> SctpDataChannel \<Rightarrow> bool" where
  "orderly (C_RegisterObserver obs net) c \<longleftrightarrow> adapter_tasks c = []"
| "orderly C_UnregisterObserver c \<longleftrightarrow> adapter_tasks c = []"
| "orderly (C_CreateProxy safety) c \<longleftrightarrow> safety \<and> dc_adapter c = None"
| "orderly _ c \<longleftrightarrow> True"

fun orderly_run :: "(controller \<times> dc_call) list \<Rightarrow> SctpDataChannel \<Rightarrow> bool" where
  "orderly_run [] c \<longleftrightarrow> True"
| "orderly_run ((k, call) # calls) c \<longleftrightarrow> orderly call c \<and> orderly_run calls (fst (dc_handle k call c))"

text \<open>The delegate of every posted task is still there, and tasks exist only while the adapter is the observer.\<close>

definition adapter_live :: "SctpDataChannel \<Rightarrow> bool" where
  "adapter_live c \<longleftrightarrow>
     (case dc_adapter c of
        None \<Rightarrow> dc_observer c \<noteq> Some ViaAdapter
      | Some a \<Rightarrow> oa_signaling_safety a \<and> (\<forall>t \<in> set (oa_tasks a). at_flag t = oa_flag a) \<and>
          (if dc_observer c = Some ViaAdapter then oa_delegate a \<noteq> None else oa_tasks a = []))"

definition all_given :: "SctpDataChannel \<Rightarrow> bool" where
  "all_given c \<longleftrightarrow> adapter_live c \<and> given c @ pending c = announced c"

lemma all_given_task: "keeps all_given run_signaling_task"
proof (unfold keeps_def, intro allI impI)
  fix c assume c: "all_given c"
  show "all_given (fst (run_signaling_task c))"
  proof (cases "dc_adapter c")
    case (Some a)
    show ?thesis
    proof (cases "oa_tasks a")
      case (Cons t ts)
      with c Some obtain d where "oa_PrepareForCallback t a = Some d"
        by (auto simp: all_given_def adapter_live_def oa_PrepareForCallback_def split: if_splits)
      with c show ?thesis
        by (auto simp: run_signaling_task_def run_seq Some Cons all_given_def adapter_live_def callback_ledgers
            split: if_splits)
    qed (use c in \<open>simp add: run_signaling_task_def run_seq Some\<close>)
  qed (use c in \<open>simp add: run_signaling_task_def run_seq\<close>)
qed

interpretation complete: callback_contract all_given
proof
  show "keeps all_given (tell cb)" for cb
    by (auto simp: keeps_def run_tell all_given_def adapter_live_def callback_ledgers oa_post_def
        split: option.splits if_splits)
  show "keeps all_given run_signaling_task" by (rule all_given_task)
  show "silent e \<Longrightarrow> keeps all_given (note_event e)" for e
    by (auto simp: keeps_def all_given_def adapter_live_def callback_ledgers split: option.splits)
  show "all_given c'"
    if "dc_observer c' = dc_observer c" "dc_adapter c' = dc_adapter c" "dc_log c' = dc_log c" "all_given c" for c c'
    using that by (auto simp: all_given_def adapter_live_def callback_ledgers split: option.splits)
qed

lemma all_given_register:
  assumes "all_given c" "adapter_tasks c = []"
  shows "all_given (fst (RegisterObserver obs net c))"
proof (cases "net \<or> dc_adapter c \<noteq> None")
  case True
  obtain c' where "RegisterObserver obs net c = DeliverQueuedReceivedData c'" "all_given c'"
  proof (cases net)
    case True
    show thesis
      by (rule that [of "c\<lparr>dc_observer := Some (Direct obs)\<rparr>"])
        (use assms True in \<open>auto simp: run_RegisterObserver all_given_def adapter_live_def adapter_tasks_def
           callback_ledgers split: option.splits\<close>)
  next
    case False
    with True obtain a where a: "dc_adapter c = Some a" by auto
    show thesis
      by (rule that [of "c\<lparr>dc_adapter := Some (oa_SetDelegate (Some obs) a), dc_observer := Some ViaAdapter\<rparr>"])
        (use assms False a in \<open>auto simp: run_RegisterObserver all_given_def adapter_live_def adapter_tasks_def
           callback_ledgers oa_SetDelegate_def\<close>)
  qed
  then show ?thesis using keepsD [OF complete.I_Deliver] by simp
qed (use assms in \<open>simp add: run_RegisterObserver\<close>)

lemma all_given_handle:
  assumes "all_given c" "orderly call c"
  shows "all_given (fst (dc_handle k call c))"
proof (cases "changes_observer call")
  case True
  have "all_given (fst (UnregisterObserver c))" if "adapter_tasks c = []"
    using assms(1) that by (auto simp: UnregisterObserver_def all_given_def adapter_live_def adapter_tasks_def
        callback_ledgers oa_SetDelegate_def split: option.splits)
  moreover have "all_given (fst (CreateProxy True c))" if "dc_adapter c = None"
    using assms(1) that by (auto simp: CreateProxy_def all_given_def adapter_live_def callback_ledgers)
  ultimately show ?thesis
    using True assms by (cases call) (simp_all add: all_given_register)
next
  case False
  then show ?thesis using keepsD [OF complete.I_others assms(1)] by simp
qed

lemma all_given_run: "all_given c \<Longrightarrow> orderly_run calls c \<Longrightarrow> all_given (dc_run calls c)"
  by (induction calls c rule: dc_run.induct) (simp_all add: all_given_handle)

text \<open>
  Otherwise messages are lost: after \<open>UnregisterObserver\<close> the tasks that were posted before give nothing to
  anybody, however many of them run.
\<close>

fun signaling_tasks :: "nat \<Rightarrow> SctpDataChannel \<Rightarrow> SctpDataChannel" where
  "signaling_tasks 0 c = c"
| "signaling_tasks (Suc n) c = signaling_tasks n (fst (run_signaling_task c))"

definition without_delegate :: "SctpDataChannel \<Rightarrow> bool" where
  "without_delegate c \<longleftrightarrow> (\<forall>a. dc_adapter c = Some a \<longrightarrow> oa_delegate a = None)"

lemma signaling_tasks_no_delegate:
  "without_delegate c \<Longrightarrow> dc_log (signaling_tasks n c) = dc_log c"
proof (induction n arbitrary: c)
  case (Suc n)
  have "without_delegate (fst (run_signaling_task c))" "dc_log (fst (run_signaling_task c)) = dc_log c"
    using Suc.prems
    by (auto simp: run_signaling_task_def run_seq oa_PrepareForCallback_def without_delegate_def
        split: option.splits list.splits)
  with Suc.IH show ?case by simp
qed simp

lemma unregister_loses_pending:
  "given (signaling_tasks n (fst (UnregisterObserver c))) = given c"
proof -
  have "without_delegate (fst (UnregisterObserver c))"
    by (auto simp: UnregisterObserver_def oa_SetDelegate_def without_delegate_def)
  then show ?thesis
    by (simp add: given_def signaling_tasks_no_delegate) (simp add: UnregisterObserver_def)
qed

end
