(* ===== verification/Channel_Life.thy ===== *)
theory Channel_Life
  imports Data_Channel
begin

text \<open>
  The ends of a data channel's life (\<open>pc/sctp_data_channel.cc\<close>): what \<open>Send\<close> answers and does to the
  channel, how \<open>Close\<close> ends in \<open>kClosed\<close> once the transport has drained, and that the stream is
  given back to the transport at most once.
\<close>

section \<open>Sending\<close>

text \<open>What the transport answers to the message.\<close>

definition send_answer :: "controller \<Rightarrow> SctpDataChannel \<Rightarrow> DataBuffer \<Rightarrow> nat \<Rightarrow> RTCError" where
  "send_answer k c b sid = ctl_SendData k sid (data_params c b) (db_data b)"

definition can_send :: "SctpDataChannel \<Rightarrow> bool" where
  "can_send c \<longleftrightarrow> dc_state c = kOpen \<and> dc_controller c \<and> dc_id_n c \<noteq> None"

lemma MaybeSend_frame:
  obtains c' where "MaybeSendOnBufferedAmountChanged k c = (c', Returns ())" "dc_state c' = dc_state c"
    "dc_error c' = dc_error c" "dc_messages_sent c' = dc_messages_sent c" "dc_bytes_sent c' = dc_bytes_sent c"
    "set (dc_log c) \<subseteq> set (dc_log c')" "dc_controller c' = dc_controller c" "dc_id_n c' = dc_id_n c"
    "dc_network_safety c' = dc_network_safety c"
    "dc_started_closing_procedure c' = dc_started_closing_procedure c"
proof (cases "dc_id_n c")
  case None
  then show thesis by (intro that [of c]) (simp_all add: MaybeSendOnBufferedAmountChanged_def)
next
  case (Some sid)
  have "\<exists>c'. MaybeSendOnBufferedAmountChanged k c = (c', Returns ()) \<and> dc_state c' = dc_state c \<and>
    dc_error c' = dc_error c \<and> dc_messages_sent c' = dc_messages_sent c \<and> dc_bytes_sent c' = dc_bytes_sent c \<and>
    set (dc_log c) \<subseteq> set (dc_log c') \<and> dc_controller c' = dc_controller c \<and> dc_id_n c' = dc_id_n c \<and>
    dc_network_safety c' = dc_network_safety c \<and>
    dc_started_closing_procedure c' = dc_started_closing_procedure c"
    by (simp add: MaybeSendOnBufferedAmountChanged_def Let_def run_the_sid [OF Some] run_tell) auto
  then show thesis using that by blast
qed

lemma CloseAbruptly_effect:
  assumes "dc_state c \<noteq> kClosed"
  obtains c' where "CloseAbruptlyWithError e c = (c', Returns ())" "dc_state c' = kClosed" "dc_error c' = e"
    "set (dc_log c) \<subseteq> set (dc_log c')" "\<not> dc_network_safety c'"
proof -
  have log: "set (dc_log x) \<subseteq> set (dc_log (fst (SetState s x)))"
    and err: "dc_error (fst (SetState s x)) = dc_error x"
    and net: "dc_network_safety (fst (SetState s x)) = dc_network_safety x" for s x
    by (cases "dc_state x = s"; cases "dc_observer x"; cases "dc_controller x";
        auto simp: SetState_def run_tell)+
  let ?c1 = "fst (SetState kClosing (c\<lparr>dc_network_safety := False\<rparr>))"
  let ?c2 = "fst (SetState kClosed (?c1\<lparr>dc_error := e\<rparr>))"
  have "CloseAbruptlyWithError e c = (?c2, Returns ())"
    using assms by (simp add: CloseAbruptlyWithError_def seq_SetState prod_eq_iff)
  then show thesis
    by (rule that)
      (use log [of "c\<lparr>dc_network_safety := False\<rparr>" kClosing] log [of "?c1\<lparr>dc_error := e\<rparr>" kClosed]
        in \<open>auto simp: err net\<close>)
qed

text \<open>\<open>Send\<close> on a channel that can send: the buffer goes to the transport, and the transport's refusal,
  whatever its type, closes the channel while the caller is told the message was sent.\<close>

lemma SendImpl_refused:
  "\<not> can_send c \<Longrightarrow> \<exists>c'. SendImpl k b c = (c', Returns (RTCError_of INVALID_STATE [])) \<and>
     dc_log c' = dc_log c \<and> dc_state c' = dc_state c"
  by (auto simp: SendImpl_def SendDataMessage_def can_send_def)

lemma SendImpl_sends:
  assumes "can_send c" "dc_id_n c = Some sid"
  obtains c' where "Sent sid (data_params c b) (db_data b) \<in> set (dc_log c')"
    "RTCError_ok (send_answer k c b sid) \<longrightarrow>
       SendImpl k b c = (c', Returns (send_answer k c b sid)) \<and> dc_state c' = kOpen \<and>
       dc_messages_sent c' = dc_messages_sent c + 1 \<and>
       dc_bytes_sent c' = dc_bytes_sent c + word_of_nat (db_size b)"
    "\<not> RTCError_ok (send_answer k c b sid) \<longrightarrow>
       SendImpl k b c = (c', Returns (RTCError_of NETWORK_ERROR ''Failure to send data'')) \<and> dc_state c' = kClosed"
proof -
  let ?ps = "data_params c b" and ?err = "send_answer k c b sid"
  let ?c1 = "c\<lparr>dc_expected_buffer_amount := dc_expected_buffer_amount c + word_of_nat (db_size b),
              dc_log := dc_log c @ [Sent sid ?ps (db_data b)], dc_error := ?err\<rparr>"
  obtain c2 where c2: "MaybeSendOnBufferedAmountChanged k ?c1 = (c2, Returns ())" "dc_state c2 = dc_state ?c1"
    "dc_error c2 = dc_error ?c1" "dc_messages_sent c2 = dc_messages_sent ?c1" "dc_bytes_sent c2 = dc_bytes_sent ?c1"
    "set (dc_log ?c1) \<subseteq> set (dc_log c2)"
    by (rule MaybeSend_frame)
  have open_state: "dc_state c = kOpen" "dc_controller c" using assms(1) by (simp_all add: can_send_def)
  have ps: "data_params (c\<lparr>dc_expected_buffer_amount := n\<rparr>) b = ?ps" for n
    by (simp add: data_params_def)
  have run: "SendImpl k b c =
      (if RTCError_ok ?err
       then (c2\<lparr>dc_messages_sent := dc_messages_sent c2 + 1,
               dc_bytes_sent := dc_bytes_sent c2 + word_of_nat (db_size b)\<rparr>, Returns ?err)
       else seq (CloseAbruptlyWithError (RTCError_of NETWORK_ERROR ''Failure to send data'')) (\<lambda>_. look dc_error) c2)"
    using c2 open_state assms(2)
    by (simp add: SendImpl_def SendDataMessage_def Let_def run_the_sid ctl_send_def ps send_answer_def)
  show thesis
  proof (cases "RTCError_ok ?err")
    case True
    then show thesis
      by (intro that [of "c2\<lparr>dc_messages_sent := dc_messages_sent c2 + 1,
            dc_bytes_sent := dc_bytes_sent c2 + word_of_nat (db_size b)\<rparr>"])
        (use c2 run open_state in simp_all)
  next
    case False
    have "dc_state c2 \<noteq> kClosed" using c2(2) open_state by simp
    then obtain c3 where c3: "CloseAbruptlyWithError (RTCError_of NETWORK_ERROR ''Failure to send data'') c2 = (c3, Returns ())"
      "dc_state c3 = kClosed" "dc_error c3 = RTCError_of NETWORK_ERROR ''Failure to send data''"
      "set (dc_log c2) \<subseteq> set (dc_log c3)"
      by (rule CloseAbruptly_effect)
    with False show thesis by (intro that [of c3]) (use c2(6) run in auto)
  qed
qed

lemma Send_answers: "snd (dc_Send k b c) = Returns (can_send c)"
proof (cases "can_send c")
  case True
  then obtain sid where sid: "dc_id_n c = Some sid" by (auto simp: can_send_def)
  obtain c' where "RTCError_ok (send_answer k c b sid) \<longrightarrow>
      SendImpl k b c = (c', Returns (send_answer k c b sid))"
    "\<not> RTCError_ok (send_answer k c b sid) \<longrightarrow>
      SendImpl k b c = (c', Returns (RTCError_of NETWORK_ERROR ''Failure to send data''))"
    by (rule SendImpl_sends [OF True sid, of b k]) blast
  with True show ?thesis
    by (cases "RTCError_ok (send_answer k c b sid)")
      (auto simp: dc_Send_def RTCError_ok_def, simp_all add: RTCError_of_def)
next
  case False
  with SendImpl_refused [OF this, of k b] show ?thesis
    by (auto simp: dc_Send_def RTCError_of_def)
qed

section \<open>Closing\<close>

text \<open>How often the stream was given back to the transport.\<close>

definition removals :: "SctpDataChannel \<Rightarrow> nat" where
  "removals c = length (filter (\<lambda>e. case e of StreamRemoved _ \<Rightarrow> True | _ \<Rightarrow> False) (dc_log c))"

definition closing_state :: "SctpDataChannel \<Rightarrow> nat \<times> bool" where
  "closing_state c = (removals c, dc_started_closing_procedure c)"

lemma closing_update:
  "(\<And>c. dc_log (f c) = dc_log c) \<Longrightarrow> (\<And>c. dc_started_closing_procedure (f c) = dc_started_closing_procedure c) \<Longrightarrow>
   preserves closing_state (update f)"
  by (rule preserves_update) (simp add: closing_state_def removals_def)

lemma closing_note: "(\<And>sid. e \<noteq> StreamRemoved sid) \<Longrightarrow> preserves closing_state (note_event e)"
  by (auto simp: preserves_def closing_state_def removals_def split: dc_event.split)

lemma closing_tell: "preserves closing_state (tell cb)"
  by (simp add: preserves_def closing_state_def removals_def run_tell)

lemmas closing_rules = preserves_ret preserves_fail preserves_look preserves_lift preserves_seq
  preserves_if preserves_onlyif preserves_option preserves_prod preserves_list preserves_the_sid
  closing_note closing_tell closing_update

lemma closing_SetState: "preserves closing_state (SetState s)"
  unfolding SetState_def by (intro closing_rules; simp)

lemma closing_CloseAbruptly: "preserves closing_state (CloseAbruptlyWithError e)"
  unfolding CloseAbruptlyWithError_def by (intro closing_rules closing_SetState; simp)

lemma closing_Deliver: "preserves closing_state DeliverQueuedReceivedData"
proof -
  have "preserves closing_state (deliver_loop n)" for n
  proof (induction n)
    case (Suc n)
    then show ?case unfolding deliver_loop.simps deliver_front_def by (intro closing_rules; simp)
  qed (simp only: deliver_loop.simps preserves_ret)
  then show ?thesis unfolding DeliverQueuedReceivedData_def by (intro closing_rules)
qed

lemma closing_report: "preserves closing_state (MaybeSendOnBufferedAmountChanged k)"
  unfolding MaybeSendOnBufferedAmountChanged_def Let_def by (intro closing_rules; simp)

lemma closing_SendImpl: "preserves closing_state (SendImpl k b)"
  unfolding SendImpl_def SendDataMessage_def Let_def ctl_send_def
  by (intro closing_rules closing_report closing_CloseAbruptly; simp)

lemma closing_handshake: "preserves closing_state (UpdateState_connecting g k)"
  unfolding UpdateState_connecting_def send_handshake_def SendControlMessage_def Let_def ctl_send_def
  by (intro closing_rules closing_CloseAbruptly closing_SetState closing_Deliver; simp)

lemma closing_others:
  "preserves closing_state (RegisterObserver obs net)" "preserves closing_state UnregisterObserver"
  "preserves closing_state (CreateProxy safety)" "preserves closing_state (SendAsync b f)"
  "preserves closing_state (run_network_task k)" "preserves closing_state run_signaling_task"
  "preserves closing_state (SetSctpSid_n sid)" "preserves closing_state OnClosingProcedureComplete"
  "preserves closing_state OnTransportChannelCreated" "preserves closing_state (OnTransportChannelClosed e)"
  "preserves closing_state (CloseAbruptlyWithDataChannelFailure m)"
  "preserves closing_state (OnDataReceived t bs)"
  unfolding RegisterObserver_def UnregisterObserver_def CreateProxy_def SendAsync_def run_network_task_def
    run_signaling_task_def SetSctpSid_n_def OnClosingProcedureComplete_def OnTransportChannelCreated_def
    OnTransportChannelClosed_def CloseAbruptlyWithDataChannelFailure_def OnDataReceived_def receive_buffer_def
  by (intro closing_rules closing_Deliver closing_SendImpl closing_SetState closing_CloseAbruptly; simp)+

text \<open>The stream is removed at most once, and never before the closing procedure has started.\<close>

definition closed_once :: "SctpDataChannel \<Rightarrow> bool" where
  "closed_once c \<longleftrightarrow> removals c \<le> of_bool (dc_started_closing_procedure c)"

lemma keeps_closed_once: "preserves closing_state m \<Longrightarrow> keeps closed_once m"
  by (simp add: keeps_def preserves_def closing_state_def closed_once_def)

lemma StartClosing_once:
  "closed_once c \<Longrightarrow> \<not> dc_started_closing_procedure c \<Longrightarrow> closed_once (fst (StartClosing c))"
  by (simp add: StartClosing_def closed_once_def removals_def the_sid_def run_seq split: option.split)

lemma UpdateState_once: "keeps closed_once (UpdateState g k)"
  unfolding UpdateState_def
proof (rule keeps_look_then)
  fix c assume ok: "closed_once c"
  have "closed_once (fst (UpdateState_closing k c))"
    using ok StartClosing_once [OF ok] keepsD [OF keeps_closed_once [OF closing_SetState]]
    by (simp add: UpdateState_closing_def)
  then show "closed_once (fst ((case dc_state c of kConnecting \<Rightarrow> UpdateState_connecting g k | kOpen \<Rightarrow> ret ()
      | kClosing \<Rightarrow> UpdateState_closing k | kClosed \<Rightarrow> ret ()) c))"
    using ok keepsD [OF keeps_closed_once [OF closing_handshake]] by (cases "dc_state c") simp_all
qed

lemma BufferedAmountLow_once: "keeps closed_once (OnBufferedAmountLow k)"
  unfolding OnBufferedAmountLow_def
  by (intro keeps_seq keeps_closed_once [OF closing_report] keeps_look_then)
    (simp add: StartClosing_once)

lemma closed_once_handle: "keeps closed_once (dc_handle k call)"
proof (cases call)
  case C_OnClosingProcedureStartedRemotely
  have "keeps closed_once (update (\<lambda>c. c\<lparr>dc_started_closing_procedure := True\<rparr>))"
    by (auto simp: keeps_def closed_once_def removals_def split: if_splits)
  with C_OnClosingProcedureStartedRemotely show ?thesis
    by (simp add: OnClosingProcedureStartedRemotely_def keeps_look keeps_seq keeps_onlyif keeps_closed_once closing_SetState)
qed (simp_all add: dc_Close_def dc_Send_def OnTransportReady_def keeps_closed_once closing_others UpdateState_once
  BufferedAmountLow_once keeps_seq keeps_look keeps_ret closing_SetState closing_SendImpl)

interpretation once: step_invariant dc_step closed_once
  using keepsD [OF closed_once_handle] by unfold_locales (auto elim!: dc_step.cases)

text \<open>
  Closing ends.  A connected channel that still has data to send waits in \<open>kClosing\<close> without giving
  the stream back; the notice that the transport has drained gives it back; the notice that the
  stream is closed makes the channel \<open>kClosed\<close>.  An unconnected channel is closed at once.
\<close>

definition connected :: "SctpDataChannel \<Rightarrow> bool" where
  "connected c \<longleftrightarrow> dc_network_safety c \<and> dc_controller c \<and> dc_id_n c \<noteq> None"

lemma StartClosing_run:
  assumes "dc_controller c" "dc_id_n c = Some sid"
  shows "StartClosing c = (c\<lparr>dc_started_closing_procedure := True, dc_log := dc_log c @ [StreamRemoved sid]\<rparr>, Returns ())"
  using assms by (simp add: StartClosing_def run_the_sid)

lemma SetState_frame:
  "dc_controller (fst (SetState s c)) = dc_controller c" "dc_id_n (fst (SetState s c)) = dc_id_n c"
  "dc_network_safety (fst (SetState s c)) = dc_network_safety c"
  by (rule preservesD, rule SetState_preserves; simp)+

lemma SetState_closing:
  "dc_started_closing_procedure (fst (SetState s c)) = dc_started_closing_procedure c"
  "removals (fst (SetState s c)) = removals c"
  using preservesD [OF closing_SetState, of s c] by (simp_all add: closing_state_def)

lemmas SetState_keeps = SetState_frame SetState_closing

definition closing_or_closed :: "SctpDataChannel \<Rightarrow> bool" where
  "closing_or_closed c \<longleftrightarrow> dc_state c = kClosing \<or> dc_state c = kClosed"

lemma run_Close:
  assumes "\<not> closing_or_closed c"
  shows "dc_Close g k c = UpdateState_closing k (fst (SetState kClosing c))"
  using assms by (simp add: dc_Close_def closing_or_closed_def seq_SetState UpdateState_def)

lemma Close_unconnected:
  assumes "\<not> closing_or_closed c" "\<not> connected c"
  shows "dc_state (fst (dc_Close g k c)) = kClosed" "removals (fst (dc_Close g k c)) = removals c"
  using assms by (auto simp: run_Close UpdateState_closing_def connected_def SetState_keeps)

lemma Close_connected:
  assumes "\<not> closing_or_closed c" "connected c" "dc_id_n c = Some sid" "\<not> dc_started_closing_procedure c"
  obtains c' where "dc_Close g k c = (c', Returns ())" "dc_state c' = kClosing" "dc_controller c'"
    "dc_id_n c' = Some sid"
    "dc_started_closing_procedure c' \<longleftrightarrow> ctl_buffered_amount k sid = 0"
    "removals c' = removals c + of_bool (ctl_buffered_amount k sid = 0)"
proof -
  let ?c = "fst (SetState kClosing c)"
  let ?e = "?c\<lparr>dc_started_closing_procedure := True, dc_log := dc_log ?c @ [StreamRemoved sid]\<rparr>"
  have c: "dc_network_safety c" "dc_controller c" using assms(2) by (simp_all add: connected_def)
  have run: "dc_Close g k c = (if ctl_buffered_amount k sid = 0 then (?e, Returns ()) else (?c, Returns ()))"
    using assms(3,4) c
    by (simp add: run_Close [OF assms(1)] UpdateState_closing_def SetState_keeps dc_buffered_amount_def
        StartClosing_run [of ?c sid])
  have "removals ?e = Suc (removals ?c)" by (simp add: removals_def)
  with c assms(3,4) run show thesis
    by (intro that [of "fst (dc_Close g k c)"]) (auto simp: SetState_keeps)
qed

lemma BufferedAmountLow_drained:
  assumes "dc_state c = kClosing" "dc_controller c" "dc_id_n c = Some sid" "ctl_buffered_amount k sid = 0"
  shows "snd (OnBufferedAmountLow k c) = Returns ()"
    "dc_state (fst (OnBufferedAmountLow k c)) = kClosing"
    "removals (fst (OnBufferedAmountLow k c)) = removals c + of_bool (\<not> dc_started_closing_procedure c)"
proof -
  obtain c1 where c1: "MaybeSendOnBufferedAmountChanged k c = (c1, Returns ())" "dc_state c1 = dc_state c"
    "dc_controller c1 = dc_controller c" "dc_id_n c1 = dc_id_n c"
    "dc_started_closing_procedure c1 = dc_started_closing_procedure c"
    by (rule MaybeSend_frame)
  have same: "removals c1 = removals c"
    using preserves_run [OF closing_report c1(1)] by (simp add: closing_state_def)
  let ?c2 = "c1\<lparr>dc_started_closing_procedure := True, dc_log := dc_log c1 @ [StreamRemoved sid]\<rparr>"
  have run: "OnBufferedAmountLow k c =
      (if dc_started_closing_procedure c then (c1, Returns ()) else (?c2, Returns ()))"
    using assms c1 by (simp add: OnBufferedAmountLow_def dc_buffered_amount_def StartClosing_run [of c1 sid])
  have "removals ?c2 = Suc (removals c1)" by (simp add: removals_def)
  with run same c1 assms show "snd (OnBufferedAmountLow k c) = Returns ()"
    "dc_state (fst (OnBufferedAmountLow k c)) = kClosing"
    "removals (fst (OnBufferedAmountLow k c)) = removals c + of_bool (\<not> dc_started_closing_procedure c)"
    by simp_all
qed

text \<open>\<open>Close\<close>, then the notice of a drained transport, then the notice of the closed stream.\<close>

definition close_run :: "garbage \<Rightarrow> controller \<Rightarrow> controller \<Rightarrow> SctpDataChannel \<Rightarrow> SctpDataChannel" where
  "close_run g k k' c =
     fst (OnClosingProcedureComplete (fst (OnBufferedAmountLow k' (fst (dc_Close g k c)))))"

lemma Close_finishes:
  assumes "\<not> closing_or_closed c" "connected c" "dc_id_n c = Some sid" "\<not> dc_started_closing_procedure c"
    and drained: "ctl_buffered_amount k' sid = 0"
  shows "dc_state (fst (dc_Close g k c)) = kClosing" "dc_state (close_run g k k' c) = kClosed"
    "removals (close_run g k k' c) = removals c + 1"
proof -
  obtain c' where c': "dc_Close g k c = (c', Returns ())" "dc_state c' = kClosing" "dc_controller c'"
    "dc_id_n c' = Some sid"
    "dc_started_closing_procedure c' \<longleftrightarrow> ctl_buffered_amount k sid = 0"
    "removals c' = removals c + of_bool (ctl_buffered_amount k sid = 0)"
    using assms(1-4) by (rule Close_connected)
  show "dc_state (fst (dc_Close g k c)) = kClosing" using c' by simp
  show "dc_state (close_run g k k' c) = kClosed"
    by (simp add: close_run_def OnClosingProcedureComplete_def)
  show "removals (close_run g k k' c) = removals c + 1"
    using BufferedAmountLow_drained(3) [OF c'(2-4) drained] c'
    by (simp add: close_run_def OnClosingProcedureComplete_def SetState_keeps)
qed

end
