(* ===== verification/Channel_Controller.thy ===== *)
theory Channel_Controller
  imports Channel_Life
begin

text \<open>
  \<open>DataChannelController\<close> (\<open>pc/data_channel_controller.cc\<close>): the peer connection's list of data
  channels, the pool of stream ids and the transport under them.  Channels are objects in a store,
  named by numbers; the list, the tasks and the application hold references.  What the transport
  answers during a call (\<open>transport_answers\<close>) and the role the peer connection reports are arguments.
\<close>

section \<open>State\<close>

datatype DataChannelUsage = kNeverUsed | kHaveBeenUsed | kInUse

datatype signaling_task = StateTask int DataState DataChannelUsage | OpenTask nat bool

text \<open>What the controller does to its transport and to the peer connection.\<close>

datatype ctl_event =
    OpenChannel nat u16
  | CloseChannel nat
  | TransportSend nat SendDataParams bytes
  | SetThreshold nat u64
  | SetDataSink nat bool
  | PcStateChanged int DataState
  | PcOnDataChannel nat
  | NoteDataAddedEvent
  | UpdateNegotiationNeeded

record DataChannelController =
  dcc_heap :: "nat \<Rightarrow> SctpDataChannel option"
  dcc_next :: nat
  dcc_transport :: "nat option"
  dcc_sids :: "nat set"
  dcc_channels :: "nat list"
  dcc_usage :: DataChannelUsage
  dcc_signaling_safety :: bool
  dcc_signaling_tasks :: "signaling_task list"
  dcc_network_tasks :: "nat list"
  dcc_events :: "ctl_event list"

type_synonym 'a dcc_act = "(DataChannelController, 'a) act"

record transport_answers =
  tr_IsReadyToSend :: bool
  tr_SendData :: "nat \<Rightarrow> SendDataParams \<Rightarrow> bytes \<Rightarrow> RTCError"
  tr_buffered_amount :: "nat \<Rightarrow> u64"

definition dcc_create :: DataChannelController where
  "dcc_create =
     \<lparr>dcc_heap = Map.empty, dcc_next = 0, dcc_transport = None, dcc_sids = {}, dcc_channels = [],
      dcc_usage = kNeverUsed, dcc_signaling_safety = True, dcc_signaling_tasks = [],
      dcc_network_tasks = [], dcc_events = []\<rparr>"

definition HasDataChannels :: "DataChannelController \<Rightarrow> bool" where
  "HasDataChannels s \<longleftrightarrow> dcc_usage s = kInUse"

definition HasUsedDataChannels :: "DataChannelController \<Rightarrow> bool" where
  "HasUsedDataChannels s \<longleftrightarrow> dcc_usage s \<noteq> kNeverUsed"

definition ctl_note :: "ctl_event \<Rightarrow> unit dcc_act" where
  "ctl_note e = update (\<lambda>s. s\<lparr>dcc_events := dcc_events s @ [e]\<rparr>)"

definition sid_n :: "nat \<Rightarrow> DataChannelController \<Rightarrow> nat option" where
  "sid_n r s = (case dcc_heap s r of None \<Rightarrow> None | Some c \<Rightarrow> dc_id_n c)"

section \<open>The controller seen by a channel\<close>

text \<open>\<open>SendData\<close> and \<open>buffered_amount\<close> pass the question to the transport, if there is one.\<close>

definition channel_controller :: "transport_answers \<Rightarrow> DataChannelController \<Rightarrow> controller" where
  "channel_controller tr s =
     \<lparr>ctl_SendData = (\<lambda>sid params payload.
        if dcc_transport s = None then RTCError_of INVALID_STATE [] else tr_SendData tr sid params payload),
      ctl_buffered_amount = (\<lambda>sid. if dcc_transport s = None then 0 else tr_buffered_amount tr sid)\<rparr>"

definition to_transport :: "ctl_event \<Rightarrow> unit dcc_act" where
  "to_transport e = seq (look dcc_transport) (\<lambda>t. onlyif (t \<noteq> None) (ctl_note e))"

definition AddSctpDataStream :: "nat \<Rightarrow> u16 \<Rightarrow> unit dcc_act" where
  "AddSctpDataStream sid priority = to_transport (OpenChannel sid priority)"

definition RemoveSctpDataStream :: "nat \<Rightarrow> unit dcc_act" where
  "RemoveSctpDataStream sid = to_transport (CloseChannel sid)"

definition SetBufferedAmountLowThreshold :: "nat \<Rightarrow> u64 \<Rightarrow> unit dcc_act" where
  "SetBufferedAmountLowThreshold sid amount = to_transport (SetThreshold sid amount)"

definition OnSctpDataChannelClosed :: "nat \<Rightarrow> unit dcc_act" where
  "OnSctpDataChannelClosed r =
     seq (look (sid_n r)) (\<lambda>sid.
     seq (case sid of
            None \<Rightarrow> ret ()
          | Some sid \<Rightarrow> update (\<lambda>s. s\<lparr>dcc_sids := ReleaseSid sid (dcc_sids s)\<rparr>)) (\<lambda>_.
     update (\<lambda>s. s\<lparr>dcc_channels := remove1 r (dcc_channels s)\<rparr>)))"

definition OnChannelStateChanged :: "nat \<Rightarrow> DataState \<Rightarrow> unit dcc_act" where
  "OnChannelStateChanged r state =
     seq (look (\<lambda>s. dcc_heap s r)) (\<lambda>channel.
     case channel of
       None \<Rightarrow> fail BadAccess
     | Some channel \<Rightarrow>
         let channel_id = dc_internal_id channel
         in seq (onlyif (state = kClosed) (OnSctpDataChannelClosed r)) (\<lambda>_.
            update (\<lambda>s. s\<lparr>dcc_signaling_tasks := dcc_signaling_tasks s @
              [StateTask channel_id state (if dcc_channels s = [] then kHaveBeenUsed else kInUse)]\<rparr>)))"

text \<open>
  A call of a channel: its handler runs against the controller's answers, and what it does to the
  controller on the way happens in the order of its log.
\<close>

definition controller_hears :: "nat \<Rightarrow> dc_event \<Rightarrow> unit dcc_act" where
  "controller_hears r e =
     (case e of
        ChannelStateChanged state \<Rightarrow> OnChannelStateChanged r state
      | Sent sid params payload \<Rightarrow> to_transport (TransportSend sid params payload)
      | StreamRemoved sid \<Rightarrow> RemoveSctpDataStream sid
      | LowThreshold sid amount \<Rightarrow> SetBufferedAmountLowThreshold sid amount
      | _ \<Rightarrow> ret ())"

definition call_channel :: "transport_answers \<Rightarrow> nat \<Rightarrow> (controller \<Rightarrow> 'a dc_act) \<Rightarrow> 'a dcc_act" where
  "call_channel tr r m =
     (\<lambda>s. case dcc_heap s r of
            None \<Rightarrow> (s, Faults BadAccess)
          | Some c \<Rightarrow>
              (case m (channel_controller tr s) c of
                 (c', result) \<Rightarrow>
                   seq (each (controller_hears r) (drop (length (dc_log c)) (dc_log c')))
                     (\<lambda>_. lift result) (s\<lparr>dcc_heap := (dcc_heap s)(r \<mapsto> c')\<rparr>)))"

section \<open>Creating channels\<close>

text \<open>\<open>ReserveOrAllocateSid\<close>: the error, and the id if there is one.\<close>

definition ReserveOrAllocateSid ::
  "SSLRole option \<Rightarrow> nat option \<Rightarrow> SSLRole option \<Rightarrow> (RTCError \<times> nat option) dcc_act" where
  "ReserveOrAllocateSid GetSctpSslRole sid fallback =
     seq (look dcc_sids) (\<lambda>used.
     case sid of
       Some i \<Rightarrow>
         (case ReserveSid i used of
            (ok, used') \<Rightarrow> seq (update (\<lambda>s. s\<lparr>dcc_sids := used'\<rparr>)) (\<lambda>_.
              ret (if ok then RTCError_OK else RTCError_of INVALID_RANGE ''StreamId reserved.'', sid)))
     | None \<Rightarrow>
         (case (if GetSctpSslRole = None then fallback else GetSctpSslRole) of
            None \<Rightarrow> ret (RTCError_OK, None)
          | Some role \<Rightarrow>
              (case AllocateSid role used of
                 (sid, used') \<Rightarrow> seq (update (\<lambda>s. s\<lparr>dcc_sids := used'\<rparr>)) (\<lambda>_.
                   ret (if sid = None then RTCError_of RESOURCE_EXHAUSTED [] else RTCError_OK, sid)))))"

definition new_channel :: "SctpDataChannel \<Rightarrow> nat dcc_act" where
  "new_channel c =
     seq (look dcc_next) (\<lambda>r.
     seq (update (\<lambda>s. s\<lparr>dcc_heap := (dcc_heap s)(r \<mapsto> c), dcc_next := Suc r,
                        dcc_channels := dcc_channels s @ [r]\<rparr>)) (\<lambda>_. ret r))"

definition CreateDataChannel ::
  "SSLRole option \<Rightarrow> bytes \<Rightarrow> InternalDataChannelInit \<Rightarrow> (RTCError + nat) dcc_act" where
  "CreateDataChannel GetSctpSslRole label config =
     (if dci_id config \<noteq> -1 \<and> (dci_id config < 0 \<or> dci_id config > int kMaxSctpSid)
      then ret (Inl (RTCError_of INVALID_RANGE ''StreamId out of range.''))
      else
        seq (ReserveOrAllocateSid GetSctpSslRole
               (if dci_id config = -1 then None else Some (nat (dci_id config)))
               (fallback_ssl_role config)) (\<lambda>(failure, sid).
        if \<not> RTCError_ok failure then ret (Inl failure)
        else
          let config = (case sid of None \<Rightarrow> config | Some i \<Rightarrow> config\<lparr>dci_id := int i\<rparr>)
          in seq (look (\<lambda>s. SctpDataChannel_create config True label (dcc_transport s \<noteq> None)
                              (int (dcc_next s) + 1))) (\<lambda>channel.
             seq (new_channel channel) (\<lambda>r.
             seq (case sid of
                    None \<Rightarrow> ret ()
                  | Some i \<Rightarrow> AddSctpDataStream i (case dci_priority config of Some p \<Rightarrow> p | None \<Rightarrow> PriorityValue pLow)) (\<lambda>_.
             ret (Inr r))))))"

definition post_ready :: "nat \<Rightarrow> unit dcc_act" where
  "post_ready r = update (\<lambda>s. s\<lparr>dcc_network_tasks := dcc_network_tasks s @ [r]\<rparr>)"

definition InternalCreateDataChannelWithProxy ::
  "transport_answers \<Rightarrow> SSLRole option \<Rightarrow> bytes \<Rightarrow> InternalDataChannelInit \<Rightarrow> (RTCError + nat) dcc_act" where
  "InternalCreateDataChannelWithProxy tr GetSctpSslRole label config =
     (if \<not> IsValid config then ret (Inl (RTCError_of INVALID_PARAMETER ''Invalid DataChannelInit''))
      else seq (CreateDataChannel GetSctpSslRole label config) (\<lambda>channel.
        case channel of
          Inl failure \<Rightarrow> ret (Inl failure)
        | Inr r \<Rightarrow>
            seq (look (\<lambda>s. dcc_transport s \<noteq> None \<and> tr_IsReadyToSend tr)) (\<lambda>ready_to_send.
            seq (onlyif ready_to_send (post_ready r)) (\<lambda>_.
            seq (update (\<lambda>s. s\<lparr>dcc_usage := kInUse\<rparr>)) (\<lambda>_.
            seq (look dcc_signaling_safety) (\<lambda>safety.
            seq (call_channel tr r (\<lambda>_. CreateProxy safety)) (\<lambda>_.
            ret (Inr r))))))))"

text \<open>The network thread's next posted task.\<close>

definition run_ready_task :: "garbage \<Rightarrow> transport_answers \<Rightarrow> unit dcc_act" where
  "run_ready_task g tr =
     seq (look dcc_network_tasks) (\<lambda>ts.
     case ts of
       [] \<Rightarrow> ret ()
     | r # ts \<Rightarrow>
         seq (update (\<lambda>s. s\<lparr>dcc_network_tasks := ts\<rparr>)) (\<lambda>_.
         seq (look (\<lambda>s. map_option dc_state (dcc_heap s r))) (\<lambda>state.
         onlyif (state \<noteq> Some kClosed) (call_channel tr r (\<lambda>k. OnTransportReady g k)))))"

section \<open>OPEN messages\<close>

definition OnDataChannelOpenMessage :: "transport_answers \<Rightarrow> nat \<Rightarrow> bool \<Rightarrow> unit dcc_act" where
  "OnDataChannelOpenMessage tr r ready_to_send =
     seq (update (\<lambda>s. s\<lparr>dcc_usage := kInUse\<rparr>)) (\<lambda>_.
     seq (look dcc_signaling_safety) (\<lambda>safety.
     seq (call_channel tr r (\<lambda>_. CreateProxy safety)) (\<lambda>_.
     seq (ctl_note (PcOnDataChannel r)) (\<lambda>_.
     seq (ctl_note NoteDataAddedEvent) (\<lambda>_.
     onlyif ready_to_send (post_ready r))))))"

definition run_controller_task :: "transport_answers \<Rightarrow> unit dcc_act" where
  "run_controller_task tr =
     seq (look dcc_signaling_tasks) (\<lambda>ts.
     case ts of
       [] \<Rightarrow> ret ()
     | t # ts \<Rightarrow>
         seq (update (\<lambda>s. s\<lparr>dcc_signaling_tasks := ts\<rparr>)) (\<lambda>_.
         seq (look dcc_signaling_safety) (\<lambda>alive.
         onlyif alive
           (case t of
              StateTask internal_id state usage \<Rightarrow>
                seq (update (\<lambda>s. s\<lparr>dcc_usage := usage\<rparr>)) (\<lambda>_. ctl_note (PcStateChanged internal_id state))
            | OpenTask r ready_to_send \<Rightarrow> OnDataChannelOpenMessage tr r ready_to_send))))"

definition HandleOpenMessage_n ::
  "transport_answers \<Rightarrow> SSLRole option \<Rightarrow> int \<Rightarrow> DataMessageType \<Rightarrow> bytes \<Rightarrow> bool dcc_act" where
  "HandleOpenMessage_n tr GetSctpSslRole channel_id type buffer =
     (if type \<noteq> kControl \<or> \<not> IsOpenMessage buffer then ret False
      else
        seq (lift (ParseDataChannelOpenMessage buffer [] (DataChannelInit_default\<lparr>dci_id := channel_id\<rparr>)))
          (\<lambda>(ok, label, config).
        if \<not> ok then ret True
        else seq (CreateDataChannel GetSctpSslRole label
                    (DataChannelInit.extend config (InternalDataChannelInit.fields kAcker None))) (\<lambda>channel.
          case channel of
            Inl _ \<Rightarrow> ret True
          | Inr r \<Rightarrow>
              seq (look dcc_transport) (\<lambda>t.
              if t = None then fail NullDeref
              else seq (update (\<lambda>s. s\<lparr>dcc_signaling_tasks := dcc_signaling_tasks s @
                                       [OpenTask r (tr_IsReadyToSend tr)]\<rparr>)) (\<lambda>_. ret True)))))"

section \<open>What the transport reports\<close>

definition find_channel :: "int \<Rightarrow> DataChannelController \<Rightarrow> nat option" where
  "find_channel channel_id s =
     find (\<lambda>r. case sid_n r s of None \<Rightarrow> False | Some sid \<Rightarrow> int sid = channel_id) (dcc_channels s)"

definition call_found :: "transport_answers \<Rightarrow> int \<Rightarrow> (controller \<Rightarrow> unit dc_act) \<Rightarrow> unit dcc_act" where
  "call_found tr channel_id m =
     seq (look (find_channel channel_id)) (\<lambda>it.
     case it of None \<Rightarrow> ret () | Some r \<Rightarrow> call_channel tr r m)"

definition dcc_OnDataReceived ::
  "transport_answers \<Rightarrow> SSLRole option \<Rightarrow> int \<Rightarrow> DataMessageType \<Rightarrow> bytes \<Rightarrow> unit dcc_act" where
  "dcc_OnDataReceived tr GetSctpSslRole channel_id type buffer =
     seq (HandleOpenMessage_n tr GetSctpSslRole channel_id type buffer) (\<lambda>handled.
     if handled then ret () else call_found tr channel_id (\<lambda>_. OnDataReceived type buffer))"

definition OnChannelClosing :: "transport_answers \<Rightarrow> int \<Rightarrow> unit dcc_act" where
  "OnChannelClosing tr channel_id = call_found tr channel_id (\<lambda>_. OnClosingProcedureStartedRemotely)"

definition OnChannelClosed :: "transport_answers \<Rightarrow> int \<Rightarrow> unit dcc_act" where
  "OnChannelClosed tr channel_id =
     (let sid = nat (channel_id mod 65536)
      in seq (update (\<lambda>s. s\<lparr>dcc_sids := ReleaseSid sid (dcc_sids s)\<rparr>)) (\<lambda>_.
         seq (look (\<lambda>s. find (\<lambda>r. sid_n r s = Some sid) (dcc_channels s))) (\<lambda>it.
         case it of
           None \<Rightarrow> ret ()
         | Some r \<Rightarrow>
             seq (update (\<lambda>s. s\<lparr>dcc_channels := remove1 r (dcc_channels s)\<rparr>)) (\<lambda>_.
             call_channel tr r (\<lambda>_. OnClosingProcedureComplete)))))"

definition OnReadyToSend :: "garbage \<Rightarrow> transport_answers \<Rightarrow> unit dcc_act" where
  "OnReadyToSend g tr =
     seq (look dcc_channels) (\<lambda>copy.
     each (\<lambda>r. seq (look (sid_n r)) (\<lambda>sid.
                onlyif (sid \<noteq> None) (call_channel tr r (\<lambda>k. OnTransportReady g k)))) copy)"

text \<open>The body of the loop of \<open>OnTransportClosed\<close>.\<close>

definition close_detached :: "transport_answers \<Rightarrow> RTCError \<Rightarrow> nat \<Rightarrow> unit dcc_act" where
  "close_detached tr error r =
     seq (call_channel tr r (\<lambda>_. OnTransportChannelClosed error)) (\<lambda>_.
     seq (look (sid_n r)) (\<lambda>sid.
     case sid of
       None \<Rightarrow> ret ()
     | Some sid \<Rightarrow> update (\<lambda>s. s\<lparr>dcc_sids := ReleaseSid sid (dcc_sids s)\<rparr>)))"

definition OnTransportClosed :: "transport_answers \<Rightarrow> RTCError \<Rightarrow> unit dcc_act" where
  "OnTransportClosed tr error =
     seq (look dcc_channels) (\<lambda>temp_sctp_dcs.
     seq (update (\<lambda>s. s\<lparr>dcc_channels := []\<rparr>)) (\<lambda>_.
     each (close_detached tr error) temp_sctp_dcs))"

definition dcc_OnBufferedAmountLow :: "transport_answers \<Rightarrow> int \<Rightarrow> unit dcc_act" where
  "dcc_OnBufferedAmountLow tr channel_id = call_found tr channel_id (\<lambda>k. OnBufferedAmountLow k)"

section \<open>The transport\<close>

definition channel_priority_of :: "nat \<Rightarrow> DataChannelController \<Rightarrow> u16" where
  "channel_priority_of r s = (case dcc_heap s r of None \<Rightarrow> 0 | Some c \<Rightarrow> channel_priority c)"

definition NotifyDataChannelsOfTransportCreated :: "transport_answers \<Rightarrow> unit dcc_act" where
  "NotifyDataChannelsOfTransportCreated tr =
     seq (look dcc_channels)
       (each (\<lambda>r. seq (look (\<lambda>s. (sid_n r s, channel_priority_of r s))) (\<lambda>(sid, priority).
                  seq (case sid of None \<Rightarrow> ret () | Some sid \<Rightarrow> AddSctpDataStream sid priority) (\<lambda>_.
                  call_channel tr r (\<lambda>_. OnTransportChannelCreated)))))"

definition set_data_channel_transport :: "transport_answers \<Rightarrow> nat option \<Rightarrow> unit dcc_act" where
  "set_data_channel_transport tr transport =
     seq (look dcc_transport) (\<lambda>old.
     seq (case old of None \<Rightarrow> ret () | Some t \<Rightarrow> ctl_note (SetDataSink t False)) (\<lambda>_.
     seq (update (\<lambda>s. s\<lparr>dcc_transport := transport\<rparr>)) (\<lambda>_.
     case transport of
       None \<Rightarrow> ret ()
     | Some t \<Rightarrow> seq (NotifyDataChannelsOfTransportCreated tr) (\<lambda>_. ctl_note (SetDataSink t True)))))"

definition SetupDataChannelTransport_n :: "transport_answers \<Rightarrow> nat \<Rightarrow> unit dcc_act" where
  "SetupDataChannelTransport_n tr transport = set_data_channel_transport tr (Some transport)"

definition PrepareForShutdown :: "unit dcc_act" where
  "PrepareForShutdown =
     update (\<lambda>s. s\<lparr>dcc_signaling_safety := False,
                   dcc_usage := (if dcc_usage s \<noteq> kNeverUsed then kHaveBeenUsed else dcc_usage s)\<rparr>)"

definition InvalidateWeakPtrs :: "unit dcc_act" where
  "InvalidateWeakPtrs =
     update (\<lambda>s. s\<lparr>dcc_heap := (\<lambda>r. map_option (\<lambda>c. c\<lparr>dc_controller := False\<rparr>) (dcc_heap s r))\<rparr>)"

definition TeardownDataChannelTransport_n :: "transport_answers \<Rightarrow> RTCError \<Rightarrow> unit dcc_act" where
  "TeardownDataChannelTransport_n tr error =
     seq (OnTransportClosed tr error) (\<lambda>_.
     seq (set_data_channel_transport tr None) (\<lambda>_. InvalidateWeakPtrs))"

definition OnTransportChanged :: "transport_answers \<Rightarrow> nat option \<Rightarrow> unit dcc_act" where
  "OnTransportChanged tr new_transport =
     seq (look dcc_transport) (\<lambda>old.
     onlyif (old \<noteq> None \<and> old \<noteq> new_transport) (set_data_channel_transport tr new_transport))"

definition GetDataChannelStats :: "DataChannelController \<Rightarrow> DataChannelStats list" where
  "GetDataChannelStats s = map GetStats (List.map_filter (dcc_heap s) (dcc_channels s))"

section \<open>Assigning stream ids\<close>

text \<open>
  The loop of \<open>AllocateSctpSids\<close>, with \<open>n\<close> rounds left, at position \<open>i\<close>.  The iterator is read again
  after \<open>OnTransportReady\<close>; when that closed the channel and so removed it from the list, the iterator
  no longer points to it.
\<close>

fun allocate_loop ::
  "garbage \<Rightarrow> transport_answers \<Rightarrow> SSLRole \<Rightarrow> bool \<Rightarrow> nat \<Rightarrow> nat \<Rightarrow> nat list \<Rightarrow> nat list dcc_act" where
  "allocate_loop g tr role ready 0 i to_close = ret to_close"
| "allocate_loop g tr role ready (Suc n) i to_close =
     seq (look dcc_channels) (\<lambda>cs.
     if length cs \<le> i then ret to_close
     else let r = cs ! i in
       seq (look (sid_n r)) (\<lambda>sid.
       if sid \<noteq> None then allocate_loop g tr role ready n (Suc i) to_close
       else
         seq (look dcc_sids) (\<lambda>used.
         case AllocateSid role used of
           (Some sid, used') \<Rightarrow>
             seq (update (\<lambda>s. s\<lparr>dcc_sids := used'\<rparr>)) (\<lambda>_.
             seq (call_channel tr r (\<lambda>_. SetSctpSid_n sid)) (\<lambda>_.
             seq (look (channel_priority_of r)) (\<lambda>priority.
             seq (AddSctpDataStream sid priority) (\<lambda>_.
             seq (onlyif ready (call_channel tr r (\<lambda>k. OnTransportReady g k))) (\<lambda>_.
             seq (look dcc_channels) (\<lambda>cs'.
             if cs' \<noteq> cs then fail IteratorInvalidated
             else allocate_loop g tr role ready n (Suc i) to_close))))))
         | (None, used') \<Rightarrow>
             seq (update (\<lambda>s. s\<lparr>dcc_sids := used', dcc_channels := remove1 r (dcc_channels s)\<rparr>)) (\<lambda>_.
             allocate_loop g tr role ready n i (to_close @ [r])))))"

definition AllocateSctpSids :: "garbage \<Rightarrow> transport_answers \<Rightarrow> SSLRole \<Rightarrow> unit dcc_act" where
  "AllocateSctpSids g tr role =
     seq (look (\<lambda>s. (dcc_transport s \<noteq> None \<and> tr_IsReadyToSend tr, length (dcc_channels s)))) (\<lambda>(ready, n).
     seq (allocate_loop g tr role ready n 0 [])
       (each (\<lambda>r. call_channel tr r
                    (\<lambda>_. CloseAbruptlyWithDataChannelFailure ''Failed to allocate SCTP SID''))))"

section \<open>A closing channel announces it\<close>

text \<open>
  Every call but the assignment of a stream id leaves the id and the controller pointer alone, only
  adds to the log, and reports \<open>kClosed\<close> exactly when the channel became closed.
\<close>

definition announces :: "SctpDataChannel \<Rightarrow> SctpDataChannel \<Rightarrow> bool" where
  "announces c c' \<longleftrightarrow> dc_id_n c' = dc_id_n c \<and> dc_controller c' = dc_controller c \<and>
     dc_state c \<le> dc_state c' \<and>
     (\<exists>es. dc_log c' = dc_log c @ es \<and>
       (ChannelStateChanged kClosed \<in> set es \<longleftrightarrow>
          dc_controller c \<and> dc_state c \<noteq> kClosed \<and> dc_state c' = kClosed))"

lemma announcesE:
  assumes "announces c c'"
  obtains es where "dc_id_n c' = dc_id_n c" "dc_controller c' = dc_controller c" "dc_state c \<le> dc_state c'"
    "dc_log c' = dc_log c @ es"
    "ChannelStateChanged kClosed \<in> set es \<longleftrightarrow> dc_controller c \<and> dc_state c \<noteq> kClosed \<and> dc_state c' = kClosed"
  using assms unfolding announces_def by (elim conjE exE) (rule that)

interpretation ann: progress announces
proof
  show "announces c c" for c by (auto simp: announces_def)
next
  fix c d e
  assume cd: "announces c d" and de: "announces d e"
  from cd obtain es1 where 1: "dc_id_n d = dc_id_n c" "dc_controller d = dc_controller c"
    "dc_state c \<le> dc_state d" "dc_log d = dc_log c @ es1"
    "ChannelStateChanged kClosed \<in> set es1 \<longleftrightarrow> dc_controller c \<and> dc_state c \<noteq> kClosed \<and> dc_state d = kClosed"
    by (rule announcesE)
  from de obtain es2 where 2: "dc_id_n e = dc_id_n d" "dc_controller e = dc_controller d"
    "dc_state d \<le> dc_state e" "dc_log e = dc_log d @ es2"
    "ChannelStateChanged kClosed \<in> set es2 \<longleftrightarrow> dc_controller d \<and> dc_state d \<noteq> kClosed \<and> dc_state e = kClosed"
    by (rule announcesE)
  from 1 2 have log: "dc_log e = dc_log c @ (es1 @ es2)" by simp
  have stays: "dc_state c = kClosed \<longrightarrow> dc_state d = kClosed" "dc_state d = kClosed \<longrightarrow> dc_state e = kClosed"
    using 1(3) 2(3) by auto
  show "announces c e"
    unfolding announces_def
    by (intro conjI exI [of _ "es1 @ es2"] log) (use 1 2 stays in \<open>auto intro: order_trans\<close>)
qed

lemma announces_quiet:
  assumes "dc_state c' = dc_state c" "dc_id_n c' = dc_id_n c" "dc_controller c' = dc_controller c"
    "dc_log c' = dc_log c @ es" "\<forall>e \<in> set es. \<not> announcement e"
  shows "announces c c'"
  using assms by (auto simp: announces_def announcement_def)

lemma announces_update:
  "dc_state (f c) = dc_state c \<Longrightarrow> dc_id_n (f c) = dc_id_n c \<Longrightarrow> dc_controller (f c) = dc_controller c \<Longrightarrow>
   dc_log (f c) = dc_log c \<Longrightarrow> goes announces (update f) c"
  unfolding goes_def by (rule announces_quiet [of _ _ "[]"]) simp_all

lemma announces_tell: "goes announces (tell cb) c"
  unfolding goes_def
  by (rule announces_quiet [of _ _ "[if dc_observer c = Some ViaAdapter then Posted cb else Told cb]"])
    (simp_all add: run_tell announcement_def)

lemma announces_SetState: "dc_state c \<le> s \<Longrightarrow> goes announces (SetState s) c"
  by (cases "dc_state c = s"; cases "dc_observer c"; cases "dc_controller c")
    (auto simp: goes_def announces_def SetState_def run_tell)

lemma announces_Deliver: "goes announces DeliverQueuedReceivedData c"
proof -
  have "goes announces (deliver_loop n) c" for n c
  proof (induction n arbitrary: c)
    case (Suc n)
    then show ?case
      unfolding deliver_loop.simps deliver_front_def case_prod_beta
      by (intro ann.goes_rules ann.goes_seq announces_update announces_tell) simp_all
  qed (simp only: deliver_loop.simps ann.goes_pure)
  then show ?thesis unfolding DeliverQueuedReceivedData_def by (intro ann.goes_rules)
qed

lemma announces_receive: "goes announces (receive_buffer b) c"
  unfolding receive_buffer_def CloseAbruptlyWithError_def
  by (intro ann.goes_rules ann.goes_seq announces_update announces_tell announces_SetState; auto)

interpretation ann: channel_contract announces
proof
  fix c c' :: SctpDataChannel
  assume "dc_quiet c c'"
  then show "announces c c'" using announces_quiet by (auto simp: dc_quiet_def)
next
  fix c obs net
  show "goes announces (RegisterObserver obs net) c"
    unfolding RegisterObserver_def
    by (intro ann.goes_rules ann.goes_seq announces_update announces_Deliver; simp)
next
  fix c :: SctpDataChannel
  assume "dc_state c = kConnecting"
  then show "goes announces (seq (SetState kOpen) (\<lambda>_. DeliverQueuedReceivedData)) c"
    by (intro ann.goes_seq announces_SetState announces_Deliver) simp
next
  fix c
  show "goes announces UnregisterObserver c"
    unfolding UnregisterObserver_def by (intro ann.goes_seq announces_update; simp)
qed (simp_all add: announces_SetState announces_receive)

end
