(* ===== verification/Controller_Invariant.thy ===== *)
theory Controller_Invariant
  imports Channel_Controller
begin

text \<open>
  What holds of the \<open>DataChannelController\<close> between any two calls: the list holds exactly the channels
  that are not closed, each once; no two of them share a stream id; and the pool holds exactly the ids
  of the listed channels, so that an id is never lost and never handed out twice.
\<close>

section \<open>What a call of a channel does to the controller\<close>

lemma to_transport_run:
  "to_transport e s = ((if dcc_transport s = None then s else s\<lparr>dcc_events := dcc_events s @ [e]\<rparr>), Returns ())"
  by (simp add: to_transport_def ctl_note_def)

text \<open>The part of the state the invariant is about.\<close>

definition ctl_view where
  "ctl_view s = (dcc_heap s, dcc_next s, dcc_sids s, dcc_channels s)"

lemma hears_other:
  assumes "dcc_heap s r = Some c" "e \<noteq> ChannelStateChanged kClosed"
  obtains s' where "controller_hears r e s = (s', Returns ())" "ctl_view s' = ctl_view s"
proof -
  have "\<exists>s'. controller_hears r e s = (s', Returns ()) \<and> ctl_view s' = ctl_view s"
    using assms
    by (cases e) (auto simp: controller_hears_def OnChannelStateChanged_def RemoveSctpDataStream_def
        SetBufferedAmountLowThreshold_def to_transport_run ctl_view_def Let_def)
  then show thesis using that by blast
qed

lemma hears_closed:
  assumes "dcc_heap s r = Some c"
  obtains s' where "controller_hears r (ChannelStateChanged kClosed) s = (s', Returns ())"
    "ctl_view s' = (dcc_heap s, dcc_next s, dcc_sids s - {sid. dc_id_n c = Some sid}, remove1 r (dcc_channels s))"
proof -
  have "\<exists>s'. controller_hears r (ChannelStateChanged kClosed) s = (s', Returns ()) \<and>
    ctl_view s' = (dcc_heap s, dcc_next s, dcc_sids s - {sid. dc_id_n c = Some sid}, remove1 r (dcc_channels s))"
    using assms
    by (cases "dc_id_n c") (auto simp: controller_hears_def OnChannelStateChanged_def OnSctpDataChannelClosed_def
        ctl_view_def sid_n_def ReleaseSid_def)
  then show thesis using that by blast
qed

definition after_close where
  "after_close closed r c s =
     (dcc_heap s, dcc_next s, if closed then dcc_sids s - {sid. dc_id_n c = Some sid} else dcc_sids s,
      if closed then remove1 r (dcc_channels s) else dcc_channels s)"

lemma each_hears:
  assumes "dcc_heap s r = Some c" "distinct (dcc_channels s)"
  obtains s' where "each (controller_hears r) es s = (s', Returns ())"
    "ctl_view s' = after_close (ChannelStateChanged kClosed \<in> set es) r c s"
  using assms
proof (induction es arbitrary: s thesis)
  case Nil
  then show ?case by (simp add: ctl_view_def after_close_def)
next
  case (Cons e es)
  obtain s1 where s1: "controller_hears r e s = (s1, Returns ())"
    "ctl_view s1 = after_close (e = ChannelStateChanged kClosed) r c s"
  proof (cases "e = ChannelStateChanged kClosed")
    case True
    show thesis
      by (rule hears_closed [OF Cons.prems(2)], rule that) (use True in \<open>simp_all add: after_close_def\<close>)
  next
    case False
    show thesis
      by (rule hears_other [OF Cons.prems(2) False], rule that)
        (use False in \<open>simp_all add: after_close_def ctl_view_def\<close>)
  qed
  have "dcc_heap s1 r = Some c" "distinct (dcc_channels s1)"
    using s1(2) Cons.prems by (auto simp: ctl_view_def after_close_def split: if_splits)
  then obtain s2 where s2: "each (controller_hears r) es s1 = (s2, Returns ())"
    "ctl_view s2 = after_close (ChannelStateChanged kClosed \<in> set es) r c s1"
    using Cons.IH by blast
  show ?case
  proof (rule Cons.prems(1))
    show "each (controller_hears r) (e # es) s = (s2, Returns ())" using s1 s2 by simp
    show "ctl_view s2 = after_close (ChannelStateChanged kClosed \<in> set (e # es)) r c s"
      using s1(2) s2(2) Cons.prems(3) by (auto simp: after_close_def ctl_view_def remove1_idem split: if_splits)
  qed
qed

text \<open>Whether a call from \<open>c\<close> to \<open>c'\<close> closed the channel and told the controller so.\<close>

definition closes :: "SctpDataChannel \<Rightarrow> SctpDataChannel \<Rightarrow> bool" where
  "closes c c' \<longleftrightarrow> dc_controller c \<and> dc_state c \<noteq> kClosed \<and> dc_state c' = kClosed"

lemma call_channel_effect:
  assumes "dcc_heap s r = Some c" "distinct (dcc_channels s)"
    and m: "m (channel_controller tr s) c = (c', result)" and "announces c c'"
  obtains s' where "call_channel tr r m s = (s', result)"
    "dcc_heap s' = (dcc_heap s)(r \<mapsto> c')" "dcc_next s' = dcc_next s"
    "dcc_sids s' = (if closes c c' then dcc_sids s - {sid. dc_id_n c = Some sid} else dcc_sids s)"
    "dcc_channels s' = (if closes c c' then remove1 r (dcc_channels s) else dcc_channels s)"
proof -
  from \<open>announces c c'\<close> obtain es where es: "dc_id_n c' = dc_id_n c" "dc_log c' = dc_log c @ es"
    "ChannelStateChanged kClosed \<in> set es \<longleftrightarrow> closes c c'"
    unfolding closes_def by (rule announcesE)
  let ?s = "s\<lparr>dcc_heap := (dcc_heap s)(r \<mapsto> c')\<rparr>"
  have "dcc_heap ?s r = Some c'" "distinct (dcc_channels ?s)" using assms(2) by simp_all
  then obtain s' where s': "each (controller_hears r) es ?s = (s', Returns ())"
    "ctl_view s' = after_close (ChannelStateChanged kClosed \<in> set es) r c' ?s"
    by (rule each_hears)
  have "call_channel tr r m s = (s', result)"
    using assms(1) m es(2) s'(1) by (simp add: call_channel_def)
  then show thesis
    by (rule that) (use s'(2) es in \<open>auto simp: ctl_view_def after_close_def split: if_splits\<close>)
qed

section \<open>The invariant\<close>

text \<open>
  Stated for a list \<open>L\<close> of live channels, which between calls is the controller's own list; within
  \<open>OnTransportClosed\<close> and \<open>AllocateSctpSids\<close> it also holds those already taken off the list but not
  yet closed.
\<close>

definition stored_ok :: "nat list \<Rightarrow> DataChannelController \<Rightarrow> bool" where
  "stored_ok L s \<longleftrightarrow>
     distinct L \<and> distinct (dcc_channels s) \<and> set (dcc_channels s) \<subseteq> set L \<and>
     (\<forall>r. dcc_heap s r = None \<longleftrightarrow> dcc_next s \<le> r) \<and> (\<forall>r \<in> set L. r < dcc_next s) \<and>
     (\<forall>r c. dcc_heap s r = Some c \<longrightarrow> (r \<in> set L \<longleftrightarrow> dc_state c \<noteq> kClosed) \<and> (r \<in> set L \<longrightarrow> dc_controller c))"

definition ids_ok :: "nat list \<Rightarrow> DataChannelController \<Rightarrow> bool" where
  "ids_ok L s \<longleftrightarrow>
     dcc_sids s = {sid. \<exists>r \<in> set L. sid_n r s = Some sid} \<and>
     (\<forall>r \<in> set L. \<forall>r' \<in> set L. \<forall>sid. sid_n r s = Some sid \<longrightarrow> sid_n r' s = Some sid \<longrightarrow> r = r') \<and>
     (\<forall>sid \<in> dcc_sids s. sid \<le> kMaxSctpSid)"

definition ctl_inv :: "nat list \<Rightarrow> DataChannelController \<Rightarrow> bool" where
  "ctl_inv L s \<longleftrightarrow> stored_ok L s \<and> ids_ok L s"

definition ctl_ok :: "DataChannelController \<Rightarrow> bool" where
  "ctl_ok s \<longleftrightarrow> ctl_inv (dcc_channels s) s"

lemma ctl_inv_view: "ctl_view s' = ctl_view s \<Longrightarrow> ctl_inv L s' = ctl_inv L s"
  by (simp add: ctl_view_def ctl_inv_def stored_ok_def ids_ok_def sid_n_def)

lemma ctl_ok_view: "ctl_view s' = ctl_view s \<Longrightarrow> ctl_ok s' = ctl_ok s"
  using ctl_inv_view [of s' s] by (simp add: ctl_ok_def ctl_view_def)

lemma stored_live: "stored_ok L s \<Longrightarrow> r \<in> set L \<Longrightarrow> \<exists>c. dcc_heap s r = Some c \<and> dc_state c \<noteq> kClosed \<and> dc_controller c"
  unfolding stored_ok_def by (metis not_le option.exhaust)

text \<open>The three changes a call of a channel makes: to an object, and on closing to the list and the pool.\<close>

lemma ids_close:
  assumes "ids_ok L s" "distinct L" "dcc_heap s r = Some c" "r \<in> set L" "dc_id_n c' = dc_id_n c"
    and s': "dcc_heap s' = (dcc_heap s)(r \<mapsto> c')" "dcc_sids s' = dcc_sids s - {sid. dc_id_n c = Some sid}"
  shows "ids_ok (remove1 r L) s'"
proof -
  have same: "sid_n x s' = sid_n x s" for x using assms(3,5) s' by (simp add: sid_n_def)
  have r: "sid_n r s = dc_id_n c" using assms(3) by (simp add: sid_n_def)
  have inj: "x = y" if "x \<in> set L" "y \<in> set L" "sid_n x s = Some i" "sid_n y s = Some i" for x y i
    using assms(1) that unfolding ids_ok_def by blast
  have "dcc_sids s' = {sid. \<exists>x \<in> set (remove1 r L). sid_n x s' = Some sid}"
  proof (rule set_eqI)
    fix i
    have "i \<in> dcc_sids s' \<longleftrightarrow> (\<exists>x \<in> set L. sid_n x s = Some i) \<and> sid_n r s \<noteq> Some i"
      using assms(1) by (auto simp: ids_ok_def s'(2) r)
    also have "\<dots> \<longleftrightarrow> (\<exists>x \<in> set L - {r}. sid_n x s = Some i)"
      using inj [OF assms(4), of _ i] by blast
    finally show "i \<in> dcc_sids s' \<longleftrightarrow> i \<in> {sid. \<exists>x \<in> set (remove1 r L). sid_n x s' = Some sid}"
      by (simp add: same set_remove1_eq [OF assms(2)])
  qed
  moreover have "set (remove1 r L) \<subseteq> set L" by (rule set_remove1_subset)
  ultimately show ?thesis
    using assms(1) inj unfolding ids_ok_def same s'(2) by blast
qed

lemma ids_change:
  assumes "ids_ok L s" "dcc_heap s r = Some c" "dc_id_n c' = dc_id_n c"
    and s': "dcc_heap s' = (dcc_heap s)(r \<mapsto> c')" "dcc_sids s' = dcc_sids s"
  shows "ids_ok L s'"
proof -
  have same: "sid_n x s' = sid_n x s" for x using assms(2,3) s' by (simp add: sid_n_def)
  show ?thesis using assms(1) unfolding ids_ok_def s'(2) same .
qed

lemma stored_facts:
  assumes "stored_ok L s"
  shows "distinct L" "distinct (dcc_channels s)" "set (dcc_channels s) \<subseteq> set L"
    "dcc_heap s x = None \<longleftrightarrow> dcc_next s \<le> x" "\<forall>x \<in> set L. x < dcc_next s"
    "dcc_heap s x = Some c \<longrightarrow> (x \<in> set L \<longleftrightarrow> dc_state c \<noteq> kClosed) \<and> (x \<in> set L \<longrightarrow> dc_controller c)"
  using assms unfolding stored_ok_def by blast+

lemma stored_detach:
  assumes "stored_ok L s" "dcc_heap s' = dcc_heap s" "dcc_next s' = dcc_next s" "distinct (dcc_channels s')"
    "set (dcc_channels s') \<subseteq> set (dcc_channels s)"
  shows "stored_ok L s'"
  using assms(1,4,5) unfolding stored_ok_def assms(2,3)
  by (elim conjE) (intro conjI, assumption+, erule (1) subset_trans, assumption+)

lemma stored_close:
  assumes st: "stored_ok L s" and r: "r \<in> set L" and c': "dc_state c' = kClosed"
    and s': "dcc_heap s' = (dcc_heap s)(r \<mapsto> c')" "dcc_next s' = dcc_next s"
    "dcc_channels s' = remove1 r (dcc_channels s)"
  shows "stored_ok (remove1 r L) s'"
proof -
  note d = stored_facts(1,2) [OF st] and sub = stored_facts(3) [OF st] and heap = stored_facts(4) [OF st]
    and below = stored_facts(5) [OF st] and live = stored_facts(6) [OF st]
  note sets = set_remove1_eq [OF d(1)] set_remove1_eq [OF d(2)]
  show ?thesis
    unfolding stored_ok_def s'
  proof (intro conjI allI)
    show "set (remove1 r (dcc_channels s)) \<subseteq> set (remove1 r L)" using sub by (auto simp: sets)
    show "((dcc_heap s)(r \<mapsto> c')) x = None \<longleftrightarrow> dcc_next s \<le> x" for x
      using heap [of x] below r by auto
    show "((dcc_heap s)(r \<mapsto> c')) x = Some c \<longrightarrow>
        (x \<in> set (remove1 r L) \<longleftrightarrow> dc_state c \<noteq> kClosed) \<and> (x \<in> set (remove1 r L) \<longrightarrow> dc_controller c)" for x c
      using live [of x c] c' by (auto simp: sets)
  qed (use d below in \<open>auto simp: sets\<close>)
qed

lemma stored_change:
  assumes st: "stored_ok L s" and c: "dcc_heap s r = Some c"
    and c': "dc_state c' = kClosed \<longleftrightarrow> dc_state c = kClosed" "dc_controller c' = dc_controller c"
    and s': "dcc_heap s' = (dcc_heap s)(r \<mapsto> c')" "dcc_next s' = dcc_next s" "dcc_channels s' = dcc_channels s"
  shows "stored_ok L s'"
proof -
  have "r < dcc_next s" using stored_facts(4) [OF st, of r] c by auto
  then have "((dcc_heap s)(r \<mapsto> c')) x = None \<longleftrightarrow> dcc_next s \<le> x" for x
    using stored_facts(4) [OF st, of x] by simp
  moreover have "((dcc_heap s)(r \<mapsto> c')) x = Some d \<longrightarrow>
      (x \<in> set L \<longleftrightarrow> dc_state d \<noteq> kClosed) \<and> (x \<in> set L \<longrightarrow> dc_controller d)" for x d
    using stored_facts(6) [OF st, of x d] stored_facts(6) [OF st, of r c] c c' by (cases "x = r") auto
  ultimately show ?thesis using stored_facts [OF st] unfolding stored_ok_def s' by blast
qed

lemma call_inv:
  assumes inv: "ctl_inv L s" and c: "dcc_heap s r = Some c"
    and m: "goes announces (m (channel_controller tr s)) c"
  obtains s' c' result where "call_channel tr r m s = (s', result)"
    "m (channel_controller tr s) c = (c', result)" "dcc_heap s' = (dcc_heap s)(r \<mapsto> c')"
    "ctl_inv (if dc_state c' = kClosed then remove1 r L else L) s'"
    "dcc_channels s' = (if dc_state c' = kClosed then remove1 r (dcc_channels s) else dcc_channels s)"
proof -
  obtain c' result where run: "m (channel_controller tr s) c = (c', result)" by fastforce
  with m have ann: "announces c c'" by (simp add: goes_def)
  have st: "stored_ok L s" and ids: "ids_ok L s" using inv by (simp_all add: ctl_inv_def)
  then have d: "distinct (dcc_channels s)" "distinct L" "set (dcc_channels s) \<subseteq> set L"
    and live: "r \<in> set L \<longleftrightarrow> dc_state c \<noteq> kClosed" "r \<in> set L \<longrightarrow> dc_controller c"
    using c stored_facts(1-3) [of L s] stored_facts(6) [of L s r c] by blast+
  have c': "dc_id_n c' = dc_id_n c" "dc_controller c' = dc_controller c" "dc_state c = kClosed \<longrightarrow> dc_state c' = kClosed"
    using ann by (auto elim!: announcesE)
  obtain s' where s': "call_channel tr r m s = (s', result)" "dcc_heap s' = (dcc_heap s)(r \<mapsto> c')"
    "dcc_next s' = dcc_next s"
    "dcc_sids s' = (if closes c c' then dcc_sids s - {sid. dc_id_n c = Some sid} else dcc_sids s)"
    "dcc_channels s' = (if closes c c' then remove1 r (dcc_channels s) else dcc_channels s)"
    by (rule call_channel_effect [of s r c m tr c' result]) (use c d(1) run ann in simp_all)
  let ?L = "if dc_state c' = kClosed then remove1 r L else L"
  have closes: "closes c c' \<longleftrightarrow> r \<in> set L \<and> dc_state c' = kClosed"
    using live by (auto simp: closes_def)
  have channels: "dcc_channels s' = (if dc_state c' = kClosed then remove1 r (dcc_channels s) else dcc_channels s)"
  proof (cases "r \<in> set L")
    case False
    then have "remove1 r (dcc_channels s) = dcc_channels s" using d(3) by (intro remove1_idem) blast
    with False s'(5) closes show ?thesis by simp
  qed (use s'(5) closes in simp)
  have "stored_ok ?L s'"
  proof (cases "closes c c'")
    case True
    then show ?thesis using stored_close [OF st _ _ s'(2,3)] closes s'(5) by simp
  next
    case False
    then have "?L = L" using closes by (auto simp: remove1_idem)
    moreover have "dc_state c' = kClosed \<longleftrightarrow> dc_state c = kClosed" using False closes live c'(3) by blast
    ultimately show ?thesis using False stored_change [OF st c _ c'(2) s'(2,3)] s'(5) by simp
  qed
  moreover have "ids_ok ?L s'"
  proof (cases "closes c c'")
    case True
    then show ?thesis using ids_close [OF ids d(2) c _ c'(1) s'(2)] closes s'(4) by simp
  next
    case False
    then have "?L = L" using closes by (auto simp: remove1_idem)
    with False show ?thesis using ids_change [OF ids c c'(1) s'(2)] s'(4) by simp
  qed
  ultimately show thesis using s'(1,2) run channels by (intro that) (simp_all add: ctl_inv_def)
qed

section \<open>Every handler keeps it\<close>

text \<open>A call of one channel, by the controller or by the application.\<close>

lemma call_upholds:
  assumes m: "\<And>k c. goes announces (m k) c"
  shows "upholds ctl_ok (call_channel tr r m)"
  unfolding upholds_def
proof (intro allI impI)
  fix s s' x
  assume ok: "ctl_ok s" and run: "call_channel tr r m s = (s', Returns x)"
  then obtain c where c: "dcc_heap s r = Some c"
    by (cases "dcc_heap s r") (auto simp: call_channel_def)
  obtain t c' result where t: "call_channel tr r m s = (t, result)"
    "m (channel_controller tr s) c = (c', result)" "dcc_heap t = (dcc_heap s)(r \<mapsto> c')"
    "ctl_inv (if dc_state c' = kClosed then remove1 r (dcc_channels s) else dcc_channels s) t"
    "dcc_channels t = (if dc_state c' = kClosed then remove1 r (dcc_channels s) else dcc_channels s)"
    by (rule call_inv [OF ok [unfolded ctl_ok_def] c, of m tr, OF m])
  have "s' = t" using run t(1) by simp
  with t(4,5) show "ctl_ok s'" by (simp add: ctl_ok_def)
qed

lemma view_upholds:
  "(\<And>s. ctl_view (f s) = ctl_view s) \<Longrightarrow> upholds ctl_ok (update f)"
  by (rule upholds_update, rule ctl_ok_view [THEN iffD2])

lemma transport_upholds: "upholds ctl_ok (to_transport e)" "upholds ctl_ok (ctl_note e)"
  unfolding to_transport_def ctl_note_def
  by (intro upholds_rules view_upholds; simp add: ctl_view_def)+

lemmas event_upholds = transport_upholds transport_upholds(1) [of "OpenChannel sid p" for sid p, folded AddSctpDataStream_def]

lemma channel_call_announces:
  "(\<And>sid. call \<noteq> C_SetSctpSid sid) \<Longrightarrow> goes announces (dc_handle k call) c"
  by (rule ann.goes_call)

lemma handler_announces:
  "goes announces (OnTransportReady g k) c" "goes announces (CreateProxy safety) c"
  "goes announces (OnDataReceived t bs) c" "goes announces OnClosingProcedureStartedRemotely c"
  "goes announces OnClosingProcedureComplete c" "goes announces (OnTransportChannelClosed e) c"
  "goes announces (OnBufferedAmountLow k) c" "goes announces OnTransportChannelCreated c"
  "goes announces (CloseAbruptlyWithDataChannelFailure msg) c"
  using channel_call_announces [of "C_OnTransportReady g" k c] channel_call_announces [of "C_CreateProxy safety" k c]
    channel_call_announces [of "C_OnDataReceived t bs" k c]
    channel_call_announces [of C_OnClosingProcedureStartedRemotely k c]
    channel_call_announces [of C_OnClosingProcedureComplete k c]
    channel_call_announces [of "C_OnTransportChannelClosed e" k c]
    channel_call_announces [of C_OnBufferedAmountLow k c] channel_call_announces [of C_OnTransportChannelCreated k c]
    channel_call_announces [of "C_CloseAbruptlyWithDataChannelFailure msg" k c]
  by simp_all

lemma found_upholds: "(\<And>k c. goes announces (m k) c) \<Longrightarrow> upholds ctl_ok (call_found tr channel_id m)"
  unfolding call_found_def by (intro upholds_rules call_upholds)

lemma report_upholds:
  "upholds ctl_ok (OnChannelClosing tr channel_id)" "upholds ctl_ok (dcc_OnBufferedAmountLow tr channel_id)"
  "upholds ctl_ok (OnReadyToSend g tr)"
  unfolding OnChannelClosing_def dcc_OnBufferedAmountLow_def OnReadyToSend_def
  by (intro upholds_rules found_upholds call_upholds handler_announces)+

lemma ready_task_upholds: "upholds ctl_ok (run_ready_task g tr)"
  unfolding run_ready_task_def
  by (intro upholds_rules view_upholds call_upholds handler_announces; simp add: ctl_view_def)

lemma controller_task_upholds: "upholds ctl_ok (run_controller_task tr)"
proof -
  have "upholds ctl_ok (OnDataChannelOpenMessage tr r ready)" for r ready
    unfolding OnDataChannelOpenMessage_def post_ready_def
    by (intro upholds_rules view_upholds call_upholds handler_announces event_upholds; simp add: ctl_view_def)
  moreover have "upholds ctl_ok (update (\<lambda>s. s\<lparr>dcc_usage := u\<rparr>))" for u
    by (rule view_upholds) (simp add: ctl_view_def)
  ultimately have "upholds ctl_ok (case t of
        StateTask internal_id state usage \<Rightarrow>
          seq (update (\<lambda>s. s\<lparr>dcc_usage := usage\<rparr>)) (\<lambda>_. ctl_note (PcStateChanged internal_id state))
      | OpenTask r ready_to_send \<Rightarrow> OnDataChannelOpenMessage tr r ready_to_send)" for t
    by (cases t) (simp_all add: upholds_seq event_upholds)
  then show ?thesis
    unfolding run_controller_task_def
    by (intro upholds_rules view_upholds; simp add: ctl_view_def)
qed

lemma transport_change_upholds: "upholds ctl_ok (set_data_channel_transport tr t)"
  unfolding set_data_channel_transport_def NotifyDataChannelsOfTransportCreated_def
  by (intro upholds_rules view_upholds call_upholds handler_announces event_upholds; simp add: ctl_view_def)

lemma shutdown_upholds: "upholds ctl_ok PrepareForShutdown"
  unfolding PrepareForShutdown_def by (rule view_upholds) (simp add: ctl_view_def)

section \<open>Closing\<close>

lemma complete_closes:
  "goes announces OnClosingProcedureComplete c" "dc_state (fst (OnClosingProcedureComplete c)) = kClosed"
  by (rule handler_announces) (simp add: OnClosingProcedureComplete_def)

lemma OnChannelClosed_upholds: "upholds ctl_ok (OnChannelClosed tr channel_id)"
  unfolding upholds_def
proof (intro allI impI)
  fix s s' :: DataChannelController and x
  let ?sid = "nat (channel_id mod 65536)"
  let ?s1 = "s\<lparr>dcc_sids := ReleaseSid ?sid (dcc_sids s)\<rparr>"
  assume ok: "ctl_ok s" and run: "OnChannelClosed tr channel_id s = (s', Returns x)"
  then have st: "stored_ok (dcc_channels s) s" and ids: "ids_ok (dcc_channels s) s"
    by (simp_all add: ctl_ok_def ctl_inv_def)
  have same: "sid_n r ?s1 = sid_n r s" for r by (simp add: sid_n_def)
  show "ctl_ok s'"
  proof (cases "find (\<lambda>r. sid_n r s = Some ?sid) (dcc_channels s)")
    case None
    then have "?sid \<notin> dcc_sids s" using ids by (auto simp: ids_ok_def find_None_iff)
    then have "?s1 = s" by (simp add: ReleaseSid_def)
    with None run ok show ?thesis by (simp add: OnChannelClosed_def same Let_def)
  next
    case (Some r)
    then have r: "r \<in> set (dcc_channels s)" "sid_n r s = Some ?sid" by (auto simp: find_Some_iff)
    then obtain c where c: "dcc_heap s r = Some c" "dc_state c \<noteq> kClosed" "dc_controller c"
      using stored_live [OF st] by blast
    have id: "dc_id_n c = Some ?sid" using r(2) c(1) by (simp add: sid_n_def)
    let ?s2 = "?s1\<lparr>dcc_channels := remove1 r (dcc_channels s)\<rparr>"
    let ?c' = "fst (OnClosingProcedureComplete c)"
    have c': "OnClosingProcedureComplete c = (?c', Returns ())"
      by (simp add: OnClosingProcedureComplete_def prod_eq_iff)
    have ann: "announces c ?c'" using complete_closes(1) [of c] by (simp add: goes_def)
    obtain t where t: "call_channel tr r (\<lambda>_. OnClosingProcedureComplete) ?s2 = (t, Returns ())"
      "dcc_heap t = (dcc_heap ?s2)(r \<mapsto> ?c')" "dcc_next t = dcc_next ?s2"
      "dcc_sids t = (if closes c ?c' then dcc_sids ?s2 - {sid. dc_id_n c = Some sid} else dcc_sids ?s2)"
      "dcc_channels t = (if closes c ?c' then remove1 r (dcc_channels ?s2) else dcc_channels ?s2)"
      by (rule call_channel_effect [of ?s2 r c "\<lambda>_. OnClosingProcedureComplete" tr ?c' "Returns ()"])
        (use c stored_facts(2) [OF st] c' ann in simp_all)
    have d: "distinct (dcc_channels s)" by (rule stored_facts(2) [OF st])
    have closes: "closes c ?c'" using c by (simp add: closes_def complete_closes)
    have view: "dcc_heap t = (dcc_heap s)(r \<mapsto> ?c')" "dcc_next t = dcc_next s"
      "dcc_sids t = dcc_sids s - {sid. dc_id_n c = Some sid}" "dcc_channels t = remove1 r (dcc_channels s)"
      using t closes d id by (auto simp: ReleaseSid_def remove1_idem)
    have "s' = t" using run Some t(1) by (simp add: OnChannelClosed_def same Let_def)
    moreover have "stored_ok (dcc_channels t) t"
      unfolding view(4) by (rule stored_close [OF st r(1) complete_closes(2) view(1,2,4)])
    moreover have "ids_ok (dcc_channels t) t"
      unfolding view(4) using ann
      by (intro ids_close [OF ids d c(1) r(1) _ view(1,3)]) (auto elim: announcesE)
    ultimately show ?thesis by (simp add: ctl_ok_def ctl_inv_def)
  qed
qed

text \<open>Detaching the list first, closing the channels after.\<close>

lemma close_all:
  assumes "ctl_inv rs s" "dcc_channels s = []"
    and "each (close_detached tr e) rs s = (s', Returns x)"
  shows "ctl_inv [] s' \<and> dcc_channels s' = []"
  using assms
proof (induction rs arbitrary: s)
  case (Cons r rs)
  have st: "stored_ok (r # rs) s" and ids: "ids_ok (r # rs) s"
    using Cons.prems(1) by (simp_all add: ctl_inv_def)
  then obtain c where c: "dcc_heap s r = Some c" using stored_live [OF st, of r] by auto
  obtain t c' result where t: "call_channel tr r (\<lambda>_. OnTransportChannelClosed e) s = (t, result)"
    "OnTransportChannelClosed e c = (c', result)" "dcc_heap t = (dcc_heap s)(r \<mapsto> c')"
    "ctl_inv (if dc_state c' = kClosed then remove1 r (r # rs) else r # rs) t"
    "dcc_channels t = (if dc_state c' = kClosed then remove1 r (dcc_channels s) else dcc_channels s)"
    by (rule call_inv [OF Cons.prems(1) c, of "\<lambda>_. OnTransportChannelClosed e" tr, OF handler_announces(6)])
  have "dc_state c' = kClosed" using t(2) CloseAbruptly_state [of e c] by (simp add: OnTransportChannelClosed_def)
  with t Cons.prems(2) have inv: "ctl_inv rs t" "dcc_channels t = []" by simp_all
  have "announces c c'" using handler_announces(6) [of e c] t(2) by (simp add: goes_def)
  then have "dc_id_n c' = dc_id_n c" by (rule announcesE)
  then have same: "sid_n y t = sid_n y s" for y using t(3) c by (simp add: sid_n_def)
  have noop: "t\<lparr>dcc_sids := ReleaseSid sid (dcc_sids t)\<rparr> = t" if "sid_n r t = Some sid" for sid
  proof -
    have "\<forall>y \<in> set rs. sid_n y s \<noteq> Some sid"
      using ids stored_facts(1) [OF st] that unfolding ids_ok_def same by force
    then have "ReleaseSid sid (dcc_sids t) = dcc_sids t"
      using inv(1) unfolding ctl_inv_def ids_ok_def same by (auto simp: ReleaseSid_def)
    then show ?thesis by simp
  qed
  obtain y where y: "result = Returns y"
    using Cons.prems(3) t(1) by (cases result) (auto simp: close_detached_def)
  have "close_detached tr e r s = (t, Returns ())"
    using t(1) noop by (cases "sid_n r t") (simp_all add: y close_detached_def)
  then have "each (close_detached tr e) rs t = (s', Returns x)"
    using Cons.prems(3) by simp
  with inv show ?case by (rule Cons.IH)
qed simp

lemma OnTransportClosed_empties:
  assumes "ctl_ok s" "OnTransportClosed tr e s = (s', Returns x)"
  shows "ctl_inv [] s' \<and> dcc_channels s' = []"
proof -
  let ?s = "s\<lparr>dcc_channels := []\<rparr>"
  have same: "sid_n r ?s = sid_n r s" "dcc_heap ?s = dcc_heap s" "dcc_next ?s = dcc_next s"
    "dcc_sids ?s = dcc_sids s" "dcc_channels ?s = []" for r by (simp_all add: sid_n_def)
  have st: "stored_ok (dcc_channels s) s" and ids: "ids_ok (dcc_channels s) s"
    using assms(1) by (simp_all add: ctl_ok_def ctl_inv_def)
  have "stored_ok (dcc_channels s) ?s"
    using st by (rule stored_detach) simp_all
  moreover have "ids_ok (dcc_channels s) ?s" using ids unfolding ids_ok_def same .
  ultimately have "ctl_inv (dcc_channels s) ?s" by (simp add: ctl_inv_def)
  then show ?thesis
    by (rule close_all) (use assms(2) in \<open>simp_all add: OnTransportClosed_def\<close>)
qed

lemma OnTransportClosed_upholds: "upholds ctl_ok (OnTransportClosed tr e)"
  unfolding upholds_def using OnTransportClosed_empties by (force simp: ctl_ok_def)

lemma no_transport_run:
  obtains t' where "set_data_channel_transport tr None t = (t', Returns ())" "ctl_view t' = ctl_view t"
  by (cases "dcc_transport t") (simp_all add: set_data_channel_transport_def ctl_note_def ctl_view_def)

lemma Teardown_upholds: "upholds ctl_ok (TeardownDataChannelTransport_n tr e)"
  unfolding upholds_def
proof (intro allI impI)
  fix s s' x
  assume ok: "ctl_ok s" and run: "TeardownDataChannelTransport_n tr e s = (s', Returns x)"
  then obtain t y where t: "OnTransportClosed tr e s = (t, Returns y)"
    by (cases "OnTransportClosed tr e s"; cases "snd (OnTransportClosed tr e s)")
      (auto simp: TeardownDataChannelTransport_n_def)
  have inv: "ctl_inv [] t" "dcc_channels t = []" using OnTransportClosed_empties [OF ok t] by simp_all
  obtain t' where t': "set_data_channel_transport tr None t = (t', Returns ())" "ctl_view t' = ctl_view t"
    by (rule no_transport_run)
  have view: "dcc_heap s' = (\<lambda>r. map_option (\<lambda>c. c\<lparr>dc_controller := False\<rparr>) (dcc_heap t r))"
    "dcc_next s' = dcc_next t" "dcc_sids s' = dcc_sids t" "dcc_channels s' = []"
    using run t t' inv(2)
    by (auto simp: TeardownDataChannelTransport_n_def InvalidateWeakPtrs_def ctl_view_def)
  have "stored_ok [] s'"
    using inv(1) unfolding ctl_inv_def stored_ok_def view by auto
  moreover have "ids_ok [] s'"
    using inv(1) unfolding ctl_inv_def ids_ok_def view by simp
  ultimately show "ctl_ok s'" by (simp add: ctl_ok_def ctl_inv_def view)
qed

section \<open>Creating channels\<close>

lemma new_inv:
  assumes ok: "ctl_ok s" and c: "dc_state c \<noteq> kClosed" "dc_controller c"
    and fresh: "\<And>sid. dc_id_n c = Some sid \<Longrightarrow> sid \<notin> dcc_sids s \<and> sid \<le> kMaxSctpSid"
    and s': "dcc_heap s' = (dcc_heap s)(dcc_next s \<mapsto> c)" "dcc_next s' = Suc (dcc_next s)"
    "dcc_channels s' = dcc_channels s @ [dcc_next s]" "dcc_sids s' = dcc_sids s \<union> {sid. dc_id_n c = Some sid}"
  shows "ctl_ok s'"
proof -
  let ?n = "dcc_next s" and ?L = "dcc_channels s"
  have st: "stored_ok ?L s" and ids: "ids_ok ?L s" using ok by (simp_all add: ctl_ok_def ctl_inv_def)
  have new: "?n \<notin> set ?L" using stored_facts(5) [OF st] by blast
  have "stored_ok (?L @ [?n]) s'"
    unfolding stored_ok_def s'
  proof (intro conjI allI)
    show "((dcc_heap s)(?n \<mapsto> c)) r = None \<longleftrightarrow> Suc ?n \<le> r" for r
      using stored_facts(4) [OF st, of r] by auto
    show "((dcc_heap s)(?n \<mapsto> c)) r = Some d \<longrightarrow>
        (r \<in> set (?L @ [?n]) \<longleftrightarrow> dc_state d \<noteq> kClosed) \<and> (r \<in> set (?L @ [?n]) \<longrightarrow> dc_controller d)" for r d
      using stored_facts(6) [OF st, of r d] c by (cases "r = ?n") auto
  qed (use new stored_facts(1,5) [OF st] in \<open>auto simp: less_Suc_eq\<close>)
  moreover have "ids_ok (?L @ [?n]) s'"
  proof -
    have old: "sid_n r s' = sid_n r s" if "r \<in> set ?L" for r
      using that new s'(1) by (auto simp: sid_n_def)
    have n: "sid_n ?n s' = dc_id_n c" by (simp add: sid_n_def s'(1))
    have pool: "dcc_sids s = {sid. \<exists>r \<in> set ?L. sid_n r s = Some sid}"
      and inj: "\<And>r r' sid. r \<in> set ?L \<Longrightarrow> r' \<in> set ?L \<Longrightarrow> sid_n r s = Some sid \<Longrightarrow> sid_n r' s = Some sid \<Longrightarrow> r = r'"
      and small: "\<And>sid. sid \<in> dcc_sids s \<Longrightarrow> sid \<le> kMaxSctpSid"
      using ids unfolding ids_ok_def by blast+
    have "dcc_sids s' = {sid. \<exists>r \<in> set (?L @ [?n]). sid_n r s' = Some sid}"
      using pool old n by (auto simp: s'(4))
    moreover have "\<forall>r \<in> set (?L @ [?n]). \<forall>r' \<in> set (?L @ [?n]). \<forall>sid.
        sid_n r s' = Some sid \<longrightarrow> sid_n r' s' = Some sid \<longrightarrow> r = r'"
      using inj old n fresh pool by auto
    moreover have "\<forall>sid \<in> dcc_sids s'. sid \<le> kMaxSctpSid" using small fresh by (auto simp: s'(4))
    ultimately show ?thesis unfolding ids_ok_def by blast
  qed
  ultimately show ?thesis by (simp add: ctl_ok_def ctl_inv_def s'(3))
qed

lemma Reserve_cases:
  assumes "\<And>i. sid = Some i \<Longrightarrow> i \<le> kMaxSctpSid"
  obtains failure sid' where
    "ReserveOrAllocateSid role sid fallback s =
       (s\<lparr>dcc_sids := dcc_sids s \<union> {i. RTCError_ok failure \<and> sid' = Some i}\<rparr>, Returns (failure, sid'))"
    "RTCError_ok failure \<and> sid' \<noteq> None \<longrightarrow> the sid' \<notin> dcc_sids s \<and> the sid' \<le> kMaxSctpSid"
proof -
  have same: "s\<lparr>dcc_sids := dcc_sids s\<rparr> = s" by simp
  have "\<exists>failure sid'. ReserveOrAllocateSid role sid fallback s =
       (s\<lparr>dcc_sids := dcc_sids s \<union> {i. RTCError_ok failure \<and> sid' = Some i}\<rparr>, Returns (failure, sid')) \<and>
     (RTCError_ok failure \<and> sid' \<noteq> None \<longrightarrow> the sid' \<notin> dcc_sids s \<and> the sid' \<le> kMaxSctpSid)"
  proof (cases sid)
    case (Some i)
    with assms show ?thesis
      by (cases "i \<in> dcc_sids s")
        (auto simp: ReserveOrAllocateSid_def ReserveSid_def RTCError_OK_def RTCError_ok_def RTCError_of_def insert_absorb)
  next
    case None
    show ?thesis
    proof (cases "if role = None then fallback else role")
      case None
      with \<open>sid = None\<close> show ?thesis
        by (simp add: ReserveOrAllocateSid_def)
    next
      case (Some ro)
      obtain a u where au: "AllocateSid ro (dcc_sids s) = (a, u)" by fastforce
      show ?thesis
      proof (cases a)
        case None
        then have "u = dcc_sids s" using AllocateSid_None(1) au by simp
        with \<open>sid = None\<close> Some au None show ?thesis
          by (auto simp: ReserveOrAllocateSid_def RTCError_ok_def RTCError_of_def)
      next
        case (Some i)
        then have "u = insert i (dcc_sids s)" "i \<notin> dcc_sids s" "i \<le> kMaxSctpSid"
          using AllocateSid_Some au by simp_all
        with \<open>sid = None\<close> \<open>(if role = None then fallback else role) = Some ro\<close> au Some show ?thesis
          by (auto simp: ReserveOrAllocateSid_def RTCError_ok_def RTCError_OK_def RTCError_of_def)
      qed
    qed
  qed
  then show thesis using that by blast
qed

lemma CreateDataChannel_upholds: "upholds ctl_ok (CreateDataChannel role label config)"
  unfolding upholds_def
proof (intro allI impI)
  fix s s' :: DataChannelController and x
  assume ok: "ctl_ok s" and run: "CreateDataChannel role label config s = (s', Returns x)"
  show "ctl_ok s'"
  proof (cases "dci_id config \<noteq> -1 \<and> (dci_id config < 0 \<or> dci_id config > int kMaxSctpSid)")
    case True
    with run ok show ?thesis by (auto simp: CreateDataChannel_def)
  next
    case False
    let ?sid = "if dci_id config = -1 then None else Some (nat (dci_id config))"
    have small: "i \<le> kMaxSctpSid" if "?sid = Some i" for i using that False by (auto split: if_splits)
    obtain failure sid' where res:
      "ReserveOrAllocateSid role ?sid (fallback_ssl_role config) s =
         (s\<lparr>dcc_sids := dcc_sids s \<union> {i. RTCError_ok failure \<and> sid' = Some i}\<rparr>, Returns (failure, sid'))"
      "RTCError_ok failure \<and> sid' \<noteq> None \<longrightarrow> the sid' \<notin> dcc_sids s \<and> the sid' \<le> kMaxSctpSid"
      using small by (rule Reserve_cases)
    show ?thesis
    proof (cases "RTCError_ok failure")
      case bad: False
      then have "s' = s" using run False res(1) by (simp add: CreateDataChannel_def)
      with ok show ?thesis by simp
    next
      case True
      let ?config = "case sid' of None \<Rightarrow> config | Some i \<Rightarrow> config\<lparr>dci_id := int i\<rparr>"
      let ?c = "SctpDataChannel_create ?config True label (dcc_transport s \<noteq> None) (int (dcc_next s) + 1)"
      have none: "dci_id config = -1" if "sid' = None"
        using res(1) that True
        by (auto simp: ReserveOrAllocateSid_def ReserveSid_def split: if_splits)
      have id: "dc_id_n ?c = sid'"
        using res(2) True none
        by (cases sid') (auto simp: SctpDataChannel_create_def kMaxSctpSid_def kMaxSctpStreams_def)
      have view: "dcc_heap s' = (dcc_heap s)(dcc_next s \<mapsto> ?c)" "dcc_next s' = Suc (dcc_next s)"
        "dcc_channels s' = dcc_channels s @ [dcc_next s]"
        using run False res(1) True
        by (cases sid'; force simp: CreateDataChannel_def new_channel_def AddSctpDataStream_def to_transport_run Let_def)+
      have sids: "dcc_sids s' = dcc_sids s \<union> {i. sid' = Some i}"
        using run False res(1) True
        by (cases sid') (auto simp: CreateDataChannel_def new_channel_def AddSctpDataStream_def to_transport_run Let_def
            split: if_splits)
      show ?thesis
        by (rule new_inv [OF ok, of ?c])
          (use view sids id res(2) True in \<open>auto simp: SctpDataChannel_create_def\<close>)
    qed
  qed
qed

lemma Create_upholds:
  "upholds ctl_ok (InternalCreateDataChannelWithProxy tr role label config)"
  "upholds ctl_ok (HandleOpenMessage_n tr role channel_id type buffer)"
  unfolding InternalCreateDataChannelWithProxy_def HandleOpenMessage_n_def post_ready_def case_prod_beta
  by (intro upholds_rules CreateDataChannel_upholds view_upholds call_upholds handler_announces;
      simp add: ctl_view_def)+

lemma OnDataReceived_upholds: "upholds ctl_ok (dcc_OnDataReceived tr role channel_id type buffer)"
  unfolding dcc_OnDataReceived_def
  by (intro upholds_rules Create_upholds found_upholds handler_announces)

section \<open>Assigning stream ids\<close>

lemma ctl_inv_set:
  assumes "ctl_inv L s" "set L' = set L" "distinct L'"
  shows "ctl_inv L' s"
  using assms(1,3) unfolding ctl_inv_def stored_ok_def ids_ok_def assms(2)
  by (elim conjE) (intro conjI; assumption)

text \<open>A channel without an id gets one that is not in the pool.\<close>

lemma assign_inv:
  assumes inv: "ctl_inv L s" and r: "r \<in> set L" "dcc_heap s r = Some c" "dc_id_n c = None"
    and sid: "sid \<notin> dcc_sids s" "sid \<le> kMaxSctpSid"
    and s': "dcc_heap s' = (dcc_heap s)(r \<mapsto> c\<lparr>dc_id_n := Some sid\<rparr>)" "dcc_next s' = dcc_next s"
    "dcc_channels s' = dcc_channels s" "dcc_sids s' = insert sid (dcc_sids s)"
  shows "ctl_inv L s'"
proof -
  have st: "stored_ok L s" and ids: "ids_ok L s" using inv by (simp_all add: ctl_inv_def)
  have old: "sid_n x s' = (if x = r then Some sid else sid_n x s)" for x
    using s'(1) by (simp add: sid_n_def)
  have none: "sid_n r s = None" using r by (simp add: sid_n_def)
  have pool: "dcc_sids s = {i. \<exists>x \<in> set L. sid_n x s = Some i}"
    and inj: "\<And>x y i. x \<in> set L \<Longrightarrow> y \<in> set L \<Longrightarrow> sid_n x s = Some i \<Longrightarrow> sid_n y s = Some i \<Longrightarrow> x = y"
    and small: "\<And>i. i \<in> dcc_sids s \<Longrightarrow> i \<le> kMaxSctpSid"
    using ids unfolding ids_ok_def by blast+
  have "(\<exists>x \<in> set L. sid_n x s' = Some i) \<longleftrightarrow> i = sid \<or> (\<exists>x \<in> set L. sid_n x s = Some i)" for i
    using r(1) none old by (metis option.distinct(1) option.inject)
  then have "dcc_sids s' = {i. \<exists>x \<in> set L. sid_n x s' = Some i}"
    by (auto simp: s'(4) pool)
  moreover have "\<forall>x \<in> set L. \<forall>y \<in> set L. \<forall>i. sid_n x s' = Some i \<longrightarrow> sid_n y s' = Some i \<longrightarrow> x = y"
    using inj sid(1) pool by (auto simp: old)
  moreover have "\<forall>i \<in> dcc_sids s'. i \<le> kMaxSctpSid" using small sid(2) by (auto simp: s'(4))
  ultimately have "ids_ok L s'" unfolding ids_ok_def by blast
  moreover have "stored_ok L s'" by (rule stored_change [OF st r(2) _ _ s'(1-3)]) simp_all
  ultimately show ?thesis by (simp add: ctl_inv_def)
qed

lemma call_SetSctpSid:
  assumes "dcc_heap s r = Some c"
  shows "call_channel tr r (\<lambda>_. SetSctpSid_n sid) s =
    (s\<lparr>dcc_heap := (dcc_heap s)(r \<mapsto> c\<lparr>dc_id_n := Some sid\<rparr>)\<rparr>, Returns ())"
  using assms by (simp add: call_channel_def SetSctpSid_n_def)

text \<open>One round that assigns an id: the channel is still on the list afterwards.\<close>

lemma assign_round:
  assumes inv: "ctl_inv L s" and r: "r \<in> set (dcc_channels s)" "sid_n r s = None"
    and sid: "sid \<notin> dcc_sids s" "sid \<le> kMaxSctpSid"
    and run: "seq (update (\<lambda>s. s\<lparr>dcc_sids := insert sid used\<rparr>)) (\<lambda>_.
             seq (call_channel tr r (\<lambda>_. SetSctpSid_n sid)) (\<lambda>_.
             seq (look (channel_priority_of r)) (\<lambda>priority.
             seq (AddSctpDataStream sid priority) (\<lambda>_.
             seq (onlyif ready (call_channel tr r (\<lambda>k. OnTransportReady g k))) (\<lambda>_.
             seq (look dcc_channels) (\<lambda>cs'.
             if cs' \<noteq> dcc_channels s then fail IteratorInvalidated else rest)))))) s = (s', Returns x)"
    and used: "used = dcc_sids s"
  obtains t where "ctl_inv L t" "dcc_channels t = dcc_channels s" "rest t = (s', Returns x)"
proof -
  have st: "stored_ok L s" using inv by (simp add: ctl_inv_def)
  have rL: "r \<in> set L" using stored_facts(3) [OF st] r(1) by blast
  obtain c where c: "dcc_heap s r = Some c" using stored_live [OF st rL] by blast
  have idc: "dc_id_n c = None" using r(2) c by (simp add: sid_n_def)
  let ?c = "c\<lparr>dc_id_n := Some sid\<rparr>"
  let ?s1 = "s\<lparr>dcc_sids := insert sid used, dcc_heap := (dcc_heap s)(r \<mapsto> ?c)\<rparr>"
  let ?e = "OpenChannel sid (channel_priority_of r ?s1)"
  let ?s2 = "if dcc_transport s = None then ?s1 else ?s1\<lparr>dcc_events := dcc_events s @ [?e]\<rparr>"
  have inv1: "ctl_inv L ?s1"
    using assign_inv [OF inv rL c idc sid, of ?s1] used by simp
  moreover have "ctl_view ?s2 = ctl_view ?s1" by (simp add: ctl_view_def)
  ultimately have inv2: "ctl_inv L ?s2" using ctl_inv_view by blast
  have c2: "dcc_heap ?s2 r = Some ?c" and ch2: "dcc_channels ?s2 = dcc_channels s" by simp_all
  have run2: "seq (onlyif ready (call_channel tr r (\<lambda>k. OnTransportReady g k))) (\<lambda>_.
      seq (look dcc_channels) (\<lambda>cs'.
      if cs' \<noteq> dcc_channels s then fail IteratorInvalidated else rest)) ?s2 = (s', Returns x)"
    using run c by (cases "dcc_transport s") (simp_all add: call_SetSctpSid AddSctpDataStream_def to_transport_run)
  show thesis
  proof (cases ready)
    case False
    with run2 ch2 show thesis by (intro that [OF inv2]) (simp_all split: if_splits)
  next
    case True
    obtain t c' result where t: "call_channel tr r (\<lambda>k. OnTransportReady g k) ?s2 = (t, result)"
      "OnTransportReady g (channel_controller tr ?s2) ?c = (c', result)"
      "dcc_heap t = (dcc_heap ?s2)(r \<mapsto> c')" "ctl_inv (if dc_state c' = kClosed then remove1 r L else L) t"
      "dcc_channels t = (if dc_state c' = kClosed then remove1 r (dcc_channels ?s2) else dcc_channels ?s2)"
      by (rule call_inv [OF inv2 c2, of "\<lambda>k. OnTransportReady g k" tr, OF handler_announces(1)])
    obtain y where y: "result = Returns y" using run2 True t(1) by (cases result) simp_all
    have same: "dcc_channels t = dcc_channels s" "rest t = (s', Returns x)"
      using run2 True t(1) y by (simp_all split: if_splits)
    have "r \<notin> set (remove1 r (dcc_channels s))" using stored_facts(2) [OF st] by simp
    then have "dc_state c' \<noteq> kClosed" using same(1) t(5) r(1) by (auto split: if_splits)
    with t(4) same show thesis by (intro that) simp_all
  qed
qed

lemma allocate_loop_inv:
  assumes "ctl_inv (dcc_channels s @ rs) s" "allocate_loop g tr role ready n i rs s = (s', Returns rs')"
  shows "ctl_inv (dcc_channels s' @ rs') s'"
  using assms
proof (induction n arbitrary: i rs s)
  case (Suc n)
  let ?cs = "dcc_channels s"
  have st: "stored_ok (?cs @ rs) s" using Suc.prems(1) by (simp add: ctl_inv_def)
  show ?case
  proof (cases "length ?cs \<le> i")
    case True
    with Suc.prems show ?thesis by simp
  next
    case False
    let ?r = "?cs ! i"
    have r: "?r \<in> set ?cs" using False by simp
    show ?thesis
    proof (cases "sid_n ?r s")
      case (Some sid)
      with False Suc.prems(2) have "allocate_loop g tr role ready n (Suc i) rs s = (s', Returns rs')"
        by (simp add: Let_def)
      with Suc.prems(1) show ?thesis by (rule Suc.IH)
    next
      case None
      obtain a used' where a: "AllocateSid role (dcc_sids s) = (a, used')" by fastforce
      show ?thesis
      proof (cases a)
        case (Some sid)
        have sid: "sid \<notin> dcc_sids s" "sid \<le> kMaxSctpSid" "used' = insert sid (dcc_sids s)"
          using AllocateSid_Some a Some by simp_all
        obtain t where "ctl_inv (?cs @ rs) t" "dcc_channels t = ?cs"
          "allocate_loop g tr role ready n (Suc i) rs t = (s', Returns rs')"
          by (rule assign_round [OF Suc.prems(1) r None sid(1,2) _ refl, of tr ready g
                "allocate_loop g tr role ready n (Suc i) rs" s' rs'])
            (use Suc.prems(2) False None a Some sid(3) in \<open>simp_all add: Let_def\<close>)
        then show ?thesis using Suc.IH [of t rs "Suc i"] by simp
      next
        case none: None
        let ?s = "s\<lparr>dcc_channels := remove1 ?r ?cs\<rparr>"
        have u: "used' = dcc_sids s" using AllocateSid_None(1) a none by simp
        have loop: "allocate_loop g tr role ready n i (rs @ [?r]) ?s = (s', Returns rs')"
          using Suc.prems(2) False None a none u by (simp add: Let_def)
        have d: "distinct (?cs @ rs)" "distinct ?cs" using stored_facts(1) [OF st] by simp_all
        have same: "sid_n x ?s = sid_n x s" "dcc_sids ?s = dcc_sids s" for x by (simp_all add: sid_n_def)
        have "stored_ok (?cs @ rs) ?s"
          by (rule stored_detach [OF st]) (use d(2) set_remove1_subset [of ?r ?cs] in simp_all)
        moreover have "ids_ok (?cs @ rs) ?s"
          using Suc.prems(1) unfolding ctl_inv_def ids_ok_def same by blast
        ultimately have "ctl_inv (?cs @ rs) ?s" by (simp add: ctl_inv_def)
        then have "ctl_inv (dcc_channels ?s @ (rs @ [?r])) ?s"
          by (rule ctl_inv_set) (use d r in \<open>auto simp: set_remove1_eq\<close>)
        then show ?thesis using loop by (rule Suc.IH)
      qed
    qed
  qed
qed simp

lemma close_unassigned:
  assumes "ctl_inv (dcc_channels s @ rs) s"
    and "each (\<lambda>r. call_channel tr r (\<lambda>_. CloseAbruptlyWithDataChannelFailure msg)) rs s = (s', Returns x)"
  shows "ctl_ok s'"
  using assms
proof (induction rs arbitrary: s)
  case Nil
  then show ?case by (simp add: ctl_ok_def)
next
  case (Cons r rs)
  have st: "stored_ok (dcc_channels s @ r # rs) s" using Cons.prems(1) by (simp add: ctl_inv_def)
  obtain c where c: "dcc_heap s r = Some c" using stored_live [OF st, of r] by auto
  have d: "distinct (dcc_channels s @ r # rs)" by (rule stored_facts(1) [OF st])
  obtain t c' result where t: "call_channel tr r (\<lambda>_. CloseAbruptlyWithDataChannelFailure msg) s = (t, result)"
    "CloseAbruptlyWithDataChannelFailure msg c = (c', result)" "dcc_heap t = (dcc_heap s)(r \<mapsto> c')"
    "ctl_inv (if dc_state c' = kClosed then remove1 r (dcc_channels s @ r # rs) else dcc_channels s @ r # rs) t"
    "dcc_channels t = (if dc_state c' = kClosed then remove1 r (dcc_channels s) else dcc_channels s)"
    by (rule call_inv [OF Cons.prems(1) c, of "\<lambda>_. CloseAbruptlyWithDataChannelFailure msg" tr,
          OF handler_announces(9)])
  have "dc_state c' = kClosed"
    using t(2) CloseAbruptly_state [of _ c]
    by (metis CloseAbruptlyWithDataChannelFailure_def fst_conv)
  then have "ctl_inv (dcc_channels t @ rs) t"
    using t(4,5) d by (simp add: remove1_append remove1_idem)
  moreover have "each (\<lambda>r. call_channel tr r (\<lambda>_. CloseAbruptlyWithDataChannelFailure msg)) rs t = (s', Returns x)"
    using Cons.prems(2) t(1) by (cases result) simp_all
  ultimately show ?case by (rule Cons.IH)
qed

lemma AllocateSctpSids_upholds: "upholds ctl_ok (AllocateSctpSids g tr role)"
  unfolding upholds_def
proof (intro allI impI)
  fix s s' x
  assume ok: "ctl_ok s" and run: "AllocateSctpSids g tr role s = (s', Returns x)"
  let ?ready = "dcc_transport s \<noteq> None \<and> tr_IsReadyToSend tr" and ?n = "length (dcc_channels s)"
  obtain t out where t: "allocate_loop g tr role ?ready ?n 0 [] s = (t, out)" by fastforce
  then obtain rs where rs: "out = Returns rs"
    using run by (cases out) (simp_all add: AllocateSctpSids_def)
  have "ctl_inv (dcc_channels t @ rs) t"
    using allocate_loop_inv [of s "[]"] ok t rs by (simp add: ctl_ok_def)
  then show "ctl_ok s'"
    by (rule close_unassigned) (use run t rs in \<open>simp add: AllocateSctpSids_def\<close>)
qed

section \<open>Histories\<close>

text \<open>The calls of the controller, from the peer connection, the transport, the two threads and the application.\<close>

inductive dcc_step :: "DataChannelController \<Rightarrow> DataChannelController \<Rightarrow> bool" where
  "InternalCreateDataChannelWithProxy tr role label config s = (s', Returns x) \<Longrightarrow> dcc_step s s'"
| "AllocateSctpSids g tr ssl s = (s', Returns ()) \<Longrightarrow> dcc_step s s'"
| "dcc_OnDataReceived tr role channel_id type buffer s = (s', Returns ()) \<Longrightarrow> dcc_step s s'"
| "OnChannelClosing tr channel_id s = (s', Returns ()) \<Longrightarrow> dcc_step s s'"
| "OnChannelClosed tr channel_id s = (s', Returns ()) \<Longrightarrow> dcc_step s s'"
| "OnReadyToSend g tr s = (s', Returns ()) \<Longrightarrow> dcc_step s s'"
| "OnTransportClosed tr e s = (s', Returns ()) \<Longrightarrow> dcc_step s s'"
| "dcc_OnBufferedAmountLow tr channel_id s = (s', Returns ()) \<Longrightarrow> dcc_step s s'"
| "SetupDataChannelTransport_n tr t s = (s', Returns ()) \<Longrightarrow> dcc_step s s'"
| "TeardownDataChannelTransport_n tr e s = (s', Returns ()) \<Longrightarrow> dcc_step s s'"
| "OnTransportChanged tr t' s = (s', Returns ()) \<Longrightarrow> dcc_step s s'"
| "PrepareForShutdown s = (s', Returns ()) \<Longrightarrow> dcc_step s s'"
| "run_ready_task g tr s = (s', Returns ()) \<Longrightarrow> dcc_step s s'"
| "run_controller_task tr s = (s', Returns ()) \<Longrightarrow> dcc_step s s'"
| "call_channel tr r (\<lambda>k. dc_handle k call) s = (s', Returns ()) \<Longrightarrow> (\<And>sid. call \<noteq> C_SetSctpSid sid) \<Longrightarrow>
   dcc_step s s'"

lemmas controller_upholds = Create_upholds(1) AllocateSctpSids_upholds OnDataReceived_upholds report_upholds
  OnChannelClosed_upholds OnTransportClosed_upholds transport_change_upholds Teardown_upholds shutdown_upholds
  ready_task_upholds controller_task_upholds

lemma transport_calls_uphold:
  "upholds ctl_ok (SetupDataChannelTransport_n tr t)" "upholds ctl_ok (OnTransportChanged tr t')"
  unfolding SetupDataChannelTransport_n_def OnTransportChanged_def
  by (intro upholds_rules transport_change_upholds)+

lemmas controller_keeps = controller_upholds [THEN upholdsD] transport_calls_uphold [THEN upholdsD]
  call_upholds [OF channel_call_announces, THEN upholdsD]

interpretation ctl: step_invariant dcc_step ctl_ok
proof
  fix s s' assume "dcc_step s s'" "ctl_ok s"
  then show "ctl_ok s'"
    by (induction rule: dcc_step.induct) (rule controller_keeps; assumption)+
qed

lemma ctl_ok_create: "ctl_ok dcc_create"
  by (simp add: dcc_create_def ctl_ok_def ctl_inv_def stored_ok_def ids_ok_def)

abbreviation ctl_reach :: "DataChannelController \<Rightarrow> bool" where
  "ctl_reach s \<equiv> dcc_step\<^sup>*\<^sup>* dcc_create s"

end
