(* ===== verification/Handshake.thy ===== *)
theory Handshake
  imports Controller_Invariant
begin

text \<open>
  The opening handshake of a data channel, across \<open>SctpDataChannel::OnTransportReady\<close> of the opener,
  the OPEN message, \<open>DataChannelController::OnDataReceived\<close> and \<open>CreateDataChannel\<close> of the other
  side, its \<open>OnTransportReady\<close>, the acknowledgement and \<open>SctpDataChannel::OnDataReceived\<close> of the
  opener; and what happens when the transport refuses the OPEN message while ids are assigned.
\<close>

section \<open>Control messages\<close>

definition connecting :: "HandshakeState \<Rightarrow> nat \<Rightarrow> SctpDataChannel \<Rightarrow> bool" where
  "connecting h sid c \<longleftrightarrow> dc_state c = kConnecting \<and> dc_network_safety c \<and> dc_controller c \<and>
     dc_handshake_state c = h \<and> dc_id_n c = Some sid"

definition control_params :: "SctpDataChannel \<Rightarrow> SendDataParams" where
  "control_params c = SendDataParams_default
     \<lparr>sdp_ordered := dc_ordered c \<or> dc_handshake_state c = kHandshakeShouldSendOpen, sdp_type := kControl\<rparr>"

definition after_control :: "HandshakeState \<Rightarrow> HandshakeState" where
  "after_control h =
     (if h = kHandshakeShouldSendAck then kHandshakeReady
      else if h = kHandshakeShouldSendOpen then kHandshakeWaitingForAck else h)"

lemma SendControlMessage_accepted:
  assumes "dc_id_n c = Some sid" "RTCError_ok (ctl_SendData k sid (control_params c) bs)"
  shows "SendControlMessage k bs c =
    (c\<lparr>dc_log := dc_log c @ [Sent sid (control_params c) bs],
       dc_handshake_state := after_control (dc_handshake_state c)\<rparr>, Returns True)"
proof -
  have "ctl_send k sid (control_params c) bs c =
      (c\<lparr>dc_log := dc_log c @ [Sent sid (control_params c) bs]\<rparr>, Returns (ctl_SendData k sid (control_params c) bs))"
    by (simp add: ctl_send_def)
  with assms show ?thesis
    unfolding SendControlMessage_def Let_def control_params_def [symmetric]
    by (simp add: run_the_sid after_control_def)
qed

lemma SendControlMessage_refused:
  assumes "dc_state c \<noteq> kClosed" "dc_id_n c = Some sid"
    "\<not> RTCError_ok (ctl_SendData k sid (control_params c) bs)"
  obtains c' where "SendControlMessage k bs c = (c', Returns False)" "dc_state c' = kClosed"
proof -
  let ?e = "(ctl_SendData k sid (control_params c) bs)\<lparr>err_message := ''Failed to send a CONTROL message''\<rparr>"
  let ?c = "c\<lparr>dc_log := dc_log c @ [Sent sid (control_params c) bs]\<rparr>"
  have send: "ctl_send k sid (control_params c) bs c = (?c, Returns (ctl_SendData k sid (control_params c) bs))"
    by (simp add: ctl_send_def)
  have "dc_state ?c \<noteq> kClosed" using assms(1) by simp
  then obtain c' where c': "CloseAbruptlyWithError ?e ?c = (c', Returns ())" "dc_state c' = kClosed"
    by (rule CloseAbruptly_effect)
  have "SendControlMessage k bs c = (c', Returns False)"
    using assms(2,3) c'(1) unfolding SendControlMessage_def Let_def control_params_def [symmetric]
    by (simp add: run_the_sid send)
  then show thesis using c'(2) by (rule that)
qed

section \<open>Opening\<close>

text \<open>After the control message is out, the channel is open.\<close>

lemma open_frame:
  "dc_handshake_state (fst (SetState s c)) = dc_handshake_state c"
  "dc_handshake_state (fst (DeliverQueuedReceivedData c)) = dc_handshake_state c"
  "set (dc_log c) \<subseteq> set (dc_log (fst (SetState s c)))"
  "set (dc_log c) \<subseteq> set (dc_log (fst (DeliverQueuedReceivedData c)))"
proof -
  have "preserves dc_handshake_state (deliver_loop n)" for n
  proof (induction n)
    case (Suc n)
    then show ?case unfolding deliver_loop.simps deliver_front_def by (intro dc_rules; simp)
  qed (simp only: deliver_loop.simps preserves_ret)
  then have "preserves dc_handshake_state DeliverQueuedReceivedData"
    unfolding DeliverQueuedReceivedData_def by (intro dc_rules)
  then show "dc_handshake_state (fst (DeliverQueuedReceivedData c)) = dc_handshake_state c"
    by (rule preservesD)
  show "dc_handshake_state (fst (SetState s c)) = dc_handshake_state c"
    by (rule preservesD, rule SetState_preserves; simp)
  show "set (dc_log c) \<subseteq> set (dc_log (fst (SetState s c)))"
    by (cases "dc_state c = s"; cases "dc_observer c"; cases "dc_controller c"; auto simp: SetState_def run_tell)
  show "set (dc_log c) \<subseteq> set (dc_log (fst (DeliverQueuedReceivedData c)))"
    using announces_Deliver [of c] by (auto simp: goes_def announces_def)
qed

definition opened :: "HandshakeState \<Rightarrow> dc_event \<Rightarrow> SctpDataChannel \<Rightarrow> bool" where
  "opened h e c \<longleftrightarrow> dc_state c = kOpen \<and> dc_handshake_state c = h \<and> e \<in> set (dc_log c)"

lemma SetState_opens:
  assumes "h \<in> {kHandshakeReady, kHandshakeWaitingForAck}" "dc_handshake_state c = h" "e \<in> set (dc_log c)"
  obtains c' where "seq (SetState kOpen) (\<lambda>_. DeliverQueuedReceivedData) c = (c', Returns ())" "opened h e c'"
proof -
  let ?c = "fst (SetState kOpen c)"
  obtain c' where c': "DeliverQueuedReceivedData ?c = (c', Returns ())" "dc_state c' = dc_state ?c"
    by (rule DeliverQueuedReceivedData_effect)
  have "dc_handshake_state c' = h" "e \<in> set (dc_log c')"
    using open_frame(2,4) [of ?c] open_frame(1,3) [where s = kOpen and c = c] assms c'(1) by auto
  with c' show thesis by (intro that [of c']) (simp_all add: seq_SetState opened_def)
qed

definition open_payload :: "SctpDataChannel \<Rightarrow> bytes" where
  "open_payload c =
     (case open_reliability (dc_ordered c) (dc_max_retransmits c) (dc_max_retransmit_time c) of
        (ctype, rel) \<Rightarrow>
          open_bytes ctype (case dc_priority c of Some p \<Rightarrow> p | None \<Rightarrow> PriorityValue pLow) rel (dc_label c) (dc_protocol c))"

lemma open_payload_written:
  "WriteDataChannelOpenMessage g (dc_label c) (dc_protocol c) (dc_priority c) (dc_ordered c)
     (dc_max_retransmits c) (dc_max_retransmit_time c) = Returns (open_payload c)"
  by (cases "open_reliability (dc_ordered c) (dc_max_retransmits c) (dc_max_retransmit_time c)")
    (simp add: open_payload_def WriteDataChannelOpenMessage_bytes)

lemma opener_opens:
  assumes c: "connecting kHandshakeShouldSendOpen sid c"
    and k: "RTCError_ok (ctl_SendData k sid (control_params c) (open_payload c))"
  obtains c' where "OnTransportReady g k c = (c', Returns ())"
    "opened kHandshakeWaitingForAck (Sent sid (control_params c) (open_payload c)) c'"
proof -
  have f: "dc_state c = kConnecting" "dc_network_safety c" "dc_controller c"
    "dc_handshake_state c = kHandshakeShouldSendOpen" "dc_id_n c = Some sid"
    using c by (simp_all add: connecting_def)
  let ?e = "Sent sid (control_params c) (open_payload c)"
  let ?c = "c\<lparr>dc_log := dc_log c @ [?e], dc_handshake_state := kHandshakeWaitingForAck\<rparr>"
  have send: "send_handshake g k c = (?c, Returns ())"
    using f SendControlMessage_accepted [OF f(5) k]
    by (simp add: send_handshake_def open_payload_written after_control_def)
  obtain c' where c': "seq (SetState kOpen) (\<lambda>_. DeliverQueuedReceivedData) ?c = (c', Returns ())"
    "opened kHandshakeWaitingForAck ?e c'"
    by (rule SetState_opens [of kHandshakeWaitingForAck ?c ?e]) simp_all
  then show thesis
    using f send by (intro that) (simp_all add: OnTransportReady_def UpdateState_def UpdateState_connecting_def)
qed

lemma acker_opens:
  assumes c: "connecting kHandshakeShouldSendAck sid c"
    and k: "RTCError_ok (ctl_SendData k sid (control_params c) WriteDataChannelOpenAckMessage)"
  obtains c' where "OnTransportReady g k c = (c', Returns ())"
    "opened kHandshakeReady (Sent sid (control_params c) WriteDataChannelOpenAckMessage) c'"
proof -
  have f: "dc_state c = kConnecting" "dc_network_safety c" "dc_controller c"
    "dc_handshake_state c = kHandshakeShouldSendAck" "dc_id_n c = Some sid"
    using c by (simp_all add: connecting_def)
  let ?e = "Sent sid (control_params c) WriteDataChannelOpenAckMessage"
  let ?c = "c\<lparr>dc_log := dc_log c @ [?e], dc_handshake_state := kHandshakeReady\<rparr>"
  have send: "send_handshake g k c = (?c, Returns ())"
    using f SendControlMessage_accepted [OF f(5) k] by (simp add: send_handshake_def after_control_def)
  obtain c' where c': "seq (SetState kOpen) (\<lambda>_. DeliverQueuedReceivedData) ?c = (c', Returns ())"
    "opened kHandshakeReady ?e c'"
    by (rule SetState_opens [of kHandshakeReady ?c ?e]) simp_all
  then show thesis
    using f send by (intro that) (simp_all add: OnTransportReady_def UpdateState_def UpdateState_connecting_def)
qed

lemma opener_acknowledged:
  assumes "opened kHandshakeWaitingForAck e c"
  shows "OnDataReceived kControl WriteDataChannelOpenAckMessage c =
    (c\<lparr>dc_handshake_state := kHandshakeReady\<rparr>, Returns ())"
  using assms by (simp add: opened_def OnDataReceived_def ack_is_ack)

section \<open>The other side\<close>

text \<open>What the two ends of a channel agree on.\<close>

definition same_config :: "SctpDataChannel \<Rightarrow> SctpDataChannel \<Rightarrow> bool" where
  "same_config c d \<longleftrightarrow> dc_label d = dc_label c \<and> dc_protocol d = dc_protocol c \<and> dc_ordered d = dc_ordered c \<and>
     dc_max_retransmits d = dc_max_retransmits c \<and> dc_max_retransmit_time d = dc_max_retransmit_time c \<and>
     channel_priority d = channel_priority c"

text \<open>A configuration that fits the message: 16-bit lengths, limits that fit an \<open>int\<close>, at most one limit.\<close>

definition fits_open :: "SctpDataChannel \<Rightarrow> bool" where
  "fits_open c \<longleftrightarrow> length (dc_label c) < 65536 \<and> length (dc_protocol c) < 65536 \<and>
     opt_int32 (dc_max_retransmits c) \<and> opt_int32 (dc_max_retransmit_time c) \<and>
     (dc_max_retransmits c = None \<or> dc_max_retransmit_time c = None)"

definition open_config :: "SctpDataChannel \<Rightarrow> int \<Rightarrow> DataChannelInit" where
  "open_config c channel_id =
     DataChannelInit_default\<lparr>dci_id := channel_id, dci_priority := Some (channel_priority c),
       dci_protocol := dc_protocol c, dci_ordered := dc_ordered c, dci_maxRetransmits := dc_max_retransmits c,
       dci_maxRetransmitTime := dc_max_retransmit_time c\<rparr>"

lemma open_payload_parsed:
  assumes "fits_open c"
  shows "ParseDataChannelOpenMessage (open_payload c) [] (DataChannelInit_default\<lparr>dci_id := channel_id\<rparr>) =
    Returns (True, dc_label c, open_config c channel_id)"
proof -
  obtain ctype rel where rel: "open_reliability (dc_ordered c) (dc_max_retransmits c) (dc_max_retransmit_time c) = (ctype, rel)"
    by fastforce
  have limits: "opt_int32 (dc_max_retransmits c)" "opt_int32 (dc_max_retransmit_time c)"
    "(if dc_max_retransmits c = None then dc_max_retransmit_time c else None) = dc_max_retransmit_time c"
    using assms by (auto simp: fits_open_def)
  have cut: "take (length (dc_label c) mod 2 ^ 16) (dc_label c @ dc_protocol c) = dc_label c"
    "take (length (dc_protocol c) mod 2 ^ 16) (drop (length (dc_label c) mod 2 ^ 16) (dc_label c @ dc_protocol c)) = dc_protocol c"
    using assms by (simp_all add: fits_open_def)
  show ?thesis
    unfolding open_payload_def rel prod.case ParseDataChannelOpenMessage_bytes cut
      set_open_reliability [OF rel limits(1,2)] limits(3)
    by (simp add: open_config_def channel_priority_def DataChannelInit_default_def)
qed

lemma open_payload_is_open: "IsOpenMessage (open_payload c)"
  by (cases "open_reliability (dc_ordered c) (dc_max_retransmits c) (dc_max_retransmit_time c)")
    (simp add: open_payload_def open_is_open)

lemma open_message_creates:
  assumes c: "fits_open c" and sid: "sid \<le> kMaxSctpSid" "sid \<notin> dcc_sids b" and t: "dcc_transport b = Some t"
  obtains b' d where "dcc_OnDataReceived tr role (int sid) kControl (open_payload c) b = (b', Returns ())"
    "dcc_heap b' (dcc_next b) = Some d" "dcc_channels b' = dcc_channels b @ [dcc_next b]"
    "dcc_signaling_tasks b' = dcc_signaling_tasks b @ [OpenTask (dcc_next b) (tr_IsReadyToSend tr)]"
    "connecting kHandshakeShouldSendAck sid d" "same_config c d"
proof -
  let ?config = "DataChannelInit.extend (open_config c (int sid)) (InternalDataChannelInit.fields kAcker None)"
  let ?d = "SctpDataChannel_create ?config True (dc_label c) True (int (dcc_next b) + 1)"
  let ?b = "b\<lparr>dcc_sids := insert sid (dcc_sids b), dcc_heap := (dcc_heap b)(dcc_next b \<mapsto> ?d),
      dcc_next := Suc (dcc_next b), dcc_channels := dcc_channels b @ [dcc_next b],
      dcc_events := dcc_events b @ [OpenChannel sid (channel_priority c)]\<rparr>"
  let ?b' = "?b\<lparr>dcc_signaling_tasks := dcc_signaling_tasks b @ [OpenTask (dcc_next b) (tr_IsReadyToSend tr)]\<rparr>"
  have id: "dci_id ?config = int sid" "dci_priority ?config = Some (channel_priority c)"
    "fallback_ssl_role ?config = None"
    by (simp_all add: open_config_def DataChannelInit.defs InternalDataChannelInit.defs DataChannelInit_default_def)
  have same: "?config\<lparr>dci_id := int sid\<rparr> = ?config"
    by (simp add: open_config_def DataChannelInit.defs DataChannelInit_default_def)
  have create: "CreateDataChannel role (dc_label c) ?config b = (?b, Returns (Inr (dcc_next b)))"
    using sid t
    by (simp add: CreateDataChannel_def id same ReserveOrAllocateSid_def ReserveSid_def RTCError_ok_def RTCError_OK_def
        RTCError_of_def new_channel_def AddSctpDataStream_def to_transport_run)
  have "HandleOpenMessage_n tr role (int sid) kControl (open_payload c) b = (?b', Returns True)"
    using t by (simp add: HandleOpenMessage_n_def open_payload_is_open open_payload_parsed [OF c] create)
  then have "dcc_OnDataReceived tr role (int sid) kControl (open_payload c) b = (?b', Returns ())"
    by (simp add: dcc_OnDataReceived_def)
  then show thesis
    by (rule that [where d = ?d])
      (use sid(1) in \<open>simp_all add: connecting_def same_config_def SctpDataChannel_create_def open_config_def
        DataChannelInit.defs InternalDataChannelInit.defs DataChannelInit_default_def handshake_of_role_def channel_priority_def
        kMaxSctpSid_def kMaxSctpStreams_def\<close>)
qed

section \<open>A refused OPEN message while ids are assigned\<close>

lemma refused_closes:
  assumes c: "connecting kHandshakeShouldSendOpen sid c"
    and k: "\<not> RTCError_ok (ctl_SendData k sid (control_params c) (open_payload c))"
  obtains c' where "OnTransportReady g k c = (c', Returns ())" "dc_state c' = kClosed"
proof -
  have f: "dc_state c = kConnecting" "dc_network_safety c" "dc_controller c"
    "dc_handshake_state c = kHandshakeShouldSendOpen" "dc_id_n c = Some sid"
    using c by (simp_all add: connecting_def)
  have "dc_state c \<noteq> kClosed" using f(1) by simp
  then obtain c' where c': "SendControlMessage k (open_payload c) c = (c', Returns False)" "dc_state c' = kClosed"
    using f(5) k by (rule SendControlMessage_refused)
  have "dc_handshake_state c' = kHandshakeShouldSendOpen"
    using SendControlMessage_cases [OF c'(1)] f(4) by simp
  moreover have "send_handshake g k c = (c', Returns ())"
    using f c'(1) by (simp add: send_handshake_def open_payload_written run_seq)
  ultimately have "OnTransportReady g k c = (c', Returns ())"
    using f by (simp add: OnTransportReady_def UpdateState_def UpdateState_connecting_def)
  then show thesis using c'(2) by (rule that)
qed

text \<open>
  The only channel on the list has no id yet; the transport is ready but refuses to send.  The
  channel's failure takes it off the list under the loop's iterator.
\<close>

lemma AllocateSctpSids_refused:
  assumes ok: "ctl_ok s" and cs: "dcc_channels s = [r]" and c: "dcc_heap s r = Some c"
    and f: "dc_state c = kConnecting" "dc_network_safety c" "dc_handshake_state c = kHandshakeShouldSendOpen"
      "dc_id_n c = None"
    and t: "dcc_transport s = Some t" "tr_IsReadyToSend tr"
    and refuse: "\<And>sid params payload. \<not> RTCError_ok (tr_SendData tr sid params payload)"
  shows "snd (AllocateSctpSids g tr role s) = Faults IteratorInvalidated"
proof -
  have st: "stored_ok [r] s" and ids: "ids_ok [r] s" using ok cs by (simp_all add: ctl_ok_def ctl_inv_def)
  have ctl: "dc_controller c" using stored_facts(6) [OF st, of r c] c by simp
  have none: "sid_n r s = None" using c f(4) by (simp add: sid_n_def)
  then have empty: "dcc_sids s = {}" using ids by (simp add: ids_ok_def)
  obtain sid where sid: "AllocateSid role {} = (Some sid, {sid})" "sid \<le> kMaxSctpSid"
  proof (cases role)
    case SSL_CLIENT
    then show thesis using that [of 0] by (simp add: AllocateSid_def allocate_from.simps [of 0])
  next
    case SSL_SERVER
    then show thesis
      using that [of 1] by (simp add: AllocateSid_def allocate_from.simps [of "Suc 0"] kMaxSctpSid_def kMaxSctpStreams_def)
  qed
  let ?c = "c\<lparr>dc_id_n := Some sid\<rparr>"
  let ?s = "s\<lparr>dcc_sids := {sid}, dcc_heap := (dcc_heap s)(r \<mapsto> ?c)\<rparr>"
  let ?s2 = "?s\<lparr>dcc_events := dcc_events s @ [OpenChannel sid (channel_priority_of r ?s)]\<rparr>"
  have "ctl_inv [r] s" using ok cs by (simp add: ctl_ok_def)
  then have inv1: "ctl_inv [r] ?s"
    by (rule assign_inv) (use c f(4) sid(2) empty cs in simp_all)
  have "ctl_view ?s2 = ctl_view ?s" by (simp add: ctl_view_def)
  then have inv: "ctl_inv [r] ?s2" using inv1 ctl_inv_view by blast
  have c2: "dcc_heap ?s2 r = Some ?c" by simp
  let ?k = "channel_controller tr ?s2"
  have "connecting kHandshakeShouldSendOpen sid ?c" using f ctl by (simp add: connecting_def)
  then obtain x where x: "OnTransportReady g ?k ?c = (x, Returns ())" "dc_state x = kClosed"
    by (rule refused_closes [where g = g and k = ?k]) (simp add: channel_controller_def refuse t)
  obtain u c' result where u: "call_channel tr r (\<lambda>k. OnTransportReady g k) ?s2 = (u, result)"
    "OnTransportReady g ?k ?c = (c', result)" "dcc_heap u = (dcc_heap ?s2)(r \<mapsto> c')"
    "ctl_inv (if dc_state c' = kClosed then remove1 r [r] else [r]) u"
    "dcc_channels u = (if dc_state c' = kClosed then remove1 r (dcc_channels ?s2) else dcc_channels ?s2)"
    by (rule call_inv [OF inv c2, of "\<lambda>k. OnTransportReady g k" tr, OF handler_announces(1)])
  have "dcc_channels u = []" "result = Returns ()" using u(2,5) x cs by simp_all
  then show ?thesis
    using cs none c sid(1) empty t u(1)
    by (simp add: AllocateSctpSids_def call_SetSctpSid AddSctpDataStream_def to_transport_run Let_def)
qed

end
