(* ===== verification/Peer_Link.thy ===== *)
theory Peer_Link
  imports Handshake Session
begin

text \<open>
  From a session to the session of its peer: \<open>PeerConnection::CreateDataChannelOrError\<close>
  (\<open>pc/peer_connection.cc\<close>), which \<open>InitializeOutgoing\<close> calls for its two channels, the channel it makes,
  the channel the controller of the other side makes from its OPEN message, and what
  \<open>NetworkSession::OnDataChannel\<close> does with that.
\<close>

section \<open>Creating a channel\<close>

datatype SdpSemantics = kPlanB_DEPRECATED | kUnifiedPlan

definition InternalDataChannelInit_default :: InternalDataChannelInit where
  "InternalDataChannelInit_default =
     DataChannelInit.extend DataChannelInit_default (InternalDataChannelInit.fields kOpener None)"

text \<open>
  The state of the connection (\<open>closed\<close>), the configured semantics and the role that the session
  description suggests are arguments; the state is that of the controller.
\<close>

definition CreateDataChannelOrError ::
  "transport_answers \<Rightarrow> SSLRole option \<Rightarrow> bool \<Rightarrow> SdpSemantics \<Rightarrow> SSLRole option \<Rightarrow> bytes \<Rightarrow>
   DataChannelInit option \<Rightarrow> (RTCError + nat) dcc_act" where
  "CreateDataChannelOrError tr GetSctpSslRole closed sdp_semantics GuessSslRole label config =
     (if closed
      then ret (Inl (RTCError_of INVALID_STATE ''CreateDataChannelOrError: PeerConnection is closed.''))
      else
        seq (look (\<lambda>s. \<not> HasUsedDataChannels s)) (\<lambda>first_datachannel.
        let internal_config = (case config of None \<Rightarrow> InternalDataChannelInit_default
                               | Some config \<Rightarrow> InternalDataChannelInit_of config);
            internal_config = internal_config\<lparr>fallback_ssl_role := GuessSslRole\<rparr>
        in seq (InternalCreateDataChannelWithProxy tr GetSctpSslRole label internal_config) (\<lambda>result.
           case result of
             Inl failure \<Rightarrow> ret (Inl failure)
           | Inr channel \<Rightarrow>
               seq (onlyif (sdp_semantics = kUnifiedPlan \<or> sdp_semantics = kPlanB_DEPRECATED \<and> first_datachannel)
                      (ctl_note UpdateNegotiationNeeded)) (\<lambda>_.
               seq (ctl_note NoteDataAddedEvent) (\<lambda>_.
               ret (Inr channel))))))"

section \<open>The channel that is created\<close>

definition made_from :: "InternalDataChannelInit \<Rightarrow> bytes \<Rightarrow> SctpDataChannel \<Rightarrow> bool" where
  "made_from config label c \<longleftrightarrow>
     dc_label c = label \<and> dc_protocol c = dci_protocol config \<and> dc_ordered c = dci_ordered config \<and>
     dc_max_retransmits c = dci_maxRetransmits config \<and> dc_max_retransmit_time c = dci_maxRetransmitTime config \<and>
     dc_priority c = dci_priority config \<and> dc_state c = kConnecting \<and> dc_controller c \<and>
     dc_handshake_state c = handshake_of_role (open_handshake_role config)"

lemma create_made_from: "made_from config label (SctpDataChannel_create (config\<lparr>dci_id := i\<rparr>) True label up uid)"
  "made_from config label (SctpDataChannel_create config True label up uid)"
  by (simp_all add: made_from_def SctpDataChannel_create_def)

lemma CreateDataChannel_made:
  assumes run: "CreateDataChannel role label config s = (s', Returns (Inr r))"
  obtains c where "dcc_heap s' r = Some c" "made_from config label c"
proof -
  obtain s1 out where res: "ReserveOrAllocateSid role (if dci_id config = -1 then None else Some (nat (dci_id config)))
      (fallback_ssl_role config) s = (s1, out)" by fastforce
  from run res obtain failure sid where out: "out = Returns (failure, sid)" "RTCError_ok failure"
    by (cases out) (auto simp: CreateDataChannel_def split: if_splits)
  let ?config = "case sid of None \<Rightarrow> config | Some i \<Rightarrow> config\<lparr>dci_id := int i\<rparr>"
  have "made_from config label (SctpDataChannel_create ?config True label up uid)" for up uid
    by (cases sid) (simp_all add: create_made_from)
  then have "\<exists>c. dcc_heap s' r = Some c \<and> made_from config label c"
    using run res out
    by (cases sid) (auto simp: CreateDataChannel_def new_channel_def AddSctpDataStream_def to_transport_run Let_def
        split: if_splits)
  then show thesis using that by blast
qed

lemma CreateProxy_call:
  assumes "dcc_heap s r = Some c" "made_from config label c"
  shows "\<exists>s' c'. call_channel tr r (\<lambda>_. CreateProxy safety) s = (s', Returns ()) \<and> dcc_heap s' r = Some c' \<and>
    made_from config label c'"
  using assms by (simp add: call_channel_def CreateProxy_def made_from_def)

lemma InternalCreate_made:
  assumes run: "InternalCreateDataChannelWithProxy tr role label config s = (s', Returns (Inr r))"
  obtains c where "dcc_heap s' r = Some c" "made_from config label c"
proof -
  obtain s1 out where create: "CreateDataChannel role label config s = (s1, out)" by fastforce
  with run obtain r' where out: "out = Returns (Inr r')"
    by (cases out) (auto simp: InternalCreateDataChannelWithProxy_def split: if_splits sum.splits)
  obtain c where c: "dcc_heap s1 r' = Some c" "made_from config label c"
    by (rule CreateDataChannel_made [OF create [unfolded out]])
  let ?s = "(if dcc_transport s1 \<noteq> None \<and> tr_IsReadyToSend tr
      then s1\<lparr>dcc_network_tasks := dcc_network_tasks s1 @ [r']\<rparr> else s1)\<lparr>dcc_usage := kInUse\<rparr>"
  have "dcc_heap ?s r' = Some c" using c(1) by simp
  from CreateProxy_call [OF this c(2), of tr "dcc_signaling_safety ?s"] run create out
  have "\<exists>c. dcc_heap s' r = Some c \<and> made_from config label c"
    by (auto simp: InternalCreateDataChannelWithProxy_def post_ready_def split: if_splits)
  then show thesis using that by blast
qed

lemma CreateDataChannelOrError_made:
  assumes run: "CreateDataChannelOrError tr role closed plan guess label (Some init) s = (s', Returns (Inr r))"
  obtains c where "dcc_heap s' r = Some c" "made_from (InternalDataChannelInit_of init) label c"
proof -
  let ?config = "(InternalDataChannelInit_of init)\<lparr>fallback_ssl_role := guess\<rparr>"
  obtain s1 out where create: "InternalCreateDataChannelWithProxy tr role label ?config s = (s1, out)" by fastforce
  have "out = Returns (Inr r) \<and> dcc_heap s' = dcc_heap s1"
  proof (cases out)
    case (Returns x)
    then show ?thesis
      using run create by (cases closed; cases x) (simp_all add: CreateDataChannelOrError_def ctl_note_def onlyif_def split: if_splits, auto)
  qed (use run create in \<open>simp add: CreateDataChannelOrError_def split: if_splits\<close>)
  then have out: "out = Returns (Inr r)" and heap: "dcc_heap s' = dcc_heap s1" by blast+
  obtain c where "dcc_heap s1 r = Some c" "made_from ?config label c"
    by (rule InternalCreate_made [OF create [unfolded out]])
  then show thesis using heap by (intro that) (simp_all add: made_from_def)
qed

lemma CreateDataChannelOrError_upholds:
  "upholds ctl_ok (CreateDataChannelOrError tr role closed plan guess label config)"
  unfolding CreateDataChannelOrError_def Let_def ctl_note_def
  by (intro upholds_rules Create_upholds view_upholds; simp add: ctl_view_def)+

section \<open>The channels of a session\<close>

text \<open>Labels are strings for a session and bytes on the wire.\<close>

definition label_bytes :: "string \<Rightarrow> bytes" where
  "label_bytes l = map (\<lambda>c. word_of_nat (of_char c)) l"

definition label_string :: "bytes \<Rightarrow> string" where
  "label_string b = map (\<lambda>x. char_of (unat x)) b"

lemma label_inverse: "label_string (label_bytes l) = l"
  by (simp add: label_string_def label_bytes_def o_def unat_of_nat map_idI)

text \<open>A session's channel: no limit is set, whatever the \<open>reliable\<close> flag says.\<close>

lemma own_channel:
  assumes "made_from (InternalDataChannelInit_of (DataChannelInit_default\<lparr>dci_reliable := rel\<rparr>)) label c"
    and "length label < 65536"
  shows "reliable c" "dc_ordered c" "fits_open c" "dc_handshake_state c = kHandshakeShouldSendOpen" "dc_label c = label"
  using assms
  by (simp_all add: made_from_def reliable_def fits_open_def InternalDataChannelInit_of_def DataChannelInit_default_def
      DataChannelInit.defs InternalDataChannelInit.defs clamp_limit_def opt_int32_def handshake_of_role_def)

text \<open>The session that is given a channel.\<close>

lemma UpdateDataChannelStates_unreliable:
  "preserves (\<lambda>c. mUnreliableChannelInterface (this c)) (UpdateDataChannelStates pf)"
  unfolding UpdateDataChannelStates_def set_this_def field_def through_manager_def NotifyOnSessionOpen_def
    emit_def
  by (intro act_rules) simp_all

lemma CheckSendDeferredData_unreliable:
  "preserves (\<lambda>c. mUnreliableChannelInterface (this c)) CheckSendDeferredData"
  unfolding CheckSendDeferredData_def set_this_def field_def through_manager_def emit_def
  by (intro act_rules) simp_all

lemma OnDataChannel_unreliable:
  assumes "pf_channel_label pf ch \<noteq> ''ReliableDataChannel''"
  shows "mUnreliableChannelInterface (this (fst (OnDataChannel pf ch c))) = Some ch"
proof -
  let ?c = "c\<lparr>this := (this c)\<lparr>mUnreliableChannelInterface := Some ch\<rparr>\<rparr>"
  have "preserves (\<lambda>c. mUnreliableChannelInterface (this c)) (seq (emit (EvRegisterObserver ch)) (\<lambda>_.
      seq (UpdateDataChannelStates pf) (\<lambda>_. CheckSendDeferredData)))"
    by (intro preserves_seq UpdateDataChannelStates_unreliable CheckSendDeferredData_unreliable)
      (simp add: preserves_def emit_def)
  from preservesD [OF this, of ?c] assms show ?thesis
    by (simp add: OnDataChannel_def Let_def set_this_def)
qed

end
