(* ===== verification/Number_Text.thy ===== *)
theory Number_Text
  imports Effects
begin

text \<open>
  Numbers as text: what \<open>%d\<close> and \<open>%x\<close> of \<open>snprintf\<close> print, and what \<open>strtol\<close>, \<open>strtoul\<close> and \<open>%hx\<close> of
  \<open>sscanf\<close> read, as far as the address functions use them.  A C string is the list of the characters
  before its terminator.
\<close>

section \<open>Digits\<close>

definition digit_char :: "nat \<Rightarrow> char" where
  "digit_char d = ''0123456789abcdef'' ! d"

definition is_dec :: "char \<Rightarrow> bool" where
  "is_dec c \<longleftrightarrow> c \<in> set ''0123456789''"

definition is_hex :: "char \<Rightarrow> bool" where
  "is_hex c \<longleftrightarrow> c \<in> set ''0123456789abcdefABCDEF''"

definition is_space :: "char \<Rightarrow> bool" where
  "is_space c \<longleftrightarrow> c \<in> {CHR '' '', CHR 0x09, CHR 0x0A, CHR 0x0B, CHR 0x0C, CHR 0x0D}"

definition digit_value :: "char \<Rightarrow> nat" where
  "digit_value c =
     (let n = of_char c
      in if n < 58 then n - 48 else if n < 71 then n - 55 else n - 87)"

fun number_text :: "nat \<Rightarrow> nat \<Rightarrow> string" where
  "number_text b n = (if n < b \<or> b < 2 then [digit_char n] else number_text b (n div b) @ [digit_char (n mod b)])"

declare number_text.simps [simp del]

definition number_value :: "nat \<Rightarrow> string \<Rightarrow> nat" where
  "number_value b s = foldl (\<lambda>n c. b * n + digit_value c) 0 s"

section \<open>Reading\<close>

text \<open>An optional sign: whether it is a minus, and the rest.\<close>

definition take_sign :: "string \<Rightarrow> bool \<times> string" where
  "take_sign s =
     (case s of c # r \<Rightarrow> if c = CHR ''-'' then (True, r) else if c = CHR ''+'' then (False, r) else (False, s)
      | [] \<Rightarrow> (False, s))"

text \<open>
  \<open>strtoul(s, nullptr, 10)\<close> with a 32-bit \<open>unsigned long\<close>: a number that is too large gives the largest
  value, a minus negates, no digits give 0.
\<close>

definition strtoul :: "string \<Rightarrow> u32" where
  "strtoul s =
     (case take_sign (dropWhile is_space s) of
        (neg, r) \<Rightarrow>
          let n = number_value 10 (takeWhile is_dec r)
          in if n > 0xFFFFFFFF then 0xFFFFFFFF
             else if neg then - word_of_nat n else word_of_nat n)"

text \<open>
  \<open>sscanf(s, "%4hx%n", ...)\<close> and without the width: white space, then at most \<open>width\<close> characters of an
  optional sign, an optional \<open>0x\<close> and digits; the value and the number of characters read, or nothing
  when there is no digit.
\<close>

definition scan_hx :: "nat option \<Rightarrow> string \<Rightarrow> (u16 \<times> nat) option" where
  "scan_hx width s =
     (let blanks = length (takeWhile is_space s);
          field = (case width of None \<Rightarrow> drop blanks s | Some w \<Rightarrow> take w (drop blanks s))
      in case take_sign field of
           (neg, r) \<Rightarrow>
             let prefixed = (2 \<le> length r \<and> r ! 0 = CHR ''0'' \<and> r ! 1 \<in> {CHR ''x'', CHR ''X''});
                 digits = takeWhile is_hex (if prefixed then drop 2 r else r);
                 n = number_value 16 digits
             in if digits = [] then None
                else Some (if neg then - word_of_nat n else word_of_nat n,
                           blanks + (length field - length r) + (if prefixed then 2 else 0) + length digits))"

section \<open>Round trips\<close>

lemma digit_char_facts:
  assumes "d < 16"
  shows "digit_value (digit_char d) = d" "is_hex (digit_char d)" "d < 10 \<Longrightarrow> is_dec (digit_char d)"
    "\<not> is_space (digit_char d)"
proof -
  have all: "list_all (\<lambda>d. digit_value (digit_char d) = d \<and> is_hex (digit_char d) \<and>
      (d < 10 \<longrightarrow> is_dec (digit_char d)) \<and> \<not> is_space (digit_char d)) [0..<16]"
    by code_simp
  from assms have "d \<in> set [0..<16]" by simp
  with all show "digit_value (digit_char d) = d" "is_hex (digit_char d)" "d < 10 \<Longrightarrow> is_dec (digit_char d)"
    "\<not> is_space (digit_char d)"
    unfolding list_all_iff by blast+
qed

lemma number_value_snoc: "number_value b (s @ [c]) = b * number_value b s + digit_value c"
  by (simp add: number_value_def)

lemma number_value_text:
  assumes "2 \<le> b" "b \<le> 16"
  shows "number_value b (number_text b n) = n"
  using assms
proof (induction b n rule: number_text.induct)
  case (1 b n)
  show ?case
  proof (cases "n < b")
    case True
    with 1 show ?thesis by (subst number_text.simps) (simp add: number_value_def digit_char_facts)
  next
    case False
    with 1 have "number_value b (number_text b (n div b)) = n div b" by simp
    moreover have "n mod b < 16" using 1 mod_less_divisor [of b n] by linarith
    ultimately show ?thesis
      using False 1(2) by (subst number_text.simps) (simp add: number_value_snoc digit_char_facts)
  qed
qed

lemma number_text_digits:
  assumes "2 \<le> b" "b \<le> 16" "\<And>d. d < b \<Longrightarrow> P (digit_char d)"
  shows "\<forall>c \<in> set (number_text b n). P c"
  using assms
proof (induction b n rule: number_text.induct)
  case (1 b n)
  then show ?case by (subst number_text.simps) auto
qed

lemma number_text_nonempty: "number_text b n \<noteq> []"
  by (subst number_text.simps) simp

lemma number_text_length:
  assumes "2 \<le> b" "n < b ^ Suc k"
  shows "length (number_text b n) \<le> Suc k"
  using assms
proof (induction k arbitrary: n)
  case 0
  then show ?case by (subst number_text.simps) simp
next
  case (Suc k)
  show ?case
  proof (cases "n < b")
    case True
    then show ?thesis by (subst number_text.simps) simp
  next
    case False
    have "n div b < b ^ Suc k" using Suc.prems by (simp add: less_mult_imp_div_less mult.commute)
    with Suc have "length (number_text b (n div b)) \<le> Suc k" by simp
    with False Suc.prems(1) show ?thesis by (subst number_text.simps) simp
  qed
qed


text \<open>A number read back, up to the end of the string or a character that is no digit.\<close>

lemma takeWhile_digits:
  assumes "\<forall>c \<in> set t. P c" "rest = [] \<or> \<not> P (hd rest)"
  shows "takeWhile P (t @ rest) = t" "dropWhile P (t @ rest) = rest"
  using assms by (cases rest; simp add: takeWhile_append2 dropWhile_append2)+

lemma not_digits:
  "\<not> is_dec (CHR ''.'')" "\<not> is_dec (CHR '':'')" "\<not> is_hex (CHR '':'')" "\<not> is_hex (CHR ''x'')" "\<not> is_hex (CHR ''X'')"
  "\<not> is_hex (CHR ''-'')" "\<not> is_hex (CHR ''+'')" "\<not> is_hex (CHR ''.'')"
  by (simp_all add: is_dec_def is_hex_def)

lemma hex_not_space: "is_hex c \<Longrightarrow> \<not> is_space c"
  by (auto simp: is_hex_def is_space_def)

lemma dec_is_hex: "is_dec c \<Longrightarrow> is_hex c"
  by (auto simp: is_dec_def is_hex_def)

lemma hex_text_digits: "\<forall>c \<in> set (number_text 16 n). is_hex c"
  by (rule number_text_digits) (simp_all add: digit_char_facts)

lemma dec_text_digits: "\<forall>c \<in> set (number_text 10 n). is_dec c"
  by (rule number_text_digits) (simp_all add: digit_char_facts)

lemma scan_hx_digits:
  assumes t: "t \<noteq> []" "\<forall>c \<in> set t. is_hex c" and w: "width = None \<or> width = Some w \<and> length t \<le> w"
    and rest: "rest = [] \<or> hd rest = CHR '':''"
  shows "scan_hx width (t @ rest) = Some (word_of_nat (number_value 16 t), length t)"
proof -
  obtain c t' where ct: "t = c # t'" "is_hex c" using t by (cases t) auto
  then have c: "\<not> is_space c" "c \<noteq> CHR ''-''" "c \<noteq> CHR ''+''"
    using hex_not_space not_digits by auto
  have blanks: "takeWhile is_space (t @ rest) = []" using ct c by simp
  obtain r where r: "(case width of None \<Rightarrow> t @ rest | Some w \<Rightarrow> take w (t @ rest)) = t @ r"
    "r = [] \<or> hd r = CHR '':''"
    using w rest by (cases rest) (auto simp: take_Cons' split: if_splits)
  have sign: "take_sign (t @ r) = (False, t @ r)" using ct c by (simp add: take_sign_def)
  have second: "(t @ r) ! 1 \<notin> {CHR ''x'', CHR ''X''}" if "2 \<le> length (t @ r)"
  proof (cases t')
    case Nil
    with that ct r(2) show ?thesis by (cases r) auto
  next
    case (Cons d ds)
    with t(2) ct have "is_hex d" by simp
    with Cons ct not_digits show ?thesis by auto
  qed
  have "takeWhile is_hex (t @ r) = t"
    using t(2) r(2) not_digits(3) by (intro takeWhile_digits(1)) auto
  with t(1) second show ?thesis
    unfolding scan_hx_def blanks list.size drop_0 Let_def r(1) sign by auto
qed

lemma scan_hex_text:
  assumes "n < 65536" "rest = [] \<or> hd rest = CHR '':''"
  shows "scan_hx (Some 4) (number_text 16 n @ rest) = Some (word_of_nat n, length (number_text 16 n))"
proof -
  have "length (number_text 16 n) \<le> 4" using number_text_length [of 16 n 3] assms(1) by simp
  then show ?thesis
    using assms(2) by (simp add: scan_hx_digits [where w = 4] number_text_nonempty hex_text_digits number_value_text)
qed

end
