(* ===== verification/Inet_Text.thy ===== *)
theory Inet_Text
  imports Net_Address Number_Text
begin

unbundle bit_operations_syntax

text \<open>
  Addresses as text on Windows (\<open>rtc_base/win32.cc\<close>): \<open>inet_ntop\<close> writes into a character buffer through a
  cursor, every write checked against its end; \<open>inet_pton\<close> reads a C string.  The eight 16-bit groups of an
  IPv6 address are read from memory in network order (\<open>as_shorts\<close>).
\<close>

section \<open>Groups\<close>

definition v6_group :: "in6_addr \<Rightarrow> nat \<Rightarrow> u16" where
  "v6_group a i = ucast (drop_bit (16 * (7 - i)) a)"

definition as_shorts :: "in6_addr \<Rightarrow> u16 list" where
  "as_shorts a = map (\<lambda>i. HostToNetwork16 (v6_group a i)) [0..<8]"

definition v6_of_shorts :: "u16 list \<Rightarrow> in6_addr" where
  "v6_of_shorts sh = foldl (\<lambda>acc w. push_bit 16 acc OR ucast (NetworkToHost16 w)) 0 sh"

definition v4_byte :: "u32 \<Rightarrow> nat \<Rightarrow> u8" where
  "v4_byte a i = ucast (drop_bit (8 * (3 - i)) a)"

definition v4_of_bytes :: "u8 list \<Rightarrow> u32" where
  "v4_of_bytes bs = foldl (\<lambda>acc b. push_bit 8 acc OR ucast b) 0 bs"

section \<open>Writing\<close>

text \<open>The lengths that \<open>ws2ipdef.h\<close> gives.\<close>

definition INET_ADDRSTRLEN :: nat where "INET_ADDRSTRLEN = 22"
definition INET6_ADDRSTRLEN :: nat where "INET6_ADDRSTRLEN = 65"

lemmas addr_lengths = INET_ADDRSTRLEN_def INET6_ADDRSTRLEN_def

abbreviation NUL :: char where "NUL \<equiv> CHR 0x00"

record printer =
  pr_buf :: string
  pr_cursor :: nat

text \<open>The C string at the start of the buffer.\<close>

definition text_in :: "printer \<Rightarrow> string" where
  "text_in s = takeWhile (\<lambda>c. c \<noteq> NUL) (pr_buf s)"

text \<open>\<open>*cursor++ = c\<close> and \<open>snprintf(cursor, limit, ...)\<close>, which terminates what it writes.\<close>

definition put_char :: "char \<Rightarrow> (printer, unit) act" where
  "put_char c =
     (\<lambda>s. if pr_cursor s < length (pr_buf s)
          then (s\<lparr>pr_buf := (pr_buf s)[pr_cursor s := c], pr_cursor := pr_cursor s + 1\<rparr>, Returns ())
          else (s, Faults OutOfBounds))"

definition snprintf :: "nat \<Rightarrow> string \<Rightarrow> (printer, nat) act" where
  "snprintf limit t =
     (\<lambda>s. let w = (if limit = 0 then [] else take (limit - 1) t @ [NUL])
          in if pr_cursor s + length w \<le> length (pr_buf s)
             then (s\<lparr>pr_buf := take (pr_cursor s) (pr_buf s) @ w @ drop (pr_cursor s + length w) (pr_buf s)\<rparr>,
                   Returns (length t))
             else (s, Faults OutOfBounds))"

definition advance_cursor :: "nat \<Rightarrow> (printer, unit) act" where
  "advance_cursor n = update (\<lambda>s. s\<lparr>pr_cursor := pr_cursor s + n\<rparr>)"

definition dotted :: "u32 \<Rightarrow> string" where
  "dotted a =
     number_text 10 (unat (v4_byte a 0)) @ CHR ''.'' # number_text 10 (unat (v4_byte a 1)) @
     CHR ''.'' # number_text 10 (unat (v4_byte a 2)) @ CHR ''.'' # number_text 10 (unat (v4_byte a 3))"

text \<open>The answers are whether \<open>dst\<close> (true) or null is returned; \<open>dst\<close> is where the cursor stands.\<close>

definition inet_ntop_v4 :: "u32 \<Rightarrow> nat \<Rightarrow> (printer, bool) act" where
  "inet_ntop_v4 src len =
     (if len < INET_ADDRSTRLEN then ret False
      else seq (snprintf len (dotted src)) (\<lambda>_. ret True))"

text \<open>The runs of zeros: \<open>runpos\<close>, \<open>max\<close> and \<open>maxpos\<close>.\<close>

fun mark_runs :: "u16 list \<Rightarrow> nat \<Rightarrow> int \<Rightarrow> int \<Rightarrow> int \<Rightarrow> int list \<times> int \<times> int" where
  "mark_runs [] i current mx maxpos = ([], mx, maxpos)"
| "mark_runs (w # ws) i current mx maxpos =
     (if w = 0
      then case mark_runs ws (Suc i) (current + 1) (if current > mx then current else mx)
                  (if current > mx then int i else maxpos) of
             (runpos, mx, maxpos) \<Rightarrow> (current # runpos, mx, maxpos)
      else case mark_runs ws (Suc i) 1 mx maxpos of
             (runpos, mx, maxpos) \<Rightarrow> (-1 # runpos, mx, maxpos))"

text \<open>All but the longest run are unmarked, from the end: \<open>keep_longest i\<close> treats the positions below \<open>i\<close>.\<close>

fun keep_longest :: "nat \<Rightarrow> int \<Rightarrow> int list \<Rightarrow> int list" where
  "keep_longest 0 tmpmax runpos = runpos"
| "keep_longest (Suc i) tmpmax runpos =
     (if int i > tmpmax then keep_longest i tmpmax (runpos[i := -1])
      else if runpos ! i = -1 then keep_longest i (-1) runpos
      else keep_longest i tmpmax runpos)"

function print_groups :: "u16 list \<Rightarrow> int list \<Rightarrow> int \<Rightarrow> nat \<Rightarrow> nat \<Rightarrow> (printer, unit) act" where
  "print_groups shorts runpos mx dst i =
     (if \<not> i < 8 then ret ()
      else if runpos ! i = -1
      then seq (look pr_cursor) (\<lambda>cursor.
           seq (snprintf (INET6_ADDRSTRLEN - (cursor - dst)) (number_text 16 (unat (NetworkToHost16 (shorts ! i))))) (\<lambda>n.
           seq (advance_cursor n) (\<lambda>_.
           seq (onlyif (i \<noteq> 7 \<and> runpos ! (i + 1) \<noteq> 1) (put_char (CHR '':''))) (\<lambda>_.
           print_groups shorts runpos mx dst (i + 1)))))
      else if runpos ! i = 1
      then seq (put_char (CHR '':'')) (\<lambda>_.
           seq (put_char (CHR '':'')) (\<lambda>_.
           print_groups shorts runpos mx dst (i + nat (mx - 1) + 1)))
      else print_groups shorts runpos mx dst (i + 1))"
  by pat_completeness auto
termination
  by (relation "measure (\<lambda>(shorts, runpos, mx, dst, i). 8 - i)") auto

declare print_groups.simps [simp del]

definition zero_runs :: "u16 list \<Rightarrow> int list \<times> int \<times> int" where
  "zero_runs shorts =
     (case mark_runs shorts 0 1 0 (-1) of
        (runpos, mx, maxpos) \<Rightarrow> (if mx > 0 then keep_longest 8 maxpos runpos else runpos, mx, maxpos))"

definition inet_ntop_v6 :: "in6_addr \<Rightarrow> nat \<Rightarrow> (printer, bool) act" where
  "inet_ntop_v6 src len =
     (if len < INET6_ADDRSTRLEN then ret False
      else
        let shorts = as_shorts src
        in case zero_runs shorts of
             (runpos, mx, maxpos) \<Rightarrow>
               seq (look pr_cursor) (\<lambda>dst.
               seq (if runpos ! 0 = 1 \<and> (maxpos = 5 \<or> maxpos = 4 \<and> shorts ! 5 = 0xFFFF)
                    then seq (put_char (CHR '':'')) (\<lambda>_.
                         seq (put_char (CHR '':'')) (\<lambda>_.
                         seq (onlyif (maxpos = 4)
                                (seq (snprintf (INET6_ADDRSTRLEN - 2) ''ffff:'') advance_cursor)) (\<lambda>_.
                         seq (look pr_cursor) (\<lambda>cursor.
                         seq (inet_ntop_v4 (ucast src) (INET6_ADDRSTRLEN - (cursor - dst))) (\<lambda>_. ret ())))))
                    else print_groups shorts runpos mx dst 0) (\<lambda>_.
               ret True)))"

text \<open>\<open>win32_inet_ntop\<close>, with the family and the address as one value.\<close>

definition win32_inet_ntop :: "IPAddress \<Rightarrow> nat \<Rightarrow> (printer, bool) act" where
  "win32_inet_ntop src len =
     (case src of AF_INET a \<Rightarrow> inet_ntop_v4 a len | AF_INET6 a \<Rightarrow> inet_ntop_v6 a len | AF_UNSPEC \<Rightarrow> ret False)"

section \<open>Reading\<close>

function pton_v4_loop :: "string \<Rightarrow> nat \<Rightarrow> u8 list \<Rightarrow> u8 list option" where
  "pton_v4_loop src_pos found result =
     (if src_pos = [] then (if found \<noteq> 4 then None else Some result)
      else if \<not> is_dec (hd src_pos) then None
      else
        let octet = number_value 10 (takeWhile is_dec src_pos);
            rest = dropWhile is_dec src_pos
        in if octet > 255 then None
           else if found + 1 > 4 then None
           else if rest \<noteq> [] \<and> hd rest = CHR ''.''
           then pton_v4_loop (tl rest) (found + 1) (result[found := word_of_nat octet])
           else if rest \<noteq> [] then None
           else pton_v4_loop rest (found + 1) (result[found := word_of_nat octet]))"
  by pat_completeness auto
termination
proof (relation "measure (\<lambda>(s, found, result). length s)", goal_cases)
  case 1
  then show ?case by simp
next
  case (2 s found result v rest)
  then have "length rest \<le> length s" "rest \<noteq> []" by (simp_all add: length_dropWhile_le)
  then show ?case by (cases rest) auto
next
  case (3 s found result v rest)
  then show ?case by (cases s) (auto simp: less_Suc_eq_le length_dropWhile_le)
qed

declare pton_v4_loop.simps [simp del]

definition inet_pton_v4 :: "string \<Rightarrow> u32 option" where
  "inet_pton_v4 src = map_option v4_of_bytes (pton_v4_loop src 0 (replicate 4 0))"

lemma scan_hx_reads: "scan_hx w s = Some (v, n) \<Longrightarrow> 0 < n"
  by (auto simp: scan_hx_def Let_def split: prod.splits if_splits)

text \<open>The groups of an address without a dotted end: what is left of the text, the cursor and the shorts.\<close>

function pton_groups :: "string \<Rightarrow> nat \<Rightarrow> u16 list \<Rightarrow> bool \<Rightarrow> (string \<times> nat \<times> u16 list) option" where
  "pton_groups readcursor addr_cursor shorts seencompressed =
     (if readcursor = [] \<or> \<not> addr_cursor < 8 then Some (readcursor, addr_cursor, shorts)
      else if hd readcursor = CHR '':''
      then (if tl readcursor \<noteq> [] \<and> hd (tl readcursor) = CHR '':''
            then (if seencompressed then None
                  else
                    let readcursor = drop 2 readcursor;
                        coloncount = length (filter (\<lambda>c. c = CHR '':'') readcursor)
                    in if readcursor = [] then pton_groups readcursor 8 shorts seencompressed
                       else if coloncount + 1 > 8 - addr_cursor then None
                       else pton_groups readcursor (8 - (coloncount + 1)) shorts True)
            else pton_groups (tl readcursor) addr_cursor shorts seencompressed)
      else
        (case scan_hx (Some 4) readcursor of
           None \<Rightarrow> None
         | Some (word, bytesread) \<Rightarrow>
             if drop bytesread readcursor \<noteq> [] \<and> hd (drop bytesread readcursor) \<noteq> CHR '':'' then None
             else pton_groups (drop bytesread readcursor) (addr_cursor + 1)
                    (shorts[addr_cursor := HostToNetwork16 word]) seencompressed))"
  by pat_completeness auto
termination
  by (relation "measure (\<lambda>(s, cursor, shorts, seen). length s)")
    (auto dest: scan_hx_reads simp: length_greater_0_conv [symmetric] simp del: length_greater_0_conv)

declare pton_groups.simps [simp del]

definition inet_pton_v6 :: "string \<Rightarrow> in6_addr option" where
  "inet_pton_v6 src =
     (if CHR ''x'' \<in> set src then None
      else if take 2 src = ''::'' \<and> drop 2 src \<noteq> [] \<and> CHR ''.'' \<in> set (drop 2 src)
      then
        (let addrstart = drop 2 src
         in if CHR '':'' \<in> set addrstart
            then (case scan_hx None addrstart of
                    None \<Rightarrow> None
                  | Some (a_short, bytesread) \<Rightarrow>
                      if a_short \<noteq> 0xFFFF \<or> bytesread \<noteq> 4 then None
                      else map_option (\<lambda>v4. 0xFFFF00000000 OR ucast v4)
                             (inet_pton_v4 (tl (dropWhile (\<lambda>c. c \<noteq> CHR '':'') addrstart))))
            else map_option ucast (inet_pton_v4 addrstart))
      else
        (case pton_groups src 0 (replicate 8 0) False of
           None \<Rightarrow> None
         | Some (readcursor, addr_cursor, shorts) \<Rightarrow>
             if readcursor \<noteq> [] \<or> addr_cursor < 8 then None else Some (v6_of_shorts shorts)))"

end
