(* ===== verification/Inet_Roundtrip.thy ===== *)
theory Inet_Roundtrip
  imports Inet_Text
begin

unbundle bit_operations_syntax

text \<open>
  What \<open>inet_ntop\<close> writes, \<open>inet_pton\<close> reads back (\<open>rtc_base/win32.cc\<close>): the text of every address stays
  inside the buffer, and the address is recovered from it.  Which groups are left out depends only on which
  are zero, so the printer's loops over \<open>runpos\<close> are evaluated on all 256 patterns of zeros.
\<close>

section \<open>Addresses and their parts\<close>

lemma network_host: "NetworkToHost16 (HostToNetwork16 w) = w" "HostToNetwork16 (NetworkToHost16 w) = w"
proof -
  have "NetworkToHost16 = HostToNetwork16" by (simp add: fun_eq_iff NetworkToHost16_def HostToNetwork16_def)
  then show "NetworkToHost16 (HostToNetwork16 w) = w" "HostToNetwork16 (NetworkToHost16 w) = w" by simp_all
qed

lemma network_zero: "HostToNetwork16 w = 0 \<longleftrightarrow> w = 0"
proof -
  have "HostToNetwork16 0 = 0" by code_simp
  then show ?thesis by (metis network_host(1) HostToNetwork_involution(1))
qed

lemma network_ones: "NetworkToHost16 0xFFFF = 0xFFFF"
proof -
  have "le_bytes 2 v = [word_of_nat v, word_of_nat (v div 256)]" for v by (simp add: numeral_2_eq_2)
  then show ?thesis by (simp add: NetworkToHost16_def byte_swap_def)
qed

lemma join_low:
  fixes x :: "'a::len word"
  shows "push_bit LENGTH('b::len) (drop_bit LENGTH('b) x) OR ucast (ucast x :: 'b word) = x"
  by (rule bit_word_eqI) (auto simp: bit_simps)

lemma join_chunks:
  fixes a :: "'a::len word"
  assumes "j \<le> m"
  shows "foldl (\<lambda>acc w. push_bit LENGTH('b::len) acc OR ucast w) (drop_bit (LENGTH('b) * m) a)
      (map (\<lambda>i. ucast (drop_bit (LENGTH('b) * (m - 1 - i)) a) :: 'b word) [0..<j]) =
    drop_bit (LENGTH('b) * (m - j)) a"
  using assms
proof (induction j)
  case (Suc j)
  let ?x = "drop_bit (LENGTH('b) * (m - Suc j)) a"
  have "LENGTH('b) * (m - j) = LENGTH('b) + LENGTH('b) * (m - Suc j)"
    using Suc.prems by (metis Suc_diff_Suc Suc_le_lessD mult_Suc_right)
  then have "drop_bit (LENGTH('b) * (m - j)) a = drop_bit LENGTH('b) ?x"
    by simp
  with Suc join_low [where x = ?x and 'b = 'b] show ?case by simp
qed simp

lemma v4_of_v4_bytes: "v4_of_bytes (map (v4_byte a) [0..<4]) = a"
  using join_chunks [of 4 4 a, where 'b = 8] by (simp add: v4_of_bytes_def v4_byte_def [abs_def])

lemma v6_of_as_shorts: "v6_of_shorts (as_shorts a) = a"
proof -
  have "v6_of_shorts (as_shorts a) =
      foldl (\<lambda>acc w. push_bit 16 acc OR ucast w) 0 (map (v6_group a) [0..<8])"
    by (simp add: v6_of_shorts_def as_shorts_def foldl_map network_host)
  also have "\<dots> = a"
    using join_chunks [of 8 8 a, where 'b = 16] by (simp add: v6_group_def [abs_def])
  finally show ?thesis .
qed

section \<open>Dotted text\<close>

lemma pton_v4_step:
  assumes "n \<le> 255" "found < 4"
  shows "pton_v4_loop (number_text 10 n @ CHR ''.'' # rest) found res = pton_v4_loop rest (found + 1) (res[found := word_of_nat n])"
    "pton_v4_loop (number_text 10 n) found res = (if found = 3 then Some (res[found := word_of_nat n]) else None)"
proof -
  obtain c t where ct: "number_text 10 n = c # t" using number_text_nonempty [of 10 n] by (cases "number_text 10 n") auto
  then have c: "is_dec c" using dec_text_digits [of n] by simp
  have r: "takeWhile is_dec (number_text 10 n @ CHR ''.'' # rest) = number_text 10 n"
    "dropWhile is_dec (number_text 10 n @ CHR ''.'' # rest) = CHR ''.'' # rest"
    using takeWhile_digits [OF dec_text_digits, of "CHR ''.'' # rest" n] not_digits(1) by simp_all
  have e: "takeWhile is_dec (number_text 10 n) = number_text 10 n" "dropWhile is_dec (number_text 10 n) = []"
    using takeWhile_digits [OF dec_text_digits, of "[]" n] by simp_all
  have v: "number_value 10 (number_text 10 n) = n" by (rule number_value_text) simp_all
  show "pton_v4_loop (number_text 10 n @ CHR ''.'' # rest) found res = pton_v4_loop rest (found + 1) (res[found := word_of_nat n])"
    using assms by (subst pton_v4_loop.simps) (simp add: r v, simp add: ct c)
  show "pton_v4_loop (number_text 10 n) found res = (if found = 3 then Some (res[found := word_of_nat n]) else None)"
    using assms
    by (subst pton_v4_loop.simps, simp add: e v, simp add: ct c) (auto simp: pton_v4_loop.simps [of "[]"])
qed

lemma unat_byte: "unat (b :: u8) \<le> 255"
  using unsigned_less [of b, where 'a = nat] by simp

lemma inet_pton_v4_dotted: "inet_pton_v4 (dotted a) = Some a"
proof -
  have zeros: "replicate 4 0 = [0, 0, 0, 0 :: u8]" by (simp add: numeral_eq_Suc)
  have bytes: "[0..<4] = [0, 1, 2, 3]" by (simp add: upt_rec)
  have "inet_pton_v4 (dotted a) = Some (v4_of_bytes (map (v4_byte a) [0..<4]))"
    by (simp add: inet_pton_v4_def dotted_def pton_v4_step unat_byte zeros bytes)
  then show ?thesis by (simp only: v4_of_v4_bytes)
qed

section \<open>What the printer writes\<close>

text \<open>The loop over the groups as a list of pieces.\<close>

datatype piece = Hex nat | Colon

function pieces :: "int list \<Rightarrow> int \<Rightarrow> nat \<Rightarrow> piece list" where
  "pieces runpos mx i =
     (if \<not> i < 8 then []
      else if runpos ! i = -1
      then Hex i # (if i \<noteq> 7 \<and> runpos ! (i + 1) \<noteq> 1 then [Colon] else []) @ pieces runpos mx (i + 1)
      else if runpos ! i = 1 then Colon # Colon # pieces runpos mx (i + nat (mx - 1) + 1)
      else pieces runpos mx (i + 1))"
  by pat_completeness auto
termination
  by (relation "measure (\<lambda>(runpos, mx, i). 8 - i)") auto

declare pieces.simps [simp del]

fun piece_text :: "u16 list \<Rightarrow> piece \<Rightarrow> string" where
  "piece_text shorts (Hex i) = number_text 16 (unat (NetworkToHost16 (shorts ! i)))"
| "piece_text shorts Colon = '':''"

definition pieces_text :: "u16 list \<Rightarrow> piece list \<Rightarrow> string" where
  "pieces_text shorts ps = concat (map (piece_text shorts) ps)"

text \<open>A buffer that was filled with terminators, after a text was written into it.\<close>

definition printed :: "nat \<Rightarrow> string \<Rightarrow> printer" where
  "printed n t = \<lparr>pr_buf = t @ replicate (n - length t) NUL, pr_cursor = length t\<rparr>"

lemma put_char_printed: "length t < n \<Longrightarrow> put_char c (printed n t) = (printed n (t @ [c]), Returns ())"
  by (cases "n - length t") (auto simp: put_char_def printed_def Suc_diff_Suc list_update_append)

lemma snprintf_printed:
  assumes "length t + length u < n" "length u < limit"
  shows "snprintf limit u (printed n t) = ((printed n (t @ u))\<lparr>pr_cursor := length t\<rparr>, Returns (length u))"
proof -
  have "NUL # replicate (n - Suc (length t + length u)) NUL = replicate (n - (length t + length u)) NUL"
    using assms(1) by (cases "n - (length t + length u)") (simp_all flip: diff_diff_left)
  with assms show ?thesis
    by (auto simp: snprintf_def printed_def Let_def)
qed

lemma advance_printed:
  "advance_cursor (length u) ((printed n (t @ u))\<lparr>pr_cursor := length t\<rparr>) = (printed n (t @ u), Returns ())"
  by (simp add: advance_cursor_def printed_def)

lemma hex_text_length: "length (number_text 16 (unat (w :: u16))) \<le> 4"
  using number_text_length [of 16 "unat w" 3] unsigned_less [of w, where 'a = nat] by simp

lemma pieces_text_Cons: "pieces_text shorts (p # ps) = piece_text shorts p @ pieces_text shorts ps"
  "pieces_text shorts [] = []" "pieces_text shorts (ps @ qs) = pieces_text shorts ps @ pieces_text shorts qs"
  by (simp_all add: pieces_text_def)

lemma print_groups_pieces:
  assumes "length t + length (pieces_text shorts (pieces runpos mx i)) < INET6_ADDRSTRLEN"
  shows "print_groups shorts runpos mx 0 i (printed INET6_ADDRSTRLEN t) =
    (printed INET6_ADDRSTRLEN (t @ pieces_text shorts (pieces runpos mx i)), Returns ())"
  using assms
proof (induction runpos mx i arbitrary: t rule: pieces.induct)
  case (1 runpos mx i)
  show ?case
  proof (cases "i < 8")
    case False
    then show ?thesis by (simp add: print_groups.simps pieces.simps pieces_text_Cons)
  next
    case True
    consider "runpos ! i = -1" | "runpos ! i = 1" | "runpos ! i \<noteq> -1" "runpos ! i \<noteq> 1" by blast
    then show ?thesis
    proof cases
      case 1
      let ?u = "number_text 16 (unat (NetworkToHost16 (shorts ! i)))"
      let ?colon = "i \<noteq> 7 \<and> runpos ! (i + 1) \<noteq> 1"
      let ?v = "?u @ (if ?colon then '':'' else [])"
      have shown: "pieces_text shorts (pieces runpos mx i) = ?v @ pieces_text shorts (pieces runpos mx (i + 1))"
        using True 1 by (subst pieces.simps) (simp add: pieces_text_Cons)
      with "1.prems" have room: "length (t @ ?u) + (if ?colon then 1 else 0) < INET6_ADDRSTRLEN"
        "length (t @ ?v) + length (pieces_text shorts (pieces runpos mx (i + 1))) < INET6_ADDRSTRLEN"
        by (auto split: if_splits)
      have cursor: "pr_cursor (printed n x) = length x" for n x by (simp add: printed_def)
      have "print_groups shorts runpos mx 0 i (printed INET6_ADDRSTRLEN t) =
          print_groups shorts runpos mx 0 (i + 1) (printed INET6_ADDRSTRLEN (t @ ?v))"
        using True 1 room
        by (subst print_groups.simps) (auto simp: cursor snprintf_printed advance_printed put_char_printed)
      also have "\<dots> = (printed INET6_ADDRSTRLEN ((t @ ?v) @ pieces_text shorts (pieces runpos mx (i + 1))), Returns ())"
        using "1.IH"(1) True 1 room(2) by simp
      finally show ?thesis by (simp only: shown append_assoc)
    next
      case 2
      let ?i = "i + nat (mx - 1) + 1"
      have shown: "pieces_text shorts (pieces runpos mx i) = ''::'' @ pieces_text shorts (pieces runpos mx ?i)"
        using True 2 by (subst pieces.simps) (simp add: pieces_text_Cons)
      with "1.prems" have room: "length (t @ ''::'') + length (pieces_text shorts (pieces runpos mx ?i)) < INET6_ADDRSTRLEN"
        by simp
      have "print_groups shorts runpos mx 0 i (printed INET6_ADDRSTRLEN t) =
          print_groups shorts runpos mx 0 ?i (printed INET6_ADDRSTRLEN (t @ ''::''))"
        using True 2 room by (subst print_groups.simps) (simp add: put_char_printed)
      also have "\<dots> = (printed INET6_ADDRSTRLEN ((t @ ''::'') @ pieces_text shorts (pieces runpos mx ?i)), Returns ())"
        using "1.IH"(2) True 2 room by simp
      finally show ?thesis by (simp only: shown append_assoc)
    next
      case 3
      have shown: "pieces runpos mx i = pieces runpos mx (i + 1)"
        using True 3 by (subst pieces.simps) simp
      with 1 True 3 show ?thesis by (subst print_groups.simps) simp
    qed
  qed
qed

section \<open>The layout\<close>

text \<open>Only which groups are zero matters.\<close>

definition zero_mask :: "u16 list \<Rightarrow> u16 list" where
  "zero_mask shorts = map (\<lambda>w. if w = 0 then 0 else 1) shorts"

lemma mark_runs_mask: "mark_runs (zero_mask shorts) i current mx maxpos = mark_runs shorts i current mx maxpos"
  by (induction shorts i current mx maxpos rule: mark_runs.induct) (simp_all add: zero_mask_def)

lemma zero_runs_mask: "zero_runs shorts = zero_runs (zero_mask shorts)"
  by (simp add: zero_runs_def mark_runs_mask)

fun spaced :: "nat list \<Rightarrow> piece list" where
  "spaced [] = []"
| "spaced [i] = [Hex i]"
| "spaced (i # j # is) = Hex i # Colon # spaced (j # is)"

definition layout_ok :: "u16 list \<Rightarrow> bool" where
  "layout_ok shorts =
     (case zero_runs shorts of
        (runpos, mx, maxpos) \<Rightarrow>
          (if mx = 0 then runpos ! 0 = -1 \<and> pieces runpos mx 0 = spaced [0..<8]
           else let n = nat mx; p = nat (maxpos + 1 - mx)
                in 1 \<le> n \<and> p + n \<le> 8 \<and> maxpos + 1 = int (p + n) \<and>
                   list_all (\<lambda>i. shorts ! i = 0) [p..<p + n] \<and> (runpos ! 0 = 1 \<longrightarrow> p = 0) \<and>
                   pieces runpos mx 0 = spaced [0..<p] @ [Colon, Colon] @ spaced [p + n..<8]))"

lemma layouts_ok: "list_all layout_ok (List.n_lists 8 [0, 1])"
  by code_simp


lemma layout:
  assumes "length shorts = 8" "zero_runs shorts = (runpos, mx, maxpos)"
  obtains (full) "runpos ! 0 = -1" "pieces runpos mx 0 = spaced [0..<8]"
  | (run) p n where "1 \<le> n" "p + n \<le> 8" "maxpos + 1 = int (p + n)" "\<And>i. p \<le> i \<Longrightarrow> i < p + n \<Longrightarrow> shorts ! i = 0"
      "runpos ! 0 = 1 \<Longrightarrow> p = 0" "pieces runpos mx 0 = spaced [0..<p] @ [Colon, Colon] @ spaced [p + n..<8]"
proof -
  have "zero_mask shorts \<in> set (List.n_lists 8 [0, 1])"
    using assms(1) by (auto simp: set_n_lists zero_mask_def)
  then have ok: "layout_ok (zero_mask shorts)" using layouts_ok by (simp add: list_all_iff)
  have zero: "zero_mask shorts ! i = 0 \<longleftrightarrow> shorts ! i = 0" if "i < 8" for i
    using that assms(1) by (simp add: zero_mask_def)
  show thesis
  proof (cases "mx = 0")
    case True
    with ok assms(2) show thesis by (intro full) (simp_all add: layout_ok_def zero_runs_mask [symmetric])
  next
    case False
    let ?n = "nat mx" and ?p = "nat (maxpos + 1 - mx)"
    have facts: "1 \<le> ?n" "?p + ?n \<le> 8" "maxpos + 1 = int (?p + ?n)"
      "\<forall>i \<in> {?p..<?p + ?n}. zero_mask shorts ! i = 0" "runpos ! 0 = 1 \<longrightarrow> ?p = 0"
      "pieces runpos mx 0 = spaced [0..<?p] @ [Colon, Colon] @ spaced [?p + ?n..<8]"
      using ok False assms(2) by (simp_all add: layout_ok_def zero_runs_mask [symmetric] Let_def list_all_iff)
    show thesis
      by (rule run [OF facts(1-3) _ _ facts(6)]) (use facts(2,4,5) zero in auto)
  qed
qed

section \<open>Reading groups\<close>

abbreviation group_text :: "u16 list \<Rightarrow> nat list \<Rightarrow> string" where
  "group_text shorts is \<equiv> pieces_text shorts (spaced is)"

definition put_groups :: "nat \<Rightarrow> u16 list \<Rightarrow> u16 list \<Rightarrow> u16 list" where
  "put_groups cur ws a = take cur a @ ws @ drop (cur + length ws) a"

lemma group_text_simps:
  "group_text shorts [] = []" "group_text shorts [i] = piece_text shorts (Hex i)"
  "group_text shorts (i # j # is) = piece_text shorts (Hex i) @ CHR '':'' # group_text shorts (j # is)"
  by (simp_all add: pieces_text_Cons)

lemma group_text_chars: "\<forall>c \<in> set (group_text shorts is). is_hex c \<or> c = CHR '':''"
  by (induction "is" rule: spaced.induct) (use hex_text_digits in \<open>auto simp: group_text_simps simp del: spaced.simps\<close>)

lemma hex_group_text:
  obtains c t where "piece_text shorts (Hex i) = c # t" "is_hex c" "c \<noteq> CHR '':''"
proof -
  let ?t = "piece_text shorts (Hex i)"
  have "?t \<noteq> []" by (simp add: number_text_nonempty)
  moreover have "is_hex (hd ?t)" using hex_text_digits \<open>?t \<noteq> []\<close> by (metis hd_in_set piece_text.simps(1))
  moreover have "hd ?t \<noteq> CHR '':''" using \<open>is_hex (hd ?t)\<close> not_digits(3) by metis
  ultimately show thesis using that [of "hd ?t" "tl ?t"] by simp
qed

lemma pton_one_group:
  assumes "rest = [] \<or> hd rest = CHR '':''" "cur < 8"
  shows "pton_groups (piece_text shorts (Hex i) @ rest) cur a seen = pton_groups rest (cur + 1) (a[cur := shorts ! i]) seen"
proof -
  obtain c t where ct: "piece_text shorts (Hex i) = c # t" "is_hex c" "c \<noteq> CHR '':''" by (rule hex_group_text)
  let ?n = "unat (NetworkToHost16 (shorts ! i))"
  have "?n < 65536" using unsigned_less [of "NetworkToHost16 (shorts ! i)", where 'a = nat] by simp
  then have "scan_hx (Some 4) (piece_text shorts (Hex i) @ rest) =
      Some (NetworkToHost16 (shorts ! i), length (piece_text shorts (Hex i)))"
    using scan_hex_text [OF _ assms(1), of ?n] by simp
  moreover have "piece_text shorts (Hex i) @ rest \<noteq> []" "hd (piece_text shorts (Hex i) @ rest) \<noteq> CHR '':''"
    using ct by simp_all
  ultimately show ?thesis
    using assms by (subst pton_groups.simps) (auto simp: network_host simp del: piece_text.simps)
qed

lemma pton_group_list:
  assumes "is \<noteq> []" "cur + length is \<le> 8" "rest = [] \<or> hd rest = CHR '':''" "length a = 8"
  shows "pton_groups (group_text shorts is @ rest) cur a seen =
    pton_groups rest (cur + length is) (put_groups cur (map ((!) shorts) is) a) seen"
  using assms
proof (induction "is" arbitrary: cur a rule: spaced.induct)
  case (2 i)
  then have "a[cur := shorts ! i] = put_groups cur [shorts ! i] a"
    by (simp add: put_groups_def upd_conv_take_nth_drop)
  with 2 pton_one_group [of rest cur shorts i a seen] show ?case
    by (simp add: group_text_simps del: spaced.simps piece_text.simps)
next
  case (3 i j "is")
  let ?a = "a[cur := shorts ! i]"
  obtain c t where ct: "piece_text shorts (Hex j) = c # t" "is_hex c" "c \<noteq> CHR '':''" by (rule hex_group_text)
  then obtain t' where t': "group_text shorts (j # is) @ rest = c # t'"
    by (cases "is") (auto simp: group_text_simps simp del: spaced.simps piece_text.simps)
  have "pton_groups (CHR '':'' # group_text shorts (j # is) @ rest) (cur + 1) ?a seen =
      pton_groups (group_text shorts (j # is) @ rest) (cur + 1) ?a seen"
    using 3 ct by (subst pton_groups.simps) (simp add: t' del: spaced.simps)
  also have "\<dots> = pton_groups rest (cur + 1 + length (j # is)) (put_groups (cur + 1) (map ((!) shorts) (j # is)) ?a) seen"
    using 3 by (simp del: spaced.simps)
  also have "put_groups (cur + 1) (map ((!) shorts) (j # is)) ?a = put_groups cur (map ((!) shorts) (i # j # is)) a"
    using 3 by (simp add: put_groups_def take_Suc_conv_app_nth)
  finally show ?case
    using 3 pton_one_group [of "CHR '':'' # group_text shorts (j # is) @ rest" cur shorts i a seen]
    by (simp add: group_text_simps del: spaced.simps piece_text.simps)
qed simp

lemma count_colons:
  "length (filter (\<lambda>c. c = CHR '':'') (group_text shorts is)) = length is - 1"
proof (induction "is" rule: spaced.induct)
  have hex: "filter (\<lambda>c. c = CHR '':'') (piece_text shorts (Hex i)) = []" for i
    using hex_text_digits not_digits(3) by (auto simp: filter_empty_conv)
  {
    case 1
    show ?case by (simp add: group_text_simps del: spaced.simps)
  next
    case (2 i)
    show ?case using hex by (simp add: group_text_simps del: spaced.simps piece_text.simps)
  next
    case (3 i j "is")
    then show ?case using hex by (simp add: group_text_simps del: spaced.simps piece_text.simps)
  }
qed

lemma pton_compressed:
  assumes "cur + length is < 8" "length a = 8"
  shows "pton_groups (''::'' @ group_text shorts is) cur a False =
    Some ([], 8, put_groups (8 - length is) (map ((!) shorts) is) a)"
proof (cases "is = []")
  case True
  with assms show ?thesis
    by (subst pton_groups.simps) (simp add: put_groups_def group_text_simps pton_groups.simps [of "[]"] del: spaced.simps)
next
  case False
  then have "group_text shorts is \<noteq> []"
    by (cases "is" rule: spaced.cases) (auto simp: group_text_simps number_text_nonempty simp del: spaced.simps)
  with assms False have "pton_groups (''::'' @ group_text shorts is) cur a False =
      pton_groups (group_text shorts is) (8 - length is) a True"
    by (subst pton_groups.simps) (auto simp: count_colons Let_def simp del: spaced.simps)
  also have "\<dots> = pton_groups [] 8 (put_groups (8 - length is) (map ((!) shorts) is) a) True"
    using pton_group_list [OF False, of "8 - length is" "[]" a shorts True] assms by simp
  finally show ?thesis by (simp add: pton_groups.simps)
qed

text \<open>The text without a dotted end is read back.\<close>

lemma pton_layout:
  assumes len: "length shorts = 8"
    and layout: "ps = spaced [0..<8] \<or> (\<exists>p n. 1 \<le> n \<and> p + n \<le> 8 \<and> (\<forall>i. p \<le> i \<and> i < p + n \<longrightarrow> shorts ! i = 0) \<and>
      ps = spaced [0..<p] @ [Colon, Colon] @ spaced [p + n..<8])"
  shows "pton_groups (pieces_text shorts ps) 0 (replicate 8 0) False = Some ([], 8, shorts)"
  using layout
proof (elim disjE exE conjE)
  assume "ps = spaced [0..<8]"
  then show ?thesis
    using pton_group_list [of "[0..<8]" 0 "[]" "replicate 8 0" shorts False] len
    by (simp add: put_groups_def pton_groups.simps [of "[]"] map_nth [of shorts, unfolded len])
next
  fix p n
  assume run: "1 \<le> n" "p + n \<le> 8" "\<forall>i. p \<le> i \<and> i < p + n \<longrightarrow> shorts ! i = 0"
    and ps: "ps = spaced [0..<p] @ [Colon, Colon] @ spaced [p + n..<8]"
  let ?pre = "map ((!) shorts) [0..<p]" and ?post = "map ((!) shorts) [p + n..<8]"
  have tx: "pieces_text shorts ps = group_text shorts [0..<p] @ ''::'' @ group_text shorts [p + n..<8]"
    by (simp add: ps pieces_text_Cons)
  have "pton_groups (pieces_text shorts ps) 0 (replicate 8 0) False =
      pton_groups (''::'' @ group_text shorts [p + n..<8]) p (put_groups 0 ?pre (replicate 8 0)) False"
    using pton_group_list [of "[0..<p]" 0 "''::'' @ group_text shorts [p + n..<8]" "replicate 8 0" shorts False] run(1,2)
    by (cases "p = 0") (simp_all add: tx put_groups_def group_text_simps del: spaced.simps)
  also have "\<dots> = Some ([], 8, put_groups (8 - length [p + n..<8]) ?post (put_groups 0 ?pre (replicate 8 0)))"
    using run(1,2) by (intro pton_compressed) (simp_all add: put_groups_def)
  also have "put_groups (8 - length [p + n..<8]) ?post (put_groups 0 ?pre (replicate 8 0)) = shorts"
    by (rule nth_equalityI) (use run len in \<open>auto simp: put_groups_def nth_append\<close>)
  finally show ?thesis .
qed


section \<open>Addresses with a dotted end\<close>

lemma dotted_chars: "\<forall>c \<in> set (dotted v). is_dec c \<or> c = CHR ''.''" "CHR ''.'' \<in> set (dotted v)" "dotted v \<noteq> []"
  using dec_text_digits by (auto simp: dotted_def)

lemma dec_text_length: "length (number_text 10 (unat (b :: u8))) \<le> 3"
  using number_text_length [of 10 "unat b" 2] unat_byte [of b] by simp

lemma dotted_length: "length (dotted v) \<le> 15"
  using dec_text_length [of "v4_byte v 0"] dec_text_length [of "v4_byte v 1"] dec_text_length [of "v4_byte v 2"]
    dec_text_length [of "v4_byte v 3"]
  by (simp add: dotted_def)

lemma top_groups:
  assumes "\<And>i. i < 5 \<Longrightarrow> v6_group a i = 0"
  shows "a = push_bit 32 (ucast (v6_group a 5)) OR ucast (ucast a :: u32)"
proof -
  have "drop_bit 32 a = foldl (\<lambda>acc w. push_bit 16 acc OR ucast w) 0 (map (v6_group a) [0..<6])"
    using join_chunks [of 6 8 a, where 'b = 16] by (simp add: v6_group_def [abs_def])
  also have "map (v6_group a) [0..<6] = [0, 0, 0, 0, 0, v6_group a 5]"
    using assms by (simp add: upt_rec flip: numeral_eq_Suc) (simp add: numeral_eq_Suc)
  finally have "drop_bit 32 a = ucast (v6_group a 5)" by simp
  then show ?thesis using join_low [of a, where 'b = 32] by simp
qed

lemma dotted_no_x: "CHR ''x'' \<notin> set (dotted v)" "CHR '':'' \<notin> set (dotted v)"
proof -
  have no: "\<not> is_dec (CHR ''x'')" "\<not> is_dec (CHR '':'')" by (simp_all add: is_dec_def)
  then show "CHR ''x'' \<notin> set (dotted v)" "CHR '':'' \<notin> set (dotted v)" using dotted_chars(1) [of v] by force+
qed

lemma pton_compatible: "inet_pton_v6 (''::'' @ dotted v) = Some (ucast v)"
  using dotted_chars(2,3) [of v] dotted_no_x [of v] by (simp add: inet_pton_v6_def inet_pton_v4_dotted)

lemma pton_mapped: "inet_pton_v6 (''::ffff:'' @ dotted v) = Some (0xFFFF00000000 OR ucast v)"
proof -
  have "scan_hx None (''ffff'' @ '':'' @ dotted v) = Some (word_of_nat (number_value 16 ''ffff''), length ''ffff'')"
    by (rule scan_hx_digits [where w = 0]) (simp_all add: is_hex_def)
  moreover have "number_value 16 ''ffff'' = 65535" by (simp add: number_value_def digit_value_def)
  ultimately have "scan_hx None (''ffff:'' @ dotted v) = Some (0xFFFF, 4)" by simp
  then show ?thesis
    using dotted_chars(2,3) [of v] dotted_no_x [of v] by (simp add: inet_pton_v6_def inet_pton_v4_dotted)
qed

section \<open>Round trips\<close>

lemma text_in_printed: "NUL \<notin> set t \<Longrightarrow> text_in (printed n t) = t" "text_in (s\<lparr>pr_cursor := k\<rparr>) = text_in s"
proof -
  have "takeWhile (\<lambda>c. c \<noteq> NUL) (replicate k NUL) = []" for k by (cases k) simp_all
  then show "NUL \<notin> set t \<Longrightarrow> text_in (printed n t) = t"
    by (auto simp: text_in_def printed_def takeWhile_append)
  show "text_in (s\<lparr>pr_cursor := k\<rparr>) = text_in s" by (simp add: text_in_def)
qed

lemma no_NUL:
  "(\<forall>c \<in> set t. is_hex c \<or> c = CHR '':'') \<Longrightarrow> NUL \<notin> set t" "NUL \<notin> set (dotted v)"
proof -
  have no: "\<not> is_hex NUL" "\<not> is_dec NUL" by (simp_all add: is_hex_def is_dec_def)
  then show "(\<forall>c \<in> set t. is_hex c \<or> c = CHR '':'') \<Longrightarrow> NUL \<notin> set t" by force
  show "NUL \<notin> set (dotted v)" using no(2) dotted_chars(1) [of v] by force
qed

lemma ntop_v4:
  "INET_ADDRSTRLEN \<le> len \<Longrightarrow> length t + 16 \<le> n \<Longrightarrow>
   inet_ntop_v4 a len (printed n t) = ((printed n (t @ dotted a))\<lparr>pr_cursor := length t\<rparr>, Returns True)"
  using dotted_length [of a] by (simp add: inet_ntop_v4_def snprintf_printed addr_lengths)

theorem inet_ntop_v4_roundtrip:
  assumes "INET_ADDRSTRLEN \<le> n"
  shows "\<exists>s. inet_ntop_v4 a n (printed n []) = (s, Returns True) \<and> text_in s = dotted a"
    "inet_pton_v4 (dotted a) = Some a"
  using ntop_v4 [of n "[]" n a] assms no_NUL(2) [of a]
  by (simp_all add: addr_lengths text_in_printed inet_pton_v4_dotted)


lemma as_shorts_nth: "i < 8 \<Longrightarrow> as_shorts a ! i = HostToNetwork16 (v6_group a i)" "length (as_shorts a) = 8"
  by (simp_all add: as_shorts_def)

lemma pieces_text_length:
  "length (pieces_text shorts ps) \<le> 4 * length (filter (\<lambda>p. p \<noteq> Colon) ps) + length (filter (\<lambda>p. p = Colon) ps)"
proof (induction ps)
  case (Cons p ps)
  then show ?case
    using hex_text_length [of "NetworkToHost16 (shorts ! (case p of Hex i \<Rightarrow> i | Colon \<Rightarrow> 0))"]
    by (cases p) (simp_all add: pieces_text_Cons)
qed (simp add: pieces_text_Cons)

lemma spaced_counts:
  "length (filter (\<lambda>p. p \<noteq> Colon) (spaced is)) = length is" "length (filter (\<lambda>p. p = Colon) (spaced is)) \<le> length is"
  by (induction "is" rule: spaced.induct) auto

text \<open>
  What \<open>inet_ntop_v6\<close> leaves in a buffer of terminators: a text that fits, has a colon and is read back as
  the address.
\<close>

definition v6_text :: "in6_addr \<Rightarrow> string \<Rightarrow> bool" where
  "v6_text a t \<longleftrightarrow> CHR '':'' \<in> set t \<and> (\<forall>c \<in> set t. is_hex c \<or> c = CHR '':'' \<or> c = CHR ''.'') \<and>
     length t < INET6_ADDRSTRLEN \<and> inet_pton_v6 t = Some a"

lemma v6_text_dotted:
  "v6_text (ucast v) (''::'' @ dotted v)" "v6_text (0xFFFF00000000 OR ucast v) (''::ffff:'' @ dotted v)"
proof -
  have "is_hex (CHR ''f'')" by (simp add: is_hex_def)
  then show "v6_text (ucast v) (''::'' @ dotted v)" "v6_text (0xFFFF00000000 OR ucast v) (''::ffff:'' @ dotted v)"
    using dotted_chars(1) [of v] dotted_length [of v] dec_is_hex pton_compatible [of v] pton_mapped [of v]
    by (auto simp: v6_text_def addr_lengths)
qed

lemma ntop_v6_dotted:
  assumes runs: "zero_runs (as_shorts a) = (runpos, mx, maxpos)"
    and dotted: "runpos ! 0 = 1 \<and> (maxpos = 5 \<or> maxpos = 4 \<and> as_shorts a ! 5 = 0xFFFF)"
  shows "\<exists>s t. inet_ntop_v6 a INET6_ADDRSTRLEN (printed INET6_ADDRSTRLEN []) = (s, Returns True) \<and> text_in s = t \<and>
    v6_text a t"
proof -
  let ?v = "ucast a :: u32"
  from as_shorts_nth(2) runs obtain n where n: "maxpos + 1 = int n" "\<And>i. i < n \<Longrightarrow> as_shorts a ! i = 0" "n \<le> 8"
  proof (cases rule: layout)
    case full
    with dotted show ?thesis by simp
  next
    case (run p n)
    with dotted have "p = 0" by blast
    with run show ?thesis by (intro that [of n]) auto
  qed
  have zero: "v6_group a i = 0" if "i < n" for i
    using n(2) [OF that] that n(3) as_shorts_nth(1) [of i a] network_zero by simp
  then have top: "a = push_bit 32 (ucast (v6_group a 5)) OR ucast ?v"
    using n(1) dotted by (intro top_groups) auto
  have cursor: "pr_cursor (printed m x) = length x" for m x by (simp add: printed_def)
  have dot: "NUL \<notin> set (dotted ?v)" by (rule no_NUL(2))
  show ?thesis
  proof (cases "maxpos = 4")
    case False
    with dotted have "maxpos = 5" by blast
    with n(1) zero [of 5] top have a: "a = ucast ?v" by simp
    have "inet_ntop_v6 a INET6_ADDRSTRLEN (printed INET6_ADDRSTRLEN []) =
        ((printed INET6_ADDRSTRLEN (''::'' @ dotted ?v))\<lparr>pr_cursor := 2\<rparr>, Returns True)"
      using dotted False runs
      by (simp add: inet_ntop_v6_def Let_def cursor put_char_printed ntop_v4 addr_lengths)
    with dot a v6_text_dotted(1) [of ?v] show ?thesis by (simp add: text_in_printed)
  next
    case True
    with dotted have "as_shorts a ! 5 = 0xFFFF" by auto
    then have "v6_group a 5 = 0xFFFF"
      using as_shorts_nth(1) [of 5 a] network_host(1) [of "v6_group a 5"] network_ones by simp
    with top have a: "a = 0xFFFF00000000 OR ucast ?v" by simp
    have "inet_ntop_v6 a INET6_ADDRSTRLEN (printed INET6_ADDRSTRLEN []) =
        ((printed INET6_ADDRSTRLEN (''::ffff:'' @ dotted ?v))\<lparr>pr_cursor := 7\<rparr>, Returns True)"
      using dotted True runs advance_printed [where u = "''ffff:''" and n = INET6_ADDRSTRLEN and t = "''::''"]
      by (simp add: inet_ntop_v6_def Let_def cursor put_char_printed snprintf_printed ntop_v4 addr_lengths)
    with dot a v6_text_dotted(2) [of ?v] show ?thesis by (simp add: text_in_printed)
  qed
qed

lemma ntop_v6_groups:
  assumes runs: "zero_runs (as_shorts a) = (runpos, mx, maxpos)"
    and groups: "\<not> (runpos ! 0 = 1 \<and> (maxpos = 5 \<or> maxpos = 4 \<and> as_shorts a ! 5 = 0xFFFF))"
  shows "\<exists>s t. inet_ntop_v6 a INET6_ADDRSTRLEN (printed INET6_ADDRSTRLEN []) = (s, Returns True) \<and> text_in s = t \<and>
    v6_text a t"
proof -
  let ?sh = "as_shorts a" and ?ps = "pieces runpos mx 0"
  let ?t = "pieces_text ?sh ?ps"
  from as_shorts_nth(2) runs have shape: "?ps = spaced [0..<8] \<or> (\<exists>p n. 1 \<le> n \<and> p + n \<le> 8 \<and>
      (\<forall>i. p \<le> i \<and> i < p + n \<longrightarrow> ?sh ! i = 0) \<and> ?ps = spaced [0..<p] @ [Colon, Colon] @ spaced [p + n..<8])"
    by (cases rule: layout) blast+
  then have chars: "\<forall>c \<in> set ?t. is_hex c \<or> c = CHR '':''"
    by (auto simp: pieces_text_Cons dest!: group_text_chars [rule_format])
  have "Colon \<in> set ?ps" using shape by (auto simp: upt_rec)
  then have colon: "CHR '':'' \<in> set ?t" by (force simp: pieces_text_def)
  have colons: "length (filter (\<lambda>p. p = Colon) (spaced [i..<j])) \<le> j - i" for i j
    using spaced_counts(2) [of "[i..<j]"] by simp
  have "length (filter (\<lambda>p. p \<noteq> Colon) ?ps) \<le> 8 \<and> length (filter (\<lambda>p. p = Colon) ?ps) \<le> 10"
    using shape
  proof (elim disjE exE conjE)
    assume "?ps = spaced [0..<8]"
    then show ?thesis using colons [of 0 8] by (simp add: spaced_counts)
  next
    fix p n assume "?ps = spaced [0..<p] @ [Colon, Colon] @ spaced [p + n..<8]" "p + n \<le> 8"
    then show ?thesis using colons [of 0 p] colons [of "p + n" 8] by (simp add: spaced_counts)
  qed
  then have room: "length ?t < INET6_ADDRSTRLEN"
    using pieces_text_length [of ?sh ?ps] by (simp add: addr_lengths)
  have "pton_groups ?t 0 (replicate 8 0) False = Some ([], 8, ?sh)"
    using as_shorts_nth(2) shape by (rule pton_layout)
  moreover have "CHR ''x'' \<notin> set ?t" "CHR ''.'' \<notin> set ?t" using chars not_digits(4,8) by auto
  ultimately have pton: "inet_pton_v6 ?t = Some a"
    using set_drop_subset [of 2 ?t] by (auto simp: inet_pton_v6_def v6_of_as_shorts)
  have "inet_ntop_v6 a INET6_ADDRSTRLEN (printed INET6_ADDRSTRLEN []) = (printed INET6_ADDRSTRLEN ?t, Returns True)"
    using groups runs print_groups_pieces [of "[]" ?sh runpos mx 0] room
    by (auto simp: inet_ntop_v6_def Let_def printed_def)
  moreover have "v6_text a ?t" using colon pton chars room by (auto simp: v6_text_def)
  ultimately show ?thesis using no_NUL(1) [OF chars] by (simp add: text_in_printed)
qed

theorem inet_v6_roundtrip:
  "\<exists>s t. inet_ntop_v6 a INET6_ADDRSTRLEN (printed INET6_ADDRSTRLEN []) = (s, Returns True) \<and> text_in s = t \<and>
    v6_text a t"
proof -
  obtain runpos mx maxpos where "zero_runs (as_shorts a) = (runpos, mx, maxpos)" by (metis prod_cases3)
  then show ?thesis using ntop_v6_dotted ntop_v6_groups by blast
qed

end
