(* ===== verification/Addr_Text.thy ===== *)
theory Addr_Text
  imports Inet_Roundtrip
begin

unbundle bit_operations_syntax

text \<open>
  The textual forms of \<open>rtc::IPAddress\<close> and \<open>rtc::SocketAddress\<close> (\<open>rtc_base/ip_address.cc\<close>,
  \<open>socket_address.cc\<close>), which the program logs and in which WebRTC is given addresses, over the Windows
  \<open>inet_ntop\<close> and \<open>inet_pton\<close>; and the remaining conversions of \<open>socket_address.cc\<close>.
\<close>

section \<open>Strings\<close>

definition c_str :: "string \<Rightarrow> string" where
  "c_str s = takeWhile (\<lambda>c. c \<noteq> NUL) s"

definition find_from :: "char \<Rightarrow> nat \<Rightarrow> string \<Rightarrow> nat option" where
  "find_from c k s = (if c \<in> set (drop k s) then Some (k + length (takeWhile (\<lambda>x. x \<noteq> c) (drop k s))) else None)"

definition rfind :: "char \<Rightarrow> string \<Rightarrow> nat option" where
  "rfind c s = (if c \<in> set s then Some (length s - 1 - length (takeWhile (\<lambda>x. x \<noteq> c) (rev s))) else None)"

text \<open>\<open>SimpleStringBuilder\<close> on a buffer of \<open>n\<close> characters: what does not fit is dropped.\<close>

definition sb_add :: "nat \<Rightarrow> string \<Rightarrow> string \<Rightarrow> string" where
  "sb_add n str t = t @ take (min (length str) (n - length t - 1)) str"

definition sb_add_int :: "nat \<Rightarrow> nat \<Rightarrow> string \<Rightarrow> string" where
  "sb_add_int n i t = sb_add n (number_text 10 i) t"

section \<open>IPAddress\<close>

definition IPAddress_ToString :: "IPAddress \<Rightarrow> string outcome" where
  "IPAddress_ToString ip =
     (if IPIsUnspec ip then Returns []
      else case win32_inet_ntop ip INET6_ADDRSTRLEN \<lparr>pr_buf = replicate INET6_ADDRSTRLEN NUL, pr_cursor = 0\<rparr> of
             (buf, r) \<Rightarrow> andThen r (\<lambda>ok. Returns (if ok then text_in buf else [])))"

definition IPAddress_ToSensitiveString :: "IPAddress \<Rightarrow> string outcome" where
  "IPAddress_ToSensitiveString ip =
     (case ip of
        AF_INET a \<Rightarrow> andThen (IPAddress_ToString ip) (\<lambda>address.
          Returns (case rfind (CHR ''.'') address of None \<Rightarrow> [] | Some find_pos \<Rightarrow> take find_pos address @ ''.x''))
      | AF_INET6 addr \<Rightarrow>
          Returns (number_text 16 (unat (s6_addr addr 0) * 256 + unat (s6_addr addr 1)) @ '':'' @
                   number_text 16 (unat (s6_addr addr 2) * 256 + unat (s6_addr addr 3)) @ '':'' @
                   number_text 16 (unat (s6_addr addr 4) * 256 + unat (s6_addr addr 5)) @ '':x:x:x:x:x'')
      | AF_UNSPEC \<Rightarrow> Returns [])"

text \<open>The answer of \<open>IPFromString\<close> and what it leaves in \<open>*out\<close>.\<close>

definition IPFromString :: "string \<Rightarrow> bool \<times> IPAddress" where
  "IPFromString str =
     (case inet_pton_v4 (c_str str) of
        Some addr \<Rightarrow> (True, AF_INET addr)
      | None \<Rightarrow>
          (case inet_pton_v6 (c_str str) of
             Some addr6 \<Rightarrow> (True, AF_INET6 addr6)
           | None \<Rightarrow> (False, AF_UNSPEC)))"

record InterfaceAddress =
  ifa_ip :: IPAddress
  ifa_flags :: int

definition InterfaceAddress_eq :: "InterfaceAddress \<Rightarrow> InterfaceAddress \<Rightarrow> bool" where
  "InterfaceAddress_eq this other \<longleftrightarrow> ifa_flags this = ifa_flags other \<and> IPAddress_eq (ifa_ip this) (ifa_ip other)"

text \<open>\<open>rtc::ToHex\<close> prints an \<open>int\<close> as unsigned.\<close>

definition InterfaceAddress_ToString :: "InterfaceAddress \<Rightarrow> string outcome" where
  "InterfaceAddress_ToString this =
     andThen (IPAddress_ToString (ifa_ip this)) (\<lambda>result.
     Returns (case ifa_ip this of
                AF_INET6 _ \<Rightarrow> result @ ''|flags:0x'' @ number_text 16 (nat (ifa_flags this mod 2 ^ 32))
              | _ \<Rightarrow> result))"

definition IPFromString_flags :: "string \<Rightarrow> int \<Rightarrow> InterfaceAddress \<Rightarrow> bool \<times> InterfaceAddress" where
  "IPFromString_flags str flags out =
     (case IPFromString str of (ok, ip) \<Rightarrow>
        if \<not> ok then (False, out) else (True, \<lparr>ifa_ip = ip, ifa_flags = flags\<rparr>))"

section \<open>SocketAddress\<close>

definition SetIP_host :: "string \<Rightarrow> SocketAddress \<Rightarrow> SocketAddress" where
  "SetIP_host hostname this =
     (case IPFromString hostname of (literal, ip) \<Rightarrow>
        this\<lparr>sa_hostname := hostname, sa_literal := literal, sa_ip := (if literal then ip else AF_UNSPEC), sa_scope_id := 0\<rparr>)"

definition SocketAddress_host :: "string \<Rightarrow> int \<Rightarrow> SocketAddress" where
  "SocketAddress_host hostname port = SetPort port (SetIP_host hostname SocketAddress_Clear)"

definition HostAsURIString :: "SocketAddress \<Rightarrow> string outcome" where
  "HostAsURIString this =
     (if \<not> sa_literal this \<and> sa_hostname this \<noteq> [] then Returns (sa_hostname this)
      else case sa_ip this of
             AF_INET6 _ \<Rightarrow> andThen (IPAddress_ToString (sa_ip this)) (\<lambda>t. Returns (''['' @ t @ '']''))
           | _ \<Rightarrow> IPAddress_ToString (sa_ip this))"

definition HostAsSensitiveURIString :: "SocketAddress \<Rightarrow> string outcome" where
  "HostAsSensitiveURIString this =
     (if \<not> sa_literal this \<and> sa_hostname this \<noteq> [] then Returns (sa_hostname this)
      else case sa_ip this of
             AF_INET6 _ \<Rightarrow> andThen (IPAddress_ToSensitiveString (sa_ip this)) (\<lambda>t. Returns (''['' @ t @ '']''))
           | _ \<Rightarrow> IPAddress_ToSensitiveString (sa_ip this))"

definition PortAsString :: "SocketAddress \<Rightarrow> string" where
  "PortAsString this = number_text 10 (unat (sa_port this))"

definition SocketAddress_ToString :: "SocketAddress \<Rightarrow> string outcome" where
  "SocketAddress_ToString this =
     andThen (HostAsURIString this) (\<lambda>host.
     Returns (c_str (sb_add_int 1024 (unat (sa_port this)) (sb_add 1024 '':'' (sb_add 1024 host [])))))"

definition SocketAddress_ToSensitiveString :: "SocketAddress \<Rightarrow> string outcome" where
  "SocketAddress_ToSensitiveString this =
     andThen (HostAsSensitiveURIString this) (\<lambda>host.
     Returns (c_str (sb_add_int 1024 (unat (sa_port this)) (sb_add 1024 '':'' (sb_add 1024 host [])))))"

definition ToSensitiveNameAndAddressString :: "SocketAddress \<Rightarrow> string outcome" where
  "ToSensitiveNameAndAddressString this =
     (if IsUnresolvedIP this \<or> sa_literal this \<or> sa_hostname this = [] then SocketAddress_ToSensitiveString this
      else
        andThen (HostAsSensitiveURIString this) (\<lambda>host.
        andThen (IPAddress_ToSensitiveString (sa_ip this)) (\<lambda>ip.
        let sb = sb_add_int 1024 (unat (sa_port this)) (sb_add 1024 '':'' (sb_add 1024 host []));
            sb = sb_add 1024 '' ('' sb;
            sb = (case sa_ip this of
                    AF_INET6 _ \<Rightarrow> sb_add 1024 '']'' (sb_add 1024 ip (sb_add 1024 ''['' sb))
                  | _ \<Rightarrow> sb_add 1024 ip sb);
            sb = sb_add 1024 '')'' (sb_add_int 1024 (unat (sa_port this)) (sb_add 1024 '':'' sb))
        in Returns (c_str sb))))"

text \<open>
  \<open>FromString\<close>: its answer and the address afterwards.  \<open>at(0)\<close> of the empty string throws; a text that
  opens a bracket and never closes it changes nothing and counts as a success.
\<close>

definition SocketAddress_FromString :: "string \<Rightarrow> SocketAddress \<Rightarrow> (bool \<times> SocketAddress) outcome" where
  "SocketAddress_FromString str this =
     (if str = [] then Faults OutOfBounds
      else if str ! 0 = CHR ''[''
      then Returns
        (case rfind (CHR '']'') str of
           None \<Rightarrow> (True, this)
         | Some closebracket \<Rightarrow>
             (case find_from (CHR '':'') closebracket str of
                None \<Rightarrow> (False, this)
              | Some colon \<Rightarrow>
                  if \<not> colon > closebracket then (False, this)
                  else (True, SetIP_host (take (closebracket - 1) (drop 1 str))
                                (SetPort (sint (strtoul (c_str (drop (colon + 1) str)))) this))))
      else Returns
        (case find_from (CHR '':'') 0 str of
           None \<Rightarrow> (False, this)
         | Some pos \<Rightarrow>
             (True, SetIP_host (take pos str) (SetPort (sint (strtoul (c_str (drop (pos + 1) str)))) this))))"

definition IsAnyIP :: "SocketAddress \<Rightarrow> bool" where "IsAnyIP this = IPIsAny (sa_ip this)"
definition IsPrivateIP :: "SocketAddress \<Rightarrow> bool" where "IsPrivateIP this = IPIsPrivate (sa_ip this)"

text \<open>\<open>sockaddr_in\<close>: the family, the port and the address in network order.\<close>

record sockaddr_in =
  sin_inet :: bool
  sin_port :: u16
  sin_addr :: u32

definition ToSockAddr :: "SocketAddress \<Rightarrow> sockaddr_in" where
  "ToSockAddr this =
     (case sa_ip this of
        AF_INET a \<Rightarrow>
          \<lparr>sin_inet = True, sin_port = HostToNetwork16 (sa_port this),
           sin_addr = (if IPIsAny (sa_ip this) then 0 else HostToNetwork32 a)\<rparr>
      | _ \<Rightarrow> \<lparr>sin_inet = False, sin_port = 0, sin_addr = 0\<rparr>)"

definition FromSockAddr :: "sockaddr_in \<Rightarrow> SocketAddress \<Rightarrow> bool \<times> SocketAddress" where
  "FromSockAddr saddr this =
     (if \<not> sin_inet saddr then (False, this)
      else (True, (SetPort (uint (NetworkToHost16 (sin_port saddr)))
                     (SetIP (AF_INET (NetworkToHost32 (sin_addr saddr))) this))\<lparr>sa_literal := False\<rparr>))"

definition EmptySocketAddressWithFamily :: "IPAddress \<Rightarrow> SocketAddress" where
  "EmptySocketAddressWithFamily family =
     (case family of
        AF_INET _ \<Rightarrow> SocketAddress_new (AF_INET 0) 0
      | AF_INET6 _ \<Rightarrow> SocketAddress_new (AF_INET6 in6addr_any) 0
      | AF_UNSPEC \<Rightarrow> SocketAddress_Clear)"

definition GetLoopbackIP :: "IPAddress \<Rightarrow> IPAddress" where
  "GetLoopbackIP family =
     (case family of AF_INET _ \<Rightarrow> AF_INET 0x7F000001 | AF_INET6 _ \<Rightarrow> AF_INET6 in6addr_loopback | AF_UNSPEC \<Rightarrow> AF_UNSPEC)"

definition GetAnyIP :: "IPAddress \<Rightarrow> IPAddress" where
  "GetAnyIP family =
     (case family of AF_INET _ \<Rightarrow> AF_INET 0 | AF_INET6 _ \<Rightarrow> AF_INET6 in6addr_any | AF_UNSPEC \<Rightarrow> AF_UNSPEC)"

section \<open>Round trips\<close>

lemma printed_empty: "\<lparr>pr_buf = replicate n NUL, pr_cursor = 0\<rparr> = printed n []"
  by (simp add: printed_def)

text \<open>Dotted text has no colon, so the text of an IPv6 address is not taken for one.\<close>

lemma pton_v4_chars: "pton_v4_loop s found r = Some x \<Longrightarrow> \<forall>c \<in> set s. is_dec c \<or> c = CHR ''.''"
proof (induction s found r rule: pton_v4_loop.induct)
  case (1 s found r)
  let ?ds = "takeWhile is_dec s" and ?rest = "dropWhile is_dec s"
  have split: "set s = set ?ds \<union> set ?rest" by (metis set_append takeWhile_dropWhile_id)
  show ?case
  proof (cases "?rest = []")
    case True
    then show ?thesis using split by (auto dest: set_takeWhileD)
  next
    case False
    then have "s \<noteq> []" by auto
    with False "1.prems" have head: "hd ?rest = CHR ''.''"
      by (subst (asm) pton_v4_loop.simps) (auto simp: Let_def split: if_splits)
    with False "1.prems" \<open>s \<noteq> []\<close> have "\<forall>c \<in> set (tl ?rest). is_dec c \<or> c = CHR ''.''"
      by (intro "1.IH"(1)) (subst (asm) pton_v4_loop.simps, auto simp: Let_def split: if_splits)+
    with head False have "\<forall>c \<in> set ?rest. is_dec c \<or> c = CHR ''.''" by (cases ?rest) auto
    with split show ?thesis by (auto dest: set_takeWhileD)
  qed
qed

lemma pton_v4_colon: "CHR '':'' \<in> set s \<Longrightarrow> inet_pton_v4 s = None"
  using pton_v4_chars [of s 0 "replicate 4 0"] not_digits(2) by (cases "pton_v4_loop s 0 (replicate 4 0)") (auto simp: inet_pton_v4_def)

definition addr_text :: "IPAddress \<Rightarrow> string \<Rightarrow> bool" where
  "addr_text ip t \<longleftrightarrow> (case ip of AF_INET a \<Rightarrow> t = dotted a | AF_INET6 a \<Rightarrow> v6_text a t | AF_UNSPEC \<Rightarrow> False)"

lemma IPAddress_ToString_text:
  assumes "ip \<noteq> AF_UNSPEC"
  obtains t where "IPAddress_ToString ip = Returns t" "addr_text ip t"
proof (cases ip)
  case AF_UNSPEC
  with assms show thesis by simp
next
  case (AF_INET a)
  then show thesis
    using that inet_ntop_v4_roundtrip(1) [of INET6_ADDRSTRLEN a]
    by (auto simp: IPAddress_ToString_def IPIsUnspec_def win32_inet_ntop_def printed_empty addr_text_def addr_lengths)
next
  case (AF_INET6 a)
  then show thesis
    using that inet_v6_roundtrip [of a]
    by (auto simp: IPAddress_ToString_def IPIsUnspec_def win32_inet_ntop_def printed_empty addr_text_def)
qed

lemma addr_text_chars:
  assumes "addr_text ip t"
  shows "\<forall>c \<in> set t. is_hex c \<or> c = CHR '':'' \<or> c = CHR ''.''" "length t < INET6_ADDRSTRLEN"
  using assms dotted_chars(1) dec_is_hex le_less_trans [OF dotted_length, of 65]
  by (auto simp: addr_text_def v6_text_def addr_lengths split: IPAddress.splits)

lemma c_str_id: "NUL \<notin> set t \<Longrightarrow> c_str t = t"
  by (simp add: c_str_def takeWhile_eq_all_conv) (metis)

lemma not_in_addr_text:
  assumes "addr_text ip t"
  shows "NUL \<notin> set t" "CHR '']'' \<notin> set t"
proof -
  have "\<not> is_hex NUL" "\<not> is_hex (CHR '']'')" by (simp_all add: is_hex_def)
  then show "NUL \<notin> set t" "CHR '']'' \<notin> set t" using addr_text_chars(1) [OF assms] by force+
qed

lemma IPFromString_text: "addr_text ip t \<Longrightarrow> IPFromString t = (True, ip)"
  using not_in_addr_text(1) [of ip t]
  by (auto simp: addr_text_def IPFromString_def c_str_id inet_pton_v4_dotted v6_text_def pton_v4_colon
      split: IPAddress.splits)

lemma IPFromString_empty: "fst (IPFromString []) = False"
  by code_simp

lemma strtoul_text: "strtoul (number_text 10 (unat (p :: u16))) = ucast p"
proof -
  obtain c t where ct: "number_text 10 (unat p) = c # t"
    using number_text_nonempty [of 10 "unat p"] by (cases "number_text 10 (unat p)") auto
  then have dec: "is_dec c" using dec_text_digits [of "unat p"] by simp
  then have "\<not> is_space c" "c \<noteq> CHR ''-''" "c \<noteq> CHR ''+''"
    using hex_not_space [OF dec_is_hex] dec_is_hex not_digits(6,7) by auto
  then have sign: "take_sign (dropWhile is_space (number_text 10 (unat p))) = (False, number_text 10 (unat p))"
    by (simp add: ct take_sign_def)
  have digits: "takeWhile is_dec (number_text 10 (unat p)) = number_text 10 (unat p)"
    using dec_text_digits [of "unat p"] by (simp add: takeWhile_eq_all_conv)
  have "unat p < 65536" using unsigned_less [of p, where 'a = nat] by simp
  then show ?thesis
    unfolding strtoul_def sign prod.case digits by (simp add: number_value_text Let_def unsigned_ucast_eq)
qed

lemma port_text: "length (number_text 10 (unat (p :: u16))) \<le> 5" "\<forall>c \<in> set (number_text 10 (unat p)). is_dec c"
  using number_text_length [of 10 "unat p" 4] unsigned_less [of p, where 'a = nat] dec_text_digits by simp_all

lemma SetPort_text: "SetPort (sint (strtoul (number_text 10 (unat p)))) a = a\<lparr>sa_port := p\<rparr>"
proof -
  have "(word_of_int (sint (ucast p :: u32)) :: u16) = p" by (simp add: signed_ucast_eq) (rule bit_word_eqI, simp add: bit_simps)
  then show ?thesis by (simp add: SetPort_def strtoul_text)
qed


definition uri_host :: "IPAddress \<Rightarrow> string \<Rightarrow> string" where
  "uri_host ip t = (case ip of AF_INET6 _ \<Rightarrow> ''['' @ t @ '']'' | _ \<Rightarrow> t)"

lemma ToString_uri:
  assumes "IPAddress_ToString (sa_ip a) = Returns t" "addr_text (sa_ip a) t" "sa_literal a \<or> sa_hostname a = []"
  shows "SocketAddress_ToString a = Returns (uri_host (sa_ip a) t @ '':'' @ number_text 10 (unat (sa_port a)))"
proof -
  let ?host = "uri_host (sa_ip a) t" and ?port = "number_text 10 (unat (sa_port a))"
  have len: "length ?host < 67" "length ?port \<le> 5"
    using addr_text_chars(2) [OF assms(2)] port_text(1) [of "sa_port a"]
    by (auto simp: uri_host_def addr_lengths split: IPAddress.splits)
  have "NUL \<notin> set ?port" using port_text(2) [of "sa_port a"] no_NUL(1) [of ?port] dec_is_hex by blast
  then have nul: "NUL \<notin> set (?host @ '':'' @ ?port)"
    using not_in_addr_text(1) [OF assms(2)] by (auto simp: uri_host_def split: IPAddress.splits)
  have "HostAsURIString a = Returns ?host"
    using assms by (auto simp: HostAsURIString_def uri_host_def split: IPAddress.splits)
  moreover have "sb_add_int 1024 (unat (sa_port a)) (sb_add 1024 '':'' (sb_add 1024 ?host [])) = ?host @ '':'' @ ?port"
    using len by (simp add: sb_add_int_def sb_add_def)
  ultimately show ?thesis using nul by (simp add: SocketAddress_ToString_def c_str_id)
qed

lemma rfind_bracket:
  "CHR '']'' \<notin> set u \<Longrightarrow> rfind (CHR '']'') (s @ CHR '']'' # u) = Some (length s)"
proof -
  assume "CHR '']'' \<notin> set u"
  then have "takeWhile (\<lambda>x. x \<noteq> CHR '']'') (rev (s @ CHR '']'' # u)) = rev u"
    by (simp add: takeWhile_append)
  then show ?thesis by (simp add: rfind_def)
qed

lemma find_colon: "CHR '':'' \<notin> set s \<Longrightarrow> find_from (CHR '':'') 0 (s @ CHR '':'' # u) = Some (length s)"
  by (auto simp: find_from_def takeWhile_append)

lemma FromString_uri:
  assumes t: "addr_text ip t"
  shows "SocketAddress_FromString (uri_host ip t @ '':'' @ number_text 10 (unat p)) b =
    Returns (True, b\<lparr>sa_hostname := t, sa_literal := True, sa_ip := ip, sa_port := p, sa_scope_id := 0\<rparr>)"
proof -
  let ?port = "number_text 10 (unat p)"
  have port: "c_str ?port = ?port" "CHR '']'' \<notin> set ?port"
  proof -
    have "\<not> is_dec (CHR '']'')" by (simp add: is_dec_def)
    then show "CHR '']'' \<notin> set ?port" using port_text(2) [of p] by blast
    have "NUL \<notin> set ?port" using port_text(2) [of p] no_NUL(1) [of ?port] dec_is_hex by blast
    then show "c_str ?port = ?port" by (rule c_str_id)
  qed
  have set: "SetIP_host t (SetPort (sint (strtoul ?port)) b) =
      b\<lparr>sa_hostname := t, sa_literal := True, sa_ip := ip, sa_port := p, sa_scope_id := 0\<rparr>"
    by (simp add: SetIP_host_def IPFromString_text [OF t] SetPort_text)
  show ?thesis
  proof (cases ip)
    case AF_UNSPEC
    with t show ?thesis by (simp add: addr_text_def)
  next
    case (AF_INET a)
    then have d: "t = dotted a" using t by (simp add: addr_text_def)
    then obtain c cs where c: "t = c # cs" "is_dec c \<or> c = CHR ''.''"
      using dotted_chars(1,3) [of a] by (metis list.exhaust list.set_intros(1))
    have "c \<noteq> CHR ''[''" using c(2) by (auto simp: is_dec_def)
    moreover have "CHR '':'' \<notin> set t" using d dotted_no_x(2) by simp
    ultimately show ?thesis
      using AF_INET c(1) set port(1) find_colon [of t ?port]
      by (simp add: SocketAddress_FromString_def uri_host_def)
  next
    case (AF_INET6 a)
    let ?s = "CHR ''['' # t @ CHR '']'' # CHR '':'' # ?port"
    have close: "rfind (CHR '']'') ?s = Some (length t + 1)"
      using rfind_bracket [of "CHR '':'' # ?port" "CHR ''['' # t"] port(2) by simp
    have colon: "find_from (CHR '':'') (length t + 1) ?s = Some (length t + 2)"
      by (simp add: find_from_def)
    show ?thesis
      using AF_INET6 set port(1) close colon by (simp add: SocketAddress_FromString_def uri_host_def)
  qed
qed

section \<open>Texts that are accepted although they are no addresses\<close>

text \<open>A dot after the last number.\<close>

lemma inet_pton_v4_trailing_dot: "inet_pton_v4 (dotted a @ ''.'') = Some a"
proof -
  have zeros: "replicate 4 0 = [0, 0, 0, 0 :: u8]" by (simp add: numeral_eq_Suc)
  have bytes: "[0..<4] = [0, 1, 2, 3]" by (simp add: upt_rec)
  have "inet_pton_v4 (dotted a @ ''.'') = Some (v4_of_bytes (map (v4_byte a) [0..<4]))"
    by (simp add: inet_pton_v4_def dotted_def pton_v4_step unat_byte zeros bytes pton_v4_loop.simps [of "[]"])
  then show ?thesis by (simp only: v4_of_v4_bytes)
qed

text \<open>A single colon before the first group.\<close>

lemma pton_leading_colon:
  assumes "length shorts = 8"
  shows "pton_groups (CHR '':'' # group_text shorts [0..<8]) 0 (replicate 8 0) False = Some ([], 8, shorts)"
proof -
  obtain c t where ct: "piece_text shorts (Hex 0) = c # t" "is_hex c" "c \<noteq> CHR '':''" by (rule hex_group_text)
  have "[0..<8] = 0 # 1 # [2..<8]" by (simp add: upt_rec)
  then have "group_text shorts [0..<8] = c # t @ CHR '':'' # group_text shorts (1 # [2..<8])"
    by (simp only: group_text_simps ct(1) append_Cons)
  then obtain t' where t': "group_text shorts [0..<8] = c # t'" "c \<noteq> CHR '':''" using ct(3) by blast
  have "pton_groups (CHR '':'' # group_text shorts [0..<8]) 0 (replicate 8 0) False =
      pton_groups (group_text shorts [0..<8]) 0 (replicate 8 0) False"
    using t' by (subst pton_groups.simps) simp
  with pton_layout [OF assms, of "spaced [0..<8]"] show ?thesis by simp
qed

lemma inet_pton_v6_leading_colon:
  "inet_pton_v6 (CHR '':'' # group_text (as_shorts a) [0..<8]) = Some a"
proof -
  let ?t = "CHR '':'' # group_text (as_shorts a) [0..<8]"
  have chars: "\<forall>c \<in> set ?t. is_hex c \<or> c = CHR '':''" using group_text_chars by auto
  have "CHR ''x'' \<notin> set ?t" "CHR ''.'' \<notin> set ?t" using chars not_digits(4,8) by blast+
  then show ?thesis
    using set_drop_subset [of 2 ?t] pton_leading_colon [of "as_shorts a"] as_shorts_nth(2) [of a]
    by (auto simp: inet_pton_v6_def v6_of_as_shorts)
qed

lemma FromString_unclosed:
  "CHR '']'' \<notin> set s \<Longrightarrow> SocketAddress_FromString (CHR ''['' # s) b = Returns (True, b)"
  by (simp add: SocketAddress_FromString_def rfind_def)

text \<open>An address whose longest run of zeros is at the end: the text is not terminated.\<close>

lemma ntop_v6_unterminated:
  "NUL \<notin> set (pr_buf (fst (inet_ntop_v6 0 INET6_ADDRSTRLEN \<lparr>pr_buf = replicate INET6_ADDRSTRLEN CHR ''z'', pr_cursor = 0\<rparr>)))"
  by code_simp

end
