(* ===== verification/Dcsctp_Transport.thy ===== *)
theory Dcsctp_Transport
  imports Channel_Base Flat_Map
begin

text \<open>
  \<open>DcSctpTransport\<close> (\<open>media/sctp/dcsctp_transport.cc\<close>), the transport under the data channels: it keeps the
  state of every stream in a \<open>flat_map\<close>, maps messages to and from SCTP payload protocol identifiers and
  reports to its sink, the controller of the channels.  The SCTP socket and the DTLS transport are the
  record \<open>sctp_answers\<close> of what they answer at a call; what the transport calls on them and on its sink is
  logged in order.  A callback of the socket is an operation of its own: no operation reads, after a call of
  the socket, what such a callback changes.
\<close>

section \<open>Vocabulary\<close>

datatype WebrtcPPID =
  kDCEP | kString | kBinaryPartial | kBinary_ppid | kStringPartial | kStringEmpty | kBinaryEmpty

definition PPID_value :: "WebrtcPPID \<Rightarrow> u32" where
  "PPID_value p =
     (case p of kDCEP \<Rightarrow> 50 | kString \<Rightarrow> 51 | kBinaryPartial \<Rightarrow> 52 | kBinary_ppid \<Rightarrow> 53 | kStringPartial \<Rightarrow> 54
      | kStringEmpty \<Rightarrow> 56 | kBinaryEmpty \<Rightarrow> 57)"

datatype SocketState = kClosed_socket | kConnecting_socket | kConnected_socket | kShuttingDown_socket

datatype ErrorKind =
    kNoError | kTooManyRetries | kNotConnected | kParseFailed | kWrongSequence | kPeerReported
  | kProtocolViolation | kResourceExhaustion | kUnsupportedOperation

datatype SendStatus =
  kSuccess | kErrorMessageEmpty | kErrorMessageTooLarge | kErrorResourceExhaustion | kErrorShuttingDown

datatype SendPacketStatus = kSuccess_packet | kTemporaryFailure | kError_packet

datatype DtlsTransportState =
  kNew_dtls | kConnecting_dtls | kConnected_dtls | kClosed_dtls | kFailed_dtls | kNumValues_dtls

definition ToPPID :: "DataMessageType \<Rightarrow> nat \<Rightarrow> WebrtcPPID" where
  "ToPPID message_type len =
     (case message_type of
        kControl \<Rightarrow> kDCEP
      | kText \<Rightarrow> (if len > 0 then kString else kStringEmpty)
      | kBinary \<Rightarrow> (if len > 0 then kBinary_ppid else kBinaryEmpty))"

definition ToDataMessageType :: "u32 \<Rightarrow> DataMessageType option" where
  "ToDataMessageType ppid =
     (if ppid = PPID_value kDCEP then Some kControl
      else if ppid \<in> {PPID_value kString, PPID_value kStringPartial, PPID_value kStringEmpty} then Some kText
      else if ppid \<in> {PPID_value kBinary_ppid, PPID_value kBinaryPartial, PPID_value kBinaryEmpty} then Some kBinary
      else None)"

definition IsEmptyPPID :: "u32 \<Rightarrow> bool" where
  "IsEmptyPPID ppid \<longleftrightarrow> ppid = PPID_value kStringEmpty \<or> ppid = PPID_value kBinaryEmpty"

text \<open>The SCTP error cause code as its number.\<close>

definition ToErrorCauseCode :: "ErrorKind \<Rightarrow> u16 option" where
  "ToErrorCauseCode error =
     (case error of
        kParseFailed \<Rightarrow> Some 8
      | kPeerReported \<Rightarrow> Some 12
      | kWrongSequence \<Rightarrow> Some 13
      | kProtocolViolation \<Rightarrow> Some 13
      | kResourceExhaustion \<Rightarrow> Some 4
      | _ \<Rightarrow> None)"

record DcSctpMessage =
  msg_stream_id :: u16
  msg_ppid :: u32
  msg_payload :: bytes

record SendOptions =
  so_unordered :: bool
  so_lifetime :: "int option"
  so_max_retransmissions :: "nat option"

text \<open>Of the options of the socket, those that the transport sets or reads.\<close>

record DcSctpOptions =
  opt_local_port :: int
  opt_remote_port :: int
  opt_announced_maximum_incoming_streams :: u16
  opt_announced_maximum_outgoing_streams :: u16
  opt_mtu :: nat
  opt_max_message_size :: nat
  opt_max_send_buffer_size :: nat
  opt_per_stream_send_queue_limit :: nat
  opt_max_timer_backoff_duration :: "int option"
  opt_max_retransmissions :: "int option"
  opt_max_init_retransmits :: "int option"
  opt_enable_message_interleaving :: bool

definition DcSctpOptions_default :: DcSctpOptions where
  "DcSctpOptions_default =
     \<lparr>opt_local_port = 5000, opt_remote_port = 5000, opt_announced_maximum_incoming_streams = 65535,
      opt_announced_maximum_outgoing_streams = 65535, opt_mtu = 1191, opt_max_message_size = 256 * 1024,
      opt_max_send_buffer_size = 2000000, opt_per_stream_send_queue_limit = 2000000,
      opt_max_timer_backoff_duration = None, opt_max_retransmissions = Some 10,
      opt_max_init_retransmits = Some 8, opt_enable_message_interleaving = False\<rparr>"

definition MaxSendQueueSize :: nat where "MaxSendQueueSize = 16 * 1024 * 1024"

definition kMaxTimerBackoffDuration :: int where "kMaxTimerBackoffDuration = 3000"

section \<open>State\<close>

record StreamState =
  closure_initiated :: bool
  incoming_reset_done :: bool
  outgoing_reset_done :: bool
  stream_priority :: u16

datatype sink_call =
    SinkReadyToSend
  | SinkBufferedAmountLow u16
  | SinkDataReceived u16 DataMessageType bytes
  | SinkTransportClosed RTCError
  | SinkChannelClosing u16
  | SinkChannelClosed u16

datatype transport_event =
    Sink sink_call
  | ConnectedCallback
  | SocketCreate DcSctpOptions
  | SocketConnect
  | SocketClose
  | SocketSetMaxMessageSize nat
  | SocketSetStreamPriority u16 u16
  | SocketResetStreams "u16 list"
  | SocketSend DcSctpMessage SendOptions
  | SocketSetBufferedAmountLowThreshold u16 u64
  | SocketReceivePacket bytes
  | DtlsConnect nat
  | DtlsDisconnect nat
  | DtlsSendPacket bytes

text \<open>A socket is its options; \<open>dt_sink\<close> and \<open>dt_on_connected\<close> say whether a sink and a callback are set.\<close>

record DcSctpTransport =
  dt_transport :: "nat option"
  dt_socket :: "DcSctpOptions option"
  dt_receive_buffer :: bytes
  stream_states :: "(u16, StreamState) flat_map"
  dt_ready_to_send_data :: bool
  dt_on_connected :: bool
  dt_sink :: bool
  dt_log :: "transport_event list"

record sctp_answers =
  sk_state :: SocketState
  sk_Send :: "DcSctpMessage \<Rightarrow> SendOptions \<Rightarrow> SendStatus"
  sk_buffered_amount :: "u16 \<Rightarrow> u64"
  sk_buffered_amount_low_threshold :: "u16 \<Rightarrow> u64"
  dtls_writable :: bool
  dtls_SendPacket :: "bytes \<Rightarrow> int"
  dtls_error_blocking :: bool
  message_interleaving :: bool

type_synonym 'a dt_act = "(DcSctpTransport, 'a) act"

definition dt_note :: "transport_event \<Rightarrow> unit dt_act" where
  "dt_note e = update (\<lambda>s. s\<lparr>dt_log := dt_log s @ [e]\<rparr>)"

definition to_sink :: "sink_call \<Rightarrow> unit dt_act" where
  "to_sink c = seq (look dt_sink) (\<lambda>set. onlyif set (dt_note (Sink c)))"

text \<open>Assignment through the reference \<open>it->second\<close>, and erasure by key.\<close>

definition set_stream :: "nat \<Rightarrow> StreamState \<Rightarrow> unit dt_act" where
  "set_stream it st =
     update (\<lambda>s. s\<lparr>stream_states := (stream_states s)[it := (fst (stream_states s ! it), st)]\<rparr>)"

definition erase_stream :: "u16 \<Rightarrow> unit dt_act" where
  "erase_stream sid = update (\<lambda>s. s\<lparr>stream_states := fst (flat_erase_key sid (stream_states s))\<rparr>)"


section \<open>Calls of the owner\<close>

definition ConnectTransportSignals :: "unit dt_act" where
  "ConnectTransportSignals =
     seq (look dt_transport) (\<lambda>t. case t of None \<Rightarrow> ret () | Some t \<Rightarrow> dt_note (DtlsConnect t))"

definition DisconnectTransportSignals :: "unit dt_act" where
  "DisconnectTransportSignals =
     seq (look dt_transport) (\<lambda>t. case t of None \<Rightarrow> ret () | Some t \<Rightarrow> dt_note (DtlsDisconnect t))"

definition DcSctpTransport_new :: "nat option \<Rightarrow> DcSctpTransport" where
  "DcSctpTransport_new transport =
     fst (ConnectTransportSignals
       \<lparr>dt_transport = transport, dt_socket = None, dt_receive_buffer = [], stream_states = [],
        dt_ready_to_send_data = False, dt_on_connected = False, dt_sink = False, dt_log = []\<rparr>)"

definition dt_destroy :: "unit dt_act" where
  "dt_destroy = seq (look dt_socket) (\<lambda>sock. onlyif (sock \<noteq> None) (dt_note SocketClose))"

definition MaybeConnectSocket :: "sctp_answers \<Rightarrow> unit dt_act" where
  "MaybeConnectSocket sk =
     seq (look (\<lambda>s. (dt_transport s, dt_socket s))) (\<lambda>(transport, sock).
     onlyif (transport \<noteq> None \<and> dtls_writable sk \<and> sock \<noteq> None \<and> sk_state sk = kClosed_socket)
       (dt_note SocketConnect))"

definition SetOnConnectedCallback :: "bool \<Rightarrow> unit dt_act" where
  "SetOnConnectedCallback callback = update (\<lambda>s. s\<lparr>dt_on_connected := callback\<rparr>)"

definition SetDataChannelSink :: "bool \<Rightarrow> unit dt_act" where
  "SetDataChannelSink sink =
     seq (update (\<lambda>s. s\<lparr>dt_sink := sink\<rparr>)) (\<lambda>_.
     seq (look (\<lambda>s. dt_sink s \<and> dt_ready_to_send_data s)) (\<lambda>b.
     onlyif b (to_sink SinkReadyToSend)))"

definition SetDtlsTransport :: "sctp_answers \<Rightarrow> nat option \<Rightarrow> unit dt_act" where
  "SetDtlsTransport sk transport =
     seq DisconnectTransportSignals (\<lambda>_.
     seq (update (\<lambda>s. s\<lparr>dt_transport := transport\<rparr>)) (\<lambda>_.
     seq ConnectTransportSignals (\<lambda>_.
     MaybeConnectSocket sk)))"

definition start_options :: "sctp_answers \<Rightarrow> int \<Rightarrow> int \<Rightarrow> int \<Rightarrow> DcSctpOptions" where
  "start_options sk local_sctp_port remote_sctp_port max_message_size =
     DcSctpOptions_default
       \<lparr>opt_local_port := local_sctp_port, opt_remote_port := remote_sctp_port,
        opt_max_message_size := nat (max_message_size mod 2 ^ 64),
        opt_max_timer_backoff_duration := Some kMaxTimerBackoffDuration,
        opt_max_retransmissions := None, opt_max_init_retransmits := None,
        opt_per_stream_send_queue_limit := MaxSendQueueSize, opt_max_send_buffer_size := 2 ^ 64 - 1,
        opt_enable_message_interleaving := message_interleaving sk\<rparr>"

definition dt_Start :: "sctp_answers \<Rightarrow> int \<Rightarrow> int \<Rightarrow> int \<Rightarrow> bool dt_act" where
  "dt_Start sk local_sctp_port remote_sctp_port max_message_size =
     seq (look dt_socket) (\<lambda>sock.
     seq (case sock of
            None \<Rightarrow>
              let options = start_options sk local_sctp_port remote_sctp_port max_message_size
              in seq (update (\<lambda>s. s\<lparr>dt_socket := Some options\<rparr>)) (\<lambda>_.
                 seq (dt_note (SocketCreate options)) (\<lambda>_. ret True))
          | Some options \<Rightarrow>
              if local_sctp_port \<noteq> opt_local_port options \<or> remote_sctp_port \<noteq> opt_remote_port options
              then ret False
              else let n = nat (max_message_size mod 2 ^ 64)
                   in seq (update (\<lambda>s. s\<lparr>dt_socket := Some (options\<lparr>opt_max_message_size := n\<rparr>)\<rparr>)) (\<lambda>_.
                      seq (dt_note (SocketSetMaxMessageSize n)) (\<lambda>_. ret True))) (\<lambda>ok.
     if \<not> ok then ret False
     else seq (MaybeConnectSocket sk) (\<lambda>_.
          seq (seq (look stream_states)
                (each (\<lambda>(sid, stream_state). dt_note (SocketSetStreamPriority sid (stream_priority stream_state))))) (\<lambda>_.
          ret True))))"

definition OpenStream :: "int \<Rightarrow> u16 \<Rightarrow> bool dt_act" where
  "OpenStream sid priority =
     (let stream_state = \<lparr>closure_initiated = False, incoming_reset_done = False, outgoing_reset_done = False,
                          stream_priority = priority\<rparr>
      in seq (update (\<lambda>s. s\<lparr>stream_states := fst (insert_or_assign (word_of_int sid) stream_state (stream_states s))\<rparr>)) (\<lambda>_.
         seq (look dt_socket) (\<lambda>sock.
         seq (onlyif (sock \<noteq> None) (dt_note (SocketSetStreamPriority (word_of_int sid) priority))) (\<lambda>_.
         ret True))))"

definition in_reset :: "StreamState \<Rightarrow> bool" where
  "in_reset st \<longleftrightarrow> closure_initiated st \<or> incoming_reset_done st \<or> outgoing_reset_done st"

definition ResetStream :: "int \<Rightarrow> bool dt_act" where
  "ResetStream sid =
     seq (look (\<lambda>s. (dt_socket s, stream_states s))) (\<lambda>(sock, streams).
     if sock = None then ret False
     else
       let it = flat_find (word_of_int sid) streams; stream_state = snd (streams ! it)
       in if it = length streams then ret False
          else if in_reset stream_state then ret False
          else seq (set_stream it (stream_state\<lparr>closure_initiated := True\<rparr>)) (\<lambda>_.
               seq (dt_note (SocketResetStreams [word_of_int sid])) (\<lambda>_.
               ret True)))"

definition message_of :: "int \<Rightarrow> SendDataParams \<Rightarrow> bytes \<Rightarrow> DcSctpMessage" where
  "message_of sid params payload =
     \<lparr>msg_stream_id = word_of_int sid, msg_ppid = PPID_value (ToPPID (sdp_type params) (length payload)),
      msg_payload = (if payload = [] then [0] else payload)\<rparr>"

definition send_options_of :: "SendDataParams \<Rightarrow> SendOptions" where
  "send_options_of params =
     \<lparr>so_unordered = (\<not> sdp_ordered params), so_lifetime = sdp_max_rtx_ms params,
      so_max_retransmissions = map_option (\<lambda>n. nat (n mod 2 ^ 64)) (sdp_max_rtx_count params)\<rparr>"

text \<open>The texts that \<open>dcsctp::ToString\<close> gives for a \<open>SendStatus\<close>.\<close>

definition SendStatus_ToString :: "SendStatus \<Rightarrow> string" where
  "SendStatus_ToString error =
     (case error of
        kSuccess \<Rightarrow> ''SUCCESS'' | kErrorMessageEmpty \<Rightarrow> ''ERROR_MESSAGE_EMPTY''
      | kErrorMessageTooLarge \<Rightarrow> ''ERROR_MESSAGE_TOO_LARGE''
      | kErrorResourceExhaustion \<Rightarrow> ''ERROR_RESOURCE_EXHAUSTION''
      | kErrorShuttingDown \<Rightarrow> ''ERROR_SHUTTING_DOWN'')"

definition dt_SendData :: "sctp_answers \<Rightarrow> int \<Rightarrow> SendDataParams \<Rightarrow> bytes \<Rightarrow> RTCError dt_act" where
  "dt_SendData sk sid params payload =
     seq (look (\<lambda>s. (dt_socket s, stream_states s))) (\<lambda>(sock, streams).
     case sock of
       None \<Rightarrow> ret (RTCError_of INVALID_STATE [])
     | Some options \<Rightarrow>
         let stream_state = flat_find (word_of_int sid) streams
         in if stream_state = length streams then ret (RTCError_of INVALID_STATE [])
            else if in_reset (snd (streams ! stream_state)) then ret (RTCError_of INVALID_STATE [])
            else if opt_max_message_size options > 0 \<and> length payload > opt_max_message_size options
            then ret (RTCError_of INVALID_RANGE [])
            else
              let message = message_of sid params payload; send_options = send_options_of params
              in seq (dt_note (SocketSend message send_options)) (\<lambda>_.
                 case sk_Send sk message send_options of
                   kSuccess \<Rightarrow> ret RTCError_OK
                 | kErrorResourceExhaustion \<Rightarrow>
                     seq (update (\<lambda>s. s\<lparr>dt_ready_to_send_data := False\<rparr>)) (\<lambda>_.
                     ret (RTCError_of RESOURCE_EXHAUSTED []))
                 | error \<Rightarrow> ret (RTCError_of NETWORK_ERROR (SendStatus_ToString error))))"

definition dt_max_message_size :: "int dt_act" where
  "dt_max_message_size =
     look (\<lambda>s. case dt_socket s of None \<Rightarrow> 0 | Some options \<Rightarrow> sint (word_of_nat (opt_max_message_size options) :: u32))"

definition max_outbound_streams :: "u16 option dt_act" where
  "max_outbound_streams = look (\<lambda>s. map_option opt_announced_maximum_outgoing_streams (dt_socket s))"

definition max_inbound_streams :: "u16 option dt_act" where
  "max_inbound_streams = look (\<lambda>s. map_option opt_announced_maximum_incoming_streams (dt_socket s))"

definition dt_buffered_amount :: "sctp_answers \<Rightarrow> int \<Rightarrow> u64 dt_act" where
  "dt_buffered_amount sk sid =
     look (\<lambda>s. if dt_socket s = None then 0 else sk_buffered_amount sk (word_of_int sid))"

definition dt_buffered_amount_low_threshold :: "sctp_answers \<Rightarrow> int \<Rightarrow> u64 dt_act" where
  "dt_buffered_amount_low_threshold sk sid =
     look (\<lambda>s. if dt_socket s = None then 0 else sk_buffered_amount_low_threshold sk (word_of_int sid))"

definition dt_SetBufferedAmountLowThreshold :: "int \<Rightarrow> u64 \<Rightarrow> unit dt_act" where
  "dt_SetBufferedAmountLowThreshold sid n =
     seq (look dt_socket) (\<lambda>sock.
     onlyif (sock \<noteq> None) (dt_note (SocketSetBufferedAmountLowThreshold (word_of_int sid) n)))"


section \<open>Callbacks of the socket\<close>

definition SendPacketWithStatus :: "sctp_answers \<Rightarrow> bytes \<Rightarrow> SendPacketStatus dt_act" where
  "SendPacketWithStatus sk data =
     seq (look (\<lambda>s. (dt_socket s, dt_transport s))) (\<lambda>(sock, transport).
     case sock of
       None \<Rightarrow> fail NullDeref
     | Some options \<Rightarrow>
         if length data > opt_mtu options then ret kError_packet
         else if transport = None \<or> \<not> dtls_writable sk then ret kError_packet
         else seq (dt_note (DtlsSendPacket data)) (\<lambda>_.
              ret (if dtls_SendPacket sk data < 0
                   then (if dtls_error_blocking sk then kTemporaryFailure else kError_packet)
                   else kSuccess_packet)))"

definition OnTotalBufferedAmountLow :: "unit dt_act" where
  "OnTotalBufferedAmountLow =
     seq (look dt_ready_to_send_data) (\<lambda>ready.
     onlyif (\<not> ready)
       (seq (update (\<lambda>s. s\<lparr>dt_ready_to_send_data := True\<rparr>)) (\<lambda>_. to_sink SinkReadyToSend)))"

definition dt_OnBufferedAmountLow :: "u16 \<Rightarrow> unit dt_act" where
  "dt_OnBufferedAmountLow stream_id = to_sink (SinkBufferedAmountLow stream_id)"

definition OnMessageReceived :: "DcSctpMessage \<Rightarrow> unit dt_act" where
  "OnMessageReceived message =
     (case ToDataMessageType (msg_ppid message) of
        None \<Rightarrow> ret ()
      | Some type \<Rightarrow>
          seq (update (\<lambda>s. s\<lparr>dt_receive_buffer := (if IsEmptyPPID (msg_ppid message) then [] else msg_payload message)\<rparr>)) (\<lambda>_.
          seq (look dt_receive_buffer) (\<lambda>buffer.
          to_sink (SinkDataReceived (msg_stream_id message) type buffer))))"

definition OnAborted :: "ErrorKind \<Rightarrow> string \<Rightarrow> unit dt_act" where
  "OnAborted error message =
     seq (update (\<lambda>s. s\<lparr>dt_ready_to_send_data := False\<rparr>)) (\<lambda>_.
     to_sink (SinkTransportClosed
       ((RTCError_of OPERATION_ERROR_WITH_DATA message)
          \<lparr>err_detail := SCTP_FAILURE, err_sctp_cause := ToErrorCauseCode error\<rparr>)))"

definition OnConnected :: "unit dt_act" where
  "OnConnected =
     seq (update (\<lambda>s. s\<lparr>dt_ready_to_send_data := True\<rparr>)) (\<lambda>_.
     seq (to_sink SinkReadyToSend) (\<lambda>_.
     seq (look dt_on_connected) (\<lambda>set. onlyif set (dt_note ConnectedCallback))))"

definition dt_OnClosed :: "unit dt_act" where
  "dt_OnClosed = update (\<lambda>s. s\<lparr>dt_ready_to_send_data := False\<rparr>)"

text \<open>
  The two callbacks of a stream reset.  Both loops leave at the first stream that is not in the map.
\<close>

fun OnStreamsResetPerformed :: "u16 list \<Rightarrow> unit dt_act" where
  "OnStreamsResetPerformed [] = ret ()"
| "OnStreamsResetPerformed (stream_id # outgoing_streams) =
     seq (look stream_states) (\<lambda>streams.
     let it = flat_find stream_id streams;
         stream_state = (snd (streams ! it))\<lparr>outgoing_reset_done := True\<rparr>
     in if it = length streams then ret ()
        else
          seq (set_stream it stream_state) (\<lambda>_.
          seq (onlyif (incoming_reset_done stream_state)
                 (seq (to_sink (SinkChannelClosed stream_id)) (\<lambda>_. erase_stream stream_id))) (\<lambda>_.
          OnStreamsResetPerformed outgoing_streams)))"

fun OnIncomingStreamsReset :: "u16 list \<Rightarrow> unit dt_act" where
  "OnIncomingStreamsReset [] = ret ()"
| "OnIncomingStreamsReset (stream_id # incoming_streams) =
     seq (look stream_states) (\<lambda>streams.
     let it = flat_find stream_id streams;
         stream_state = (snd (streams ! it))\<lparr>incoming_reset_done := True\<rparr>
     in if it = length streams then ret ()
        else
          seq (set_stream it stream_state) (\<lambda>_.
          seq (onlyif (\<not> closure_initiated stream_state)
                 (seq (look dt_socket) (\<lambda>sock.
                  seq (if sock = None then fail NullDeref else dt_note (SocketResetStreams [stream_id])) (\<lambda>_.
                  to_sink (SinkChannelClosing stream_id))))) (\<lambda>_.
          seq (onlyif (outgoing_reset_done stream_state)
                 (seq (to_sink (SinkChannelClosed stream_id)) (\<lambda>_. erase_stream stream_id))) (\<lambda>_.
          OnIncomingStreamsReset incoming_streams))))"

text \<open>Two callbacks that only write to the log of the program.\<close>

definition OnStreamsResetFailed :: "u16 list \<Rightarrow> string \<Rightarrow> unit dt_act" where
  "OnStreamsResetFailed outgoing_streams reason = each (\<lambda>stream_id. ret ()) outgoing_streams"

definition OnConnectionRestarted :: "unit dt_act" where
  "OnConnectionRestarted = ret ()"

section \<open>Callbacks of the DTLS transport\<close>

definition OnDtlsClose :: "unit dt_act" where
  "OnDtlsClose = to_sink (SinkTransportClosed RTCError_OK)"

definition OnTransportWritableState :: "sctp_answers \<Rightarrow> unit dt_act" where
  "OnTransportWritableState sk = MaybeConnectSocket sk"

definition OnDtlsTransportState :: "sctp_answers \<Rightarrow> DtlsTransportState \<Rightarrow> unit dt_act" where
  "OnDtlsTransportState sk st =
     seq (look dt_socket) (\<lambda>sock.
     case sock of
       None \<Rightarrow> ret ()
     | Some options \<Rightarrow>
         if st = kNew_dtls
         then seq (update (\<lambda>s. s\<lparr>dt_socket := None\<rparr>)) (\<lambda>_.
              seq (dt_Start sk (opt_local_port options) (opt_remote_port options)
                    (sint (word_of_nat (opt_max_message_size options) :: u32))) (\<lambda>_. ret ()))
         else ret ())"

definition OnTransportReadPacket :: "bool \<Rightarrow> bytes \<Rightarrow> unit dt_act" where
  "OnTransportReadPacket dtls_decrypted payload =
     (if \<not> dtls_decrypted then ret ()
      else seq (look dt_socket) (\<lambda>sock. onlyif (sock \<noteq> None) (dt_note (SocketReceivePacket payload))))"


section \<open>Streams as a map\<close>

lemma flat_find_present:
  assumes "flat_ok m" "omap_get m k = Some v"
  shows "flat_find k m < length m" "snd (m ! flat_find k m) = v"
    "m[flat_find k m := (fst (m ! flat_find k m), w)] = omap_put k w m"
proof -
  have ne: "flat_find k m \<noteq> length m" using assms by (simp add: flat_find_end_iff)
  then have lb: "flat_find k m = flat_lower_bound k m" "\<not> k < fst (m ! flat_lower_bound k m)"
    "flat_lower_bound k m \<noteq> length m"
    by (auto simp: flat_find_def flat_equal_range_def Let_def split: if_splits)
  then show "flat_find k m < length m" using flat_lower_bound_le [of k m] by simp
  show "snd (m ! flat_find k m) = v" using flat_find_lookup [OF assms(1), of k] assms(2) ne by simp
  show "m[flat_find k m := (fst (m ! flat_find k m), w)] = omap_put k w m"
    using list_update_omap_put [OF assms, of w] flat_lower_bound_hit [OF assms(1), of k] lb
      flat_lower_bound_le [of k m] by simp
qed

lemma omap_del_put: "omap_del k (omap_put k v m) = omap_del k m"
  by (induction k v m rule: omap_put.induct) (auto simp: omap_del_def)

text \<open>\<open>stream_of\<close> is what the map holds for an id; the operations in its terms.\<close>

abbreviation stream_of :: "u16 \<Rightarrow> DcSctpTransport \<Rightarrow> StreamState option" where
  "stream_of sid s \<equiv> omap_get (stream_states s) sid"

definition put_stream :: "u16 \<Rightarrow> StreamState \<Rightarrow> DcSctpTransport \<Rightarrow> DcSctpTransport" where
  "put_stream sid st s = s\<lparr>stream_states := omap_put sid st (stream_states s)\<rparr>"

definition noted :: "transport_event list \<Rightarrow> DcSctpTransport \<Rightarrow> DcSctpTransport" where
  "noted es s = s\<lparr>dt_log := dt_log s @ es\<rparr>"

definition sunk :: "sink_call \<Rightarrow> DcSctpTransport \<Rightarrow> DcSctpTransport" where
  "sunk c s = noted (if dt_sink s then [Sink c] else []) s"

definition end_stream :: "u16 \<Rightarrow> DcSctpTransport \<Rightarrow> DcSctpTransport" where
  "end_stream sid s = (sunk (SinkChannelClosed sid) s)\<lparr>stream_states := omap_del sid (stream_states s)\<rparr>"

lemma run_dt_note [simp]: "dt_note e s = (noted [e] s, Returns ())"
  by (simp add: dt_note_def noted_def)

lemma run_to_sink [simp]: "to_sink c s = (sunk c s, Returns ())"
  by (simp add: to_sink_def sunk_def noted_def)

lemma run_erase_stream [simp]:
  "flat_ok (stream_states s) \<Longrightarrow> erase_stream sid s = (s\<lparr>stream_states := omap_del sid (stream_states s)\<rparr>, Returns ())"
  by (simp add: erase_stream_def flat_erase_key_refines)

lemma run_set_stream [simp]:
  "flat_ok (stream_states s) \<Longrightarrow> stream_of sid s = Some v \<Longrightarrow>
   set_stream (flat_find sid (stream_states s)) st s = (put_stream sid st s, Returns ())"
  by (simp add: set_stream_def put_stream_def flat_find_present(3))

lemma noted_simps [simp]:
  "stream_states (noted es s) = stream_states s" "dt_socket (noted es s) = dt_socket s"
  "dt_sink (noted es s) = dt_sink s" "dt_log (noted es s) = dt_log s @ es"
  "dt_transport (noted es s) = dt_transport s" "dt_ready_to_send_data (noted es s) = dt_ready_to_send_data s"
  by (simp_all add: noted_def)

lemma sunk_simps [simp]:
  "stream_states (sunk c s) = stream_states s" "dt_socket (sunk c s) = dt_socket s" "dt_sink (sunk c s) = dt_sink s"
  "dt_log (sunk c s) = dt_log s @ (if dt_sink s then [Sink c] else [])"
  "dt_ready_to_send_data (sunk c s) = dt_ready_to_send_data s"
  by (simp_all add: sunk_def)

lemma put_stream_simps [simp]:
  "stream_states (put_stream sid st s) = omap_put sid st (stream_states s)"
  "dt_socket (put_stream sid st s) = dt_socket s" "dt_sink (put_stream sid st s) = dt_sink s"
  "dt_log (put_stream sid st s) = dt_log s"
  by (simp_all add: put_stream_def)

lemma end_stream_simps [simp]:
  "stream_states (end_stream sid s) = omap_del sid (stream_states s)"
  "dt_socket (end_stream sid s) = dt_socket s" "dt_sink (end_stream sid s) = dt_sink s"
  "dt_log (end_stream sid s) = dt_log s @ (if dt_sink s then [Sink (SinkChannelClosed sid)] else [])"
  by (simp_all add: end_stream_def)

lemma end_put_stream: "end_stream sid (put_stream sid st s) = end_stream sid s"
  by (simp add: end_stream_def put_stream_def sunk_def noted_def omap_del_put)

section \<open>What the operations do\<close>

lemma ResetStream_run:
  assumes "flat_ok (stream_states s)"
  shows "ResetStream sid s =
    (case (dt_socket s, stream_of (word_of_int sid) s) of
       (Some _, Some st) \<Rightarrow>
         if in_reset st then (s, Returns False)
         else (noted [SocketResetStreams [word_of_int sid]] (put_stream (word_of_int sid) (st\<lparr>closure_initiated := True\<rparr>) s),
               Returns True)
     | _ \<Rightarrow> (s, Returns False))"
  using flat_find_end_iff [OF assms, of "word_of_int sid"] flat_find_present [OF assms, of "word_of_int sid"] assms
  by (auto simp: ResetStream_def Let_def split: option.splits)

lemma OpenStream_run:
  assumes "flat_ok (stream_states s)"
  shows "OpenStream sid priority s =
    (noted (if dt_socket s = None then [] else [SocketSetStreamPriority (word_of_int sid) priority])
       (put_stream (word_of_int sid) \<lparr>closure_initiated = False, incoming_reset_done = False,
          outgoing_reset_done = False, stream_priority = priority\<rparr> s), Returns True)"
  using assms by (simp add: OpenStream_def Let_def put_stream_def noted_def insert_or_assign_refines)

definition performed :: "u16 \<Rightarrow> StreamState \<Rightarrow> DcSctpTransport \<Rightarrow> DcSctpTransport" where
  "performed sid st s =
     (if incoming_reset_done st then end_stream sid s else put_stream sid (st\<lparr>outgoing_reset_done := True\<rparr>) s)"

lemma OnStreamsResetPerformed_run:
  assumes "flat_ok (stream_states s)"
  shows "OnStreamsResetPerformed (sid # sids) s =
    (case stream_of sid s of
       None \<Rightarrow> (s, Returns ())
     | Some st \<Rightarrow> OnStreamsResetPerformed sids (performed sid st s))"
proof (cases "stream_of sid s")
  case None
  then show ?thesis using assms by (simp add: flat_find_end_iff)
next
  case (Some st)
  then show ?thesis
    using assms flat_find_present [OF assms Some]
    by (simp add: performed_def omap_ok_put end_stream_def omap_del_put put_stream_def sunk_def noted_def)
qed

text \<open>An incoming reset asks the socket to reset the other direction unless that was done already.\<close>

definition incoming :: "u16 \<Rightarrow> StreamState \<Rightarrow> DcSctpTransport \<Rightarrow> DcSctpTransport" where
  "incoming sid st s =
     (let s1 = put_stream sid (st\<lparr>incoming_reset_done := True\<rparr>) s;
          s2 = (if closure_initiated st then s1 else sunk (SinkChannelClosing sid) (noted [SocketResetStreams [sid]] s1))
      in if outgoing_reset_done st then end_stream sid s2 else s2)"

lemma OnIncomingStreamsReset_run:
  assumes "flat_ok (stream_states s)" "dt_socket s \<noteq> None"
  shows "OnIncomingStreamsReset (sid # sids) s =
    (case stream_of sid s of
       None \<Rightarrow> (s, Returns ())
     | Some st \<Rightarrow> OnIncomingStreamsReset sids (incoming sid st s))"
proof (cases "stream_of sid s")
  case None
  then show ?thesis using assms by (simp add: flat_find_end_iff)
next
  case (Some st)
  then show ?thesis
    using assms flat_find_present [OF assms(1) Some]
    by (cases "closure_initiated st"; cases "outgoing_reset_done st")
      (auto simp: incoming_def Let_def omap_ok_put end_stream_def)
qed


text \<open>Sending: which answer is given when, and that only an accepted stream reaches the socket.\<close>

definition sendable :: "int \<Rightarrow> bytes \<Rightarrow> DcSctpTransport \<Rightarrow> bool" where
  "sendable sid payload s \<longleftrightarrow>
     (\<exists>options st. dt_socket s = Some options \<and> stream_of (word_of_int sid) s = Some st \<and> \<not> in_reset st \<and>
        (opt_max_message_size options = 0 \<or> length payload \<le> opt_max_message_size options))"

lemma dt_SendData_sendable:
  assumes "flat_ok (stream_states s)" "sendable sid payload s"
  shows "dt_SendData sk sid params payload s =
    (let m = message_of sid params payload; opts = send_options_of params; s' = noted [SocketSend m opts] s
     in case sk_Send sk m opts of
          kSuccess \<Rightarrow> (s', Returns RTCError_OK)
        | kErrorResourceExhaustion \<Rightarrow> (s'\<lparr>dt_ready_to_send_data := False\<rparr>, Returns (RTCError_of RESOURCE_EXHAUSTED []))
        | e \<Rightarrow> (s', Returns (RTCError_of NETWORK_ERROR (SendStatus_ToString e))))"
proof -
  obtain options st where o: "dt_socket s = Some options" "stream_of (word_of_int sid) s = Some st" "\<not> in_reset st"
    "opt_max_message_size options = 0 \<or> length payload \<le> opt_max_message_size options"
    using assms(2) by (auto simp: sendable_def)
  then show ?thesis
    using flat_find_present [OF assms(1) o(2)]
    by (auto simp: dt_SendData_def Let_def split: SendStatus.splits)
qed

lemma dt_SendData_refused:
  assumes "flat_ok (stream_states s)" "\<not> sendable sid payload s"
  shows "\<exists>e. dt_SendData sk sid params payload s = (s, Returns (RTCError_of e [])) \<and> e \<in> {INVALID_STATE, INVALID_RANGE}"
  using assms flat_find_end_iff [OF assms(1), of "word_of_int sid"] flat_find_present(2) [OF assms(1), of "word_of_int sid"]
  by (cases "dt_socket s"; cases "stream_of (word_of_int sid) s") (auto simp: dt_SendData_def sendable_def Let_def)

text \<open>The payload that a peer gets for the one that was sent: only an empty control message changes.\<close>

lemma PPID_distinct [simp]: "PPID_value p = PPID_value q \<longleftrightarrow> p = q"
  by (cases p; cases q) (simp_all add: PPID_value_def)

lemma message_of_read:
  "ToDataMessageType (msg_ppid (message_of sid params payload)) = Some (sdp_type params)"
  "(if IsEmptyPPID (msg_ppid (message_of sid params payload)) then [] else msg_payload (message_of sid params payload)) =
     (if sdp_type params = kControl \<and> payload = [] then [0] else payload)"
  by (cases "sdp_type params"; auto simp: message_of_def ToPPID_def ToDataMessageType_def IsEmptyPPID_def)+

lemma OnMessageReceived_message_of:
  "OnMessageReceived (message_of sid params payload) s =
     (let buffer = (if sdp_type params = kControl \<and> payload = [] then [0] else payload)
      in (sunk (SinkDataReceived (word_of_int sid) (sdp_type params) buffer) (s\<lparr>dt_receive_buffer := buffer\<rparr>), Returns ()))"
  using message_of_read(2) [of sid params payload]
  by (simp add: OnMessageReceived_def message_of_read(1) Let_def) (simp add: message_of_def)

end
