(* ===== verification/Stream_Reset.thy ===== *)
theory Stream_Reset
  imports Dcsctp_Transport "HOL-Library.Multiset"
begin

text \<open>
  Closing a stream between two peers.  A \<open>link\<close> is the two transports and the notices in flight to each: a
  reset that a transport asks of its socket is performed there and arrives at the peer, and each of the two
  is told by a callback of the socket (\<open>DcSctpSocketCallbacks\<close>), in any order with everything else, several
  streams in one report or one at a time.  A reset may also fail, and a notice may never come.  The loops of
  the callbacks return at the first stream they do not know, so the streams listed behind it are not heard of.
  What was lost in one of these ways is remembered in \<open>lost\<close>.
  \<open>link_step sid\<close> is any call of either transport (a DTLS restart included), the delivery of a report, or a
  loss; left out are a new \<open>OpenStream\<close> of the stream \<open>sid\<close> and a removal of the sink.
\<close>

section \<open>Calls\<close>

datatype transport_call =
    CallOpenStream int u16
  | CallResetStream int
  | CallSendData sctp_answers int SendDataParams bytes
  | CallStart sctp_answers int int int
  | CallSetDtlsTransport sctp_answers "nat option"
  | CallSetOnConnected bool
  | CallSetThreshold int u64
  | CallSendPacket sctp_answers bytes
  | CallTotalBufferedAmountLow
  | CallBufferedAmountLow u16
  | CallMessageReceived DcSctpMessage
  | CallAborted ErrorKind string
  | CallConnected
  | CallClosed
  | CallDtlsClose
  | CallWritableState sctp_answers
  | CallReadPacket bool bytes
  | CallSetSink
  | CallDtlsState sctp_answers DtlsTransportState
  | CallConnectionRestarted

definition discard :: "('s, 'a) act \<Rightarrow> ('s, unit) act" where
  "discard m = seq m (\<lambda>_. ret ())"

fun run_call :: "transport_call \<Rightarrow> unit dt_act" where
  "run_call (CallOpenStream sid p) = discard (OpenStream sid p)"
| "run_call (CallResetStream sid) = discard (ResetStream sid)"
| "run_call (CallSendData sk sid params payload) = discard (dt_SendData sk sid params payload)"
| "run_call (CallStart sk lp rp n) = discard (dt_Start sk lp rp n)"
| "run_call (CallSetDtlsTransport sk t) = SetDtlsTransport sk t"
| "run_call (CallSetOnConnected b) = SetOnConnectedCallback b"
| "run_call (CallSetThreshold sid n) = dt_SetBufferedAmountLowThreshold sid n"
| "run_call (CallSendPacket sk data) = discard (SendPacketWithStatus sk data)"
| "run_call CallTotalBufferedAmountLow = OnTotalBufferedAmountLow"
| "run_call (CallBufferedAmountLow sid) = dt_OnBufferedAmountLow sid"
| "run_call (CallMessageReceived m) = OnMessageReceived m"
| "run_call (CallAborted e m) = OnAborted e m"
| "run_call CallConnected = OnConnected"
| "run_call CallClosed = dt_OnClosed"
| "run_call CallDtlsClose = OnDtlsClose"
| "run_call (CallWritableState sk) = OnTransportWritableState sk"
| "run_call (CallReadPacket b p) = OnTransportReadPacket b p"
| "run_call CallSetSink = SetDataChannelSink True"
| "run_call (CallDtlsState sk st) = OnDtlsTransportState sk st"
| "run_call CallConnectionRestarted = OnConnectionRestarted"

definition opens :: "u16 \<Rightarrow> transport_call \<Rightarrow> bool" where
  "opens sid c \<longleftrightarrow> (case c of CallOpenStream i _ \<Rightarrow> word_of_int i = sid | _ \<Rightarrow> False)"

section \<open>The link\<close>

datatype side = SideA | SideB

fun peer :: "side \<Rightarrow> side" where
  "peer SideA = SideB"
| "peer SideB = SideA"

text \<open>What a transport has to hear about a stream, and the reports that tell it.\<close>

datatype reset_notice = Performed u16 | Incoming u16

fun run_notice :: "reset_notice \<Rightarrow> unit dt_act" where
  "run_notice (Performed sid) = OnStreamsResetPerformed [sid]"
| "run_notice (Incoming sid) = OnIncomingStreamsReset [sid]"

datatype reset_report = ReportPerformed "u16 list" | ReportIncoming "u16 list" | ReportFailed "u16 list" string

fun run_report :: "reset_report \<Rightarrow> unit dt_act" where
  "run_report (ReportPerformed sids) = OnStreamsResetPerformed sids"
| "run_report (ReportIncoming sids) = OnIncomingStreamsReset sids"
| "run_report (ReportFailed sids reason) = OnStreamsResetFailed sids reason"

fun notices :: "reset_report \<Rightarrow> reset_notice multiset" where
  "notices (ReportPerformed sids) = mset (map Performed sids)"
| "notices (ReportIncoming sids) = mset (map Incoming sids)"
| "notices (ReportFailed sids reason) = mset (map Performed sids)"

text \<open>The streams listed behind the first one that the transport does not know.\<close>

fun behind_unknown :: "(u16 \<Rightarrow> reset_notice) \<Rightarrow> u16 list \<Rightarrow> DcSctpTransport \<Rightarrow> u16 list" where
  "behind_unknown k [] s = []"
| "behind_unknown k (sid # sids) s =
     (if stream_of sid s = None then sids else behind_unknown k sids (fst (run_notice (k sid) s)))"

fun unheard :: "reset_report \<Rightarrow> DcSctpTransport \<Rightarrow> reset_notice multiset" where
  "unheard (ReportPerformed sids) s = mset (map Performed (behind_unknown Performed sids s))"
| "unheard (ReportIncoming sids) s = mset (map Incoming (behind_unknown Incoming sids s))"
| "unheard (ReportFailed sids reason) s = mset (map Performed sids)"

record link =
  ends :: "side \<Rightarrow> DcSctpTransport"
  in_flight :: "side \<Rightarrow> reset_notice multiset"
  lost :: "side \<Rightarrow> reset_notice multiset"

definition resets :: "transport_event list \<Rightarrow> u16 list" where
  "resets es = concat (map (\<lambda>e. case e of SocketResetStreams sids \<Rightarrow> sids | _ \<Rightarrow> []) es)"

text \<open>One end becomes \<open>t\<close>; the resets it has asked for on the way are in flight now.\<close>

definition moved :: "side \<Rightarrow> DcSctpTransport \<Rightarrow> link \<Rightarrow> link" where
  "moved sd t l =
     (let sids = resets (drop (length (dt_log (ends l sd))) (dt_log t))
      in l\<lparr>ends := (ends l)(sd := t),
           in_flight := (in_flight l)
             (sd := in_flight l sd + mset (map Performed sids),
              peer sd := in_flight l (peer sd) + mset (map Incoming sids))\<rparr>)"

text \<open>Notices leave the wire, some of them unheard.\<close>

definition taken :: "side \<Rightarrow> reset_notice multiset \<Rightarrow> reset_notice multiset \<Rightarrow> link \<Rightarrow> link" where
  "taken sd ns gone l =
     l\<lparr>in_flight := (in_flight l)(sd := in_flight l sd - ns), lost := (lost l)(sd := lost l sd + gone)\<rparr>"

abbreviation delivered :: "side \<Rightarrow> reset_notice \<Rightarrow> link \<Rightarrow> link" where
  "delivered sd n l \<equiv> taken sd {#n#} {#} l"

inductive link_step :: "u16 \<Rightarrow> link \<Rightarrow> link \<Rightarrow> bool" for sid where
  call: "\<not> opens sid c \<Longrightarrow> run_call c (ends l sd) = (t, Returns ()) \<Longrightarrow> link_step sid l (moved sd t l)"
| report: "notices r \<subseteq># in_flight l sd \<Longrightarrow> run_report r (ends l sd) = (t, Returns ()) \<Longrightarrow>
    link_step sid l (moved sd t (taken sd (notices r) (unheard r (ends l sd)) l))"
| loss: "n \<in># in_flight l sd \<Longrightarrow> link_step sid l (taken sd {#n#} {#n#} l)"

inductive_cases link_stepE: "link_step sid l l'"

section \<open>Steps that do not concern the stream\<close>

definition concerns :: "u16 \<Rightarrow> transport_event \<Rightarrow> bool" where
  "concerns sid e \<longleftrightarrow> sid \<in> set (resets [e]) \<or> e = Sink (SinkChannelClosing sid) \<or> e = Sink (SinkChannelClosed sid)"

definition apart :: "u16 \<Rightarrow> DcSctpTransport \<Rightarrow> DcSctpTransport \<Rightarrow> bool" where
  "apart sid s t \<longleftrightarrow>
     (flat_ok (stream_states s) \<longrightarrow>
        flat_ok (stream_states t) \<and> stream_of sid t = stream_of sid s \<and> (dt_socket s \<noteq> None \<longrightarrow> dt_socket t \<noteq> None) \<and>
        dt_sink t = dt_sink s \<and> (\<exists>es. dt_log t = dt_log s @ es \<and> (\<forall>e \<in> set es. \<not> concerns sid e)))"

interpretation apart: progress "apart sid" for sid
proof (unfold_locales, goal_cases)
  case (1 s)
  then show ?case by (simp add: apart_def)
next
  case (2 s t u)
  show ?case
    unfolding apart_def
  proof
    assume ok: "flat_ok (stream_states s)"
    then obtain es where es: "dt_log t = dt_log s @ es" "\<forall>e \<in> set es. \<not> concerns sid e"
      and t: "flat_ok (stream_states t)" "stream_of sid t = stream_of sid s" "dt_socket s \<noteq> None \<longrightarrow> dt_socket t \<noteq> None"
        "dt_sink t = dt_sink s"
      using 2(1) by (auto simp: apart_def)
    from 2(2) t(1) obtain fs where "dt_log u = dt_log t @ fs" "\<forall>e \<in> set fs. \<not> concerns sid e"
      and u: "flat_ok (stream_states u)" "stream_of sid u = stream_of sid t" "dt_socket t \<noteq> None \<longrightarrow> dt_socket u \<noteq> None"
        "dt_sink u = dt_sink t"
      by (auto simp: apart_def)
    then have "dt_log u = dt_log s @ (es @ fs) \<and> (\<forall>e \<in> set (es @ fs). \<not> concerns sid e)" using es by auto
    with t u show "flat_ok (stream_states u) \<and> stream_of sid u = stream_of sid s \<and> (dt_socket s \<noteq> None \<longrightarrow> dt_socket u \<noteq> None) \<and>
        dt_sink u = dt_sink s \<and> (\<exists>es. dt_log u = dt_log s @ es \<and> (\<forall>e \<in> set es. \<not> concerns sid e))"
      by metis
  qed
qed

lemma apart_noted: "\<forall>e \<in> set es. \<not> concerns sid e \<Longrightarrow> apart sid s (noted es s)"
  by (auto simp: apart_def)

lemma apart_sunk: "c \<notin> {SinkChannelClosing sid, SinkChannelClosed sid} \<Longrightarrow> apart sid s (sunk c s)"
  by (auto simp: apart_def concerns_def resets_def)

lemma apart_put: "x \<noteq> sid \<Longrightarrow> apart sid s (put_stream x st s)"
  by (auto simp: apart_def omap_ok_put)

lemma apart_fields:
  "apart sid s (s\<lparr>dt_ready_to_send_data := b\<rparr>)" "apart sid s (s\<lparr>dt_receive_buffer := bs\<rparr>)"
  "apart sid s (s\<lparr>dt_on_connected := b\<rparr>)" "apart sid s (s\<lparr>dt_transport := tr\<rparr>)" "apart sid s (s\<lparr>dt_socket := Some opts\<rparr>)"
  by (simp_all add: apart_def)

lemma apart_end: "x \<noteq> sid \<Longrightarrow> apart sid s (end_stream x s)"
  by (auto simp: apart_def omap_ok_del concerns_def resets_def)

lemma goes_apart:
  "\<not> concerns sid e \<Longrightarrow> goes (apart sid) (dt_note e) s"
  "c \<notin> {SinkChannelClosing sid, SinkChannelClosed sid} \<Longrightarrow> goes (apart sid) (to_sink c) s"
  by (auto simp: goes_def intro: apart_noted apart_sunk)


lemma not_concerns [simp]:
  "\<not> concerns sid SocketConnect" "\<not> concerns sid (SocketCreate o')" "\<not> concerns sid (SocketSetMaxMessageSize n)"
  "\<not> concerns sid (SocketSetStreamPriority x p)" "\<not> concerns sid (SocketSend m so)" "\<not> concerns sid ConnectedCallback"
  "\<not> concerns sid (SocketSetBufferedAmountLowThreshold x th)" "\<not> concerns sid (SocketReceivePacket b)"
  "\<not> concerns sid (DtlsConnect d)" "\<not> concerns sid (DtlsDisconnect d)" "\<not> concerns sid (DtlsSendPacket b)"
  "concerns sid (SocketResetStreams sids) \<longleftrightarrow> sid \<in> set sids"
  by (simp_all add: concerns_def resets_def)

lemma goes_apart_each: "(\<And>x s. x \<in> set xs \<Longrightarrow> goes (apart sid) (f x) s) \<Longrightarrow> goes (apart sid) (each f xs) s"
  by (induction xs arbitrary: s) (auto intro: apart.goes_pure apart.goes_seq)

lemma goes_apart_discard: "goes (apart sid) m s \<Longrightarrow> goes (apart sid) (discard m) s"
  unfolding discard_def by (rule apart.goes_seq) (auto intro: apart.goes_pure)

lemma goes_apart_signals:
  "goes (apart sid) ConnectTransportSignals s" "goes (apart sid) DisconnectTransportSignals s"
  "goes (apart sid) (MaybeConnectSocket sk) s"
  unfolding ConnectTransportSignals_def DisconnectTransportSignals_def MaybeConnectSocket_def
  by (auto intro!: apart.goes_look apart.goes_option apart.goes_onlyif apart.goes_pure goes_apart split: prod.split)

lemma goes_apart_SetDtlsTransport: "goes (apart sid) (SetDtlsTransport sk t) s"
  unfolding SetDtlsTransport_def
  by (auto intro!: apart.goes_seq goes_apart_signals apart.goes_update apart_fields)

lemma goes_apart_Start: "goes (apart sid) (dt_Start sk lp rp n) s"
  unfolding dt_Start_def Let_def
  by (rule apart.goes_look, rule apart.goes_seq)
    (auto intro!: apart.goes_option apart.goes_if apart.goes_seq apart.goes_update apart_fields goes_apart apart.goes_pure
      goes_apart_signals goes_apart_each)

lemma goes_apart_OpenStream:
  assumes "word_of_int x \<noteq> sid"
  shows "goes (apart sid) (OpenStream x p) s"
  unfolding goes_def
proof (cases "flat_ok (stream_states s)")
  case True
  have "apart sid s (put_stream (word_of_int x) st s)" for st using assms by (rule apart_put)
  then show "apart sid s (fst (OpenStream x p s))"
    unfolding OpenStream_run [OF True] fst_conv by (rule apart.R_trans) (rule apart_noted, simp)
qed (simp add: apart_def)

lemma goes_apart_ResetStream:
  assumes "word_of_int x \<noteq> sid"
  shows "goes (apart sid) (ResetStream x) s"
  unfolding goes_def
proof (cases "flat_ok (stream_states s)")
  case True
  have "apart sid s (put_stream (word_of_int x) st s)" for st using assms by (rule apart_put)
  then have "apart sid s (noted [SocketResetStreams [word_of_int x]] (put_stream (word_of_int x) st s))" for st
    by (rule apart.R_trans) (rule apart_noted, use assms in simp)
  then show "apart sid s (fst (ResetStream x s))"
    by (auto simp: ResetStream_run [OF True] apart.R_refl split: option.split)
qed (simp add: apart_def)

lemma goes_apart_SendData: "goes (apart sid) (dt_SendData sk x params payload) s"
  unfolding dt_SendData_def Let_def
  by (auto intro!: apart.goes_look apart.goes_option apart.goes_if apart.goes_seq apart.goes_update apart_fields goes_apart
      apart.goes_pure split: prod.split SendStatus.split)

lemma goes_apart_callbacks:
  "goes (apart sid) (SendPacketWithStatus sk data) s" "goes (apart sid) OnTotalBufferedAmountLow s"
  "goes (apart sid) (dt_OnBufferedAmountLow x) s" "goes (apart sid) (OnMessageReceived m) s"
  "goes (apart sid) (OnAborted e txt) s" "goes (apart sid) OnConnected s" "goes (apart sid) dt_OnClosed s"
  "goes (apart sid) OnDtlsClose s" "goes (apart sid) (OnTransportReadPacket b p) s"
  "goes (apart sid) (SetOnConnectedCallback c) s" "goes (apart sid) (dt_SetBufferedAmountLowThreshold i th) s"
  unfolding SendPacketWithStatus_def OnTotalBufferedAmountLow_def dt_OnBufferedAmountLow_def OnMessageReceived_def
    OnAborted_def OnConnected_def dt_OnClosed_def OnDtlsClose_def OnTransportReadPacket_def SetOnConnectedCallback_def
    dt_SetBufferedAmountLowThreshold_def
  by (auto intro!: apart.goes_look apart.goes_option apart.goes_if apart.goes_onlyif apart.goes_seq apart.goes_update
      apart_fields goes_apart apart.goes_pure split: prod.split)

lemma goes_apart_restart: "goes (apart sid) (OnDtlsTransportState sk st) s"
proof (cases "dt_socket s")
  case (Some options)
  show ?thesis
  proof (cases "st = kNew_dtls")
    case True
    let ?o = "start_options sk (opt_local_port options) (opt_remote_port options)
      (sint (word_of_nat (opt_max_message_size options) :: u32))"
    let ?rest = "seq (dt_note (SocketCreate ?o)) (\<lambda>_. seq (MaybeConnectSocket sk) (\<lambda>_.
      seq (look stream_states)
        (each (\<lambda>(sid, stream_state). dt_note (SocketSetStreamPriority sid (stream_priority stream_state))))))"
    have run: "fst (OnDtlsTransportState sk st s) = fst (?rest (s\<lparr>dt_socket := Some ?o\<rparr>))"
      by (auto simp: OnDtlsTransportState_def dt_Start_def Let_def run_seq Some True split: prod.split outcome.split)
    have "goes (apart sid) ?rest (s\<lparr>dt_socket := Some ?o\<rparr>)"
      by (rule apart.goes_seq)
        (auto intro!: apart.goes_seq apart.goes_look goes_apart goes_apart_signals goes_apart_each split: prod.split)
    with run show ?thesis
      unfolding goes_def using apart.R_trans [OF apart_fields(5)] by metis
  qed (simp add: goes_def OnDtlsTransportState_def Some apart.R_refl)
qed (simp add: goes_def OnDtlsTransportState_def apart.R_refl)

lemma goes_apart_sink: "dt_sink s \<Longrightarrow> goes (apart sid) (SetDataChannelSink True) s"
  unfolding SetDataChannelSink_def
  by (rule apart.goes_seq) (auto simp: apart_def intro!: apart.goes_update apart.goes_look apart.goes_onlyif goes_apart)

definition resets_stream :: "u16 \<Rightarrow> transport_call \<Rightarrow> bool" where
  "resets_stream sid c \<longleftrightarrow> (case c of CallResetStream i \<Rightarrow> word_of_int i = sid | _ \<Rightarrow> False)"

lemma run_call_apart:
  "\<not> opens sid c \<Longrightarrow> \<not> resets_stream sid c \<Longrightarrow> dt_sink s \<Longrightarrow> goes (apart sid) (run_call c) s"
  by (cases c) (simp_all add: OnConnectionRestarted_def goes_apart_restart goes_apart_sink apart.goes_pure opens_def resets_stream_def OnTransportWritableState_def goes_apart_discard goes_apart_OpenStream
      goes_apart_ResetStream goes_apart_SendData goes_apart_Start goes_apart_SetDtlsTransport goes_apart_callbacks goes_apart_signals)

fun notice_sid :: "reset_notice \<Rightarrow> u16" where
  "notice_sid (Performed sid) = sid"
| "notice_sid (Incoming sid) = sid"

lemma apart_performed: "x \<noteq> sid \<Longrightarrow> apart sid s (performed x st s)"
  by (simp add: performed_def apart_put apart_end)

lemma apart_incoming:
  assumes "x \<noteq> sid"
  shows "apart sid s (incoming x st s)"
proof -
  let ?s1 = "put_stream x (st\<lparr>incoming_reset_done := True\<rparr>) s"
  have 1: "apart sid s ?s1" by (rule apart_put [OF assms])
  have 2: "apart sid s (noted [SocketResetStreams [x]] ?s1)" by (rule apart.R_trans [OF 1]) (rule apart_noted, use assms in simp)
  have 3: "apart sid s (sunk (SinkChannelClosing x) (noted [SocketResetStreams [x]] ?s1))"
    by (rule apart.R_trans [OF 2]) (rule apart_sunk, use assms in simp)
  from 1 3 show ?thesis by (simp add: incoming_def Let_def apart.R_trans [OF _ apart_end [OF assms]])
qed

lemma run_notice_apart:
  assumes "notice_sid n \<noteq> sid" "dt_socket s \<noteq> None"
  shows "goes (apart sid) (run_notice n) s"
  unfolding goes_def
proof (cases "flat_ok (stream_states s)")
  case True
  then show "apart sid s (fst (run_notice n s))"
    using assms OnStreamsResetPerformed_run [OF True] OnIncomingStreamsReset_run [OF True assms(2)]
    by (cases n) (simp_all del: OnStreamsResetPerformed.simps(2) OnIncomingStreamsReset.simps(2)
        add: apart.R_refl apart_performed apart_incoming split: option.split)
qed (simp add: apart_def)


section \<open>What the link keeps\<close>

definition asked :: "u16 \<Rightarrow> DcSctpTransport \<Rightarrow> nat" where
  "asked sid t = count_list (resets (dt_log t)) sid"

definition closings :: "u16 \<Rightarrow> DcSctpTransport \<Rightarrow> nat" where
  "closings sid t = count_list (dt_log t) (Sink (SinkChannelClosing sid))"

definition closes :: "u16 \<Rightarrow> DcSctpTransport \<Rightarrow> nat" where
  "closes sid t = count_list (dt_log t) (Sink (SinkChannelClosed sid))"

text \<open>The notices that have not been heard: in flight, or lost.\<close>

abbreviation flying :: "side \<Rightarrow> reset_notice \<Rightarrow> link \<Rightarrow> nat" where
  "flying sd n l \<equiv> count (in_flight l sd) n + count (lost l sd) n"

text \<open>
  One end, from what its map holds for the stream, how often it and its peer have asked for a reset, the
  notices it has not heard and what its sink was told: before the stream has ended, what was asked is
  heard of or not; afterwards all of it is heard of and each side has asked once.
\<close>

fun view_ok :: "StreamState option \<Rightarrow> nat \<Rightarrow> nat \<Rightarrow> nat \<Rightarrow> nat \<Rightarrow> nat \<Rightarrow> nat \<Rightarrow> bool" where
  "view_ok (Some st) own other p i closed closing \<longleftrightarrow>
     \<not> (incoming_reset_done st \<and> outgoing_reset_done st) \<and>
     own = (if closure_initiated st \<or> incoming_reset_done st then 1 else 0) \<and>
     own = (if outgoing_reset_done st then p + 1 else p) \<and> other = (if incoming_reset_done st then i + 1 else i) \<and>
     closed = 0 \<and> closing = (if incoming_reset_done st \<and> \<not> closure_initiated st then 1 else 0)"
| "view_ok None own other p i closed closing \<longleftrightarrow>
     own = 1 \<and> other = 1 \<and> p = 0 \<and> i = 0 \<and> closed = 1 \<and> closing \<le> 1"

definition end_ok :: "u16 \<Rightarrow> side \<Rightarrow> link \<Rightarrow> bool" where
  "end_ok sid sd l \<longleftrightarrow>
     (let t = ends l sd
      in flat_ok (stream_states t) \<and> dt_socket t \<noteq> None \<and> dt_sink t \<and>
         view_ok (stream_of sid t) (asked sid t) (asked sid (ends l (peer sd)))
           (flying sd (Performed sid) l) (flying sd (Incoming sid) l) (closes sid t) (closings sid t))"

definition link_ok :: "u16 \<Rightarrow> link \<Rightarrow> bool" where
  "link_ok sid l \<longleftrightarrow>
     end_ok sid SideA l \<and> end_ok sid SideB l \<and> closings sid (ends l SideA) + closings sid (ends l SideB) \<le> 1"

lemma peer_simps [simp]: "peer (peer sd) = sd" "peer sd \<noteq> sd" "sd \<noteq> peer sd"
  by (cases sd; simp)+

lemma link_ok_ends:
  "link_ok sid l \<longleftrightarrow>
     end_ok sid sd l \<and> end_ok sid (peer sd) l \<and> closings sid (ends l sd) + closings sid (ends l (peer sd)) \<le> 1"
  by (cases sd) (auto simp: link_ok_def add.commute)

lemma moved_ends [simp]: "ends (moved sd t l) sd = t" "ends (moved sd t l) (peer sd) = ends l (peer sd)"
  by (simp_all add: moved_def Let_def)

lemma count_mset_map_notice [simp]:
  "count (mset (map Performed sids)) (Performed x) = count_list sids x" "count (mset (map Performed sids)) (Incoming x) = 0"
  "count (mset (map Incoming sids)) (Incoming x) = count_list sids x" "count (mset (map Incoming sids)) (Performed x) = 0"
  by (induction sids) auto

lemma moved_flying:
  assumes "dt_log t = dt_log (ends l sd) @ es"
  shows "flying sd (Performed x) (moved sd t l) = flying sd (Performed x) l + count_list (resets es) x"
    "flying sd (Incoming x) (moved sd t l) = flying sd (Incoming x) l"
    "flying (peer sd) (Incoming x) (moved sd t l) = flying (peer sd) (Incoming x) l + count_list (resets es) x"
    "flying (peer sd) (Performed x) (moved sd t l) = flying (peer sd) (Performed x) l"
  using assms by (simp_all add: moved_def Let_def del: mset_map)

lemma resets_append [simp]: "resets (xs @ ys) = resets xs @ resets ys"
  by (simp add: resets_def)

lemma resets_singles [simp]:
  "resets [] = []" "resets [SocketResetStreams sids] = sids" "resets [Sink c] = []"
  "resets (SocketResetStreams sids # es) = sids @ resets es" "resets (Sink c # es) = resets es"
  by (simp_all add: resets_def)

lemma not_concerned:
  assumes "\<forall>e \<in> set es. \<not> concerns sid e"
  shows "count_list (resets es) sid = 0" "count_list es (Sink (SinkChannelClosing sid)) = 0"
    "count_list es (Sink (SinkChannelClosed sid)) = 0"
proof -
  show "count_list (resets es) sid = 0" using assms
  proof (induction es)
    case (Cons e es)
    have "resets (e # es) = resets [e] @ resets es" by (simp add: resets_def)
    moreover have "sid \<notin> set (resets [e])" using Cons.prems by (auto simp: concerns_def)
    ultimately show ?case using Cons by simp
  qed simp
  show "count_list es (Sink (SinkChannelClosing sid)) = 0" "count_list es (Sink (SinkChannelClosed sid)) = 0"
    using assms by (auto simp: count_list_0_iff concerns_def)
qed

lemma apart_moved:
  assumes "link_ok sid l" "apart sid (ends l sd) t"
  shows "link_ok sid (moved sd t l)"
proof -
  have ok: "flat_ok (stream_states (ends l sd))" using assms(1) by (simp add: link_ok_ends [of _ _ sd] end_ok_def Let_def)
  obtain es where es: "dt_log t = dt_log (ends l sd) @ es" "\<forall>e \<in> set es. \<not> concerns sid e"
    and t: "flat_ok (stream_states t)" "stream_of sid t = stream_of sid (ends l sd)"
      "dt_socket (ends l sd) \<noteq> None \<longrightarrow> dt_socket t \<noteq> None" "dt_sink t = dt_sink (ends l sd)"
    using assms(2) ok by (auto simp: apart_def)
  note cnt = not_concerned [OF es(2)]
  have "asked sid t = asked sid (ends l sd)" "closings sid t = closings sid (ends l sd)" "closes sid t = closes sid (ends l sd)"
    by (simp_all add: asked_def closings_def closes_def es(1) cnt)
  with t show ?thesis using assms(1)
    unfolding link_ok_ends [of _ _ sd] end_ok_def Let_def
    by (simp add: moved_flying [OF es(1)] cnt)
qed


text \<open>Each of the three steps of the stream, as a step of the views of both ends.\<close>

lemma view_ok_own: "view_ok v own other p i closed closing \<Longrightarrow> own \<le> 1"
  by (cases v) (auto split: if_splits)

lemma view_reset:
  assumes "view_ok (Some st) own other p i closed closing" "view_ok w other own q j closed' closing'" "\<not> in_reset st"
  shows "view_ok (Some (st\<lparr>closure_initiated := True\<rparr>)) (own + 1) other (p + 1) i closed closing"
    "view_ok w other (own + 1) q (j + 1) closed' closing'"
  using assms by (cases w; auto simp: in_reset_def split: if_splits)+

lemma view_performed:
  assumes "view_ok v own other p i closed closing" "view_ok w other own q j closed' closing'" "0 < p"
  obtains st where "v = Some st"
    "incoming_reset_done st \<Longrightarrow> view_ok None own other (p - 1) i (closed + 1) closing"
    "\<not> incoming_reset_done st \<Longrightarrow> view_ok (Some (st\<lparr>outgoing_reset_done := True\<rparr>)) own other (p - 1) i closed closing"
proof (cases v)
  case (Some st)
  show thesis
    by (rule that [of st]) (use assms(1,3) view_ok_own [OF assms(1)] view_ok_own [OF assms(2)] Some in
        \<open>auto split: if_splits\<close>)
qed (use assms in simp)

lemma view_incoming:
  assumes "view_ok v own other p i closed closing" "view_ok w other own q j closed' closing'" "0 < i"
  obtains st where "v = Some st" "\<not> incoming_reset_done st" "outgoing_reset_done st \<Longrightarrow> closure_initiated st"
    "closure_initiated st \<Longrightarrow> outgoing_reset_done st \<Longrightarrow> view_ok None own other p (i - 1) (closed + 1) closing"
    "closure_initiated st \<Longrightarrow> \<not> outgoing_reset_done st \<Longrightarrow>
       view_ok (Some (st\<lparr>incoming_reset_done := True\<rparr>)) own other p (i - 1) closed closing"
    "\<not> closure_initiated st \<Longrightarrow>
       view_ok (Some (st\<lparr>incoming_reset_done := True\<rparr>)) (own + 1) other (p + 1) (i - 1) closed (closing + 1)"
    "\<not> closure_initiated st \<Longrightarrow> view_ok w other (own + 1) q (j + 1) closed' closing'"
    "\<not> closure_initiated st \<Longrightarrow> closing + 1 + closing' \<le> 1"
proof (cases v)
  case (Some st)
  have le: "own \<le> 1" "other \<le> 1" using assms(1,2) view_ok_own by blast+
  show thesis
  proof (rule that [of st])
    show "\<not> closure_initiated st \<Longrightarrow> view_ok w other (own + 1) q (j + 1) closed' closing'"
      "\<not> closure_initiated st \<Longrightarrow> closing + 1 + closing' \<le> 1"
      using assms le Some by (cases w; auto split: if_splits)+
  qed (use assms(1,3) le Some in \<open>auto split: if_splits\<close>)
qed (use assms in simp)

lemma taken_simps [simp]:
  "ends (taken sd ns gone l) = ends l" "in_flight (taken sd ns gone l) sd = in_flight l sd - ns"
  "lost (taken sd ns gone l) sd = lost l sd + gone"
  "in_flight (taken sd ns gone l) (peer sd) = in_flight l (peer sd)" "lost (taken sd ns gone l) (peer sd) = lost l (peer sd)"
  by (simp_all add: taken_def)

lemma in_flight_flying: "n \<in># in_flight l sd \<Longrightarrow> 0 < flying sd n l"
  by simp

lemma delivered_flying:
  "n \<in># in_flight l sd \<Longrightarrow> count (in_flight l sd) n - Suc 0 + count (lost l sd) n = flying sd n l - Suc 0"
  by (simp add: Suc_le_eq)

declare view_ok.simps [simp del]

lemma link_okD:
  assumes "link_ok sid l"
  shows "flat_ok (stream_states (ends l sd))" "dt_socket (ends l sd) \<noteq> None" "dt_sink (ends l sd)"
    and "view_ok (stream_of sid (ends l sd)) (asked sid (ends l sd)) (asked sid (ends l (peer sd)))
       (flying sd (Performed sid) l) (flying sd (Incoming sid) l) (closes sid (ends l sd)) (closings sid (ends l sd))"
    and "closings sid (ends l sd) + closings sid (ends l (peer sd)) \<le> 1"
  using assms unfolding link_ok_ends [of _ _ sd] end_ok_def Let_def peer_simps by blast+

lemma link_ok_moved:
  assumes log: "dt_log t = dt_log (ends l sd) @ es" and k: "count_list (resets es) sid = k"
    and fixed: "flat_ok (stream_states t)" "dt_socket t \<noteq> None" "dt_sink t"
      "flat_ok (stream_states (ends l (peer sd)))" "dt_socket (ends l (peer sd)) \<noteq> None" "dt_sink (ends l (peer sd))"
    and view: "view_ok (stream_of sid t) (asked sid (ends l sd) + k) (asked sid (ends l (peer sd)))
       (flying sd (Performed sid) l + k) (flying sd (Incoming sid) l)
       (closes sid (ends l sd) + count_list es (Sink (SinkChannelClosed sid)))
       (closings sid (ends l sd) + count_list es (Sink (SinkChannelClosing sid)))"
    and far: "view_ok (stream_of sid (ends l (peer sd))) (asked sid (ends l (peer sd))) (asked sid (ends l sd) + k)
       (flying (peer sd) (Performed sid) l) (flying (peer sd) (Incoming sid) l + k)
       (closes sid (ends l (peer sd))) (closings sid (ends l (peer sd)))"
    and one: "closings sid (ends l sd) + count_list es (Sink (SinkChannelClosing sid)) + closings sid (ends l (peer sd)) \<le> 1"
  shows "link_ok sid (moved sd t l)"
proof -
  have "asked sid t = asked sid (ends l sd) + k" "closes sid t = closes sid (ends l sd) + count_list es (Sink (SinkChannelClosed sid))"
    "closings sid t = closings sid (ends l sd) + count_list es (Sink (SinkChannelClosing sid))"
    by (simp_all add: asked_def closes_def closings_def log k)
  with assms show ?thesis
    unfolding link_ok_ends [of _ _ sd] end_ok_def Let_def by (simp add: moved_flying [OF log])
qed

lemma reset_moved:
  assumes ok: "link_ok sid l" and st: "stream_of sid (ends l sd) = Some st" "\<not> in_reset st"
  shows "link_ok sid (moved sd (noted [SocketResetStreams [sid]] (put_stream sid (st\<lparr>closure_initiated := True\<rparr>) (ends l sd))) l)"
proof -
  note here = link_okD [OF ok, of sd] and far = link_okD [OF ok, of "peer sd", unfolded peer_simps]
  note views = view_reset [OF here(4) [unfolded st(1)] far(4) st(2)]
  show ?thesis
    by (rule link_ok_moved [where es = "[SocketResetStreams [sid]]" and k = 1])
      (use here far(1-3) views in \<open>simp_all add: omap_ok_put\<close>)
qed

lemma performed_moved:
  assumes ok: "link_ok sid l" and n: "Performed sid \<in># in_flight l sd"
  obtains st where "stream_of sid (ends l sd) = Some st"
    "link_ok sid (moved sd (performed sid st (ends l sd)) (delivered sd (Performed sid) l))"
proof -
  note here = link_okD [OF ok, of sd] and far = link_okD [OF ok, of "peer sd", unfolded peer_simps]
  show thesis
  proof (rule view_performed [OF here(4) far(4) in_flight_flying [OF n]], goal_cases)
    case (1 st)
    let ?es = "if incoming_reset_done st then [Sink (SinkChannelClosed sid)] else []"
    have "link_ok sid (moved sd (performed sid st (ends l sd)) (delivered sd (Performed sid) l))"
      by (rule link_ok_moved [where es = ?es and k = 0])
        (use here far(1-4) 1(2,3) in \<open>auto simp: delivered_flying [OF n] performed_def omap_ok_put omap_ok_del\<close>)
    with 1(1) show ?case by (rule that)
  qed
qed

lemma incoming_moved:
  assumes ok: "link_ok sid l" and n: "Incoming sid \<in># in_flight l sd"
  obtains st where "stream_of sid (ends l sd) = Some st"
    "link_ok sid (moved sd (incoming sid st (ends l sd)) (delivered sd (Incoming sid) l))"
proof -
  note here = link_okD [OF ok, of sd] and far = link_okD [OF ok, of "peer sd", unfolded peer_simps]
  show thesis
  proof (rule view_incoming [OF here(4) far(4) in_flight_flying [OF n]], goal_cases)
    case (1 st)
    let ?es = "if closure_initiated st then (if outgoing_reset_done st then [Sink (SinkChannelClosed sid)] else [])
      else [SocketResetStreams [sid], Sink (SinkChannelClosing sid)]"
    have "link_ok sid (moved sd (incoming sid st (ends l sd)) (delivered sd (Incoming sid) l))"
      by (rule link_ok_moved [where es = ?es and k = "if closure_initiated st then 0 else 1"])
        (use here far(1-4) 1(3-8) in \<open>auto simp: delivered_flying [OF n] incoming_def Let_def omap_ok_put omap_ok_del\<close>)
    with 1(1) show ?case by (rule that)
  qed
qed

text \<open>A notice that is heard or lost; only the latter of the stream itself may stay unheard.\<close>

lemma link_ok_taken:
  assumes "link_ok sid l" "ns \<subseteq># in_flight l sd" "count ns (Performed sid) = count gone (Performed sid)"
    "count ns (Incoming sid) = count gone (Incoming sid)"
  shows "link_ok sid (taken sd ns gone l)"
proof -
  have "flying sd n (taken sd ns gone l) = flying sd n l" if "count ns n = count gone n" for n
    using that assms(2) mset_subset_eq_count [OF assms(2), of n] by simp
  then show ?thesis
    using assms unfolding link_ok_ends [of _ _ sd] end_ok_def Let_def by (simp del: taken_simps(2,3))
qed

lemma run_notice_run:
  assumes "flat_ok (stream_states s)" "dt_socket s \<noteq> None" "stream_of (notice_sid n) s = Some st"
  shows "run_notice n s = ((case n of Performed sid \<Rightarrow> performed sid st s | Incoming sid \<Rightarrow> incoming sid st s), Returns ())"
  using assms OnStreamsResetPerformed_run [OF assms(1)] OnIncomingStreamsReset_run [OF assms(1,2)]
  by (cases n) (simp_all del: OnStreamsResetPerformed.simps(2) OnIncomingStreamsReset.simps(2))

lemma run_notice_log:
  assumes "flat_ok (stream_states s)" "dt_socket s \<noteq> None" "stream_of (notice_sid n) s = Some st"
  shows "\<exists>es. dt_log (fst (run_notice n s)) = dt_log s @ es"
  unfolding run_notice_run [OF assms] fst_conv
  by (cases n) (auto simp: performed_def incoming_def Let_def)

lemma notice_known:
  assumes "link_ok sid l" "n \<in># in_flight l sd" "notice_sid n = sid"
  obtains st where "stream_of (notice_sid n) (ends l sd) = Some st"
    "link_ok sid (moved sd (case n of Performed x \<Rightarrow> performed x st (ends l sd) | Incoming x \<Rightarrow> incoming x st (ends l sd))
       (delivered sd n l))"
proof (cases n)
  case (Performed x)
  then show thesis using assms that by (auto elim: performed_moved [of sid l sd])
next
  case (Incoming x)
  then show thesis using assms that by (auto elim: incoming_moved [of sid l sd])
qed

lemma notice_moved:
  assumes "link_ok sid l" "n \<in># in_flight l sd" "stream_of (notice_sid n) (ends l sd) = Some st"
  shows "snd (run_notice n (ends l sd)) = Returns ()"
    "link_ok sid (moved sd (fst (run_notice n (ends l sd))) (delivered sd n l))"
proof -
  note run = run_notice_run [OF link_okD(1,2) [OF assms(1)] assms(3)]
  then show "snd (run_notice n (ends l sd)) = Returns ()" by simp
  show "link_ok sid (moved sd (fst (run_notice n (ends l sd))) (delivered sd n l))"
  proof (cases "notice_sid n = sid")
    case True
    then show ?thesis using notice_known [OF assms(1,2)] assms(3) run by fastforce
  next
    case False
    then have "link_ok sid (delivered sd n l)"
      using assms(1,2) by (intro link_ok_taken) (cases n; auto)+
    moreover have "apart sid (ends l sd) (fst (run_notice n (ends l sd)))"
      using run_notice_apart [OF False, of "ends l sd"] link_okD(2) [OF assms(1), of sd] by (simp add: goes_def)
    ultimately show ?thesis using apart_moved [of sid "delivered sd n l" sd] by simp
  qed
qed

text \<open>A report is its notices one after the other, up to the first stream that is not known.\<close>

lemma moved_same [simp]: "moved sd (ends l sd) l = l"
  by (cases sd) (simp_all add: moved_def Let_def resets_def)

lemma moved_moved:
  assumes "dt_log s = dt_log (ends l sd) @ es" "dt_log t = dt_log s @ fs" "add_mset n ns \<subseteq># in_flight l sd"
  shows "moved sd t (taken sd ns gone (moved sd s (delivered sd n l))) = moved sd t (taken sd (add_mset n ns) gone l)"
proof -
  have "ns \<subseteq># in_flight l sd - {#n#}" using assms(3) by (simp add: insert_subset_eq_iff)
  then have diff: "p + (in_flight l sd - {#n#}) - ns = p + (in_flight l sd - add_mset n ns)" for p
    by (simp add: subset_mset.diff_add_assoc diff_diff_add_mset)
  show ?thesis
    using diff by (intro link.equality; cases sd) (simp_all add: moved_def taken_def Let_def assms(1,2) fun_eq_iff ac_simps)
qed

lemma loop_moved:
  assumes nil: "\<And>s. H [] s = (s, Returns ())"
    and cons: "\<And>x xs s. flat_ok (stream_states s) \<Longrightarrow> dt_socket s \<noteq> None \<Longrightarrow>
      H (x # xs) s = (if stream_of x s = None then (s, Returns ()) else H xs (fst (run_notice (k x) s)))"
    and k: "\<And>x. notice_sid (k x) = x"
    and ok: "link_ok sid l" "mset (map k xs) \<subseteq># in_flight l sd"
  shows "snd (H xs (ends l sd)) = Returns () \<and>
     (\<exists>es. dt_log (fst (H xs (ends l sd))) = dt_log (ends l sd) @ es) \<and>
     link_ok sid (moved sd (fst (H xs (ends l sd)))
       (taken sd (mset (map k xs)) (mset (map k (behind_unknown k xs (ends l sd)))) l))"
  using ok
proof (induction xs arbitrary: l)
  case Nil
  then show ?case using link_ok_taken [of sid l "{#}" sd "{#}"] moved_same [of sd "taken sd {#} {#} l"] by (simp add: nil)
next
  case (Cons x xs)
  let ?s = "ends l sd"
  have n: "k x \<in># in_flight l sd" using Cons.prems(2) by (simp add: insert_subset_eq_iff)
  note H = cons [OF link_okD(1,2) [OF Cons.prems(1), of sd], of x xs]
  show ?case
  proof (cases "stream_of x ?s")
    case None
    then have "x \<noteq> sid" using notice_known [OF Cons.prems(1) n] k by (metis option.distinct(1))
    then have "k x \<noteq> Performed sid" "k x \<noteq> Incoming sid" using k [of x] by auto
    then have "link_ok sid (taken sd (mset (map k (x # xs))) (mset (map k xs)) l)"
      using Cons.prems by (intro link_ok_taken) simp_all
    then show ?thesis using None H moved_same [of sd "taken sd (mset (map k (x # xs))) (mset (map k xs)) l"] by simp
  next
    case (Some st)
    let ?s1 = "fst (run_notice (k x) ?s)" and ?l1 = "moved sd (fst (run_notice (k x) ?s)) (delivered sd (k x) l)"
    have l1: "link_ok sid ?l1" using notice_moved(2) [OF Cons.prems(1) n] Some k by simp
    obtain es where es: "dt_log ?s1 = dt_log ?s @ es"
      using run_notice_log [OF link_okD(1,2) [OF Cons.prems(1), of sd], of "k x" st] Some k by auto
    have "mset (map k xs) \<subseteq># in_flight l sd - {#k x#}" using Cons.prems(2) by (simp add: insert_subset_eq_iff)
    moreover have "in_flight l sd - {#k x#} \<subseteq># in_flight ?l1 sd" by (cases sd) (simp_all add: moved_def taken_def Let_def)
    ultimately have "mset (map k xs) \<subseteq># in_flight ?l1 sd" by (rule subset_mset.order_trans)
    from Cons.IH [OF l1 this] obtain fs where IH: "snd (H xs ?s1) = Returns ()" "dt_log (fst (H xs ?s1)) = dt_log ?s1 @ fs"
      "link_ok sid (moved sd (fst (H xs ?s1)) (taken sd (mset (map k xs)) (mset (map k (behind_unknown k xs ?s1))) ?l1))"
      by auto
    have "add_mset (k x) (mset (map k xs)) \<subseteq># in_flight l sd" using Cons.prems(2) by simp
    from IH(3) [unfolded moved_moved [OF es IH(2) this]] show ?thesis using H Some IH(1,2) es by simp
  qed
qed

lemma report_moved:
  assumes "link_ok sid l" "notices r \<subseteq># in_flight l sd"
  shows "link_ok sid (moved sd (fst (run_report r (ends l sd))) (taken sd (notices r) (unheard r (ends l sd)) l))"
proof (cases r)
  case (ReportPerformed sids)
  then show ?thesis
    using loop_moved [where H = OnStreamsResetPerformed and k = Performed and xs = sids] assms
    by (auto simp: OnStreamsResetPerformed_run split: option.split simp del: OnStreamsResetPerformed.simps(2))
next
  case (ReportIncoming sids)
  then show ?thesis
    using loop_moved [where H = OnIncomingStreamsReset and k = Incoming and xs = sids] assms
    by (auto simp: OnIncomingStreamsReset_run split: option.split simp del: OnIncomingStreamsReset.simps(2))
next
  case (ReportFailed sids reason)
  have "each (\<lambda>x. ret ()) sids s = (s, Returns ())" for s :: DcSctpTransport by (induction sids) simp_all
  with ReportFailed have "fst (run_report r (ends l sd)) = ends (taken sd (notices r) (unheard r (ends l sd)) l) sd"
    by (simp add: OnStreamsResetFailed_def)
  moreover have "link_ok sid (taken sd (notices r) (unheard r (ends l sd)) l)"
    using assms ReportFailed by (intro link_ok_taken) simp_all
  ultimately show ?thesis by (metis moved_same)
qed

lemma link_step_ok:
  assumes "link_step sid l l'" "link_ok sid l"
  shows "link_ok sid l'"
  using assms(1)
proof cases
  case (call c sd t)
  note ok = link_okD(1-3) [OF assms(2), of sd]
  show ?thesis
  proof (cases "resets_stream sid c")
    case False
    with call ok run_call_apart [of sid c "ends l sd"] show ?thesis
      by (simp add: goes_def apart_moved [OF assms(2)])
  next
    case True
    then obtain i where "c = CallResetStream i" "word_of_int i = sid" by (auto simp: resets_stream_def split: transport_call.splits)
    with call ok assms(2) reset_moved [OF assms(2), of sd] show ?thesis
      by (auto simp: discard_def run_seq ResetStream_run split: option.splits if_splits)
  qed
next
  case (report r sd t)
  with report_moved [OF assms(2) report(2)] show ?thesis by simp
next
  case (loss n sd)
  then show ?thesis using assms(2) by (simp add: link_ok_taken)
qed

interpretation link_inv: step_invariant "link_step sid" "link_ok sid" for sid
  by unfold_locales (rule link_step_ok)


section \<open>Nothing left in flight\<close>

definition quiet :: "u16 \<Rightarrow> link \<Rightarrow> bool" where
  "quiet sid l \<longleftrightarrow> (\<forall>sd. \<forall>n \<in># in_flight l sd. notice_sid n \<noteq> sid)"

definition lossless :: "u16 \<Rightarrow> link \<Rightarrow> bool" where
  "lossless sid l \<longleftrightarrow> (\<forall>sd. \<forall>n \<in># lost l sd. notice_sid n \<noteq> sid)"

definition link_start :: "u16 \<Rightarrow> link \<Rightarrow> bool" where
  "link_start sid l \<longleftrightarrow>
     quiet sid l \<and> lossless sid l \<and>
     (\<forall>sd. flat_ok (stream_states (ends l sd)) \<and> dt_socket (ends l sd) \<noteq> None \<and> dt_sink (ends l sd) \<and>
        (case stream_of sid (ends l sd) of None \<Rightarrow> False | Some st \<Rightarrow> \<not> in_reset st) \<and>
        asked sid (ends l sd) = 0 \<and> closings sid (ends l sd) = 0 \<and> closes sid (ends l sd) = 0)"

lemma quiet_flying:
  "quiet sid l \<Longrightarrow> lossless sid l \<Longrightarrow> flying sd (Performed sid) l = 0 \<and> flying sd (Incoming sid) l = 0"
  unfolding quiet_def lossless_def by (metis add_0 count_inI notice_sid.simps)

lemma link_start_ok:
  assumes "link_start sid l"
  shows "link_ok sid l"
proof -
  have "end_ok sid sd l" for sd
  proof (cases "stream_of sid (ends l sd)")
    case None
    then show ?thesis using assms unfolding link_start_def by (metis option.case(1))
  next
    case (Some st)
    then have "\<not> in_reset st" using assms by (auto simp: link_start_def dest: spec [of _ sd])
    with Some show ?thesis using assms quiet_flying [of sid l sd]
      by (simp add: link_start_def end_ok_def Let_def in_reset_def view_ok.simps)
  qed
  then show ?thesis using assms by (simp add: link_ok_def link_start_def)
qed

lemma both_sides:
  assumes "P (ends l sd)" "P (ends l (peer sd))"
  shows "\<forall>sd. P (ends l sd)"
proof
  fix sd'
  have "sd' = sd \<or> sd' = peer sd" by (cases sd; cases sd') simp_all
  with assms show "P (ends l sd')" by blast
qed

lemma quiet_ended:
  assumes "link_ok sid l" "quiet sid l" "lossless sid l" "asked sid (ends l sd) \<noteq> 0"
  shows "stream_of sid (ends l sd) = None" "stream_of sid (ends l (peer sd)) = None"
proof -
  note here = link_okD(4) [OF assms(1), of sd] and far = link_okD(4) [OF assms(1), of "peer sd", unfolded peer_simps]
  note none = quiet_flying [OF assms(2,3), of sd] quiet_flying [OF assms(2,3), of "peer sd"]
  have "asked sid (ends l (peer sd)) \<noteq> 0"
    using far none assms(4) by (cases "stream_of sid (ends l (peer sd))") (auto simp: view_ok.simps split: if_splits)
  with here far none assms(4) show "stream_of sid (ends l sd) = None" "stream_of sid (ends l (peer sd)) = None"
    by (cases "stream_of sid (ends l sd)"; cases "stream_of sid (ends l (peer sd))"; auto simp: view_ok.simps split: if_splits)+
qed

text \<open>Every notice brings its end closer to the end of the stream, so delivering them comes to an end.\<close>

definition left :: "u16 \<Rightarrow> DcSctpTransport \<Rightarrow> nat" where
  "left sid t =
     (case stream_of sid t of
        None \<Rightarrow> 0
      | Some st \<Rightarrow> 1 + (if incoming_reset_done st then 0 else 1) + (if outgoing_reset_done st then 0 else 1))"

lemma left_performed:
  "stream_of sid s = Some st \<Longrightarrow> \<not> outgoing_reset_done st \<Longrightarrow> left sid (performed sid st s) < left sid s"
  by (simp add: left_def performed_def)

lemma left_incoming:
  "stream_of sid s = Some st \<Longrightarrow> \<not> incoming_reset_done st \<Longrightarrow> left sid (incoming sid st s) < left sid s"
  by (simp add: left_def incoming_def Let_def)

lemma left_notice:
  assumes "link_ok sid l" "n \<in># in_flight l sd" "notice_sid n = sid"
  shows "left sid (fst (run_notice n (ends l sd))) < left sid (ends l sd)"
proof -
  note here = link_okD(4) [OF assms(1), of sd] and far = link_okD(4) [OF assms(1), of "peer sd", unfolded peer_simps]
  note own = view_ok_own [OF here] view_ok_own [OF far] and fly = in_flight_flying [OF assms(2)]
  obtain st where st: "stream_of sid (ends l sd) = Some st"
    using here fly assms(3) by (cases "stream_of sid (ends l sd)"; cases n) (auto simp: view_ok.simps count_eq_zero_iff)
  have "\<not> (case n of Performed _ \<Rightarrow> outgoing_reset_done st | Incoming _ \<Rightarrow> incoming_reset_done st)"
    using here [unfolded st] own fly assms(3) by (cases n) (auto simp: view_ok.simps count_eq_zero_iff split: if_splits)
  with st assms(3) show ?thesis
    by (cases n) (simp_all del: run_notice.simps add: run_notice_run [OF link_okD(1,2) [OF assms(1)]] left_performed left_incoming)
qed

lemma asked_notice:
  assumes "link_ok sid l" "n \<in># in_flight l sd" "notice_sid n = sid"
  shows "asked sid (ends l sd) \<le> asked sid (fst (run_notice n (ends l sd)))"
proof (cases "stream_of sid (ends l sd)")
  case None
  then have "run_notice n (ends l sd) = (ends l sd, Returns ())"
    using assms(3) link_okD(1,2) [OF assms(1), of sd] OnStreamsResetPerformed_run [of "ends l sd" sid "[]"]
      OnIncomingStreamsReset_run [of "ends l sd" sid "[]"]
    by (cases n) (simp_all del: OnStreamsResetPerformed.simps(2) OnIncomingStreamsReset.simps(2))
  then show ?thesis by simp
next
  case (Some st)
  with assms(3) show ?thesis
    by (cases n) (simp_all del: run_notice.simps
        add: run_notice_run [OF link_okD(1,2) [OF assms(1)]] asked_def performed_def incoming_def Let_def)
qed

lemma link_step_notice:
  assumes "link_ok sid l" "n \<in># in_flight l sd" "stream_of (notice_sid n) (ends l sd) = Some st"
  shows "link_step sid l (moved sd (fst (run_notice n (ends l sd))) (delivered sd n l))"
proof -
  let ?r = "case n of Performed x \<Rightarrow> ReportPerformed [x] | Incoming x \<Rightarrow> ReportIncoming [x]"
  have r: "run_report ?r = run_notice n" "notices ?r = {#n#}" "unheard ?r (ends l sd) = {#}"
    by (cases n; simp)+
  have "run_report ?r (ends l sd) = (fst (run_notice n (ends l sd)), Returns ())"
    using notice_moved(1) [OF assms] by (metis r(1) prod.collapse)
  from link_step.report [OF _ this] show ?thesis using assms(2) by (simp add: r)
qed

lemma notices_run_out:
  "link_ok sid l \<Longrightarrow> lossless sid l \<Longrightarrow>
   \<exists>l'. (link_step sid)\<^sup>*\<^sup>* l l' \<and> quiet sid l' \<and> lossless sid l' \<and> (\<forall>sd. asked sid (ends l sd) \<le> asked sid (ends l' sd))"
proof (induction "left sid (ends l SideA) + left sid (ends l SideB)" arbitrary: l rule: less_induct)
  case less
  show ?case
  proof (cases "quiet sid l")
    case False
    then obtain sd n where n: "n \<in># in_flight l sd" "notice_sid n = sid" by (auto simp: quiet_def)
    obtain st where st: "stream_of (notice_sid n) (ends l sd) = Some st"
      by (rule notice_known [OF less.prems(1) n])
    define l1 where "l1 = moved sd (fst (run_notice n (ends l sd))) (delivered sd n l)"
    note moved = notice_moved [OF less.prems(1) n(1) st, folded l1_def]
      and step = link_step_notice [OF less.prems(1) n(1) st, folded l1_def]
    have ends: "left sid (ends l1 sd) < left sid (ends l sd)" "ends l1 (peer sd) = ends l (peer sd)"
      "asked sid (ends l sd) \<le> asked sid (ends l1 sd)"
      using left_notice [OF less.prems(1) n] asked_notice [OF less.prems(1) n] by (simp_all add: l1_def)
    have "lost l1 = lost l" by (simp add: l1_def moved_def taken_def Let_def)
    then have lossless: "lossless sid l1" using less.prems(2) by (simp add: lossless_def)
    have "left sid (ends l1 SideA) + left sid (ends l1 SideB) < left sid (ends l SideA) + left sid (ends l SideB)"
      using ends(1,2) by (cases sd) simp_all
    from less.hyps [OF this moved(2) lossless] obtain l' where l': "(link_step sid)\<^sup>*\<^sup>* l1 l'" "quiet sid l'" "lossless sid l'"
      "\<forall>sd. asked sid (ends l1 sd) \<le> asked sid (ends l' sd)" by blast
    have "asked sid (ends l sd') \<le> asked sid (ends l1 sd')" for sd'
      using ends(2,3) by (cases sd; cases sd') simp_all
    then show ?thesis using l' step by (meson converse_rtranclp_into_rtranclp le_trans)
  qed (use less.prems in blast)
qed

text \<open>What holds of each end at any time, and where a reset leads.\<close>

lemma link_ok_counts:
  assumes "link_ok sid l"
  shows "asked sid (ends l sd) \<le> 1" "closes sid (ends l sd) \<le> 1" "closings sid (ends l sd) \<le> 1"
    "closes sid (ends l sd) = 1 \<longleftrightarrow> stream_of sid (ends l sd) = None"
  using link_okD(4) [OF assms, of sd] view_ok_own [OF link_okD(4) [OF assms, of sd]]
  by (cases "stream_of sid (ends l sd)"; auto simp: view_ok.simps split: if_splits)+

lemma reset_ends:
  assumes "link_ok sid l" "lossless sid l" "asked sid (ends l sd) \<noteq> 0"
  obtains l' where "(link_step sid)\<^sup>*\<^sup>* l l'" "quiet sid l'" "\<forall>sd. stream_of sid (ends l' sd) = None"
proof -
  obtain l' where l': "(link_step sid)\<^sup>*\<^sup>* l l'" "quiet sid l'" "lossless sid l'"
    "\<forall>sd. asked sid (ends l sd) \<le> asked sid (ends l' sd)"
    using notices_run_out [OF assms(1,2)] by blast
  have "asked sid (ends l' sd) \<noteq> 0" using l'(4) assms(3) by (metis le_zero_eq)
  note ended = quiet_ended [OF link_inv.reach_inv [OF l'(1) assms(1)] l'(2,3) this]
  show thesis using l'(1,2) both_sides [OF ended] by (rule that)
qed

text \<open>A stream listed behind one that is not known stays as it is, whatever was to be reported of it.\<close>

lemma listed_behind_unknown:
  assumes "flat_ok (stream_states s)" "dt_socket s \<noteq> None" "stream_of x s = None"
  shows "OnIncomingStreamsReset (x # sids) s = (s, Returns ())" "OnStreamsResetPerformed (x # sids) s = (s, Returns ())"
  using OnIncomingStreamsReset_run [OF assms(1,2)] OnStreamsResetPerformed_run [OF assms(1)] assms(3)
  by (simp_all del: OnStreamsResetPerformed.simps(2) OnIncomingStreamsReset.simps(2))

text \<open>A stream of which a notice is lost is never forgotten, so its channel is never closed.\<close>

lemma lost_stays:
  assumes "link_ok sid l" "n \<in># lost l sd" "notice_sid n = sid"
  shows "stream_of sid (ends l sd) \<noteq> None" "closes sid (ends l sd) = 0"
  using link_okD(4) [OF assms(1), of sd] assms(2,3)
  by (cases "stream_of sid (ends l sd)"; cases n; auto simp: view_ok.simps count_eq_zero_iff)+

lemma lost_grows: "link_step sid l l' \<Longrightarrow> lost l sd \<subseteq># lost l' sd"
  by (erule link_stepE) (auto simp: moved_def taken_def Let_def)

lemma lost_forever: "(link_step sid)\<^sup>*\<^sup>* l l' \<Longrightarrow> n \<in># lost l sd \<Longrightarrow> n \<in># lost l' sd"
  by (induction rule: rtranclp_induct) (auto dest: lost_grows [of _ _ _ sd] mset_subset_eqD)

end
