(* ===== verification/Sctp_Facade.thy ===== *)
theory Sctp_Facade
  imports Dcsctp_Transport Channel_Controller Channel_Life
begin

text \<open>
  \<open>webrtc::SctpTransport\<close> (\<open>pc/sctp_transport.cc\<close>), the transport as the controller of the data channels sees
  it: it forwards to the internal transport, which \<open>Clear\<close> destroys, and keeps the information that it
  reports to an observer.  \<open>serve\<close> is what the controller asks of it, \<open>sink\<close> the controller as the sink of the
  transport; with both, a transport and a controller run as one system.
\<close>

datatype SctpTransportState = kNew_sctp | kConnecting_sctp | kConnected_sctp | kClosed_sctp | kNumValues_sctp

record SctpTransportInformation =
  info_state :: SctpTransportState
  info_dtls_transport :: "nat option"
  info_max_message_size :: "int option"
  info_max_channels :: "int option"

text \<open>\<open>st_reports\<close> are the calls of \<open>OnStateChange\<close> of the observer.\<close>

record SctpTransport =
  st_info :: SctpTransportInformation
  st_internal :: "DcSctpTransport option"
  st_observer :: bool
  st_dtls_transport :: "nat option"
  st_reports :: "SctpTransportInformation list"

type_synonym 'a st_act = "(SctpTransport, 'a) act"

definition on_internal :: "'a dt_act \<Rightarrow> 'a st_act" where
  "on_internal m =
     (\<lambda>s. case st_internal s of
            None \<Rightarrow> (s, Faults NullDeref)
          | Some t \<Rightarrow> (case m t of (t', r) \<Rightarrow> (s\<lparr>st_internal := Some t'\<rparr>, r)))"

definition SctpTransport_new :: "sctp_answers \<Rightarrow> DcSctpTransport \<Rightarrow> nat \<Rightarrow> SctpTransport" where
  "SctpTransport_new sk internal dtls_transport =
     fst (on_internal (seq (SetDtlsTransport sk (Some dtls_transport)) (\<lambda>_. SetOnConnectedCallback True))
       \<lparr>st_info = \<lparr>info_state = kConnecting_sctp, info_dtls_transport = Some dtls_transport,
                    info_max_message_size = None, info_max_channels = None\<rparr>,
        st_internal = Some internal, st_observer = False, st_dtls_transport = Some dtls_transport, st_reports = []\<rparr>)"

definition st_RegisterObserver :: "unit st_act" where
  "st_RegisterObserver = update (\<lambda>s. s\<lparr>st_observer := True\<rparr>)"

definition st_UnregisterObserver :: "unit st_act" where
  "st_UnregisterObserver = update (\<lambda>s. s\<lparr>st_observer := False\<rparr>)"

definition st_OpenChannel :: "int \<Rightarrow> u16 \<Rightarrow> RTCError st_act" where
  "st_OpenChannel channel_id priority = seq (on_internal (OpenStream channel_id priority)) (\<lambda>_. ret RTCError_OK)"

definition st_SendData :: "sctp_answers \<Rightarrow> int \<Rightarrow> SendDataParams \<Rightarrow> bytes \<Rightarrow> RTCError st_act" where
  "st_SendData sk channel_id params buffer = on_internal (dt_SendData sk channel_id params buffer)"

definition st_CloseChannel :: "int \<Rightarrow> RTCError st_act" where
  "st_CloseChannel channel_id = seq (on_internal (ResetStream channel_id)) (\<lambda>_. ret RTCError_OK)"

definition st_SetDataSink :: "bool \<Rightarrow> unit st_act" where
  "st_SetDataSink sink = on_internal (SetDataChannelSink sink)"

definition st_IsReadyToSend :: "bool st_act" where
  "st_IsReadyToSend = on_internal (look dt_ready_to_send_data)"

definition st_buffered_amount :: "sctp_answers \<Rightarrow> int \<Rightarrow> u64 st_act" where
  "st_buffered_amount sk channel_id = on_internal (dt_buffered_amount sk channel_id)"

definition st_buffered_amount_low_threshold :: "sctp_answers \<Rightarrow> int \<Rightarrow> u64 st_act" where
  "st_buffered_amount_low_threshold sk channel_id = on_internal (dt_buffered_amount_low_threshold sk channel_id)"

definition st_SetBufferedAmountLowThreshold :: "int \<Rightarrow> u64 \<Rightarrow> unit st_act" where
  "st_SetBufferedAmountLowThreshold channel_id n = on_internal (dt_SetBufferedAmountLowThreshold channel_id n)"

text \<open>Both branches of the test of \<open>internal_sctp_transport_\<close> store the same information.\<close>

definition UpdateInformation :: "SctpTransportState \<Rightarrow> unit st_act" where
  "UpdateInformation st =
     seq (look (\<lambda>s. st \<noteq> info_state (st_info s))) (\<lambda>must_send_update.
     seq (update (\<lambda>s. s\<lparr>st_info := (st_info s)\<lparr>info_state := st, info_dtls_transport := st_dtls_transport s\<rparr>\<rparr>)) (\<lambda>_.
     update (\<lambda>s. if st_observer s \<and> must_send_update then s\<lparr>st_reports := st_reports s @ [st_info s]\<rparr> else s)))"

definition st_Clear :: "unit st_act" where
  "st_Clear =
     seq (update (\<lambda>s. s\<lparr>st_dtls_transport := None, st_internal := None\<rparr>)) (\<lambda>_. UpdateInformation kClosed_sctp)"

definition st_Start :: "sctp_answers \<Rightarrow> int \<Rightarrow> int \<Rightarrow> int \<Rightarrow> unit st_act" where
  "st_Start sk local_port remote_port max_message_size =
     seq (update (\<lambda>s. s\<lparr>st_info := (st_info s)\<lparr>info_max_message_size := Some max_message_size\<rparr>\<rparr>)) (\<lambda>_.
     seq (on_internal (dt_Start sk local_port remote_port max_message_size)) (\<lambda>ok.
     onlyif (\<not> ok) (UpdateInformation kClosed_sctp)))"

definition OnAssociationChangeCommunicationUp :: "unit st_act" where
  "OnAssociationChangeCommunicationUp =
     seq (on_internal max_outbound_streams) (\<lambda>outbound.
     seq (on_internal max_inbound_streams) (\<lambda>inbound.
     seq (case (outbound, inbound) of
            (Some out, Some inb) \<Rightarrow>
              update (\<lambda>s. s\<lparr>st_info := (st_info s)\<lparr>info_max_channels := Some (min (uint out) (uint inb))\<rparr>\<rparr>)
          | _ \<Rightarrow> ret ()) (\<lambda>_.
     UpdateInformation kConnected_sctp)))"

text \<open>A pointer to the DTLS transport is taken off the reference before it is compared.\<close>

definition OnDtlsStateChange :: "nat \<Rightarrow> DtlsTransportState \<Rightarrow> unit st_act" where
  "OnDtlsStateChange transport st =
     seq (look st_dtls_transport) (\<lambda>dtls.
     case dtls of
       None \<Rightarrow> fail NullDeref
     | Some d \<Rightarrow>
         if transport \<noteq> d then fail CheckFailed
         else onlyif (st = kClosed_dtls \<or> st = kFailed_dtls) (UpdateInformation kClosed_sctp))"

section \<open>The controller and its transport\<close>

definition serve :: "sctp_answers \<Rightarrow> ctl_event \<Rightarrow> unit st_act" where
  "serve sk e =
     (case e of
        OpenChannel sid priority \<Rightarrow> seq (st_OpenChannel (int sid) priority) (\<lambda>_. ret ())
      | CloseChannel sid \<Rightarrow> seq (st_CloseChannel (int sid)) (\<lambda>_. ret ())
      | TransportSend sid params payload \<Rightarrow> seq (st_SendData sk (int sid) params payload) (\<lambda>_. ret ())
      | SetThreshold sid n \<Rightarrow> st_SetBufferedAmountLowThreshold (int sid) n
      | SetDataSink _ is_set \<Rightarrow> st_SetDataSink is_set
      | _ \<Rightarrow> ret ())"

definition sink :: "garbage \<Rightarrow> transport_answers \<Rightarrow> SSLRole option \<Rightarrow> sink_call \<Rightarrow> unit dcc_act" where
  "sink g tr role c =
     (case c of
        SinkReadyToSend \<Rightarrow> OnReadyToSend g tr
      | SinkBufferedAmountLow sid \<Rightarrow> dcc_OnBufferedAmountLow tr (uint sid)
      | SinkDataReceived sid type buffer \<Rightarrow> dcc_OnDataReceived tr role (uint sid) type buffer
      | SinkTransportClosed error \<Rightarrow> OnTransportClosed tr error
      | SinkChannelClosing sid \<Rightarrow> OnChannelClosing tr (uint sid)
      | SinkChannelClosed sid \<Rightarrow> OnChannelClosed tr (uint sid))"

text \<open>The answers a channel gets when its controller sends through this transport.\<close>

definition transport_controller :: "sctp_answers \<Rightarrow> SctpTransport \<Rightarrow> controller" where
  "transport_controller sk a =
     \<lparr>ctl_SendData = (\<lambda>sid params payload.
        case snd (st_SendData sk (int sid) params payload a) of
          Returns e \<Rightarrow> e | Faults _ \<Rightarrow> RTCError_of INTERNAL_ERROR []),
      ctl_buffered_amount = (\<lambda>sid.
        case snd (st_buffered_amount sk (int sid) a) of Returns n \<Rightarrow> n | Faults _ \<Rightarrow> 0)\<rparr>"

section \<open>What the facade keeps\<close>

lemma on_internal_Some:
  "st_internal s = Some t \<Longrightarrow> m t = (t', r) \<Longrightarrow> on_internal m s = (s\<lparr>st_internal := Some t'\<rparr>, r)"
  by (simp add: on_internal_def)

text \<open>After \<open>Clear\<close> every operation that needs the internal transport dereferences null.\<close>

lemma cleared_faults:
  assumes "st_Clear s = (s', r)"
  shows "st_CloseChannel sid s' = (s', Faults NullDeref)" "st_SendData sk sid params b s' = (s', Faults NullDeref)"
    "OnDtlsStateChange d st s' = (s', Faults NullDeref)" "info_state (st_info s') = kClosed_sctp"
  using assms by (auto simp: st_Clear_def UpdateInformation_def st_CloseChannel_def st_SendData_def OnDtlsStateChange_def
      on_internal_def run_seq split: if_splits)

text \<open>
  What the controller sends on an open stream is what the controller of the peer is given, empty messages
  included; a message on any other stream, or one that is too long, does not reach the socket.
\<close>

lemma serve_send:
  assumes "st_internal a = Some s" "flat_ok (stream_states s)" "sendable (int sid) payload s"
  shows "\<exists>s'. serve sk (TransportSend sid params payload) a = (a\<lparr>st_internal := Some s'\<rparr>, Returns ()) \<and>
    dt_log s' = dt_log s @ [SocketSend (message_of (int sid) params payload) (send_options_of params)] \<and>
    (dt_ready_to_send_data s' \<longleftrightarrow> dt_ready_to_send_data s \<and>
       sk_Send sk (message_of (int sid) params payload) (send_options_of params) \<noteq> kErrorResourceExhaustion)"
  using assms dt_SendData_sendable [OF assms(2,3), of sk params]
  by (cases "sk_Send sk (message_of (int sid) params payload) (send_options_of params)")
    (auto simp: serve_def st_SendData_def on_internal_def run_seq Let_def)

lemma serve_send_refused:
  assumes "st_internal a = Some s" "flat_ok (stream_states s)" "\<not> sendable (int sid) payload s"
  shows "serve sk (TransportSend sid params payload) a = (a, Returns ())"
    "\<exists>e. st_SendData sk (int sid) params payload a = (a, Returns (RTCError_of e [])) \<and> e \<in> {INVALID_STATE, INVALID_RANGE}"
proof -
  have "a\<lparr>st_internal := Some s\<rparr> = a" using assms(1) by simp
  then show "serve sk (TransportSend sid params payload) a = (a, Returns ())"
    "\<exists>e. st_SendData sk (int sid) params payload a = (a, Returns (RTCError_of e [])) \<and> e \<in> {INVALID_STATE, INVALID_RANGE}"
    using assms(1) dt_SendData_refused [OF assms(2,3), of sk params]
    by (auto simp: serve_def st_SendData_def on_internal_def run_seq)
qed

lemma sink_receives:
  assumes "dt_sink t" "sid < 65536" "sdp_type params \<noteq> kControl \<or> payload \<noteq> []"
  shows "OnMessageReceived (message_of (int sid) params payload) t =
    (noted [Sink (SinkDataReceived (word_of_nat sid) (sdp_type params) payload)] (t\<lparr>dt_receive_buffer := payload\<rparr>), Returns ())"
    "sink g tr role (SinkDataReceived (word_of_nat sid) (sdp_type params) payload) =
       dcc_OnDataReceived tr role (int sid) (sdp_type params) payload"
proof -
  have "uint (word_of_nat sid :: u16) = int sid" using assms(2) by (simp add: unsigned_of_nat take_bit_nat_eq_self)
  then show "sink g tr role (SinkDataReceived (word_of_nat sid) (sdp_type params) payload) =
       dcc_OnDataReceived tr role (int sid) (sdp_type params) payload" by (simp add: sink_def)
  show "OnMessageReceived (message_of (int sid) params payload) t =
    (noted [Sink (SinkDataReceived (word_of_nat sid) (sdp_type params) payload)] (t\<lparr>dt_receive_buffer := payload\<rparr>), Returns ())"
    using assms(1,3) by (auto simp: OnMessageReceived_message_of Let_def sunk_def)
qed

text \<open>What a data message is for the other controller: never an OPEN message.\<close>

lemma data_not_handled:
  "type \<noteq> kControl \<Longrightarrow> dcc_OnDataReceived tr role i type buffer = call_found tr i (\<lambda>_. OnDataReceived type buffer)"
  by (simp add: dcc_OnDataReceived_def HandleOpenMessage_n_def)

lemma data_params_type: "sdp_type (data_params c b) = (if db_binary b then kBinary else kText)"
  by (simp add: data_params_def Let_def)

lemma transport_answer:
  assumes "st_internal a = Some s" "flat_ok (stream_states s)"
  shows "RTCError_ok (ctl_SendData (transport_controller sk a) sid params payload) \<longleftrightarrow>
    sendable (int sid) payload s \<and>
    sk_Send sk (message_of (int sid) params payload) (send_options_of params) = kSuccess"
proof (cases "sendable (int sid) payload s")
  case True
  then show ?thesis
    using assms dt_SendData_sendable [OF assms(2) True, of sk params]
    by (auto simp: transport_controller_def st_SendData_def on_internal_def Let_def RTCError_ok_def RTCError_OK_def
        RTCError_of_def split: SendStatus.splits)
next
  case False
  then show ?thesis
    using serve_send_refused(2) [OF assms(1,2) False, of sk params]
    by (auto simp: transport_controller_def RTCError_ok_def RTCError_of_def)
qed

end
