(* ===== verification/Demo.thy ===== *)
theory Demo
  imports Run_Loop Dns_Cache Flat_Map Enums Envelope Packets Net_Address Peer_Table Lan_Thread
    Session Session_Manager Network_Interface Web_Socket Cow_Buffer Channel_Ledger Peer_Link Addr_Text Stream_Reset Sctp_Facade
begin

text \<open>
  Concrete inputs on which the theorems are evaluated: an OpenSSL with the documented sizes, a session and
  its manager, a LAN thread with one peer, an interface, data channels with transports that accept and
  refuse.  What they satisfy is stated with them.
\<close>

section \<open>Concrete inputs\<close>

text \<open>
  An OpenSSL whose cipher appends one padding byte and whose digests are constant; it has the
  documented sizes and decryption undoes encryption.
\<close>

definition demo_ssl :: openssl where
  "demo_ssl =
     \<lparr>EVP_MD_size = 2, EVP_MD_CTX_new = True, EVP_DigestInit_ex = True, EVP_DigestUpdate = (\<lambda>m. True),
      EVP_DigestFinal = (\<lambda>m. Some [1, 2]), EVP_CIPHER_CTX_block_size = 1, EVP_CIPHER_CTX_reset = True,
      EVP_EncryptInit_ex = (\<lambda>k. True), 
      EVP_EncryptUpdate = (\<lambda>k n m. if length m + 1 < 2 ^ 31 then Some m else None),
      EVP_EncryptFinal_ex = (\<lambda>k n m. Some [0]), EVP_DecryptInit_ex = (\<lambda>k. True),
      EVP_DecryptUpdate = (\<lambda>k n m. if length m < 2 ^ 31 then Some (butlast m) else None),
      EVP_DecryptFinal_ex = (\<lambda>k n m. Some []),
      HMAC = (\<lambda>k m. Some [7, 7]), ERR_get_error = 5\<rparr>"

definition demo_context :: AesContext where
  "demo_context = \<lparr>mKeyData = [1, 2], mOutputBuffer = []\<rparr>"

definition demo_session :: NetworkSession where
  "demo_session =
     \<lparr>mConnNegotiationState = WaitingForResponse, mNegotiationStateTimer = 0, mIsOutGoingSession = True,
      mHasSentAcceptSession = False, mStatsRequestInProgress = False, mConnectionId = 11, mRemoteID = 22,
      mpPeerConnection = Some 5, mDeferredIceCandidates = [1, 2, 3], mNetworkSessionMgr = True,
      mIceConnectionState = kIceConnectionConnected, mPeerConnectionState = 0, mConnectionStat = 0,
      mUnreliableChannelInterface = Some 8, mUnreliablePackets = [[3]], mUnreliableChannelState = kOpen,
      mReliableChannelInterface = Some 9, mReliablePackets = [[1], [2]], mIsUsingRelay = False,
      mCurrentRTT = 30, mTotalBytesSent = 40, mTotalBytesReceived = 50, mTotalPacketLost = 1,
      mIsDeleting = False, mReliableChannelState = kOpen, mLastStatsUpdate = 0, mConnectionFlag = 0,
      mLastSessionActivity = 0, mSignalingPreference = None\<rparr>"

definition demo_env :: net_env where
  "demo_env =
     \<lparr>now = 70 * 1000000000, g_SignalThread = \<lparr>mThread = ThreadLive\<rparr>, g_WorkerThread = \<lparr>mThread = ThreadNull\<rparr>,
      g_LanThread = None, on_signal_thread = False, on_lan_thread = False, mCallBack = True,
      mReceiverId = 33, mpPeerConnectionFactory = True, mRtcConfig = RTCConfiguration_default,
      mDisableLANSignaling = False, mNegotiationTimeout = 60, net_events = [], signal_tasks = []\<rparr>"

definition demo_ctx :: session_ctx where
  "demo_ctx = net_env.extend demo_env (session_ctx.fields 7 demo_session)"

definition demo_manager :: mgr_state where
  "demo_manager =
     net_env.extend demo_env
       (mgr_state.fields [(22, [1, 2, 3])] False [(22, \<lparr>mOwnSession = Some 7, rec_mConnectionId = 11\<rparr>)]
         [7 \<mapsto> demo_session\<lparr>mConnNegotiationState := ICEProcessing\<rparr>])"

definition demo_empty_manager :: mgr_state where
  "demo_empty_manager = net_env.extend demo_env (mgr_state.fields [] False [] Map.empty)"

definition demo_platform :: platform where
  "demo_platform =
     \<lparr>pf_lan_off_end = Returns \<lparr>ec_value = 0, ec_category = True\<rparr>, pf_junk = replicate 1140 0, pf_clock = (\<lambda>n. int n),
      pf_signal_off_end = Returns ESessionErrorNone, pf_candidate_off_end = Returns None,
      pf_observer_off_end = Returns (), pf_channel_state = (\<lambda>h. kOpen),
      pf_channel_label = (\<lambda>h. ''&ReliableDataChannel''), pf_candidate_type = (\<lambda>c. kHost),
      pf_create_peer = (\<lambda>cfg. Some 5), pf_create_channel = (\<lambda>h l init. Some (if l = ''&ReliableDataChannel'' then 1 else 2)),
      pf_add_ice = (\<lambda>h c. c = 2), pf_fresh_id = 99, pf_flags = (\<lambda>r. 1)\<rparr>"

definition demo_address :: SocketAddress where
  "demo_address = SocketAddress_new (AF_INET 0xC0A80102) 7551"

definition demo_peers :: PeerRecordTable where
  "demo_peers =
     \<lparr>mExclusiveTable = \<lparr>ts_data = [], held = False\<rparr>,
      mPeerRecordTable = [(22, \<lparr>mRemoteId = 22, mLastActiveTime = 0, mRemoteAddress = demo_address\<rparr>)]\<rparr>"

definition demo_lan :: LanThreadManager where
  "demo_lan =
     \<lparr>mLanRemoteId = 22, mPeers = Some demo_peers, mSocket = True, mSocketAddress = SocketAddress_Clear,
      mBindAddress = SocketAddress_new (AF_INET6 0) 7551, mBasicNetworkMgr = True, mEphemeralPort = 7551,
      mIds = [], mDiscoveredAddresses = [AF_INET 0xC0A80105], lan_tasks = [], lan_wire = [],
      lan_completions = [], lan_signal_posts = 0, lan_discoveries = 0\<rparr>"

definition demo_iface :: iface_state where
  "demo_iface =
     \<lparr>now = 70 * 1000000000, g_SignalThread = \<lparr>mThread = ThreadLive\<rparr>, g_WorkerThread = \<lparr>mThread = ThreadNull\<rparr>,
      g_LanThread = Some demo_lan, on_signal_thread = False, on_lan_thread = False, mCallBack = True,
      mReceiverId = 33, mpPeerConnectionFactory = True, mRtcConfig = RTCConfiguration_default,
      mDisableLANSignaling = False, mNegotiationTimeout = 60, net_events = [], signal_tasks = [],
      mPacketData = [], mSessionCreationMutex = False, mSessionList = [], session_heap = Map.empty,
      mNetworkSessionMgrPtr = True, mApiLevelMutex = False, mUsernameCert = ''user'', mPasswordCert = ''pw'',
      mpWebRTCSignalingInterface = None\<rparr>"

lemmas demo_defs = demo_ssl_def demo_context_def demo_session_def demo_env_def demo_ctx_def
  demo_manager_def demo_empty_manager_def demo_platform_def demo_address_def demo_peers_def demo_lan_def
  net_env.defs session_ctx.defs mgr_state.defs

lemma demo_ssl_ok: "ossl_ok demo_ssl" "ossl_inverse demo_ssl"
  by (auto simp: ossl_ok_def ossl_inverse_def demo_ssl_def split: if_splits)

lemma demo_seals_two: "seals demo_ssl k [4, 5] [7, 7] [4, 5] [0]"
  by (simp add: seals_def demo_ssl_def)

lemma demo_wired: "wired demo_ctx"
  by (simp add: wired_def demo_defs)

lemma demo_manager_facts:
  "omap_get (mSessionList demo_manager) 22 = Some \<lparr>mOwnSession = Some 7, rec_mConnectionId = 11\<rparr>"
  "wired_session demo_manager 7 (demo_session\<lparr>mConnNegotiationState := ICEProcessing\<rparr>)"
  "0 \<le> mNegotiationTimeout demo_manager" "\<not> mSessionCreationMutex demo_manager"
  "\<not> session_dead demo_manager (demo_session\<lparr>mConnNegotiationState := ICEProcessing\<rparr>)"
  "mThread (g_SignalThread demo_manager) = ThreadLive" "net_events demo_manager = []"
  "signal_tasks demo_manager = []"
  by (simp_all add: demo_defs omap_get_def wired_session_def session_dead_def IsConnectionAlive_iff
      negotiation_expired_def)

lemma demo_peers_ok: "peers_ok demo_peers" "peer_address demo_peers 22 = Some demo_address"
  by (simp_all add: peers_ok_def peer_address_def demo_peers_def omap_ok_def omap_get_def)

text \<open>Data channels: an opener with a stream id, transports that accept and refuse, and a controller with a transport.\<close>

definition demo_label :: bytes where
  "demo_label = [38, 82]"

definition demo_unassigned :: SctpDataChannel where
  "demo_unassigned = SctpDataChannel_create (InternalDataChannelInit_of DataChannelInit_default) True demo_label True 1"

definition demo_opener :: SctpDataChannel where
  "demo_opener = demo_unassigned\<lparr>dc_id_n := Some 0\<rparr>"

definition demo_accepting :: controller where
  "demo_accepting = \<lparr>ctl_SendData = (\<lambda>sid params payload. RTCError_OK), ctl_buffered_amount = (\<lambda>sid. 0)\<rparr>"

definition demo_refusing :: controller where
  "demo_refusing = demo_accepting\<lparr>ctl_SendData := (\<lambda>sid params payload. RTCError_of RESOURCE_EXHAUSTED [])\<rparr>"

definition demo_transport :: transport_answers where
  "demo_transport =
     \<lparr>tr_IsReadyToSend = True, tr_SendData = (\<lambda>sid params payload. RTCError_OK), tr_buffered_amount = (\<lambda>sid. 0)\<rparr>"

definition demo_broken_transport :: transport_answers where
  "demo_broken_transport = demo_transport\<lparr>tr_SendData := (\<lambda>sid params payload. RTCError_of NETWORK_ERROR [])\<rparr>"

definition demo_controller :: DataChannelController where
  "demo_controller = dcc_create\<lparr>dcc_transport := Some 1\<rparr>"

definition demo_one_channel :: DataChannelController where
  "demo_one_channel = demo_controller\<lparr>dcc_heap := [0 \<mapsto> demo_unassigned], dcc_next := 1, dcc_channels := [0]\<rparr>"

lemma demo_unassigned_fields:
  "dc_state demo_unassigned = kConnecting" "dc_network_safety demo_unassigned" "dc_controller demo_unassigned"
  "dc_handshake_state demo_unassigned = kHandshakeShouldSendOpen" "dc_id_n demo_unassigned = None"
  "dc_label demo_unassigned = demo_label" "dc_protocol demo_unassigned = []" "dc_ordered demo_unassigned"
  "dc_max_retransmits demo_unassigned = None" "dc_max_retransmit_time demo_unassigned = None"
  "dc_priority demo_unassigned = None" "dc_observer demo_unassigned = None" "dc_log demo_unassigned = []"
  "dc_queued_received_data demo_unassigned = pq_empty" "\<not> dc_started_closing_procedure demo_unassigned"
  by (simp_all add: demo_unassigned_def SctpDataChannel_create_def InternalDataChannelInit_of_def
      DataChannelInit_default_def DataChannelInit.defs InternalDataChannelInit.defs clamp_limit_def
      handshake_of_role_def Let_def)

lemma demo_opener_ready: "connecting kHandshakeShouldSendOpen 0 demo_opener" "fits_open demo_opener"
  by (simp_all add: demo_opener_def connecting_def fits_open_def demo_unassigned_fields demo_label_def opt_int32_def)

lemma demo_accepts:
  "RTCError_ok (ctl_SendData demo_accepting sid params payload)"
  "\<not> RTCError_ok (ctl_SendData demo_refusing sid params payload)"
  "\<not> RTCError_ok (tr_SendData demo_broken_transport sid params payload)"
  by (simp_all add: demo_accepting_def demo_refusing_def demo_broken_transport_def RTCError_ok_def RTCError_OK_def
      RTCError_of_def)

lemma demo_controller_ok: "ctl_ok demo_controller" "dcc_transport demo_controller = Some 1" "dcc_sids demo_controller = {}"
proof -
  have "ctl_view demo_controller = ctl_view dcc_create" by (simp add: ctl_view_def demo_controller_def)
  then show "ctl_ok demo_controller" using ctl_ok_create ctl_ok_view by blast
qed (simp_all add: demo_controller_def dcc_create_def)

lemma demo_one_channel_ok: "ctl_ok demo_one_channel"
  by (rule new_inv [OF demo_controller_ok(1), of demo_unassigned])
    (simp_all add: demo_unassigned_fields demo_one_channel_def demo_controller_def dcc_create_def)

text \<open>A first channel of a new controller gets the id 0.\<close>

lemma demo_created:
  assumes "IsValid config" "dci_id config = -1"
  shows "\<exists>s'. InternalCreateDataChannelWithProxy demo_transport (Some SSL_CLIENT) label config dcc_create =
     (s', Returns (Inr 0)) \<and> dcc_sids s' = {0}"
proof -
  have sid: "AllocateSid SSL_CLIENT {} = (Some 0, {0})"
    by (simp add: AllocateSid_def allocate_from.simps [of 0])
  show ?thesis
    by (simp add: InternalCreateDataChannelWithProxy_def CreateDataChannel_def assms sid ReserveOrAllocateSid_def
        dcc_create_def RTCError_ok_def RTCError_OK_def RTCError_of_def new_channel_def AddSctpDataStream_def
        to_transport_def call_channel_def CreateProxy_def run_seq Let_def)
qed

text \<open>A negotiated channel, what it receives and what it sends.\<close>

definition demo_negotiated_config :: InternalDataChannelInit where
  "demo_negotiated_config = (InternalDataChannelInit_of DataChannelInit_default)\<lparr>open_handshake_role := kNone_role\<rparr>"

definition demo_negotiated :: SctpDataChannel where
  "demo_negotiated = SctpDataChannel_create demo_negotiated_config True demo_label True 1"

definition demo_inbox :: "(controller \<times> dc_call) list" where
  "demo_inbox = map (Pair demo_accepting)
     [C_SetSctpSid 0, C_OnDataReceived kText [1], C_CreateProxy True, C_RegisterObserver 5 False,
      C_OnTransportReady (\<lambda>_. 0), C_signaling_task, C_signaling_task, C_OnDataReceived kBinary [2]]"

definition demo_outbox :: "(controller \<times> dc_call) list" where
  "demo_outbox = map (Pair demo_accepting)
     [C_SetSctpSid 0, C_CreateProxy True, C_RegisterObserver 5 False, C_OnTransportReady (\<lambda>_. 0),
      C_signaling_task, C_Send \<lparr>db_data = [1, 2, 3], db_binary = True\<rparr>, C_signaling_task]"

lemmas eval_channel = SctpDataChannel_create_def InternalDataChannelInit_of_def DataChannelInit_default_def
  DataChannelInit.defs InternalDataChannelInit.defs clamp_limit_def handshake_of_role_def Let_def run_seq
  RegisterObserver_def CreateProxy_def SetSctpSid_n_def OnDataReceived_def receive_buffer_def OnTransportReady_def
  UpdateState_def UpdateState_connecting_def send_handshake_def SetState_def run_tell DeliverQueuedReceivedData_def
  deliver_front_def pq_PushBack_def pq_PopFront_def pq_Empty_def pq_empty_def db_size_def oa_SetDelegate_def oa_post_def
  run_signaling_task_def oa_PrepareForCallback_def the_sid_def SendImpl_def dc_Send_def SendDataMessage_def ctl_send_def
  MaybeSendOnBufferedAmountChanged_def data_params_def RTCError_ok_def RTCError_OK_def RTCError_of_def

lemma demo_inbox_run:
  "no_overflow demo_inbox demo_negotiated"
  "orderly_run demo_inbox demo_negotiated"
  "messages (given (dc_run demo_inbox demo_negotiated)) = [\<lparr>db_data = [1], db_binary = False\<rparr>]"
  by (simp_all add: eval_channel demo_inbox_def demo_negotiated_def demo_negotiated_config_def overflows_def arriving_def too_much_def 
   kMaxQueuedReceivedDataBytes_def adapter_tasks_def given_def)

lemma demo_outbox_run:
  "orderly_run demo_outbox demo_negotiated"
  "handed_in_run demo_outbox demo_negotiated = 3"
  "amounts (given (dc_run demo_outbox demo_negotiated)) = 3"
  by (simp_all add: eval_channel demo_outbox_def demo_negotiated_def demo_negotiated_config_def handed_def demo_accepting_def
    adapter_tasks_def given_def kMinBufferedAmountDiffToTriggerCallback_def)

section \<open>Transports\<close>

definition demo_sctp :: sctp_answers where
  "demo_sctp =
     \<lparr>sk_state = kConnected_socket, sk_Send = (\<lambda>_ _. kSuccess), sk_buffered_amount = (\<lambda>_. 0),
      sk_buffered_amount_low_threshold = (\<lambda>_. 0), dtls_writable = True, dtls_SendPacket = (\<lambda>_. 0),
      dtls_error_blocking = False, message_interleaving = False\<rparr>"

definition demo_wire :: DcSctpTransport where
  "demo_wire =
     \<lparr>dt_transport = Some 0, dt_socket = Some DcSctpOptions_default, dt_receive_buffer = [],
      stream_states = [(0, \<lparr>closure_initiated = False, incoming_reset_done = False, outgoing_reset_done = False,
                            stream_priority = 256\<rparr>)],
      dt_ready_to_send_data = True, dt_on_connected = True, dt_sink = True, dt_log = []\<rparr>"

definition demo_facade :: SctpTransport where
  "demo_facade =
     \<lparr>st_info = \<lparr>info_state = kConnected_sctp, info_dtls_transport = Some 0, info_max_message_size = Some 262144,
                  info_max_channels = Some 65535\<rparr>,
      st_internal = Some demo_wire, st_observer = False, st_dtls_transport = Some 0, st_reports = []\<rparr>"

definition demo_link :: link where
  "demo_link = \<lparr>ends = (\<lambda>_. demo_wire), in_flight = (\<lambda>_. {#}), lost = (\<lambda>_. {#})\<rparr>"

text \<open>The first side has closed its channel.\<close>

definition demo_link_closing :: link where
  "demo_link_closing = moved SideA (fst (ResetStream 0 demo_wire)) demo_link"

lemma demo_wire_open:
  "flat_ok (stream_states demo_wire)" "stream_of 0 demo_wire = Some (snd (hd (stream_states demo_wire)))"
  "\<not> in_reset (snd (hd (stream_states demo_wire)))" "dt_socket demo_wire = Some DcSctpOptions_default" "dt_sink demo_wire"
  "dt_log demo_wire = []"
  by (simp_all add: demo_wire_def omap_ok_def omap_get_def in_reset_def)

lemma demo_link_start: "link_start 0 demo_link"
  using demo_wire_open
  by (simp add: link_start_def demo_link_def quiet_def lossless_def asked_def closes_def closings_def)

lemma demo_link_step:
  "link_step 0 demo_link demo_link_closing" "asked 0 (ends demo_link_closing SideA) = 1" "lossless 0 demo_link_closing"
proof -
  have run: "ResetStream 0 demo_wire = (fst (ResetStream 0 demo_wire), Returns True)"
    using demo_wire_open ResetStream_run [OF demo_wire_open(1), of 0] by simp
  then have "run_call (CallResetStream 0) (ends demo_link SideA) = (fst (ResetStream 0 demo_wire), Returns ())"
    by (simp add: discard_def demo_link_def)
  then show "link_step 0 demo_link demo_link_closing"
    unfolding demo_link_closing_def by (intro link_step.call [of 0 "CallResetStream 0"]) (simp_all add: opens_def)
  show "lossless 0 demo_link_closing"
    by (simp add: lossless_def demo_link_closing_def demo_link_def moved_def Let_def)
  show "asked 0 (ends demo_link_closing SideA) = 1"
    using demo_wire_open ResetStream_run [OF demo_wire_open(1), of 0] by (simp add: demo_link_closing_def asked_def)
qed

end
