(* ===== verification/Further_Facts.thy ===== *)
theory Further_Facts
  imports Demo
begin

text \<open>
  Further facts about single operations, each with an evaluated instance where it has hypotheses: long plaintexts,
  dropped callbacks, reports about several streams, the limits of the transport, range insertion, signalling status codes and configurations, long
  signals, sockets, the sweep of the peer table, the RTC thread and the web socket.
\<close>

text \<open>
  The transport refuses a packet above its limit, 1196 bytes unreliable and 15360 reliable, before
  it looks at anything else: it returns 0 and changes nothing.
\<close>

theorem oversized_packet_refused:
  assumes "(if sendType = eSendTypeUnreliable then 1196 else 15360) < unat cbData" "\<not> mApiLevelMutex s"
  shows "Interface_SendPacket pf remoteId pbdata cbData sendType s = (s, Returns 0)"
  using assms by (intro Interface_SendPacket_too_big) (cases sendType, simp_all add: packet_limit_def)

theorem oversized_packet_refused_witness:
  "Interface_SendPacket demo_platform 22 [] 1197 eSendTypeUnreliable demo_iface = (demo_iface, Returns 0)"
  by (rule oversized_packet_refused) (simp_all add: demo_iface_def)

text \<open>
  What \<open>GetSessionState\<close> reports: every field, with \<open>ConnectionActive\<close> exactly when ICE is connected,
  completed or disconnected and both channels are open.  \<open>HasSessionError\<close> is left as the caller
  had it, and \<open>Connecting\<close> is only ever switched on.
\<close>

theorem session_state_report:
  assumes "wired c"
  shows "snd (NetworkSession_GetSessionState (Some out) c) =
     Returns (Some
       \<lparr>ConnectionActive =
          (mIceConnectionState (this c) \<in> {kIceConnectionCompleted, kIceConnectionConnected, kIceConnectionDisconnected}
           \<and> mUnreliableChannelState (this c) = kOpen \<and> mReliableChannelState (this c) = kOpen),
        Connecting = (Connecting out \<or> mIceConnectionState (this c) \<in> {kIceConnectionNew, kIceConnectionChecking}),
        HasSessionError = HasSessionError out, UsingRelay = mIsUsingRelay (this c),
        CurrentRTT = mCurrentRTT (this c), BytesSendBuffer = 0, TotalBytesSent = mTotalBytesSent (this c),
        TotalBytesSentPerSecond = 0, TotalBytesReceived = mTotalBytesReceived (this c), TotalPacketsSent = 0,
        TotalPacketsLost = mTotalPacketLost (this c), ss_IceConnectionState = mIceConnectionState (this c)\<rparr>, True)"
  using NetworkSession_GetSessionState_run [OF assms, of out] by (simp add: reported_state_def)

theorem session_state_report_witness:
  "\<exists>st. snd (NetworkSession_GetSessionState (Some
       \<lparr>ConnectionActive = False, Connecting = True, HasSessionError = False, UsingRelay = True, CurrentRTT = 0,
        BytesSendBuffer = 0, TotalBytesSent = 0, TotalBytesSentPerSecond = 0, TotalBytesReceived = 0,
        TotalPacketsSent = 0, TotalPacketsLost = 0, ss_IceConnectionState = kIceConnectionNew\<rparr>) demo_ctx) =
     Returns (Some st, True) \<and> ConnectionActive st \<and> Connecting st \<and> CurrentRTT st = 30"
  unfolding session_state_report [OF demo_wired] by (simp add: demo_defs)

text \<open>
  The task that opens an outgoing connection, on a session without channels: both channels are
  created and given an observer, but neither is stored, and both channel states end up closed.
\<close>

theorem outgoing_forgets_channels:
  assumes "wired c" "mpPeerConnectionFactory c"
    and "pf_create_peer pf (flagged (pf_flags pf r) (mRtcConfig c)) = Some h"
    and "mReliableChannelInterface (this c) = None" "mUnreliableChannelInterface (this c) = None"
    and "pf_create_channel pf h ''&ReliableDataChannel'' (DataChannelInit_default\<lparr>dci_reliable := True\<rparr>) = Some ch1"
    and "pf_create_channel pf h ''*UnreliableDataChannel'' (DataChannelInit_default\<lparr>dci_reliable := False\<rparr>) = Some ch2" "pf_observer_off_end pf = Returns ()"
  shows "\<exists>c'. InitializeOutgoing_task pf True r c = (c', Returns ()) \<and>
     net_events c' = net_events c @ [EvRegisterObserver ch1, EvRegisterObserver ch2] \<and>
     mpPeerConnection (this c') = Some h \<and>
     mReliableChannelInterface (this c') = None \<and> mUnreliableChannelInterface (this c') = None \<and>
     mReliableChannelState (this c') = kClosed \<and> mUnreliableChannelState (this c') = kClosed"
  using InitializeOutgoing_task_ok [OF assms(1-7)] assms(4,5,8) by simp

theorem outgoing_forgets_channels_witness:
  "\<exists>c'. InitializeOutgoing_task demo_platform True 22
       (demo_ctx\<lparr>this := demo_session\<lparr>mReliableChannelInterface := None, mUnreliableChannelInterface := None\<rparr>\<rparr>) =
       (c', Returns ()) \<and>
     net_events c' = net_events (demo_ctx\<lparr>this := demo_session\<lparr>mReliableChannelInterface := None,
       mUnreliableChannelInterface := None\<rparr>\<rparr>) @ [EvRegisterObserver 1, EvRegisterObserver 2] \<and>
     mpPeerConnection (this c') = Some 5 \<and>
     mReliableChannelInterface (this c') = None \<and> mUnreliableChannelInterface (this c') = None \<and>
     mReliableChannelState (this c') = kClosed \<and> mUnreliableChannelState (this c') = kClosed"
  by (rule outgoing_forgets_channels) (simp_all add: demo_defs wired_def)

text \<open>
  When WebRTC cannot create the peer connection of an outgoing session, the application is told,
  and the task goes on to call the peer connection that does not exist.
\<close>

theorem outgoing_failure_uses_null:
  assumes "wired c" "mpPeerConnectionFactory c" "mpPeerConnection (this c) = None"
    and "pf_create_peer pf (flagged (pf_flags pf r) (mRtcConfig c)) = None"
  shows "\<exists>c'. InitializeOutgoing_task pf True r c = (c', Faults NullDeref) \<and>
     net_events c' = net_events c @
       [EvSessionClose (mRemoteID (this c)) ESessionErrorFailedToCreatePeerConnection]"
  using InitializeOutgoing_task_no_peer [OF assms] by (metis prod.collapse)

theorem outgoing_failure_uses_null_witness:
  "\<exists>c'. InitializeOutgoing_task (demo_platform\<lparr>pf_create_peer := (\<lambda>cfg. None)\<rparr>) True 22
       (demo_ctx\<lparr>this := demo_session\<lparr>mpPeerConnection := None\<rparr>\<rparr>) = (c', Faults NullDeref) \<and>
     net_events c' = net_events (demo_ctx\<lparr>this := demo_session\<lparr>mpPeerConnection := None\<rparr>\<rparr>) @
       [EvSessionClose (mRemoteID (this (demo_ctx\<lparr>this := demo_session\<lparr>mpPeerConnection := None\<rparr>\<rparr>)))
          ESessionErrorFailedToCreatePeerConnection]"
  by (rule outgoing_failure_uses_null) (simp_all add: demo_defs wired_def)

text \<open>
  Two peers running this code never get a reliable channel from each other: a channel announced
  under either of the labels that \<open>InitializeOutgoing\<close> uses does not become the reliable interface of
  the session that receives it.
\<close>

theorem own_labels_not_reliable:
  assumes "pf_channel_label pf ch \<in> {''&ReliableDataChannel'', ''*UnreliableDataChannel''}"
  shows "mReliableChannelInterface (this (fst (OnDataChannel pf ch c))) = mReliableChannelInterface (this c)"
  using preservesD [OF OnDataChannel_own_label [OF assms]] by simp

theorem own_labels_not_reliable_witness:
  "mReliableChannelInterface (this (fst (OnDataChannel demo_platform 4 demo_ctx))) =
     mReliableChannelInterface (this demo_ctx)"
  by (rule own_labels_not_reliable) (simp add: demo_platform_def)

text \<open>
  The connection flags select which local ICE candidates are signalled: a candidate is withheld
  exactly when the bit of its type is set (bit 2 host, 3 server reflexive, 4 peer reflexive, 5
  relay); any other candidate is wrapped in a signal and sent.
\<close>

theorem candidate_filter:
  "OnIceCandidate pf iface c =
     (if bit (mConnectionFlag (this c))
           (case pf_candidate_type pf iface of kHost \<Rightarrow> 2 | kSrflx \<Rightarrow> 3 | kPrflx \<Rightarrow> 4 | kRelayCandidate \<Rightarrow> 5)
      then (c, Returns ())
      else seq (lift (pf_candidate_off_end pf)) (\<lambda>created.
             case created of None \<Rightarrow> ret () | Some msg \<Rightarrow> NetworkSession_SendToSignalingChannel pf msg) c)"
  using candidate_filtered_iff [of "mConnectionFlag (this c)" "pf_candidate_type pf iface"]
  by (simp add: filter_bit_def OnIceCandidate_def run_seq)

text \<open>
  Deferred remote candidates: each is offered once, in order, to the peer connection; exactly the
  refused ones stay deferred, in order.  Without a peer connection the first one is a null
  dereference.
\<close>

theorem deferred_candidates:
  assumes "mNetworkSessionMgr (this c)"
  shows "ProcessIceCandidates pf c =
     (case mpPeerConnection (this c) of
        Some h \<Rightarrow> (c\<lparr>this := (this c)\<lparr>mDeferredIceCandidates :=
                     filter (\<lambda>i. \<not> pf_add_ice pf h i) (mDeferredIceCandidates (this c))\<rparr>\<rparr>, Returns ())
      | None \<Rightarrow> (c, if mDeferredIceCandidates (this c) = [] then Returns () else Faults NullDeref))"
  using assms by (rule ProcessIceCandidates_run)

theorem deferred_candidates_witness:
  "mDeferredIceCandidates (this (fst (ProcessIceCandidates demo_platform demo_ctx))) = [1, 3]"
proof -
  have "mNetworkSessionMgr (this demo_ctx)" by (simp add: demo_defs)
  from deferred_candidates [OF this] show ?thesis by (simp add: demo_defs)
qed

text \<open>
  Statistics are requested when at least two seconds have passed since the last request and none
  is in progress; the request is then marked in progress and timed.  While it is marked, and no
  method unmarks it, nothing more is requested.
\<close>

theorem stats_rate:
  assumes "wired c"
  shows "CheckUpdateStats c =
     (if 2000 * nanos_per_milli \<le> now c - mLastStatsUpdate (this c) \<and> \<not> mStatsRequestInProgress (this c)
      then (c\<lparr>this := (this c)\<lparr>mStatsRequestInProgress := True, mLastStatsUpdate := now c\<rparr>,
              signal_tasks := signal_tasks c @
                (if mThread (g_SignalThread c) = ThreadLive then [TaskUpdateStats (self c)] else [])\<rparr>, Returns ())
      else (c, Returns ()))"
  using assms by (rule CheckUpdateStats_run)

theorem stats_rate_witness:
  "signal_tasks (fst (CheckUpdateStats demo_ctx)) = [TaskUpdateStats 7] \<and>
   mStatsRequestInProgress (this (fst (CheckUpdateStats demo_ctx)))"
  unfolding stats_rate [OF demo_wired] by (simp add: demo_defs unit_defs)

text \<open>
  Status messages from the signalling service: an unparsable text and the codes 0, 1, 3 and 4 are
  each turned into their own session error for the remote id, and nothing else happens.
\<close>

theorem signaling_status_codes:
  assumes "js_envelope js msg = None \<and> e = ESessionErrorSignalingParsingFailure \<or>
     (\<exists>code text. js_envelope js msg = Some (Returns code, text) \<and>
        (code, e) \<in> {(0, ESessionErrorSignalingUnknownError), (1, ESessionErrorDestinationNotLoggedIn),
                     (3, ESessionErrorSignalingTurnAuthFailed),
                     (4, ESessionErrorSignalingFallbackToBestEffortDelivery)})"
  shows "ReceiveFromWebSocketSignalingChannel js parse remoteId msg True = ProcessSessionError remoteId e"
  using assms
  by (auto simp: ReceiveFromWebSocketSignalingChannel_def ReceiveFromSignalingChannel_def
      envelope_result_value fun_eq_iff run_seq)

theorem signaling_status_codes_witness:
  "ReceiveFromWebSocketSignalingChannel
     \<lparr>js_envelope = (\<lambda>m. Some (Returns 3, Returns [])), js_turn = (\<lambda>m. None)\<rparr> (\<lambda>t. Returns None) 22 ''{}'' True =
   ProcessSessionError 22 ESessionErrorSignalingTurnAuthFailed"
  by (rule signaling_status_codes) simp

text \<open>
  A TURN configuration, however many servers it lists, leaves the transport without any ICE server:
  the list is copied only if the target that was just cleared is not empty.
\<close>

theorem turn_config_clears_servers:
  assumes "js_turn js config = Some j"
  shows "\<exists>s'. run_iface_task pf js True (TaskTurnConfig config) s = (s', Returns ()) \<and>
     servers (mRtcConfig s') = []"
  using ProcessTurnConfig_task_run [OF assms] by (simp add: run_iface_task_def)

theorem turn_config_clears_servers_witness:
  "\<exists>s'. run_iface_task demo_platform
       \<lparr>js_envelope = (\<lambda>m. None), js_turn = (\<lambda>m. Some \<lparr>tj_servers = Some [(''u'', ''p'', [''turn:a'', ''stun:b''])],
          tj_username = ''u'', tj_password = ''p''\<rparr>)\<rparr> True (TaskTurnConfig ''{}'') demo_iface = (s', Returns ()) \<and>
     servers (mRtcConfig s') = []"
  by (rule turn_config_clears_servers) simp

text \<open>
  A server configuration becomes one ICE server per configured STUN or relay server, in order and
  with its URI, but with the credentials of the relay token; more servers than the array holds is an
  access out of bounds.
\<close>

theorem server_configuration:
  "case stun_servers (StunRelayServers config) (unat (StunRelayServerCount config)) of
     Returns l \<Rightarrow>
       \<exists>out. InitializeConfiguration config cfg s = (s, Returns out) \<and>
         map (\<lambda>x. Some (is_uri x)) (servers out) =
           map Uri (take (unat (StunRelayServerCount config)) (StunRelayServers config)) \<and>
         length (servers out) = unat (StunRelayServerCount config) \<and>
         (\<forall>x. x \<in> set (servers out) \<longrightarrow> is_username x = mUsernameCert s \<and> is_password x = mPasswordCert s) \<and>
         tcp_candidate_policy out = kTcpCandidatePolicyDisabled
   | Faults e \<Rightarrow> InitializeConfiguration config cfg s = (s, Faults e)"
proof (cases "stun_servers (StunRelayServers config) (unat (StunRelayServerCount config))")
  case (Returns l)
  obtain out where out: "InitializeConfiguration config cfg s = (s, Returns out)"
      "tcp_candidate_policy out = kTcpCandidatePolicyDisabled" "map is_uri (servers out) = map is_uri l"
      "\<forall>x\<in>set (servers out). is_username x = mUsernameCert s \<and> is_password x = mPasswordCert s"
    using InitializeConfiguration_run [OF Returns, of cfg s] by metis
  have "map (\<lambda>x. Some (is_uri x)) (servers out) = map Some (map is_uri (servers out))" by simp
  also have "\<dots> = map (\<lambda>x. Some (is_uri x)) l" by (simp add: out(3))
  also have "\<dots> = map Uri (take (unat (StunRelayServerCount config)) (StunRelayServers config))"
    by (rule stun_servers_uris [OF Returns])
  finally have uris: "map (\<lambda>x. Some (is_uri x)) (servers out) = \<dots>" .
  have "length (servers out) = length l"
    using out(3) by (metis length_map)
  then show ?thesis
    using Returns out uris stun_servers_length [OF Returns] by auto
next
  case (Faults e)
  then show ?thesis by (simp add: InitializeConfiguration_def run_seq Let_def)
qed

theorem server_configuration_witness:
  "\<exists>out. InitializeConfiguration
       \<lparr>StunRelayServers = [\<lparr>Uri = Some ''stun:a'', Username = Some ''x'', Password = Some ''y''\<rparr>],
        StunRelayServerCount = 1, KnownMappedAddressCount = 0\<rparr> RTCConfiguration_default demo_iface =
       (demo_iface, Returns out) \<and> length (servers out) = 1"
  using server_configuration [of "\<lparr>StunRelayServers =
      [\<lparr>Uri = Some ''stun:a'', Username = Some ''x'', Password = Some ''y''\<rparr>],
        StunRelayServerCount = 1, KnownMappedAddressCount = 0\<rparr>" RTCConfiguration_default demo_iface]
  by (auto simp: numeral_eq_Suc from_c_str_def)

text \<open>A signalling message of more than 1140 bytes to a known peer overruns the packet's array.\<close>

theorem long_signal_overruns:
  assumes "mPeers m = Some t" "peers_ok t" "peer_address t dst = Some addr"
    and "length junk = 1140" "1140 < length msg" "length msg < 2 ^ 32"
  shows "SendSignalingMessageTo off_end junk clock True src dst msg on_complete m = (m, Faults OutOfBounds)"
  using assms by (rule SendSignalingMessageTo_overflow)

theorem long_signal_overruns_witness:
  "SendSignalingMessageTo (Faults MissingReturn) (replicate 1140 0) (\<lambda>n. 0) True 33 22 (replicate 1141 65) True demo_lan =
     (demo_lan, Faults OutOfBounds)"
  by (rule long_signal_overruns [OF _ demo_peers_ok]) (simp_all add: demo_lan_def)

text \<open>
  After network discovery the broadcast domain is that of the last network alone.  For
  interface addresses without IPv6 flags it is the sorted set of the addresses contributed: each
  non-loopback, non-link-local IPv4 address itself (not a broadcast address), and the all-hosts
  address for every IPv6 address if the socket is bound to IPv6.
\<close>

theorem discovery_result:
  assumes "mBasicNetworkMgr m" "OnNetworkDiscoveryComplete g (ns @ [n]) m = (m', Returns ())"
    and "\<forall>p\<in>set n. snd p = 0"
  shows "sorted_wrt (<) (mDiscoveredAddresses m') \<and>
     set (mDiscoveredAddresses m') = {a. \<exists>p\<in>set n. domain_target g (mBindAddress m) (fst p) = Some a}"
proof -
  obtain d where d: "discover_network g (mBindAddress m) n [] = Returns d" "sorted_wrt (<) d"
      "set d = set [] \<union> {a. \<exists>p\<in>set n. domain_target g (mBindAddress m) (fst p) = Some a}"
    by (rule discover_network_no_flags [OF assms(3), of "[]"]) simp_all
  moreover have "mDiscoveredAddresses m' = d"
    using discovery_keeps_last [OF assms(1,2)] d(1) by simp
  ultimately show ?thesis by simp
qed

theorem discovery_result_witness:
  "set (mDiscoveredAddresses (fst (OnNetworkDiscoveryComplete lan_static_init
      ([[(AF_INET 1, 0)]] @ [[(AF_INET 0xC0A80105, 0)]]) demo_lan))) =
   {a. \<exists>p\<in>set [(AF_INET 0xC0A80105, 0 :: int)]. domain_target lan_static_init (mBindAddress demo_lan) (fst p) = Some a}"
proof -
  have run: "OnNetworkDiscoveryComplete lan_static_init ([[(AF_INET 1, 0)]] @ [[(AF_INET 0xC0A80105, 0)]]) demo_lan =
      (demo_lan\<lparr>mDiscoveredAddresses := [AF_INET 0xC0A80105]\<rparr>, Returns ())"
    by (simp add: OnNetworkDiscoveryComplete_def run_seq demo_lan_def discover_ip_no_flags domain_target_def
        ip_class_defs)
  have "mBasicNetworkMgr demo_lan" by (simp add: demo_lan_def)
  from discovery_result [OF this run] show ?thesis unfolding run fst_conv by simp
qed

text \<open>
  Creating the dual-stack socket, when the socket, its options and the binding succeed: the calls
  are made in this order and the socket is returned.  The group it joins is the unspecified address
  \<open>::\<close>, the value \<open>IPv6AllHostsLinkLocal\<close> got at start-up, and not the FF02::1 that is stored just before.
\<close>

theorem dual_stack_socket:
  assumes "create_socket e = Some h" "options_ok e"
    and "bind_result e (SocketAddress_new IPv6Any (uint port)) = 0"
    and "IPv6AllHostsLinkLocal s = IPv6AllHostsLinkLocal lan_static_init" "multi_cast_link_local s = 0"
  shows "\<exists>s'. TryCreateDualStackIPv6Socket e port s = (s', Returns (ErrorOr_value h)) \<and>
     sock_calls s' = sock_calls s @
       [SockCreate, SockOption (OPT_IPV6_V6ONLY 0), SockOption (OPT_SO_BROADCAST 1),
        SockOption (OPT_RCVBUF 0x8000), SockBind (SocketAddress_new IPv6Any (uint port)),
        SockOption (OPT_IPV6_JOIN_GROUP IPv6Any), SockOption (OPT_IPV6_MULTICAST_LOOP 0)] \<and>
     multi_cast_link_local s' = push_bit 112 0xFF02 OR 1"
  using TryCreateDualStackIPv6Socket_ok [OF assms(1-3), of s] assms(4,5)
  by (simp add: bind_calls_def IPv6AllHostsLinkLocal_static link_local_bytes [unfolded One_nat_def]
      del: push_bit_numeral)

theorem dual_stack_socket_witness:
  "\<exists>s'. TryCreateDualStackIPv6Socket
       \<lparr>create_socket = Some 3, last_error = 0, set_option = (\<lambda>opt. 0), bind_result = (\<lambda>a. 0), get_error = 0\<rparr> 7551
       \<lparr>multi_cast_link_local = 0, IPv6AllHostsLinkLocal = IPv6Any, sock_calls = []\<rparr> = (s', Returns (ErrorOr_value 3)) \<and>
     SockOption (OPT_IPV6_JOIN_GROUP IPv6Any) \<in> set (sock_calls s')"
  using dual_stack_socket [of "\<lparr>create_socket = Some 3, last_error = 0, set_option = (\<lambda>opt. 0),
      bind_result = (\<lambda>a. 0), get_error = 0\<rparr>" 3 7551
      "\<lparr>multi_cast_link_local = 0, IPv6AllHostsLinkLocal = IPv6Any, sock_calls = []\<rparr>"]
  by (auto simp: options_ok_def IPv6AllHostsLinkLocal_static)

text \<open>
  \<open>TryCreateEncryptedBroadcastSocket\<close> has no path that returns an adapter: any adapter it gives is
  what the end of the function without a \<open>return\<close> happened to leave (\<open>off_end\<close>), so under the reading of the
  C++ standard there is none.
\<close>

theorem encrypted_socket_no_value:
  assumes "TryCreateEncryptedBroadcastSocket ssl off_end e key port s = (s', Returns (ErrorOr_value ad))"
  shows "off_end = Returns (ErrorOr_value ad)"
  using assms by (rule TryCreateEncryptedBroadcastSocket_no_value)

theorem encrypted_socket_no_value_witness:
  "\<exists>s' off_end. TryCreateEncryptedBroadcastSocket demo_ssl off_end
     \<lparr>create_socket = Some 3, last_error = 0, set_option = (\<lambda>opt. 0), bind_result = (\<lambda>a. 0), get_error = 0\<rparr>
     0xDEADBEEF 7551 \<lparr>multi_cast_link_local = 0, IPv6AllHostsLinkLocal = IPv6Any, sock_calls = []\<rparr> =
     (s', Returns (ErrorOr_value AesAdapter_new)) \<and>
   off_end = Returns (ErrorOr_value AesAdapter_new)"
proof -
  let ?e = "\<lparr>create_socket = Some 3, last_error = 0, set_option = (\<lambda>opt. 0), bind_result = (\<lambda>a. 0), get_error = 0\<rparr>"
  let ?s = "\<lparr>multi_cast_link_local = 0, IPv6AllHostsLinkLocal = IPv6Any, sock_calls = []\<rparr>"
  obtain s1 where "TryCreateDualStackIPv6Socket ?e 7551 ?s = (s1, Returns (ErrorOr_value 3))"
    using TryCreateDualStackIPv6Socket_ok [of ?e 3 7551 ?s] by (auto simp: options_ok_def)
  then have run: "TryCreateEncryptedBroadcastSocket demo_ssl (Returns (ErrorOr_value AesAdapter_new)) ?e 0xDEADBEEF 7551 ?s =
      (s1, Returns (ErrorOr_value AesAdapter_new))"
    by (simp add: TryCreateEncryptedBroadcastSocket_def TryCreateBroadcastSocket_def run_seq AesAdapter_Create_def
        AesAdapter_new_def SetKey_def CreateEnvelope_def CreateKey_def demo_ssl_def AesContext_new_def
        memcpy_at_def err_def Let_def)
  show ?thesis
    by (intro exI conjI, rule run, rule encrypted_socket_no_value [OF run])
qed

text \<open>
  The sweep \<open>RemoveExpiredRecords\<close> removes nothing: if it returns, the table is unchanged; it
  returns exactly when no record is 61 seconds old, and otherwise its loop goes on through an iterator
  to an erased element.
\<close>

theorem sweep_removes_nothing:
  assumes "\<not> held ts"
  shows "RemoveExpiredRecords clock n ts =
     (if \<forall>i < length (ts_data ts).
           clock (n + i) - mLastActiveTime (snd (ts_data ts ! i)) < 61 * nanos_per_second
      then Returns ts else Faults IteratorInvalidated)"
  unfolding RemoveExpiredRecords_value [OF assms] fresh_at_def by (rule refl)

theorem sweep_removes_nothing_witness:
  "RemoveExpiredRecords (\<lambda>n. 61 * nanos_per_second) 0
     \<lparr>ts_data = mPeerRecordTable demo_peers, held = False\<rparr> = Faults IteratorInvalidated"
  using sweep_removes_nothing [of "\<lparr>ts_data = mPeerRecordTable demo_peers, held = False\<rparr>"
      "\<lambda>n. 61 * nanos_per_second" 0]
  by (simp add: demo_peers_def)

text \<open>
  The pointer to the network thread can never be used: in every state of the manager it is null
  or dangling, and right after \<open>Initialize\<close> both \<open>IsOnThread\<close> and \<open>Shutdown\<close> use a destroyed thread.
\<close>

theorem rtc_thread_dangles:
  assumes "rtc_reach m"
  shows "mThread m \<in> {ThreadNull, ThreadDangling} \<and>
     IsOnThread c (RtcThread_Initialize m) = Faults DanglingPointer \<and>
     RtcThread_Shutdown (RtcThread_Initialize m) = Faults DanglingPointer"
  using rtc_reach_not_live [OF assms] by (cases "mThread m") (simp_all add: after_RtcThread_Initialize)

theorem rtc_thread_dangles_witness:
  "rtc_reach (RtcThread_Initialize g_thread_init) \<and>
   IsOnThread True (RtcThread_Initialize (RtcThread_Initialize g_thread_init)) = Faults DanglingPointer"
  using rtc_thread_dangles [OF rtc_init [OF rtc_start], of True] rtc_init [OF rtc_start] by blast

text \<open>
  \<open>WebSocket::Disconnect\<close> on a connected socket leaves the object disconnected without a call of
  libHttpClient that names the open handle: the handle is neither disconnected nor closed.
\<close>

theorem disconnect_leaks_handle:
  assumes "\<not> mOperationGuard w" "mWebSocketHandle w = Some h"
  shows "\<exists>w' cs. Disconnect api w = (w', Returns ()) \<and> \<not> IsConnected w' \<and>
     hc_calls w' = hc_calls w @ cs \<and> (\<forall>c \<in> set cs. \<not> mentions h c)"
  using Disconnect_leaks [OF assms, of api] by (metis IsConnected_def)

theorem disconnect_leaks_handle_witness:
  "\<exists>w' cs. Disconnect
       \<lparr>hc_duplicate = (\<lambda>h. h), hc_send = (\<lambda>h m. 0), hc_close = (\<lambda>h. 0), hc_get_functions = (\<lambda>h. 0),
        hc_set_header = (\<lambda>h n v. 0)\<rparr>
       \<lparr>mOperationGuard = False, mWebSocketHandle = Some 4, hc_calls = []\<rparr> = (w', Returns ()) \<and>
     \<not> IsConnected w' \<and> hc_calls w' = cs \<and> HcClose (Some 4) \<notin> set cs"
proof -
  let ?api = "\<lparr>hc_duplicate = (\<lambda>h. h), hc_send = (\<lambda>h m. 0), hc_close = (\<lambda>h. 0),
        hc_get_functions = (\<lambda>h. 0), hc_set_header = (\<lambda>h n v. 0)\<rparr>"
  have "mentions 4 (HcClose (Some 4))" by (simp add: mentions_def)
  then show ?thesis
    using disconnect_leaks_handle [of "\<lparr>mOperationGuard = False, mWebSocketHandle = Some 4, hc_calls = []\<rparr>" 4 ?api]
    by fastforce
qed

text \<open>
  Allocating a stream id: the loop ends with the smallest unused id of the role's parity (even for
  the client, odd for the server), at most 1023, and marks it used; it gives none only if every id of
  that parity is used.
\<close>

theorem allocated_id_bounds:
  "case AllocateSid role used of
     (Some sid, used') \<Rightarrow>
       sid \<le> 1023 \<and> (even sid \<longleftrightarrow> role = SSL_CLIENT) \<and> sid \<notin> used \<and> used' = insert sid used \<and>
       (\<forall>q. q < sid \<and> even q = even sid \<longrightarrow> q \<in> used)
   | (None, used') \<Rightarrow> used' = used \<and> (\<forall>q. q \<le> 1023 \<and> even q = (role = SSL_CLIENT) \<longrightarrow> q \<in> used)"
proof -
  have max: "kMaxSctpSid = 1023" by (simp add: kMaxSctpSid_def kMaxSctpStreams_def)
  obtain a used' where a: "AllocateSid role used = (a, used')" by fastforce
  show ?thesis
  proof (cases a)
    case None
    then show ?thesis using AllocateSid_None [of role used used'] a max by auto
  next
    case (Some sid)
    then show ?thesis using AllocateSid_Some [of role used sid used'] a max by auto
  qed
qed

theorem allocated_id_bounds_witness:
  "\<exists>used'. AllocateSid SSL_SERVER {1, 3} = (Some 5, used') \<and> used' = insert 5 {1, 3}"
proof -
  have "AllocateSid SSL_SERVER {1, 3} = (Some 5, insert 5 {1, 3})"
    by (simp add: AllocateSid_def allocate_from.simps kMaxSctpSid_def kMaxSctpStreams_def) (simp add: numeral_eq_Suc)
  with allocated_id_bounds [of "{1, 3}" SSL_SERVER] show ?thesis by simp
qed

text \<open>
  The length passed to OpenSSL is narrowed to an \<open>int\<close>: of a plaintext of 2^32 + n bytes (n below 2^31)
  only the first n are encrypted and come back, although the authentication code covers all of it and
  \<open>Seal\<close> answers with a value.
\<close>

theorem long_plaintext_cut:
  assumes "ossl_ok ssl" "ossl_inverse ssl" "length plaintext = 2 ^ 32 + n" "n < 2 ^ 31"
    and "seals ssl (mKeyData ctx) plaintext mac c d" "EVP_DecryptInit_ex ssl (mKeyData ctx)"
    and "HMAC ssl (mKeyData ctx) (take n plaintext) = Some mac'"
  shows "\<exists>sender receiver.
     Seal ssl plaintext ctx = Returns (ErrorOr_value (mac @ c @ d), sender) \<and>
     Open ssl (mac @ c @ d) ctx = Returns (ErrorOr_value (take n plaintext), receiver)"
proof -
  have n: "int_len (length plaintext) = int n" using assms(4) unfolding assms(3) by (rule int_len_wraps)
  then have "input_read plaintext = take n plaintext" by (simp add: input_read_def)
  then show ?thesis
    using Open_Seal_read [OF assms(1,2,5) _ assms(6) _ refl refl] n assms(7) by simp
qed

theorem long_plaintext_cut_witness:
  "\<exists>sender receiver.
     Seal demo_ssl (replicate (2 ^ 32 + 2) 4) demo_context = Returns (ErrorOr_value ([7, 7] @ [4, 4] @ [0]), sender) \<and>
     Open demo_ssl ([7, 7] @ [4, 4] @ [0]) demo_context = Returns (ErrorOr_value (take 2 (replicate (2 ^ 32 + 2) 4)), receiver)"
proof -
  have n: "int_len (2 ^ 32 + 2) = 2" using int_len_wraps [of 2] by simp
  have "input_read (replicate (2 ^ 32 + 2) 4) = replicate 2 4"
    unfolding input_read_def length_replicate take_replicate n by simp
  also have "\<dots> = [4, 4]" by (simp add: numeral_2_eq_2)
  finally have "input_read (replicate (2 ^ 32 + 2) 4) = [4, 4]" .
  then have "seals demo_ssl (mKeyData demo_context) (replicate (2 ^ 32 + 2) 4) [7, 7] [4, 4] [0]"
    by (simp add: seals_def demo_ssl_def)
  then show ?thesis
    by (intro long_plaintext_cut [OF demo_ssl_ok]) (simp_all add: demo_ssl_def)
qed

text \<open>
  Unregistering an observer loses the messages that were posted for it and not yet run: after
  \<open>UnregisterObserver\<close>, however many of the posted tasks run, nobody is given anything more.
\<close>

theorem unregister_drops_posted:
  "given (signaling_tasks n (fst (UnregisterObserver c))) = given c"
  by (rule unregister_loses_pending)

text \<open>
  A report about several streams stops at the first one that the transport does not know: the streams
  listed behind it are not marked, not reset back and not closed.
\<close>

theorem report_stops_at_unknown:
  assumes "flat_ok (stream_states s)" "dt_socket s \<noteq> None" "stream_of x s = None"
  shows "OnIncomingStreamsReset (x # sids) s = (s, Returns ()) \<and> OnStreamsResetPerformed (x # sids) s = (s, Returns ())"
  using listed_behind_unknown [OF assms] by simp

theorem report_stops_at_unknown_witness:
  "stream_of 0 demo_wire \<noteq> None \<and> OnIncomingStreamsReset [7, 0] demo_wire = (demo_wire, Returns ())"
proof -
  have "stream_of 7 demo_wire = None" by (simp add: demo_wire_def omap_get_def)
  with report_stops_at_unknown [of demo_wire 7 "[0]"] demo_wire_open show ?thesis by simp
qed

text \<open>
  Inserting a range into a \<open>flat_map\<close>, which appends the new pairs, sorts them and merges them in from
  the first position that changes, leaves the values of present keys alone and takes the first pair of each
  new one.  This is not what \<open>flat_tree.h\<close> says: the comment on \<open>insert(first, last)\<close> has the values of present
  keys overwritten by the range.
\<close>

theorem range_insertion_keeps_values:
  assumes "flat_ok body"
  shows "flat_ok (flat_insert_range multipass items body) \<and>
     map_of (flat_insert_range multipass items body) k =
       (case map_of body k of None \<Rightarrow> map_of items k | Some w \<Rightarrow> Some w)"
  using flat_insert_range_refines [OF assms, of multipass items, unfolded omap_get_def] by simp

theorem range_insertion_keeps_values_witness:
  "map_of (flat_insert_range True [(5, ''x''), (3, ''d''), (3, ''e'')] [(1, ''a''), (5::nat, ''b'')]) 5 = Some ''b''"
proof -
  have "flat_ok [(1::nat, ''a''), (5, ''b'')]" by (simp add: omap_ok_def)
  from range_insertion_keeps_values [OF this, of True "[(5, ''x''), (3, ''d''), (3, ''e'')]" 5] show ?thesis by simp
qed

end
