(* ===== verification/Spec2Isabelle.thy ===== *)
theory Spec2Isabelle
  imports Demo Further_Facts
begin

text \<open>
  \<^bold>\<open>NetherNet.\<close>  The program under \<open>src/NetherNet/NetherNet\<close> is a peer-to-peer transport: peers find each
  other by UDP broadcast on the local network, exchange signalling messages there or through a web
  socket service, and then open WebRTC peer connections with a reliable and an unreliable data
  channel.  This development models its C++ code, and of the WebRTC sources it carries the path that its
  packets take: the buffers, the messages that open a data channel, the channels, their controller and
  the transport under it.
  It proves what the operations do, including the places where they do not do what a comment or a name
  says.

  \<^bold>\<open>Parts, theories and sources.\<close>  Every mapped definition has the name of the function or type it models,
  with a prefix where two classes use one name.
  \<^item> \<open>Prelude\<close>, \<open>Effects\<close>: words, byte encodings, clocks; the type \<open>outcome\<close> of a computation that
    returns or faults, and \<open>('s, 'a) act\<close>, a function from a state to the state afterwards and an
    outcome, with rules for what an act keeps.  The locales \<open>step_invariant\<close> and \<open>step_constant\<close> say what
    every history of a component keeps; they are interpreted on the step relations below.
  \<^item> \<open>Containers\<close>, \<open>Flat_Map\<close>: \<open>std::map\<close> and \<open>std::set\<close> as ordered lists; \<open>webrtc::flat_map\<close>
    (\<open>rtc_base/containers/flat_tree.h\<close>, \<open>flat_map.h\<close>).  Both are interpretations of the locale \<open>dict\<close>.
  \<^item> \<open>Enums\<close>, \<open>Utils\<close>: the enumerations with their values; \<open>ErrorOr\<close>, \<open>NonOwnerPointer\<close>, \<open>ThreadSafe\<close>
    (\<open>utils/*.hpp\<close>).
  \<^item> \<open>Run_Loop\<close>: \<open>Condition\<close> and \<open>Controller\<close> (\<open>Controller.cpp\<close>), with the relation \<open>loop_step\<close> that interleaves a
    worker, which calls \<open>KeepGoing\<close> and wakes up in \<open>StateSuspended\<close>, with requests.
  \<^item> \<open>Packets\<close>: the discovery packets and their memory images (\<open>network/packets/*.hpp\<close>).
  \<^item> \<open>Net_Address\<close>: \<open>rtc::IPAddress\<close> and \<open>rtc::SocketAddress\<close> (\<open>rtc_base/ip_address.cc\<close>, \<open>socket_address.cc\<close>).
    \<open>Number_Text\<close>, \<open>Inet_Text\<close>, \<open>Inet_Roundtrip\<close>, \<open>Addr_Text\<close>: numbers as C prints and scans them, \<open>inet_ntop\<close> and
    \<open>inet_pton\<close> (\<open>rtc_base/win32.cc\<close>) on a character buffer with a cursor, their inverse relation, and the textual
    forms of both classes.
  \<^item> \<open>Envelope\<close>: the key, \<open>Seal\<close> and \<open>Open\<close>, and the encrypting socket adapter (\<open>encryption/*.cpp\<close>,
    \<open>HNetherNet.cpp\<close>).  OpenSSL is the record \<open>openssl\<close> of its answers; the lengths handed to its ciphers
    are narrowed from \<open>size_t\<close> to \<open>int\<close> (\<open>int_len\<close>).
  \<^item> \<open>Dns_Cache\<close>: \<open>DnsCache\<close> (\<open>network/AsyncResolverFactory.cpp\<close>), an interpretation of the locale
    \<open>expiring_cache\<close>.
  \<^item> \<open>Peer_Table\<close>: \<open>PeerRecordTable\<close>, an interpretation of the locale \<open>peer_directory\<close>, which states what the
    LAN thread relies on.
  \<^item> \<open>Rtc_Thread\<close>, \<open>Lan_Thread\<close>: \<open>RtcThreadManager\<close> and \<open>LanThreadManager\<close> (\<open>threadding/*.cpp\<close>), with \<open>lan_step\<close> for
    every call, packet and task.
  \<^item> \<open>Net_Env\<close>, \<open>Session\<close>, \<open>Session_Manager\<close>, \<open>Network_Interface\<close>: the state that sessions share, then
    \<open>NetworkSession\<close>, \<open>NetworkSessionManager\<close> and \<open>SimpleNetworkInterfaceImpl\<close>.  Their states are records that
    extend one another (\<open>net_env\<close>, \<open>session_ctx\<close> and \<open>mgr_state\<close>, \<open>iface_state\<close>), as the objects point to one
    another: \<open>on_session\<close> runs a method of a session inside its manager, \<open>on_lan\<close> one of the LAN thread.
    \<open>session_step early init\<close> and \<open>mgr_step\<close> are the histories of a session and of a manager; \<open>early\<close> says whether a
    posted task may run while the method that posted it has not returned, \<open>init\<close> whether the session may be
    initialised again.
  \<^item> \<open>Byte_Order\<close>, \<open>Buffers\<close>, \<open>Cow_Buffer\<close>, \<open>Byte_Buffer\<close>: \<open>rtc_base/byte_order.h\<close>; \<open>BufferT<uint8_t>\<close>
    (\<open>buffer.h\<close>), an interpretation of the locale \<open>byte_sink\<close>; \<open>CopyOnWriteBuffer\<close> on a memory of buffers and
    reference-counted blocks, with the commands \<open>cow_exec\<close> and the machine \<open>value_step\<close> of independent byte
    lists; \<open>ByteBufferWriter\<close> and \<open>ByteBufferReader\<close>, whose pairs of operations are interpretations of the
    locale \<open>codec\<close>.
  \<^item> \<open>Sctp_Utils\<close>, \<open>Channel_Base\<close>: the OPEN and OPEN_ACK messages (\<open>pc/sctp_utils.cc\<close>); errors,
    configurations, \<open>PacketQueue\<close> and \<open>SctpSidAllocator\<close>.
  \<^item> \<open>Data_Channel\<close>: \<open>SctpDataChannel\<close> with its observer adapter (\<open>pc/sctp_data_channel.cc\<close>); \<open>dc_step\<close> is any
    call or task on it.  The locale \<open>channel_contract\<close> derives from the effect of the few primitive updates
    what every handler does to a channel; it is interpreted for the order of the states, for the receive
    queue and for the announcements to the controller.  \<open>Channel_Ledger\<close> (locales \<open>channel_measure\<close>
    with its extensions and \<open>callback_contract\<close>) accounts for messages and buffered bytes over a history and tells
    apart what the channel announced, what its adapter has posted and what an observer was given; \<open>Channel_Life\<close>
    is about sending and closing.
  \<^item> \<open>Channel_Controller\<close>, \<open>Controller_Invariant\<close>, \<open>Handshake\<close>: \<open>DataChannelController\<close>
    (\<open>pc/data_channel_controller.cc\<close>), its channels in a heap and its list of them; the invariant \<open>ctl_ok\<close>
    over the histories \<open>dcc_step\<close>; the opening handshake between two peers.  \<open>Peer_Link\<close>:
    \<open>PeerConnection::CreateDataChannelOrError\<close> (\<open>pc/peer_connection.cc\<close>) and the way from a session's channels
    to the session of its peer.
  \<^item> \<open>Dcsctp_Transport\<close>: \<open>DcSctpTransport\<close> (\<open>media/sctp/dcsctp_transport.cc\<close>), whose streams are a flat map, over
    the answers of its SCTP socket and DTLS transport; \<open>Stream_Reset\<close>: two transports and the notices about
    resets in flight between them, \<open>link_step\<close>, where the sockets report them in lists of any length and order, report
    failures, and may never report some; \<open>Sctp_Facade\<close>: \<open>SctpTransport\<close> (\<open>pc/sctp_transport.cc\<close>), with \<open>serve\<close> and \<open>sink\<close>,
    which connect it to the controller.
  \<^item> \<open>Demo\<close>: concrete inputs.  \<open>Further_Facts\<close>: facts about single operations beside the properties below.
  \<^item> \<open>Web_Socket\<close>: \<open>WebSocket\<close> over the answers of libHttpClient, and the small observers.

  \<^bold>\<open>How C++ is rendered.\<close>
  \<^item> Undefined behaviour, uncaught exceptions and self-deadlock are \<open>Faults\<close> with a reason; everything
    the source raises or returns early is a branch.  An access is checked where the source does not
    check it.
  \<^item> A function that flows off its end takes what then happens as an argument (\<open>off_end\<close>, \<open>storage\<close>, the
    \<open>pf_\<close> fields): \<open>Faults MissingReturn\<close> is the reading of the standard, \<open>Returns r\<close> that of a compiler
    which leaves \<open>r\<close> in the register.  The properties about such a function hold for every outcome and say
    what each leads to.
  \<^item> A lambda given to \<open>PostTask\<close> is a value of \<open>lan_task\<close> or \<open>net_task\<close> with what it captures; running it is a
    step of its own, and \<open>frame_alive\<close> says whether the locals it captured by reference still exist.
  \<^item> Callbacks and calls of WebRTC are events appended to the state (\<open>net_events\<close>, \<open>lan_wire\<close>, \<open>sock_calls\<close>,
    \<open>hc_calls\<close>) in the order they are made.  A callback is taken not to call back into the
    transport, nor an observer into its data channel, as its interface demands.
  \<^item> What a data channel does to its controller is logged by the channel; the controller acts on the log
    when the handler has returned (\<open>call_channel\<close>), in order.  No handler reads, after such a call, what the
    controller changes by it.  \<open>RTC_DCHECK\<close> is off, as in a release build.
  \<^item> An operation of a session reads the clock once, as the field \<open>now\<close>; the peer table, whose sweep reads
    it once per record, is given the sequence of readings.
  \<^item> A mutex is the flag whether it is held by the calling thread; methods are atomic, and tasks and
    calls interleave at their boundaries.
  \<^item> Log output is left out; arguments that are only logged are not modelled, except that a null
    pointer dereferenced for the sake of a log line faults (\<open>through_manager\<close>).

  \<^bold>\<open>What is shown.\<close>  C1-C4: the envelope round trip (for plaintexts that an
  \<open>int\<close> can count), its memory safety, that the adapter's factory destroys its socket, and that the
  authentication code is not compared.  C5-C12: when a session dies, that what it is given to send never
  leaves it, what it accepts and negotiates, and what its manager does with it.  C13-C24: the opening
  handshake across both peers, stream ids, order of messages down to the observer, closing of a channel and of
  its stream on both sides, the way of a message through both transports with every answer of the socket, how
  \<open>Send\<close> departs from its documentation, the bound of the receive queue, the order of states, the buffered
  amount modulo 2^64, and an iterator that is invalidated.  C25-C29: the OPEN message and its parser, value semantics and
  consistency of buffers, variable-length integers.  C30-C34: discovery and signalling on the local network.
  C35-C40: the peer table, the DNS cache, the flat map, the address functions and the textual forms of
  addresses, the run loop.  \<open>Further_Facts\<close> holds what falls outside them, among it where a comment of the
  source is wrong (\<open>range_insertion_keeps_values\<close>), what becomes of a plaintext that is too long
  (\<open>long_plaintext_cut\<close>) and of messages posted to an observer that is unregistered
  (\<open>unregister_drops_posted\<close>).  The theorems about sessions and the manager take a live
  signalling thread as a hypothesis where a task is posted; \<open>rtc_thread_dangles\<close> (\<open>Further_Facts\<close>) shows
  that \<open>RtcThreadManager::Initialize\<close> does not provide one, so a program must set the pointer otherwise.

  \<^bold>\<open>Loops.\<close>  A loop is a structural recursion over the container it traverses or has a termination proof.
  Two take a number of rounds: \<open>deliver_loop\<close>, which is called with the length of the queue it empties, one
  message per round, and \<open>allocate_loop\<close>, called with the length of the list it walks; each ends before its
  rounds do.  The hypotheses about OpenSSL (\<open>ossl_ok\<close>: the documented sizes of digests and ciphertexts, within what an \<open>int\<close> counts;
  \<open>ossl_inverse\<close>: decryption undoes encryption) are shown satisfiable by \<open>demo_ssl\<close>, those about a transport
  that accepts or refuses to send by \<open>demo_accepting\<close> and \<open>demo_broken_transport\<close>.

  \<^bold>\<open>Not modelled.\<close>  \<open>NetherNetConnector\<close>, \<open>NetherNetServerLocator\<close>, \<open>MyDataChannelObserver\<close> and \<open>parse_config\<close>
  have empty bodies.  Functions that are only declared (\<open>NetworkSessionManager::ProcessSignal\<close>,
  \<open>ReadPacket\<close>, \<open>PeriodicDeadSessionCleaup\<close>, the parsers and printers of signalling messages) are events or
  arguments.  OpenSSL, jsoncpp and libHttpClient are arguments, and so is WebRTC beyond the parts above:
  the SCTP protocol itself (\<open>net/dcsctp\<close>), session descriptions, ICE.  Of the addresses \<open>IPFromAddrInfo\<close>, which
  reads what a resolver has filled in, is left out.
\<close>

section \<open>The encrypted envelope\<close>





text \<open>
  C3. A created adapter can neither send nor receive: the constructor of \<open>AesAdapter\<close> destroys the socket
  whose raw pointer it handed on, so after \<open>SetKey\<close>, whatever key it set, \<open>Recv\<close> and \<open>RecvFrom\<close> (given a
  buffer of the stated size) use a dead socket, and so do \<open>Send\<close> and \<open>SendTo\<close> as soon as the plaintext could
  be sealed; without a key these two answer 0.
\<close>

theorem created_adapter_dangles:
  assumes "AesAdapter_Create = ErrorOr_value ad" "SetKey ssl nid ad = Returns (r, ad')" "cb \<le> length pv"
  shows "Recv ssl rcv pv ad' = Faults DanglingPointer \<and>
     RecvFrom ssl rcv cb pv ad' = Faults DanglingPointer \<and>
     (case mEncryptionKey ad' of
        None \<Rightarrow> SendTo ssl sock plaintext ad' = Returns (0, None, ad') \<and>
                Send ssl sock plaintext ad' = Returns (0, None, ad')
      | Some ctx \<Rightarrow>
          ossl_ok ssl \<and> seals ssl (mKeyData ctx) plaintext mac c d \<longrightarrow>
          SendTo ssl sock plaintext ad' = Faults DanglingPointer \<and>
          Send ssl sock plaintext ad' = Faults DanglingPointer)"
  using created_adapter_socket [OF assms(1,2)] assms(3)
  by (auto simp: Recv_dead_socket RecvFrom_dead_socket Send_eq_SendTo SendTo_without_key SendTo_dead_socket
      split: option.split)

theorem created_adapter_dangles_witness:
  "SetKey demo_ssl 9 AesAdapter_new =
     Returns (ErrorOr_value (), \<lparr>mEncryptionKey = Some demo_context, socket_alive = False\<rparr>) \<and>
   SendTo demo_ssl (\<lambda>w. 0) [4, 5] \<lparr>mEncryptionKey = Some demo_context, socket_alive = False\<rparr> =
     Faults DanglingPointer"
proof -
  have key: "CreateKey demo_ssl 9 = Returns (ErrorOr_value [1, 2])"
    by (simp add: CreateKey_def demo_ssl_def memcpy_at_def Let_def)
  have set: "SetKey demo_ssl 9 AesAdapter_new =
      Returns (ErrorOr_value (), \<lparr>mEncryptionKey = Some demo_context, socket_alive = False\<rparr>)"
    using SetKey_ok [OF key] by (simp add: AesAdapter_new_def demo_context_def AesContext_new_def)
  show ?thesis
    using set created_adapter_dangles [OF AesAdapter_Create_def set, of 0 "[]" "(0, [])" "\<lambda>w. 0" "[4, 5]"
        "[7, 7]" "[4, 5]" "[0]"] demo_ssl_ok(1) demo_seals_two by simp
qed

text \<open>
  C4. The authentication code is not checked: \<open>Open\<close> gives the same result whatever the first
  \<open>EVP_MD_size\<close> bytes of the envelope are.
\<close>

theorem open_ignores_mac:
  assumes "length mac = EVP_MD_size ssl" "length forged = EVP_MD_size ssl"
  shows "Open ssl (forged @ body) ctx = Open ssl (mac @ body) ctx"
  using assms by (rule Open_ignores_mac)

theorem open_ignores_mac_witness:
  "Open demo_ssl ([0, 0] @ [4, 5, 0]) demo_context = Open demo_ssl ([7, 7] @ [4, 5, 0]) demo_context"
  by (rule open_ignores_mac) (simp_all add: demo_ssl_def)

section \<open>Sessions\<close>

text \<open>
  C5. When a session is dead: it is reported closed with an ICE error when its connection status is
  4 or 6, and otherwise with the timeout that matches the side it waits for, once more than the
  negotiation timeout (to the millisecond) has passed since the negotiation step began; a session
  that is past negotiation, or still in time, is left alone.
\<close>

theorem is_dead_session:
  assumes "wired c" "0 \<le> timeout"
  shows "IsDeadSession timeout c =
     (let s = this c;
          report = (\<lambda>e. (c\<lparr>net_events := net_events c @ [EvSessionClose (mRemoteID s) e]\<rparr>, Returns True))
      in if mConnectionStat s = 4 \<or> mConnectionStat s = 6 then report ESessionErrorICE
         else if mConnNegotiationState s \<noteq> ICEProcessing \<and>
                 (timeout * 1000 + 1) * nanos_per_milli \<le> now c - mNegotiationStateTimer s
         then report (if mConnNegotiationState s = WaitingForResponse
                      then ESessionErrorNegotiationTimeoutWaitingForResponse
                      else ESessionErrorNegotiationTimeoutWaitingForAccept)
         else (c, Returns False))"
  using IsDeadSession_run [OF assms]
  by (auto simp: IsConnectionAlive_iff negotiation_expired_def dead_session_error_value Let_def)

theorem is_dead_session_witness:
  "wired demo_ctx \<and> IsDeadSession 60 demo_ctx =
     (demo_ctx\<lparr>net_events := [EvSessionClose 22 ESessionErrorNegotiationTimeoutWaitingForResponse]\<rparr>, Returns True)"
  using demo_wired is_dead_session [OF demo_wired, of 60] by (simp add: demo_defs unit_defs Let_def)

text \<open>
  C6. A session that has reached ICE processing with a live connection status is never reported dead
  again, whatever methods, callbacks and tasks run on it and however much time passes, as long as it
  is not initialised anew.  (No method writes the status that the test reads, so a failing ICE
  connection does not end the session.)
\<close>

theorem established_session_never_dead:
  assumes "session_run c0 c" "mConnNegotiationState (this c0) = ICEProcessing" "IsConnectionAlive (this c0)"
  shows "IsDeadSession timeout c = (c, Returns False)"
  using assms by (rule established_never_dead)

theorem established_session_never_dead_witness:
  "IsDeadSession 60
     (fst (OnIceConnectionChange kIceConnectionFailed
       (demo_ctx\<lparr>this := demo_session\<lparr>mConnNegotiationState := ICEProcessing\<rparr>\<rparr>))) =
   (fst (OnIceConnectionChange kIceConnectionFailed
       (demo_ctx\<lparr>this := demo_session\<lparr>mConnNegotiationState := ICEProcessing\<rparr>\<rparr>)), Returns False)"
proof (rule established_session_never_dead)
  let ?c = "demo_ctx\<lparr>this := demo_session\<lparr>mConnNegotiationState := ICEProcessing\<rparr>\<rparr>"
  show "session_run ?c (fst (OnIceConnectionChange kIceConnectionFailed ?c))"
    by (intro r_into_rtranclp st_ice)
  show "mConnNegotiationState (this ?c) = ICEProcessing" "IsConnectionAlive (this ?c)"
    by (simp_all add: IsConnectionAlive_iff demo_session_def)
qed

text \<open>
  C7. The flush of deferred packets.  With a reliable channel both queues are sent and emptied,
  reliable packets first and each queue in order, all through the reliable channel (unreliable
  packets only if an unreliable channel exists, else they are dropped).  Without a reliable channel,
  queued unreliable packets make the flush use a null pointer as soon as an unreliable channel
  exists, and are dropped otherwise; reliable packets stay queued.
\<close>

theorem flush_deferred:
  assumes "mNetworkSessionMgr (this c)"
  shows "CheckSendDeferredData c =
     (case mReliableChannelInterface (this c) of
        Some h \<Rightarrow>
          (c\<lparr>this := (this c)\<lparr>mReliablePackets := [], mUnreliablePackets := []\<rparr>,
             net_events := net_events c @ map (EvChannelSend h) (mReliablePackets (this c)) @
               (if mUnreliableChannelInterface (this c) = None then []
                else map (EvChannelSend h) (mUnreliablePackets (this c)))\<rparr>, Returns ())
      | None \<Rightarrow>
          if mUnreliableChannelInterface (this c) \<noteq> None \<and> mUnreliablePackets (this c) \<noteq> []
          then (c, Faults NullDeref)
          else (c\<lparr>this := (this c)\<lparr>mUnreliablePackets := []\<rparr>\<rparr>, Returns ()))"
  using CheckSendDeferredData_reliable [OF assms] CheckSendDeferredData_no_reliable [OF assms]
  by (simp split: option.split)

theorem flush_deferred_witness:
  "net_events (fst (CheckSendDeferredData demo_ctx)) =
     [EvChannelSend 9 [1], EvChannelSend 9 [2], EvChannelSend 9 [3]]"
proof -
  have "mNetworkSessionMgr (this demo_ctx)" by (simp add: demo_defs)
  from flush_deferred [OF this] show ?thesis by (simp add: demo_defs)
qed

text \<open>
  C8. A packet given to a session never leaves it: \<open>SendPacket\<close> posts a task that captured its locals by
  reference.  In every history of the session in which such tasks run after the method that posted them has
  returned (all other methods, tasks and callbacks in any order), starting with empty queues, nothing is
  ever put on a data channel and both queues stay empty: at every moment \<open>SendPacket\<close> only appends its task
  to a live signalling thread, and that task uses the dead locals when the session has a peer connection,
  and drops the packet silently when it has none.
\<close>

theorem sent_packets_never_leave:
  assumes "late_run c0 c" "no_packets (this c0)"
  shows "channel_sends c = channel_sends c0 \<and> no_packets (this c) \<and>
     (mThread (g_SignalThread c) = ThreadLive \<longrightarrow>
        snd (NetworkSession_SendPacket buf ty c) = Returns () \<and>
        signal_tasks (fst (NetworkSession_SendPacket buf ty c)) = signal_tasks c @ [TaskSendPacket (self c) buf ty]) \<and>
     SendPacket_task False buf ty c =
       (c, if mpPeerConnection (this c) = None then Returns () else Faults DanglingPointer)"
  using idle.reach_inv [OF assms(1), of "channel_sends c0"] assms(2)
  by (simp add: idle_output_def SendPacket_task_late NetworkSession_SendPacket_run post_signal_run)

theorem sent_packets_never_leave_witness:
  "\<exists>c0 c. late_run c0 c \<and> no_packets (this c0) \<and> channel_sends c = channel_sends c0 \<and>
     signal_tasks c = signal_tasks c0 @ [TaskSendPacket (self c0) [1, 2] eSendTypeReliable] \<and>
     mpPeerConnection (this c) \<noteq> None \<and>
     SendPacket_task False [1, 2] eSendTypeReliable c = (c, Faults DanglingPointer)"
proof -
  let ?start = "demo_ctx\<lparr>this := demo_session\<lparr>mReliablePackets := [], mUnreliablePackets := []\<rparr>\<rparr>"
  let ?c = "fst (NetworkSession_SendPacket [1, 2] eSendTypeReliable ?start)"
  have run: "late_run ?start ?c" using st_send by blast
  have none: "no_packets (this ?start)" by (simp add: no_packets_def)
  have "signal_tasks ?c = signal_tasks ?start @ [TaskSendPacket (self ?start) [1, 2] eSendTypeReliable]"
      "mpPeerConnection (this ?c) \<noteq> None"
    by (simp_all add: NetworkSession_SendPacket_run post_signal_run demo_defs)
  then show ?thesis
    using run none sent_packets_never_leave [OF run none, of "[1, 2]" eSendTypeReliable]
    by (intro exI [of _ ?start] exI [of _ ?c]) simp
qed

text \<open>
  C9. Looking up a dead session: the application is told, the look-up answers that there is none, and
  the record is cleared at once on the signalling thread or by a posted task elsewhere.
\<close>

theorem dead_session_given_up:
  assumes "omap_get (mSessionList s) nid = Some rec" "mOwnSession rec = Some p"
    and "wired_session s p ses" "0 \<le> mNegotiationTimeout s" "session_dead s ses"
    and "mThread (g_SignalThread s) = ThreadLive"
  shows "\<exists>s'. GetCurrentSession nid s = (s', Returns None) \<and>
     net_events s' = net_events s @ [EvSessionClose (mRemoteID ses) (session_close_error ses)] \<and>
     (if on_signal_thread s
      then omap_get (mSessionList s') nid = Some (rec\<lparr>mOwnSession := None\<rparr>) \<and> signal_tasks s' = signal_tasks s
      else mSessionList s' = mSessionList s \<and> signal_tasks s' = signal_tasks s @ [TaskEraseRecord nid])"
  using GetCurrentSession_dead [OF assms(1-5)] assms(6) by (simp add: Let_def)

theorem dead_session_given_up_witness:
  "\<exists>s'. GetCurrentSession 22 (demo_manager\<lparr>session_heap := [7 \<mapsto> demo_session]\<rparr>) = (s', Returns None) \<and>
     net_events s' = [EvSessionClose 22 ESessionErrorNegotiationTimeoutWaitingForResponse] \<and>
     signal_tasks s' = [TaskEraseRecord 22]"
proof -
  let ?s = "demo_manager\<lparr>session_heap := [7 \<mapsto> demo_session]\<rparr>"
  have h: "omap_get (mSessionList ?s) 22 = Some \<lparr>mOwnSession = Some 7, rec_mConnectionId = 11\<rparr>"
    "wired_session ?s 7 demo_session" "0 \<le> mNegotiationTimeout ?s" "session_dead ?s demo_session"
    "mThread (g_SignalThread ?s) = ThreadLive" "\<not> on_signal_thread ?s"
    by (simp_all add: demo_defs omap_get_def wired_session_def session_dead_def negotiation_expired_def unit_defs)
  have e: "session_close_error demo_session = ESessionErrorNegotiationTimeoutWaitingForResponse"
    by (simp add: session_close_error_def demo_session_def dead_session_error_value IsConnectionAlive_iff)
  show ?thesis
    using dead_session_given_up [OF h(1) _ h(2-5)] h(6) e demo_manager_facts(7,8)
    by (auto simp: demo_session_def)
qed

text \<open>
  C10. The session table of a manager that starts empty stays without sessions and without packet data
  through every history of calls and tasks, so every packet is refused and none is available: the
  code that would create a session is commented out, and received messages are dropped.
\<close>

theorem manager_stays_empty:
  assumes "mgr_reach s0 s" "mSessionList s0 = []" "mPacketData s0 = []" "\<not> mSessionCreationMutex s"
  shows "(\<exists>s'. Manager_SendPacket nid buf ty s = (s', Returns 0)) \<and>
     IsPacketAvailable nid n s = (s, Returns (n, False))"
proof -
  have inv: "mgr_inv {} {} s0"
    using assms(2,3) by (simp add: mgr_inv_def owned_def packet_keys_def omap_ok_def)
  have "\<forall>rec. omap_get (mSessionList s) nid = Some rec \<longrightarrow> mOwnSession rec = None"
    using mgr_reach_no_session [OF assms(1) inv] by blast
  then have "\<exists>s'. Manager_SendPacket nid buf ty s = (s', Returns 0)"
    using Manager_SendPacket_no_session [OF assms(4)] by metis
  moreover have "omap_get (mPacketData s) nid = None"
    using mgr_tables.reach_inv [OF assms(1) inv] by (auto simp: mgr_inv_def packet_keys_def)
  ultimately show ?thesis
    using IsPacketAvailable_run [OF assms(4)] by simp
qed

theorem manager_stays_empty_witness:
  "(\<exists>s'. Manager_SendPacket 22 [1] eSendTypeReliable demo_empty_manager = (s', Returns 0)) \<and>
   IsPacketAvailable 22 0 demo_empty_manager = (demo_empty_manager, Returns (0, False))"
  by (rule manager_stays_empty [OF rtranclp.rtrancl_refl]) (simp_all add: demo_defs)

text \<open>
  C11. Accepting an incoming session: \<open>InitializeIncoming\<close> leaves it waiting for the application, and
  \<open>AcceptSession\<close> then moves it to ICE processing and queues the response once.  The peer connection has
  been moved out of the session by then, so \<open>Close\<close> does nothing.
\<close>

theorem incoming_then_accept:
  assumes "wired c" "mpPeerConnectionFactory c" "mThread (g_SignalThread c) = ThreadLive"
    and "pf_create_peer pf (flagged (pf_flags pf r) (mRtcConfig c)) = Some h"
  shows "\<exists>c'. seq (InitializeIncoming pf r cid pref) (\<lambda>_. AcceptSession) c = (c', Returns ()) \<and>
     mConnNegotiationState (this c') = ICEProcessing \<and> mRemoteID (this c') = r \<and>
     mConnectionId (this c') = cid \<and>
     signal_tasks c' = signal_tasks c @ [TaskSessionResponse (self c)] \<and> Close c' = (c', Returns ())"
proof -
  obtain c1 where c1: "InitializeIncoming pf r cid pref c = (c1, Returns ())"
    and f: "wired c1" "mConnNegotiationState (this c1) = WaitingForAccept" "mRemoteID (this c1) = r"
      "mConnectionId (this c1) = cid" "signal_tasks c1 = signal_tasks c" "self c1 = self c"
      "mpPeerConnection (this c1) = None" "mThread (g_SignalThread c1) = ThreadLive"
    using InitializeIncoming_ok [OF assms(1,2,4), of cid pref] assms(1,3)
    by (simp add: wired_def)
  show ?thesis
    using c1 f AcceptSession_waiting [OF f(1,2)] by (simp add: Close_def run_seq)
qed

theorem incoming_then_accept_witness:
  "\<exists>c'. seq (InitializeIncoming demo_platform 44 55 Lan) (\<lambda>_. AcceptSession) demo_ctx = (c', Returns ()) \<and>
     mConnNegotiationState (this c') = ICEProcessing \<and> mRemoteID (this c') = 44 \<and>
     mConnectionId (this c') = 55 \<and>
     signal_tasks c' = signal_tasks demo_ctx @ [TaskSessionResponse (self demo_ctx)] \<and> Close c' = (c', Returns ())"
  by (rule incoming_then_accept [OF demo_wired, where h = 5]) (simp_all add: demo_defs)

text \<open>
  C12. The channels of an outgoing connection, end to end.  Whatever \<open>reliable\<close> flag the session sets, the
  channel that \<open>CreateDataChannelOrError\<close> makes under one of its two labels is reliable and ordered; the
  controller of the peer makes from its OPEN message a channel with the same label that is reliable and
  ordered too; and the session there stores it as its unreliable channel and leaves the reliable one alone.
  So two peers running this code never get a reliable channel from each other, nor an unreliable one.
\<close>

theorem own_channels_end_to_end:
  assumes "lbl \<in> {''&ReliableDataChannel'', ''*UnreliableDataChannel''}"
    and "CreateDataChannelOrError tr role closed plan guess (label_bytes lbl)
      (Some (DataChannelInit_default\<lparr>dci_reliable := rel\<rparr>)) a = (a', Returns (Inr r))"
    and "sid \<le> kMaxSctpSid" "sid \<notin> dcc_sids b" "dcc_transport b = Some t"
  shows "\<exists>c b' d. dcc_heap a' r = Some c \<and> reliable c \<and> dc_ordered c \<and>
     dcc_OnDataReceived tr' role' (int sid) kControl (open_payload c) b = (b', Returns ()) \<and>
     dcc_heap b' (dcc_next b) = Some d \<and> reliable d \<and> dc_ordered d \<and> label_string (dc_label d) = lbl \<and>
     (pf_channel_label pf ch = label_string (dc_label d) \<longrightarrow>
        mReliableChannelInterface (this (fst (OnDataChannel pf ch s))) = mReliableChannelInterface (this s) \<and>
        mUnreliableChannelInterface (this (fst (OnDataChannel pf ch s))) = Some ch)"
proof -
  obtain c where c: "dcc_heap a' r = Some c"
    "made_from (InternalDataChannelInit_of (DataChannelInit_default\<lparr>dci_reliable := rel\<rparr>)) (label_bytes lbl) c"
    by (rule CreateDataChannelOrError_made [OF assms(2)])
  have "length (label_bytes lbl) < 65536" using assms(1) by (auto simp: label_bytes_def)
  note own = own_channel [OF c(2) this]
  obtain b' d where b': "dcc_OnDataReceived tr' role' (int sid) kControl (open_payload c) b = (b', Returns ())"
    "dcc_heap b' (dcc_next b) = Some d" "dcc_channels b' = dcc_channels b @ [dcc_next b]"
    "dcc_signaling_tasks b' = dcc_signaling_tasks b @ [OpenTask (dcc_next b) (tr_IsReadyToSend tr')]"
    "connecting kHandshakeShouldSendAck sid d" "same_config c d"
    by (rule open_message_creates [OF own(3) assms(3-5)])
  have d: "reliable d" "dc_ordered d" "label_string (dc_label d) = lbl"
    using b'(6) own label_inverse [of lbl] by (simp_all add: same_config_def reliable_def)
  have "mReliableChannelInterface (this (fst (OnDataChannel pf ch s))) = mReliableChannelInterface (this s)"
    "mUnreliableChannelInterface (this (fst (OnDataChannel pf ch s))) = Some ch" if "pf_channel_label pf ch = lbl"
    using preservesD [OF OnDataChannel_own_label [of pf ch], of s] OnDataChannel_unreliable [of pf ch s] assms(1) that
    by auto
  with c(1) own(1,2) b'(1,2) d show ?thesis by blast
qed

theorem own_channels_end_to_end_witness:
  "\<exists>a' r c b' d.
     CreateDataChannelOrError demo_transport (Some SSL_CLIENT) False kUnifiedPlan None
       (label_bytes ''&ReliableDataChannel'') (Some (DataChannelInit_default\<lparr>dci_reliable := True\<rparr>)) dcc_create =
       (a', Returns (Inr r)) \<and> dcc_heap a' r = Some c \<and>
     dcc_OnDataReceived demo_transport None (int 0) kControl (open_payload c) demo_controller = (b', Returns ()) \<and>
     dcc_heap b' (dcc_next demo_controller) = Some d \<and> reliable d \<and>
     mReliableChannelInterface (this (fst (OnDataChannel demo_platform 4 demo_ctx))) = mReliableChannelInterface (this demo_ctx) \<and>
     mUnreliableChannelInterface (this (fst (OnDataChannel demo_platform 4 demo_ctx))) = Some 4"
proof -
  let ?init = "DataChannelInit_default\<lparr>dci_reliable := True\<rparr>"
  let ?config = "(InternalDataChannelInit_of ?init)\<lparr>fallback_ssl_role := None\<rparr>"
  have "IsValid ?config" "dci_id ?config = -1"
    by (simp_all add: IsValid_def InternalDataChannelInit_of_def DataChannelInit_default_def DataChannelInit.defs
        InternalDataChannelInit.defs clamp_limit_def Let_def)
  from demo_created [OF this, of "label_bytes ''&ReliableDataChannel''"] obtain s where s:
    "InternalCreateDataChannelWithProxy demo_transport (Some SSL_CLIENT) (label_bytes ''&ReliableDataChannel'')
       ?config dcc_create = (s, Returns (Inr 0))" by blast
  have run: "CreateDataChannelOrError demo_transport (Some SSL_CLIENT) False kUnifiedPlan None
      (label_bytes ''&ReliableDataChannel'') (Some ?init) dcc_create =
      (s\<lparr>dcc_events := dcc_events s @ [UpdateNegotiationNeeded, NoteDataAddedEvent]\<rparr>, Returns (Inr 0))"
    by (simp add: CreateDataChannelOrError_def Let_def s ctl_note_def)
  from own_channels_end_to_end [OF _ run, of 0 demo_controller 1 demo_transport None demo_platform 4 demo_ctx]
  show ?thesis
    using run demo_controller_ok by (auto simp: demo_platform_def)
qed

section \<open>Data channels\<close>

text \<open>
  C13. The opening handshake, across both ends.  When the transport of a connecting channel becomes ready,
  the channel sends an OPEN message and is open; given that message, the controller of the other side
  adds one channel with the same label, protocol, order, limits and priority; when that channel's
  transport is ready it acknowledges and is open; and the acknowledgement completes the opener's
  handshake.
\<close>

theorem open_handshake:
  assumes "connecting kHandshakeShouldSendOpen sid c" "fits_open c" "sid \<le> kMaxSctpSid"
    and "\<And>params payload. RTCError_ok (ctl_SendData k sid params payload)"
    and "ctl_ok b" "dcc_transport b = Some t" "sid \<notin> dcc_sids b"
    and "\<And>params payload. RTCError_ok (ctl_SendData k' sid params payload)"
  shows "\<exists>c' b' d d'.
     OnTransportReady g k c = (c', Returns ()) \<and> dc_state c' = kOpen \<and>
     Sent sid (control_params c) (open_payload c) \<in> set (dc_log c') \<and>
     dcc_OnDataReceived tr role (int sid) kControl (open_payload c) b = (b', Returns ()) \<and> ctl_ok b' \<and>
     dcc_channels b' = dcc_channels b @ [dcc_next b] \<and> dcc_heap b' (dcc_next b) = Some d \<and> same_config c d \<and>
     OnTransportReady g' k' d = (d', Returns ()) \<and> dc_state d' = kOpen \<and> dc_handshake_state d' = kHandshakeReady \<and>
     Sent sid (control_params d) WriteDataChannelOpenAckMessage \<in> set (dc_log d') \<and>
     OnDataReceived kControl WriteDataChannelOpenAckMessage c' = (c'\<lparr>dc_handshake_state := kHandshakeReady\<rparr>, Returns ())"
proof -
  obtain c' where c': "OnTransportReady g k c = (c', Returns ())"
    "opened kHandshakeWaitingForAck (Sent sid (control_params c) (open_payload c)) c'"
    by (rule opener_opens [OF assms(1,4)])
  obtain b' d where b': "dcc_OnDataReceived tr role (int sid) kControl (open_payload c) b = (b', Returns ())"
    "dcc_heap b' (dcc_next b) = Some d" "dcc_channels b' = dcc_channels b @ [dcc_next b]"
    "dcc_signaling_tasks b' = dcc_signaling_tasks b @ [OpenTask (dcc_next b) (tr_IsReadyToSend tr)]"
    "connecting kHandshakeShouldSendAck sid d" "same_config c d"
    by (rule open_message_creates [OF assms(2,3,7,6)])
  obtain d' where d': "OnTransportReady g' k' d = (d', Returns ())"
    "opened kHandshakeReady (Sent sid (control_params d) WriteDataChannelOpenAckMessage) d'"
    by (rule acker_opens [OF b'(5) assms(8)])
  have "ctl_ok b'" using upholdsD [OF OnDataReceived_upholds assms(5) b'(1)] .
  with b' c' d' opener_acknowledged [OF c'(2)] show ?thesis by (auto simp: opened_def)
qed

theorem open_handshake_witness:
  "\<exists>c' b' d d'.
     OnTransportReady (\<lambda>_. 0) demo_accepting demo_opener = (c', Returns ()) \<and> dc_state c' = kOpen \<and>
     Sent 0 (control_params demo_opener) (open_payload demo_opener) \<in> set (dc_log c') \<and>
     dcc_OnDataReceived demo_transport None (int 0) kControl (open_payload demo_opener) demo_controller =
       (b', Returns ()) \<and> ctl_ok b' \<and>
     dcc_channels b' = dcc_channels demo_controller @ [dcc_next demo_controller] \<and>
     dcc_heap b' (dcc_next demo_controller) = Some d \<and> same_config demo_opener d \<and>
     OnTransportReady (\<lambda>_. 0) demo_accepting d = (d', Returns ()) \<and> dc_state d' = kOpen \<and>
     dc_handshake_state d' = kHandshakeReady \<and>
     Sent 0 (control_params d) WriteDataChannelOpenAckMessage \<in> set (dc_log d') \<and>
     OnDataReceived kControl WriteDataChannelOpenAckMessage c' = (c'\<lparr>dc_handshake_state := kHandshakeReady\<rparr>, Returns ())"
  by (rule open_handshake [OF demo_opener_ready _ demo_accepts(1) demo_controller_ok(1,2) _ demo_accepts(1)])
    (simp_all add: demo_controller_ok(3))

text \<open>
  C14. The pool of stream ids, after any history of a controller: the list holds exactly the channels that
  are not closed, each once; no two of them share an id; and the pool is exactly the set of their ids,
  all at most 1023.  So an id is never handed out twice and never lost.
\<close>

theorem channel_ids_distinct:
  assumes "ctl_reach s"
  shows "distinct (dcc_channels s) \<and>
     (\<forall>r c. dcc_heap s r = Some c \<longrightarrow> (r \<in> set (dcc_channels s) \<longleftrightarrow> dc_state c \<noteq> kClosed)) \<and>
     (\<forall>r r' sid. r \<in> set (dcc_channels s) \<and> r' \<in> set (dcc_channels s) \<and>
        sid_n r s = Some sid \<and> sid_n r' s = Some sid \<longrightarrow> r = r') \<and>
     dcc_sids s = {sid. \<exists>r \<in> set (dcc_channels s). sid_n r s = Some sid} \<and>
     (\<forall>sid \<in> dcc_sids s. sid \<le> 1023)"
proof -
  have ok: "ctl_ok s" using ctl.reach_inv [OF assms ctl_ok_create] .
  then have st: "stored_ok (dcc_channels s) s" and ids: "ids_ok (dcc_channels s) s"
    by (simp_all add: ctl_ok_def ctl_inv_def)
  have max: "kMaxSctpSid = 1023" by (simp add: kMaxSctpSid_def kMaxSctpStreams_def)
  show ?thesis
    using stored_facts(1,6) [OF st] ids unfolding ids_ok_def max by blast
qed

theorem channel_ids_distinct_witness:
  "\<exists>s. ctl_reach s \<and> dcc_sids s = {0} \<and> (\<forall>sid \<in> dcc_sids s. sid \<le> 1023) \<and>
     dcc_sids s = {sid. \<exists>r \<in> set (dcc_channels s). sid_n r s = Some sid}"
proof -
  let ?config = "InternalDataChannelInit_of DataChannelInit_default"
  have "IsValid ?config" "dci_id ?config = -1"
    by (simp_all add: IsValid_def InternalDataChannelInit_of_def DataChannelInit_default_def DataChannelInit.defs
        InternalDataChannelInit.defs clamp_limit_def Let_def)
  from demo_created [OF this, of demo_label] obtain s where
    "InternalCreateDataChannelWithProxy demo_transport (Some SSL_CLIENT) demo_label ?config dcc_create =
       (s, Returns (Inr 0))" and sids: "dcc_sids s = {0}" by blast
  then have reach: "ctl_reach s" by (blast intro: dcc_step.intros(1))
  from channel_ids_distinct [OF reach] reach sids show ?thesis by blast
qed

text \<open>
  C15. Messages arrive once and in order.  Start from a new channel and let any calls follow, in any order,
  such that the receive queue never overflows.  The channel announces each message to its observer, or to
  the adapter that stands in for an observer that must not be called on the network thread: what it has
  announced, followed by what still waits in its queue, is exactly the sequence of messages that arrived,
  and on an open channel with an observer nothing waits.  What the adapter has passed on to its delegates,
  followed by what it has still posted, is an in-order part of what was announced to it: tasks posted
  before a change of the delegate are dropped.  If the observer is changed only while no task is posted
  and the proxy is made once, on a live signalling thread, nothing is dropped: what observers were really
  given, then what is posted, then what waits, is the sequence of messages that arrived.
\<close>

theorem messages_in_order:
  fixes config label uid calls
  defines "c0 \<equiv> SctpDataChannel_create config True label True uid"
  defines "c \<equiv> dc_run calls c0"
  defines "arrived \<equiv> concat (map (\<lambda>(k, call). arriving call) calls)"
  assumes "no_overflow calls c0"
  shows "announced_messages c @ pq_packets (dc_queued_received_data c) = arrived \<and>
     (dc_observer c \<noteq> None \<and> dc_state c = kOpen \<longrightarrow> pq_packets (dc_queued_received_data c) = []) \<and>
     subseq (delegated c @ pending c) (posted c) \<and>
     (orderly_run calls c0 \<longrightarrow>
        messages (given c) @ messages (pending c) @ pq_packets (dc_queued_received_data c) = arrived)"
proof -
  have ok: "queue_ok c0" unfolding c0_def by (rule queue_ok_create)
  note new = c0_def SctpDataChannel_create_def pq_empty_def
  have "accepted c0 = []" by (simp add: accepted_def announced_def new)
  then have all: "accepted c = arrived"
    using accepted_run [OF ok assms(4)] by (simp add: c_def arrived_def)
  have queue: "queue_ok c" unfolding c_def using ok by (rule queue_ok_run)
  have "adapter_in_order c0" by (simp add: adapter_in_order_def callback_ledgers new)
  then have adapter: "adapter_in_order c" unfolding c_def by (rule adapter_in_order_run)
  have "all_given c0" by (simp add: all_given_def adapter_live_def callback_ledgers new)
  then have given: "given c @ pending c = announced c" if "orderly_run calls c0"
    using all_given_run [OF _ that] by (simp add: c_def all_given_def)
  have "messages (given c) @ messages (pending c) = announced_messages c" if "orderly_run calls c0"
    using given [OF that] messages_simps(3) by metis
  then show ?thesis
    using all queue adapter by (auto simp: accepted_def queue_ok_def adapter_in_order_def)
qed

theorem messages_in_order_witness:
  "messages (given (dc_run demo_inbox demo_negotiated)) = [\<lparr>db_data = [1], db_binary = False\<rparr>] \<and>
   messages (given (dc_run demo_inbox demo_negotiated)) @ messages (pending (dc_run demo_inbox demo_negotiated)) @
     pq_packets (dc_queued_received_data (dc_run demo_inbox demo_negotiated)) =
   [\<lparr>db_data = [1], db_binary = False\<rparr>, \<lparr>db_data = [2], db_binary = True\<rparr>]"
proof -
  have "concat (map (\<lambda>(k, call). arriving call) demo_inbox) =
      [\<lparr>db_data = [1], db_binary = False\<rparr>, \<lparr>db_data = [2], db_binary = True\<rparr>]"
    by (simp add: demo_inbox_def arriving_def)
  then show ?thesis
    using messages_in_order [OF demo_inbox_run(1) [unfolded demo_negotiated_def]] demo_inbox_run
    by (simp add: demo_negotiated_def)
qed

text \<open>
  C16. Closing ends.  A connected channel on which \<open>Close\<close> is called goes to \<open>kClosing\<close>, whatever its
  transport still has to send; once the transport reports that it has drained and then that the stream
  is closed, the channel is \<open>kClosed\<close>, and it has given the stream back exactly once.
\<close>

theorem closing_completes:
  assumes "dc_state c \<noteq> kClosing" "dc_state c \<noteq> kClosed" "connected c" "dc_id_n c = Some sid"
    and "\<not> dc_started_closing_procedure c" "ctl_buffered_amount drained sid = 0"
  shows "dc_state (fst (dc_Close g k c)) = kClosing \<and>
     dc_state (close_run g k drained c) = kClosed \<and>
     removals (close_run g k drained c) = removals c + 1"
  using Close_finishes [where c = c and sid = sid and k' = drained and g = g and k = k] assms by (simp add: closing_or_closed_def)

theorem closing_completes_witness:
  "dc_state (fst (dc_Close (\<lambda>_. 0) (demo_accepting\<lparr>ctl_buffered_amount := (\<lambda>_. 500)\<rparr>) demo_opener)) = kClosing \<and>
   dc_state (close_run (\<lambda>_. 0) (demo_accepting\<lparr>ctl_buffered_amount := (\<lambda>_. 500)\<rparr>) demo_accepting demo_opener) = kClosed \<and>
   removals (close_run (\<lambda>_. 0) (demo_accepting\<lparr>ctl_buffered_amount := (\<lambda>_. 500)\<rparr>) demo_accepting demo_opener) =
     removals demo_opener + 1"
  by (rule closing_completes [where sid = 0])
    (simp_all add: demo_opener_def demo_unassigned_fields connected_def demo_accepting_def)

text \<open>
  C17. Closing a stream between two peers: whoever begins, also when both do at once, in whatever order and in
  whatever lists their sockets report resets (performed, incoming or failed; an empty list, which the socket
  documents as all streams, does nothing here), with notices that never come,
  among all other calls of the two transports, a DTLS restart included; only opening the stream anew and
  taking the sink away are excluded.  Each transport asks its socket for one reset at most and tells its sink
  at most once that the channel is closed, exactly when it has forgotten the stream; at most one of the two is
  told that the peer is closing.  As long as no notice about the stream was lost (none failed, never came, or
  stood in a list behind a stream that the transport does not know): when a reset was asked for and no notice
  about the stream is in flight any more, the stream is gone on both sides; and from every state in which a
  reset was asked for, delivering the notices leads there.  Once a notice about the stream is lost to a
  transport, that transport never forgets the stream and never tells its sink that the channel is closed.
\<close>

theorem streams_close_on_both_sides:
  assumes "link_start sid l0" "(link_step sid)\<^sup>*\<^sup>* l0 l"
  shows "(\<forall>sd. asked sid (ends l sd) \<le> 1 \<and> closes sid (ends l sd) \<le> 1 \<and>
        (closes sid (ends l sd) = 1 \<longleftrightarrow> stream_of sid (ends l sd) = None)) \<and>
     closings sid (ends l SideA) + closings sid (ends l SideB) \<le> 1 \<and>
     (lossless sid l \<and> (\<exists>sd. asked sid (ends l sd) = 1) \<longrightarrow>
        (quiet sid l \<longrightarrow> (\<forall>sd. stream_of sid (ends l sd) = None)) \<and>
        (\<exists>l'. (link_step sid)\<^sup>*\<^sup>* l l' \<and> quiet sid l' \<and>
           (\<forall>sd. stream_of sid (ends l' sd) = None \<and> closes sid (ends l' sd) = 1))) \<and>
     (\<forall>sd n l'. n \<in># lost l sd \<and> notice_sid n = sid \<and> (link_step sid)\<^sup>*\<^sup>* l l' \<longrightarrow>
        stream_of sid (ends l' sd) \<noteq> None \<and> closes sid (ends l' sd) = 0)"
proof -
  have ok: "link_ok sid l" using link_inv.reach_inv [OF assms(2) link_start_ok [OF assms(1)]] .
  have ends: "quiet sid l \<longrightarrow> (\<forall>sd. stream_of sid (ends l sd) = None)"
    "\<exists>l'. (link_step sid)\<^sup>*\<^sup>* l l' \<and> quiet sid l' \<and> (\<forall>sd. stream_of sid (ends l' sd) = None \<and> closes sid (ends l' sd) = 1)"
    if clean: "lossless sid l" and one: "asked sid (ends l sd) = 1" for sd
  proof -
    from one have asked: "asked sid (ends l sd) \<noteq> 0" by simp
    show "quiet sid l \<longrightarrow> (\<forall>sd. stream_of sid (ends l sd) = None)"
      using both_sides [OF quiet_ended [OF ok _ clean asked]] by blast
    obtain l' where "(link_step sid)\<^sup>*\<^sup>* l l'" "quiet sid l'" "\<forall>sd. stream_of sid (ends l' sd) = None"
      by (rule reset_ends [OF ok clean asked])
    then show "\<exists>l'. (link_step sid)\<^sup>*\<^sup>* l l' \<and> quiet sid l' \<and> (\<forall>sd. stream_of sid (ends l' sd) = None \<and> closes sid (ends l' sd) = 1)"
      using link_ok_counts(4) [OF link_inv.reach_inv [OF _ ok]] by blast
  qed
  have stays: "stream_of sid (ends l' sd) \<noteq> None \<and> closes sid (ends l' sd) = 0"
    if "n \<in># lost l sd" "notice_sid n = sid" "(link_step sid)\<^sup>*\<^sup>* l l'" for sd n l'
    using lost_stays [OF link_inv.reach_inv [OF that(3) ok] lost_forever [OF that(3,1)] that(2)] by blast
  show ?thesis using link_ok_counts [OF ok] link_okD(5) [OF ok, of SideA] ends stays by auto
qed

theorem streams_close_on_both_sides_witness:
  "\<exists>l'. (link_step 0)\<^sup>*\<^sup>* demo_link_closing l' \<and>
     (\<forall>sd. stream_of 0 (ends l' sd) = None \<and> closes 0 (ends l' sd) = 1)"
proof -
  have "(link_step 0)\<^sup>*\<^sup>* demo_link demo_link_closing" using demo_link_step(1) by blast
  from streams_close_on_both_sides [OF demo_link_start this] demo_link_step(2,3) show ?thesis by blast
qed

text \<open>
  C18. A message from a channel to the channel of the peer, through both transports, in every case.  \<open>Send\<close> on
  an open channel answers true, also where its documentation promises false.  If the transport does not have the stream of the channel open, or a reset of
  it has begun, or the message is longer than the maximal message size, nothing reaches the socket and the
  channel is closed.  Otherwise the socket is asked to send one message.  If it takes the message
  (\<open>kSuccess\<close>), the channel stays open, and when the socket of the peer delivers that message, the sink
  there, its controller, hands the channel with this id the same bytes with the same type, also when the
  message is empty.  If it refuses (any other status), the channel is closed; when its buffer is full the
  transport also remembers that it is not ready to send.
\<close>

theorem message_reaches_peer:
  fixes c b sid
  defines "ps \<equiv> data_params c b"
  defines "m \<equiv> message_of (int sid) ps (db_data b)" and "opts \<equiv> send_options_of ps"
  assumes "can_send c" "dc_id_n c = Some sid" "sid < 65536" "st_internal a = Some s" "flat_ok (stream_states s)" "dt_sink t"
  shows "\<exists>c'. dc_Send (transport_controller sk a) b c = (c', Returns True) \<and>
     Sent sid ps (db_data b) \<in> set (dc_log c') \<and>
     (if \<not> sendable (int sid) (db_data b) s
      then dc_state c' = kClosed \<and> serve sk (TransportSend sid ps (db_data b)) a = (a, Returns ())
      else (\<exists>s'. serve sk (TransportSend sid ps (db_data b)) a = (a\<lparr>st_internal := Some s'\<rparr>, Returns ()) \<and>
              dt_log s' = dt_log s @ [SocketSend m opts] \<and>
              (dt_ready_to_send_data s' \<longleftrightarrow> dt_ready_to_send_data s \<and> sk_Send sk m opts \<noteq> kErrorResourceExhaustion)) \<and>
           (if sk_Send sk m opts = kSuccess
            then dc_state c' = kOpen \<and>
              (\<exists>t' call. OnMessageReceived m t = (t', Returns ()) \<and> dt_log t' = dt_log t @ [Sink call] \<and>
                 sink g tr role call =
                   call_found tr (int sid) (\<lambda>_. OnDataReceived (if db_binary b then kBinary else kText) (db_data b)))
            else dc_state c' = kClosed))"
proof -
  let ?k = "transport_controller sk a"
  note answer = transport_answer [OF assms(7,8), of sk sid ps "db_data b", folded m_def opts_def]
  obtain c' where c': "Sent sid ps (db_data b) \<in> set (dc_log c')"
    "RTCError_ok (send_answer ?k c b sid) \<longrightarrow>
       SendImpl ?k b c = (c', Returns (send_answer ?k c b sid)) \<and> dc_state c' = kOpen \<and>
       dc_messages_sent c' = dc_messages_sent c + 1 \<and> dc_bytes_sent c' = dc_bytes_sent c + word_of_nat (db_size b)"
    "\<not> RTCError_ok (send_answer ?k c b sid) \<longrightarrow>
       SendImpl ?k b c = (c', Returns (RTCError_of NETWORK_ERROR ''Failure to send data'')) \<and> dc_state c' = kClosed"
    unfolding ps_def by (rule SendImpl_sends [OF assms(4,5)])
  have sent: "dc_Send ?k b c = (c', Returns True)"
      "dc_state c' = (if sendable (int sid) (db_data b) s \<and> sk_Send sk m opts = kSuccess then kOpen else kClosed)"
    using c'(2,3) answer by (auto simp: send_answer_def dc_Send_def RTCError_ok_def RTCError_of_def ps_def)
  have data: "sdp_type ps \<noteq> kControl \<or> db_data b \<noteq> []" "sdp_type ps \<noteq> kControl" by (simp_all add: ps_def data_params_type)
  note peer = sink_receives(1) [OF assms(9,6) data(1), folded m_def]
    sink_receives(2) [OF assms(9,6) data(1), of g tr role, unfolded data_not_handled [OF data(2)]]
  have receive: "\<exists>t' call. OnMessageReceived m t = (t', Returns ()) \<and> dt_log t' = dt_log t @ [Sink call] \<and>
      sink g tr role call = call_found tr (int sid) (\<lambda>_. OnDataReceived (if db_binary b then kBinary else kText) (db_data b))"
    using peer by (auto simp: ps_def data_params_type)
  show ?thesis
  proof (cases "sendable (int sid) (db_data b) s")
    case True
    from serve_send [OF assms(7,8) True, of sk ps, folded m_def opts_def] c'(1) sent receive True show ?thesis by auto
  next
    case False
    then show ?thesis using serve_send_refused(1) [OF assms(7,8) False] c'(1) sent by auto
  qed
qed

theorem message_reaches_peer_witness:
  "\<exists>c'. dc_Send (transport_controller demo_sctp demo_facade) \<lparr>db_data = [], db_binary = True\<rparr> (demo_opener\<lparr>dc_state := kOpen\<rparr>) =
       (c', Returns True) \<and> dc_state c' = kOpen \<and>
     (\<exists>m t' call. OnMessageReceived m demo_wire = (t', Returns ()) \<and> dt_log t' = [Sink call] \<and>
        sink (\<lambda>_. 0) demo_transport None call = call_found demo_transport 0 (\<lambda>_. OnDataReceived kBinary []))"
proof -
  let ?c = "demo_opener\<lparr>dc_state := kOpen\<rparr>" and ?b = "\<lparr>db_data = [], db_binary = True\<rparr>"
  have "can_send ?c" "dc_id_n ?c = Some 0" by (simp_all add: can_send_def demo_opener_def demo_unassigned_fields)
  moreover have "st_internal demo_facade = Some demo_wire" by (simp add: demo_facade_def)
  moreover have "sendable (int 0) (db_data ?b) demo_wire" using demo_wire_open by (simp add: sendable_def)
  moreover have "sk_Send demo_sctp m opts = kSuccess" for m opts by (simp add: demo_sctp_def)
  ultimately show ?thesis
    using message_reaches_peer [of ?c 0 demo_facade demo_wire demo_wire demo_sctp ?b "\<lambda>_. 0" demo_transport None] demo_wire_open
    by auto
qed



text \<open>
  C20. The receive queue, after any history of a new channel: its byte count is the total size of what
  waits in it and never exceeds 16 MiB, and an open channel with an observer has nothing waiting.
\<close>

theorem receive_queue_bounded:
  assumes "dc_step\<^sup>*\<^sup>* (SctpDataChannel_create config controller label connected_to_transport uid) c"
  shows "pq_byte_count (dc_queued_received_data c) = sum_list (map db_size (pq_packets (dc_queued_received_data c))) \<and>
     pq_byte_count (dc_queued_received_data c) \<le> 16777216 \<and>
     (dc_observer c \<noteq> None \<and> dc_state c = kOpen \<longrightarrow> pq_packets (dc_queued_received_data c) = [])"
  using dc_queue.reach_inv [OF assms queue_ok_create]
  by (simp add: queue_ok_def pq_ok_def kMaxQueuedReceivedDataBytes_def)

theorem receive_queue_bounded_witness:
  "pq_byte_count (dc_queued_received_data (fst (OnDataReceived kText [1, 2, 3] demo_unassigned))) \<le> 16777216"
proof -
  have "dc_step demo_unassigned (fst (OnDataReceived kText [1, 2, 3] demo_unassigned))"
    by (rule dc_stepI [of _ demo_accepting "C_OnDataReceived kText [1, 2, 3]"]) simp
  then have "dc_step\<^sup>*\<^sup>* (SctpDataChannel_create (InternalDataChannelInit_of DataChannelInit_default) True demo_label True 1)
      (fst (OnDataReceived kText [1, 2, 3] demo_unassigned))"
    unfolding demo_unassigned_def by (rule r_into_rtranclp)
  from receive_queue_bounded [OF this] show ?thesis by blast
qed

text \<open>
  C21. The state of a channel only moves forward, from connecting over open and closing to closed, under
  any history of calls, messages and tasks; in particular a closed channel stays closed.
\<close>

theorem channel_state_forward:
  assumes "dc_step\<^sup>*\<^sup>* c c'"
  shows "dc_state c \<le> dc_state c' \<and> (dc_state c = kClosed \<longrightarrow> dc_state c' = kClosed)"
  using dc_from.reach_inv [OF assms, of "dc_state c"] by auto

theorem channel_state_forward_witness:
  "dc_state demo_opener \<le> dc_state (fst (dc_Close (\<lambda>_. 0) demo_accepting demo_opener))"
proof -
  have "dc_step demo_opener (fst (dc_Close (\<lambda>_. 0) demo_accepting demo_opener))"
    by (rule dc_stepI [of _ demo_accepting "C_Close (\<lambda>_. 0)"]) simp
  from channel_state_forward [OF r_into_rtranclp [of dc_step, OF this]] show ?thesis by blast
qed

text \<open>
  C22. The buffered amount adds up.  Over any calls on a new channel, the sum of the amounts announced in
  \<open>OnBufferedAmountChange\<close>, plus the amount the channel still expects, equals the number of bytes handed to
  \<open>Send\<close> and to the posted sends that ran, modulo 2^64 (the expected amount is a \<open>size_t\<close>) and exactly as
  long as fewer than 2^64 bytes were handed over.  If no posted callback was dropped (as in the property on
  the order of messages), the announced sum is what observers were given plus what is still posted to them.
\<close>

theorem buffered_amount_adds_up:
  fixes config label uid calls
  defines "c0 \<equiv> SctpDataChannel_create config True label True uid"
  defines "c \<equiv> dc_run calls c0"
  shows "(amounts (announced c) + unat (dc_expected_buffer_amount c)) mod 2 ^ 64 = handed_in_run calls c0 mod 2 ^ 64 \<and>
     (handed_in_run calls c0 < 2 ^ 64 \<longrightarrow>
        amounts (announced c) + unat (dc_expected_buffer_amount c) = handed_in_run calls c0) \<and>
     (orderly_run calls c0 \<longrightarrow> amounts (announced c) = amounts (given c) + amounts (pending c))"
proof -
  note new = c0_def SctpDataChannel_create_def
  have "account c0 = 0" by (simp add: account_def announced_def new)
  then have sum: "wraps_to (amounts (announced c) + unat (dc_expected_buffer_amount c)) (handed_in_run calls c0)"
    using account_run [of calls c0] by (simp add: c_def account_def)
  have "all_given c0" by (simp add: all_given_def adapter_live_def callback_ledgers new)
  then have "given c @ pending c = announced c" if "orderly_run calls c0"
    using all_given_run [OF _ that] by (simp add: c_def all_given_def)
  then have "amounts (announced c) = amounts (given c) + amounts (pending c)" if "orderly_run calls c0"
    using that amounts_simps(3) by metis
  then show ?thesis
    using sum wraps_to_exact [OF sum] by (simp add: wraps_to_def)
qed

theorem buffered_amount_adds_up_witness:
  "amounts (announced (dc_run demo_outbox demo_negotiated)) +
     unat (dc_expected_buffer_amount (dc_run demo_outbox demo_negotiated)) = 3 \<and>
   amounts (announced (dc_run demo_outbox demo_negotiated)) =
     amounts (given (dc_run demo_outbox demo_negotiated)) + amounts (pending (dc_run demo_outbox demo_negotiated))"
  using buffered_amount_adds_up [of demo_outbox demo_negotiated_config demo_label 1] demo_outbox_run
  by (simp add: demo_negotiated_def)

text \<open>
  C23. A channel gives its stream back at most once, and only after the closing procedure has started,
  after any history.
\<close>

theorem stream_removed_once:
  assumes "dc_step\<^sup>*\<^sup>* (SctpDataChannel_create config controller label connected_to_transport uid) c"
  shows "removals c \<le> 1 \<and> (\<not> dc_started_closing_procedure c \<longrightarrow> removals c = 0)"
proof -
  have "closed_once (SctpDataChannel_create config controller label connected_to_transport uid)"
    by (simp add: closed_once_def removals_def SctpDataChannel_create_def)
  from once.reach_inv [OF assms this] show ?thesis
    by (cases "dc_started_closing_procedure c") (simp_all add: closed_once_def)
qed

theorem stream_removed_once_witness:
  "removals (fst (dc_Close (\<lambda>_. 0) demo_accepting demo_unassigned)) \<le> 1"
proof -
  have "dc_step demo_unassigned (fst (dc_Close (\<lambda>_. 0) demo_accepting demo_unassigned))"
    by (rule dc_stepI [of _ demo_accepting "C_Close (\<lambda>_. 0)"]) simp
  then have "dc_step\<^sup>*\<^sup>* (SctpDataChannel_create (InternalDataChannelInit_of DataChannelInit_default) True demo_label True 1)
      (fst (dc_Close (\<lambda>_. 0) demo_accepting demo_unassigned))"
    unfolding demo_unassigned_def by (rule r_into_rtranclp)
  from stream_removed_once [OF this] show ?thesis by blast
qed

text \<open>
  C24. Assigning stream ids while the transport refuses to send: when the one channel on the list has no
  id yet and the transport is ready but refuses the OPEN message, the channel closes itself inside
  \<open>OnTransportReady\<close>, which erases it from the list under the iterator of \<open>AllocateSctpSids\<close>; the loop
  then uses that iterator.
\<close>

theorem id_assignment_breaks_iterator:
  assumes "ctl_ok s" "dcc_channels s = [r]" "dcc_heap s r = Some c"
    and "dc_state c = kConnecting" "dc_network_safety c" "dc_handshake_state c = kHandshakeShouldSendOpen"
    and "dc_id_n c = None" "dcc_transport s = Some t" "tr_IsReadyToSend tr"
    and "\<And>sid params payload. \<not> RTCError_ok (tr_SendData tr sid params payload)"
  shows "snd (AllocateSctpSids g tr role s) = Faults IteratorInvalidated"
  using assms by (rule AllocateSctpSids_refused)

theorem id_assignment_breaks_iterator_witness:
  "snd (AllocateSctpSids (\<lambda>_. 0) demo_broken_transport SSL_SERVER demo_one_channel) = Faults IteratorInvalidated"
  by (rule id_assignment_breaks_iterator [OF demo_one_channel_ok _ _ _ _ _ _ _ _ demo_accepts(3),
        where c = demo_unassigned])
    (simp_all add: demo_one_channel_def demo_controller_def demo_unassigned_fields demo_broken_transport_def
      demo_transport_def)

section \<open>Messages and buffers\<close>

text \<open>
  C25. The OPEN message round trip: for a label and a protocol shorter than 65536 bytes and at most one
  retransmission limit, the parser recovers from the written message the label, the protocol, the
  priority (low when none was given), the order and the limit.
\<close>

theorem open_message_roundtrip:
  assumes "length label < 65536" "length protocol < 65536" "opt_int32 n" "opt_int32 t" "n = None \<or> t = None"
  shows "\<exists>payload.
     WriteDataChannelOpenMessage g label protocol prio ordered n t = Returns payload \<and> IsOpenMessage payload \<and>
     ParseDataChannelOpenMessage payload [] (config\<lparr>dci_protocol := []\<rparr>) =
       Returns (True, label, config\<lparr>dci_protocol := protocol,
         dci_priority := Some (case prio of Some p \<Rightarrow> p | None \<Rightarrow> PriorityValue pLow),
         dci_ordered := ordered, dci_maxRetransmits := n, dci_maxRetransmitTime := t\<rparr>)"
proof -
  obtain ctype rel where rel: "open_reliability ordered n t = (ctype, rel)" by fastforce
  have one: "(if n = None then t else None) = t" using assms(5) by auto
  show ?thesis
    using assms(1,2)
    by (simp add: WriteDataChannelOpenMessage_bytes [OF rel] ParseDataChannelOpenMessage_bytes open_is_open
        set_open_reliability [OF rel assms(3,4)] one)
qed

theorem open_message_roundtrip_witness:
  "\<exists>payload.
     WriteDataChannelOpenMessage (\<lambda>_. 0) [38, 82] [] None False (Some 3) None = Returns payload \<and> IsOpenMessage payload \<and>
     ParseDataChannelOpenMessage payload [] (DataChannelInit_default\<lparr>dci_protocol := []\<rparr>) =
       Returns (True, [38, 82], DataChannelInit_default\<lparr>dci_protocol := [],
         dci_priority := Some (case None of Some p \<Rightarrow> p | None \<Rightarrow> PriorityValue pLow),
         dci_ordered := False, dci_maxRetransmits := Some 3, dci_maxRetransmitTime := None\<rparr>)"
  by (rule open_message_roundtrip) (simp_all add: opt_int32_def int32_def)

text \<open>
  C26. The parser of OPEN messages is memory safe: on every payload, however short or malformed, it
  returns without reading outside the payload.
\<close>

theorem open_parser_in_bounds:
  "returns (ParseDataChannelOpenMessage payload label config)"
  by (rule ParseDataChannelOpenMessage_returns)

text \<open>
  C27. Copy-on-write buffers have value semantics.  In every memory that constructors, copies, slices,
  moves, assignments and writes can reach, a command that the machine of independent byte lists allows
  returns, keeps reference counts and views right, and changes the values of the buffers as that
  machine does: no write through one buffer is seen through another.
\<close>

theorem buffer_value_semantics:
  assumes "cow_reach s" "value_step cmd (cow_value s) v"
  shows "\<exists>t. cow_exec g cmd s = (t, Returns ()) \<and> cow_wf t \<and> value_step cmd (cow_value s) (cow_value t)"
  using cow_simulation [OF cow_reach_wf [OF assms(1)] assms(2), of g] by (auto simp: simulates_def)

theorem buffer_value_semantics_witness:
  "\<exists>t. cow_exec (\<lambda>_. 0) (From 3 [1, 2] 0) no_memory = (t, Returns ()) \<and> cow_wf t \<and>
     value_step (From 3 [1, 2] 0) (cow_value no_memory) (cow_value t)"
proof -
  have "cow_value no_memory 3 = None" by (simp add: cow_value_def no_memory_def)
  from buffer_value_semantics [OF rtranclp.rtrancl_refl v_from [of "cow_value no_memory", OF this]]
  show ?thesis .
qed

text \<open>
  C28. When buffers stay consistent: a command that is not an empty write to, or the clearing of, a view
  without room keeps every block's capacity positive, and then \<open>IsConsistent\<close> holds of every buffer.
\<close>

theorem buffers_stay_consistent:
  assumes "cow_reach s" "roomy s" "value_step cmd (cow_value s) v" "\<not> no_room s cmd"
  shows "\<exists>t. cow_exec g cmd s = (t, Returns ()) \<and> roomy t \<and>
     (\<forall>h c. cows t h = Some c \<longrightarrow> cow_IsConsistent h t = (t, Returns True))"
proof -
  obtain t where t: "cow_exec g cmd s = (t, Returns ())" "cow_wf t" "roomy t"
    using cow_simulation [OF cow_reach_wf [OF assms(1)] assms(3), of g] assms(2,4) by (auto simp: simulates_def)
  then show ?thesis using roomy_IsConsistent by blast
qed

theorem buffers_stay_consistent_witness:
  "\<exists>t. cow_exec (\<lambda>_. 0) (From 3 [1, 2] 0) no_memory = (t, Returns ()) \<and> roomy t \<and>
     (\<forall>h c. cows t h = Some c \<longrightarrow> cow_IsConsistent h t = (t, Returns True))"
proof -
  have "cow_value no_memory 3 = None" by (simp add: cow_value_def no_memory_def)
  moreover have "roomy no_memory" by (simp add: roomy_def no_memory_def)
  ultimately show ?thesis
    using buffers_stay_consistent [OF rtranclp.rtrancl_refl _ v_from [of "cow_value no_memory"]] by simp
qed

text \<open>
  C29. Variable-length integers: both loops end.  Writing any 64-bit value appends between one and ten
  bytes, and reading them back gives the value and leaves the reader at the bytes that follow; reading
  whatever bytes consumes at most ten.
\<close>

theorem uvarint_roundtrip:
  assumes "buf_ok w" "buf_contents w = []"
  shows "(\<exists>w' r'. WriteUVarint m x w = Returns w' \<and> buf_ok w' \<and>
       length (buf_contents w') \<in> {1..10} \<and>
       ReadUVarint True (ByteBufferReader (buf_contents w' @ rest)) = (r', Returns (Some x)) \<and> reader_rest r' = rest) \<and>
     rd_start (fst (ReadUVarint True r)) \<le> rd_start r + 10"
proof -
  obtain w' r' where w': "WriteUVarint m x w = Returns w'" "buf_ok w'"
    "ReadUVarint True (ByteBufferReader (buf_contents w' @ rest)) = (r', Returns (Some x))"
    "reader_ok r'" "reader_rest r' = rest"
    by (rule uvarint.write_read [OF TrueI assms])
  obtain w'' where "WriteUVarint m x w = Returns w''" "buf_ok w''" "buf_contents w'' = buf_contents w @ uvarint_bytes x"
    by (rule buf.appends_run [OF appends_uvarint assms(1)])
  then have "length (buf_contents w') \<in> {1..10}"
    using w'(1) assms(2) length_uvarint [of x] by (simp add: Suc_le_eq)
  with w' show ?thesis using ReadUVarint_bound [of True r] by blast
qed

theorem uvarint_roundtrip_witness:
  "\<exists>w' r'. WriteUVarint (\<lambda>_. 0) 300 BufferT_empty = Returns w' \<and>
     ReadUVarint True (ByteBufferReader (buf_contents w' @ [9])) = (r', Returns (Some 300)) \<and> reader_rest r' = [9]"
proof -
  have "buf_contents BufferT_empty = []" by (simp add: empty_ok)
  with uvarint_roundtrip [of BufferT_empty "\<lambda>_. 0" 300 "[9]"] empty_ok(1) show ?thesis by blast
qed

section \<open>The local network\<close>

text \<open>
  C30. Broadcast discovery can never be enabled: from a manager with no broadcast ids, no history of
  calls (enabling included), packets, discoveries and tasks makes it enabled for any id.
\<close>

theorem discovery_never_enabled:
  assumes "lan_reach m0 m" "mIds m0 = []"
  shows "\<not> IsBroadcastDiscoveryEnabled current nid m"
  using lan_ids.reach_inv [OF assms(1), of "{}"] assms(2) by (simp add: IsBroadcastDiscoveryEnabled_iff)

theorem discovery_never_enabled_witness:
  "\<not> IsBroadcastDiscoveryEnabled False 33 (fst (EnableBroadcastDiscovery True 33 demo_lan))"
  by (rule discovery_never_enabled [OF r_into_rtranclp [of lan_step, OF lan_enable]]) (simp add: demo_lan_def)

text \<open>
  C31. One round of the broadcast task.  \<open>SendToHelper\<close> has no \<open>return\<close> (\<open>off_end\<close> is what its end amounts
  to, for every outcome), and the caller asks the indeterminate \<open>error_code\<close> for its \<open>message()\<close>.  If that
  comes back, or there is nothing to send, the round is complete: for every id, in order, the request goes to
  every discovered address, in order (to the address itself unless the socket is IPv6 and the address IPv4,
  and always to its IPv6 form), discovery is running afterwards, and the task has posted itself again.
  Otherwise, which is the reading of the C++ standard, the round ends after the datagrams of the first
  address of the first id, and the task is not posted again.
\<close>

theorem broadcast_round:
  fixes m :: LanThreadManager and pad :: bytes
  defines "sent \<equiv> \<lambda>nid ip.
       let payload = take 20 (request_image pad (DiscoveryRequestPacket_new nid));
           addr = SocketAddress_new ip (uint (mEphemeralPort m))
       in (if is_v6 (mBindAddress m) \<and> is_v4 addr then [] else [(payload, addr)]) @
          [(payload, SocketAddress_new (AsIPv6Address (sa_ip addr)) (uint (sa_port addr)))]"
  assumes "mSocket m" "length pad = 4"
  shows "case andThen off_end error_code_message of
      Returns _ \<Rightarrow> \<exists>m'. BroadcastTask off_end pad m = (m', Returns ()) \<and>
        lan_tasks m' = lan_tasks m @ [LanBroadcastTask] \<and> mBasicNetworkMgr m' \<and> mIds m' = mIds m \<and>
        lan_wire m' = lan_wire m @ concat (map (\<lambda>nid. concat (map (sent nid) (mDiscoveredAddresses m))) (mIds m))
    | Faults e \<Rightarrow> \<exists>m'. mBasicNetworkMgr m' \<and> mIds m' = mIds m \<and>
        (case (mIds m, mDiscoveredAddresses m) of
           (nid # _, ip # _) \<Rightarrow> BroadcastTask off_end pad m = (m', Faults e) \<and>
             lan_tasks m' = lan_tasks m \<and> lan_wire m' = lan_wire m @ sent nid ip
         | _ \<Rightarrow> BroadcastTask off_end pad m = (m', Returns ()) \<and>
             lan_tasks m' = lan_tasks m @ [LanBroadcastTask] \<and> lan_wire m' = lan_wire m)"
proof -
  have sent: "request_datagrams pad nid m = sent nid" for nid
    by (simp add: sent_def fun_eq_iff request_datagrams_def helper_datagrams_def Let_def)
  show ?thesis
  proof (cases "andThen off_end error_code_message")
    case (Returns u)
    then have "after_send off_end = Returns () \<or> mIds m = [] \<or> mDiscoveredAddresses m = []"
      by (simp add: after_send_def)
    then obtain m' where "BroadcastTask off_end pad m = (m', Returns ())" "mBasicNetworkMgr m'" "mIds m' = mIds m"
      "lan_tasks m' = lan_tasks m @ [LanBroadcastTask]"
      "lan_wire m' = lan_wire m @
         concat (map (\<lambda>nid. concat (map (request_datagrams pad nid m) (mDiscoveredAddresses m))) (mIds m))"
      using BroadcastTask_run [OF assms(2,3), of off_end] by blast
    with Returns show ?thesis
      by (simp add: sent)
  next
    case (Faults e)
    then have stop: "after_send off_end = Faults e"
      by (simp add: after_send_def)
    show ?thesis
    proof (cases "mIds m = [] \<or> mDiscoveredAddresses m = []")
      case True
      obtain m' where "BroadcastTask off_end pad m = (m', Returns ())" "mBasicNetworkMgr m'" "mIds m' = mIds m"
        "lan_tasks m' = lan_tasks m @ [LanBroadcastTask]"
        "lan_wire m' = lan_wire m @
           concat (map (\<lambda>nid. concat (map (request_datagrams pad nid m) (mDiscoveredAddresses m))) (mIds m))"
        using BroadcastTask_run [OF assms(2,3), of off_end] True by blast
      with True Faults show ?thesis
        by (auto split: list.split)
    next
      case False
      then obtain nid ids ip ips where "mIds m = nid # ids" "mDiscoveredAddresses m = ip # ips"
        by (meson neq_Nil_conv)
      with BroadcastTask_stops [OF assms(2,3) stop this] Faults sent show ?thesis
        by simp
    qed
  qed
qed

theorem broadcast_round_witness:
  "(\<exists>m'. BroadcastTask (Returns \<lparr>ec_value = 0, ec_category = True\<rparr>) [0, 0, 0, 0] (demo_lan\<lparr>mIds := [33]\<rparr>) =
       (m', Returns ()) \<and> lan_tasks m' = [LanBroadcastTask] \<and> length (lan_wire m') = 1) \<and>
   (\<exists>m'. BroadcastTask (Faults MissingReturn) [0, 0, 0, 0] (demo_lan\<lparr>mIds := [33, 44]\<rparr>) =
       (m', Faults MissingReturn) \<and> lan_tasks m' = [] \<and> length (lan_wire m') = 1)"
  using broadcast_round [of "demo_lan\<lparr>mIds := [33]\<rparr>" "[0, 0, 0, 0]" "Returns \<lparr>ec_value = 0, ec_category = True\<rparr>"]
    broadcast_round [of "demo_lan\<lparr>mIds := [33, 44]\<rparr>" "[0, 0, 0, 0]" "Faults MissingReturn"]
  by (auto simp: demo_defs is_v6_def is_v4_def SocketAddress_new_def SetIP_def SetPort_def error_code_message_def)

text \<open>
  C32. A signalling message of at most 1140 bytes to a known peer.  On the LAN thread its bytes (not those of
  the packet built around it) go on the wire for that peer; then \<open>SendToHelper\<close> flows off its end, and
  exactly when that amounts to some result the completion callback, if any, is called once, with it.  From
  another thread nothing is sent: the call is posted with a lambda that refers to the parameters and a local of
  the call that posted it; running it after that call has returned uses dead memory and sends nothing.
\<close>

theorem signal_to_known_peer:
  assumes "mPeers m = Some t" "peers_ok t" "peer_address t dst = Some addr"
    and "mSocket m" "length junk = 1140" "length msg \<le> 1140"
  shows "SendSignalingMessageTo off_end junk clock True src dst msg on_complete m =
     (let m' = m\<lparr>lan_wire := lan_wire m @
          (if is_v6 (mBindAddress m) \<and> is_v4 addr then [] else [(msg, addr)]) @
          [(msg, SocketAddress_new (AsIPv6Address (sa_ip addr)) (uint (sa_port addr)))]\<rparr>
      in case off_end of
           Returns r \<Rightarrow> (m'\<lparr>lan_completions := lan_completions m @ (if on_complete then [r] else [])\<rparr>, Returns ())
         | Faults e \<Rightarrow> (m', Faults e)) \<and>
    SendSignalingMessageTo off_end junk clock False src dst msg on_complete m =
      (m\<lparr>lan_tasks := lan_tasks m @ [LanSignal src dst msg on_complete]\<rparr>, Returns ()) \<and>
    run_lan_task off_end pad junk clock False (LanSignal src dst msg on_complete) m = (m, Faults DanglingPointer)"
  using SendSignalingMessageTo_known [OF assms, of off_end clock src on_complete]
  by (simp add: helper_datagrams_def Let_def SendSignalingMessageTo_def lan_post_def run_lan_task_def
      split: outcome.split)

theorem signal_to_known_peer_witness:
  "lan_completions (fst (SendSignalingMessageTo (Returns \<lparr>ec_value = 0, ec_category = True\<rparr>) (replicate 1140 0)
       (\<lambda>n. 0) True 33 22 Ping True demo_lan)) = [\<lparr>ec_value = 0, ec_category = True\<rparr>] \<and>
   snd (SendSignalingMessageTo (Faults MissingReturn) (replicate 1140 0) (\<lambda>n. 0) True 33 22 Ping True demo_lan) =
     Faults MissingReturn"
proof -
  have "mPeers demo_lan = Some demo_peers" "mSocket demo_lan" by (simp_all add: demo_lan_def)
  then show ?thesis
    using signal_to_known_peer [of demo_lan demo_peers 22 demo_address "replicate 1140 0" Ping
        "Returns \<lparr>ec_value = 0, ec_category = True\<rparr>" "\<lambda>n. 0" 33 True]
      signal_to_known_peer [of demo_lan demo_peers 22 demo_address "replicate 1140 0" Ping
        "Faults MissingReturn" "\<lambda>n. 0" 33 True]
      demo_peers_ok by (simp add: Ping_def demo_lan_def Let_def)
qed





section \<open>Peers, caches, containers and the run loop\<close>

text \<open>
  C35. The peer table starting empty: after any sequence of \<open>AddOrUpdate\<close> calls, at whatever times, the
  table is well formed, \<open>Find\<close> gives for every peer the address of its last update, and a peer heard of
  once is found no matter how much later: records do not expire.
\<close>

theorem peer_found_forever:
  assumes "lan_peers.learns updates PeerRecordTable_new = Returns t"
  shows "peers_ok t \<and>
     Find clock nid out t =
       Returns (case map_of (rev (map snd updates)) nid of Some a \<Rightarrow> (t, a, True) | None \<Rightarrow> (t, out, False))"
proof -
  have "peers_ok t" "peer_address t = (\<lambda>i. map_of (rev (map snd updates)) i)"
    using lan_peers.learns_ok [OF peers_ok_new, of updates] assms
    by (auto simp: peer_address_def PeerRecordTable_new_def omap_get_def fun_eq_iff split: option.split)
  then show ?thesis
    by (simp add: Find_value)
qed

theorem peer_found_forever_witness:
  "\<exists>t. lan_peers.learns [(\<lambda>n. 0, 22, demo_address)] PeerRecordTable_new = Returns t \<and>
     Find (\<lambda>n. 3600 * nanos_per_second) 22 SocketAddress_Clear t = Returns (t, demo_address, True)"
proof -
  obtain t where t: "lan_peers.learns [(\<lambda>n. 0, 22, demo_address)] PeerRecordTable_new = Returns t"
    using lan_peers.learns_ok [OF peers_ok_new] by blast
  then show ?thesis
    using peer_found_forever [OF t, of "\<lambda>n. 3600 * nanos_per_second" 22 SocketAddress_Clear] by simp
qed

text \<open>
  C36. The DNS cache: what \<open>Add\<close> stored is what \<open>TryGet\<close> finds (\<open>dns_lookup\<close> is its answer on an empty output)
  for five minutes and not after, whatever other lookups happened before; no other entry is affected
  by the \<open>Add\<close>.
\<close>

theorem dns_cache_five_minutes:
  assumes "dns_ok c" "\<forall>(t, k') \<in> set lookups. t \<le> later"
  shows "dns_lookup later (host, family) (dns_cache.touches lookups (Add added host family ips c)) =
       (if later \<le> added + 5 * nanos_per_minute then Some ips else None) \<and>
     (k \<noteq> (host, family) \<longrightarrow> dns_lookup later k (Add added host family ips c) = dns_lookup later k c)"
  using dns_cache.store_visible_until [OF assms, of "(host, family)" ips "added + 5 * nanos_per_minute"]
    dns_cache.lookup_store [OF assms(1), of later k "(host, family)"]
  by (simp add: Add_def not_less)

theorem dns_cache_five_minutes_witness:
  "dns_lookup 300000000000 (''host'', 2) (Add 0 ''host'' 2 [AF_INET 1] DnsCache_new) = Some [AF_INET 1] \<and>
   dns_lookup 300000000001 (''host'', 2) (Add 0 ''host'' 2 [AF_INET 1] DnsCache_new) = None"
  using dns_cache_five_minutes [OF dns_ok_new, of "[]" 300000000000 "''host''" 2 0 "[AF_INET 1]"]
    dns_cache_five_minutes [OF dns_ok_new, of "[]" 300000000001 "''host''" 2 0 "[AF_INET 1]"]
  by (simp add: unit_defs)

text \<open>
  C37. \<open>webrtc::flat_map\<close> implements a finite map: on a sorted vector \<open>insert_or_assign\<close> is the map
  update, \<open>erase\<close> by key the removal, \<open>find\<close> the lookup, and all keep the vector sorted.  Building one from
  an unsorted range keeps the first pair of each key.
\<close>

theorem flat_map_refines:
  assumes "flat_ok body"
  shows "fst (insert_or_assign k v body) = omap_put k v body \<and> flat_ok (fst (insert_or_assign k v body)) \<and>
     fst (flat_erase_key k body) = omap_del k body \<and> flat_ok (fst (flat_erase_key k body)) \<and>
     (if flat_find k body = length body then None else Some (snd (body ! flat_find k body))) = map_of body k \<and>
     flat_ok (sort_and_unique items) \<and> map_of (sort_and_unique items) k = map_of items k"
  using insert_or_assign_refines [OF assms] flat_erase_key_refines [OF assms]
    flat_find_lookup [OF assms, of k] sort_and_unique_get [of items k] sort_and_unique_ok assms
  by (simp add: omap_ok_put omap_ok_del omap_get_def)

theorem flat_map_refines_witness:
  "fst (insert_or_assign (3::nat) ''c'' [(1, ''a''), (5, ''b'')]) = [(1, ''a''), (3, ''c''), (5, ''b'')] \<and>
   map_of (sort_and_unique [(5, ''x''), (1, ''a''), (5, ''b'')]) (3::nat) = None"
proof -
  have "flat_ok [(1::nat, ''a''), (5, ''b'')]" by (simp add: omap_ok_def)
  from flat_map_refines [OF this, of 3 "''c''" "[(5, ''x''), (1, ''a''), (5, ''b'')]"] show ?thesis by simp
qed

text \<open>
  C38. \<open>TruncateIP\<close> keeps exactly the first \<open>len\<close> bits, for IPv4 by one shift and for IPv6 word by word,
  and \<open>CountIPMaskBits\<close> recovers the length of a contiguous IPv4 mask.
\<close>

theorem truncate_ip_masks:
  assumes "n \<le> 32" "m \<le> 128"
  shows "TruncateIP (AF_INET a) (int n) = AF_INET (a AND NOT (mask (32 - n))) \<and>
     TruncateIP (AF_INET6 b) (int m) = AF_INET6 (b AND NOT (mask (128 - m))) \<and>
     CountIPMaskBits (TruncateIP (AF_INET (NOT 0)) (int n)) = int n"
  using TruncateIP_v4 [of "int n"] TruncateIP_v6 [of "int m"] CountIPMaskBits_netmask [OF assms(1)] assms
  by simp

theorem truncate_ip_masks_witness:
  "TruncateIP (AF_INET 0xC0A80105) 24 = AF_INET 0xC0A80100 \<and>
   CountIPMaskBits (TruncateIP (AF_INET (NOT 0)) 24) = 24"
  using truncate_ip_masks [of 24 64 "0xC0A80105"] by (simp add: mask_eq_exp_minus_1)

text \<open>
  C39. The text that \<open>IPAddress::ToString\<close> prints, dotted or in groups with the longest run of zeros left out
  (\<open>inet_ntop\<close> of \<open>win32.cc\<close>), is read back by \<open>IPFromString\<close> as the same address, and what
  \<open>SocketAddress::ToString\<close> prints, with the brackets around an IPv6 address, is read back by
  \<open>SocketAddress::FromString\<close> as the same address and port, whatever the object held before.  The object that
  was read keeps the text as its host name, so it compares equal to the one that was printed exactly when
  the address is not a wildcard address, for which the comparison takes the host name into account.
\<close>

theorem address_text_roundtrip:
  assumes "ip \<noteq> AF_UNSPEC"
  shows "\<exists>host t b'.
     IPAddress_ToString ip = Returns host \<and> IPFromString host = (True, ip) \<and>
     SocketAddress_ToString (SocketAddress_new ip (uint p)) = Returns t \<and>
     SocketAddress_FromString t b = Returns (True, b') \<and>
     sa_ip b' = ip \<and> sa_port b' = p \<and> sa_literal b' \<and> sa_hostname b' = host \<and>
     SocketAddress_ToString b' = Returns t \<and>
     (SocketAddress_eq (SocketAddress_new ip (uint p)) b' \<longleftrightarrow> \<not> IPIsAny ip)"
proof -
  let ?a = "SocketAddress_new ip (uint p)"
  obtain host where host: "IPAddress_ToString ip = Returns host" "addr_text ip host"
    by (rule IPAddress_ToString_text [OF assms])
  let ?b = "b\<lparr>sa_hostname := host, sa_literal := True, sa_ip := ip, sa_port := p, sa_scope_id := 0\<rparr>"
  let ?t = "uri_host ip host @ '':'' @ number_text 10 (unat p)"
  have a: "sa_ip ?a = ip" "sa_port ?a = p" "sa_hostname ?a = []"
    by (simp_all add: SocketAddress_new_def SetPort_def SetIP_def)
  have "host \<noteq> []" using IPFromString_text [OF host(2)] IPFromString_empty by (metis fst_conv)
  then have eq: "SocketAddress_eq ?a ?b \<longleftrightarrow> \<not> IPIsAny ip"
    using assms a unfolding SocketAddress_eq_def EqualIPs_def EqualPorts_def
    by (cases ip) (simp_all add: IPAddress_eq_def IPIsUnspec_def)
  have "SocketAddress_ToString ?a = Returns ?t" "SocketAddress_ToString ?b = Returns ?t"
    using ToString_uri [of ?a host] ToString_uri [of ?b host] host by (simp_all add: a)
  then show ?thesis using host(1) IPFromString_text [OF host(2)] FromString_uri [OF host(2), of p b] eq by auto
qed

theorem address_text_roundtrip_witness:
  "IPAddress_ToString (AF_INET6 1) = Returns ''::1'' \<and> IPFromString ''::1'' = (True, AF_INET6 1) \<and>
   SocketAddress_ToString (SocketAddress_new (AF_INET6 1) (uint (80 :: u16))) = Returns ''[::1]:80'' \<and>
   (\<exists>b'. SocketAddress_FromString ''[::1]:80'' SocketAddress_Clear = Returns (True, b') \<and> sa_hostname b' = ''::1'' \<and>
      SocketAddress_eq (SocketAddress_new (AF_INET6 1) (uint (80 :: u16))) b')"
proof -
  have "IPAddress_ToString (AF_INET6 1) = Returns ''::1''" "\<not> IPIsAny (AF_INET6 1)"
    "SocketAddress_ToString (SocketAddress_new (AF_INET6 1) (uint (80 :: u16))) = Returns ''[::1]:80''"
    by code_simp+
  then show ?thesis using address_text_roundtrip [of "AF_INET6 1" 80 SocketAddress_Clear] by auto
qed

text \<open>
  C40. A run loop cannot be controlled: whatever interleaving of polls, wake-ups and requests, the
  shared state stays what it was, because each request throws before it writes.  So a worker whose state is
  \<open>Running\<close> is told to go on at every poll, one whose state is \<open>Running\<close> or \<open>Suspended\<close> never finishes, one
  that waits suspended stays blocked, and only one whose state was \<open>Stopped\<close> from the start finishes, at its
  next poll.
\<close>

theorem loop_ignores_requests:
  assumes "loop_reach s0 s"
  shows "mState (cond s) = mState (cond s0) \<and>
     (mState (cond s0) = Running \<and> worker s0 = Ready \<longrightarrow> worker s = Ready) \<and>
     (mState (cond s0) \<noteq> Stopped \<and> worker s0 \<noteq> Finished \<longrightarrow> worker s \<noteq> Finished) \<and>
     (mState (cond s0) = Suspended \<and> worker s0 = Blocked \<longrightarrow> worker s = Blocked) \<and>
     (mState (cond s0) = Stopped \<and> \<not> locked (cond s0) \<and> worker s = Ready \<longrightarrow> loop_step s (s\<lparr>worker := Finished\<rparr>))"
  using shared_state.reach_obs [OF assms] running.reach_inv [OF assms] unstopped.reach_inv [OF assms]
    suspended.reach_inv [OF assms] poll_stopped [of s] by simp

theorem loop_ignores_requests_witness:
  "loop_reach \<lparr>cond = \<lparr>mState = Suspended, locked = False\<rparr>, worker = Blocked\<rparr>
     (\<lparr>cond = after_request (RequestRun \<lparr>mState = Suspended, locked = False\<rparr>) \<lparr>mState = Suspended, locked = False\<rparr>,
       worker = Blocked\<rparr>) \<and>
   mState (after_request (RequestRun \<lparr>mState = Suspended, locked = False\<rparr>) \<lparr>mState = Suspended, locked = False\<rparr>) =
     Suspended"
proof -
  have r: "loop_reach \<lparr>cond = \<lparr>mState = Suspended, locked = False\<rparr>, worker = Blocked\<rparr>
     (\<lparr>cond = after_request (RequestRun \<lparr>mState = Suspended, locked = False\<rparr>) \<lparr>mState = Suspended, locked = False\<rparr>,
       worker = Blocked\<rparr>)"
    using r_into_rtranclp [of loop_step, OF run] by simp
  show ?thesis
    using r loop_ignores_requests [OF r] by simp
qed

end
